(* ===== verification/Prelude.thy ===== *)
theory Prelude
  imports Main "HOL-Library.Word" "HOL-Library.Multiset"
begin

text \<open>
  Shared vocabulary of the development: machine integers and byte strings, the outcome type
  of fallible Rust code (a value, an \<open>Err\<close>, or a panic), its sequencing combinators, the
  big-endian conversions, and the facts on lists the components share.  The collection
  \<open>res_simps\<close> gathers the rules that take a successful outcome apart.
\<close>

named_theorems res_simps "inversion of successful outcomes"

subsection \<open>Machine integers and byte strings\<close>

type_synonym byte = "8 word"
type_synonym bytes = "byte list"
type_synonym u32 = "32 word"
type_synonym u64 = "64 word"

text \<open>Rust's \<open>saturating_sub\<close> on \<open>u64\<close>.\<close>

definition saturating_sub :: "u64 \<Rightarrow> u64 \<Rightarrow> u64" where
  "saturating_sub a b = (if b \<le> a then a - b else 0)"

lemma unat_saturating_sub: "unat (saturating_sub a b) = unat a - unat b"
  by (auto simp: saturating_sub_def unat_sub word_le_nat_alt)

text \<open>Big-endian value of a byte string, and the \<open>n\<close>-byte big-endian encoding of a number.\<close>

definition be_nat :: "bytes \<Rightarrow> nat" where
  "be_nat bs = foldl (\<lambda>acc b. acc * 256 + unat b) 0 bs"

primrec be_bytes :: "nat \<Rightarrow> nat \<Rightarrow> bytes" where
  "be_bytes 0 x = []"
| "be_bytes (Suc n) x = be_bytes n (x div 256) @ [of_nat (x mod 256)]"

lemma unat_byte_less [simp]: "unat (b :: byte) < 256"
  using unsigned_less [of b] by simp

lemma unat_u32_less [simp]: "unat (i :: u32) < 4294967296"
  using unsigned_less [of i] by simp

lemma be_nat_Nil [simp]: "be_nat [] = 0"
  by (simp add: be_nat_def)

lemma be_nat_snoc [simp]: "be_nat (bs @ [b]) = be_nat bs * 256 + unat b"
  by (simp add: be_nat_def)

lemma length_be_bytes [simp]: "length (be_bytes n x) = n"
  by (induction n arbitrary: x) auto

lemma be_nat_be_bytes: "be_nat (be_bytes n x) = x mod 256 ^ n"
proof (induction n arbitrary: x)
  case 0
  then show ?case by simp
next
  case (Suc n)
  have "x mod (256 * 256 ^ n) = 256 * (x div 256 mod 256 ^ n) + x mod 256"
    by (rule mod_mult2_eq)
  moreover have "unat (of_nat (x mod 256) :: byte) = x mod 256"
    by (simp add: unat_of_nat)
  ultimately show ?case by (simp add: Suc.IH)
qed

lemma be_nat_append: "be_nat (xs @ ys) = be_nat xs * 256 ^ length ys + be_nat ys"
proof (induction ys rule: rev_induct)
  case Nil
  then show ?case by simp
next
  case (snoc y ys)
  have "be_nat (xs @ ys @ [y]) = be_nat (xs @ ys) * 256 + unat y"
    using be_nat_snoc [of "xs @ ys" y] by simp
  with snoc show ?case by (simp add: algebra_simps)
qed

lemma be_nat_replicate_zero [simp]: "be_nat (replicate n 0) = 0"
proof (induction n)
  case 0
  then show ?case by simp
next
  case (Suc n)
  have "replicate (Suc n) (0::byte) = replicate n 0 @ [0]"
    by (simp add: replicate_append_same)
  then show ?case using Suc be_nat_snoc [of "replicate n 0" 0] by simp
qed

lemma be_nat_bound: "be_nat bs < 256 ^ length bs"
proof (induction bs rule: rev_induct)
  case Nil
  then show ?case by simp
next
  case (snoc b bs)
  have "unat b < 256" by simp
  moreover have "be_nat bs * 256 + 256 \<le> 256 ^ length bs * 256"
    using mult_le_mono1 [of "Suc (be_nat bs)" "256 ^ length bs" 256] snoc by simp
  ultimately have "be_nat bs * 256 + unat b < 256 ^ length bs * 256"
    by linarith
  then show ?case by (simp add: mult.commute)
qed

lemma be_bytes_be_nat: "be_bytes (length bs) (be_nat bs) = bs"
proof (induction bs rule: rev_induct)
  case Nil
  then show ?case by simp
next
  case (snoc b bs)
  show ?case using snoc by simp
qed

lemma be_bytes_add: "be_bytes (m + n) x = be_bytes m (x div 256 ^ n) @ be_bytes n x"
  by (induction n arbitrary: x) (simp_all add: div_mult2_eq)

lemma be_nat_inj: "length xs = length ys \<Longrightarrow> be_nat xs = be_nat ys \<Longrightarrow> xs = ys"
  by (metis be_bytes_be_nat)

text \<open>\<open>u32::to_be_bytes\<close>.\<close>

definition u32_be :: "u32 \<Rightarrow> bytes" where
  "u32_be i = be_bytes 4 (unat i)"

lemma length_u32_be [simp]: "length (u32_be i) = 4"
  by (simp add: u32_be_def)

lemma be_nat_u32_be [simp]: "be_nat (u32_be i) = unat i"
proof -
  have "unat i < 256 ^ 4" by simp
  then show ?thesis by (simp add: u32_be_def be_nat_be_bytes)
qed

text \<open>A \<open>&'static str\<close> or \<open>String\<close> as its UTF-8 bytes.\<close>

definition str_bytes :: "string \<Rightarrow> bytes" where
  "str_bytes s = map (\<lambda>c. of_nat (of_char c)) s"

subsection \<open>Outcomes\<close>

text \<open>
  The crate's \<open>Error\<close> enum (\<open>lib.rs\<close>).  An assertion keeps its message; the values that
  \<open>format!\<close> interpolates into a message are left out of it.
\<close>

datatype error =
    Assertion string
  | InvalidPoint
  | BothPointsNull
  | ScalarInversion
  | RecordNotFound u32

text \<open>The outcome of a call: it returns a value, returns an \<open>Err\<close>, or panics.\<close>

datatype 'a res = Ok (ok_val: 'a) | Err error | Panic

fun bindR :: "'a res \<Rightarrow> ('a \<Rightarrow> 'b res) \<Rightarrow> 'b res" where
  "bindR (Ok x) f = f x"
| "bindR (Err e) f = Err e"
| "bindR Panic f = Panic"

definition mapR_val :: "('a \<Rightarrow> 'b) \<Rightarrow> 'a res \<Rightarrow> 'b res" where
  "mapR_val f m = bindR m (\<lambda>x. Ok (f x))"

text \<open>\<open>iter().map(f).collect::<Result<Vec<_>, _>>()\<close>: in order, stopping at the first failure.\<close>

fun mapR :: "('a \<Rightarrow> 'b res) \<Rightarrow> 'a list \<Rightarrow> 'b list res" where
  "mapR f [] = Ok []"
| "mapR f (x # xs) = bindR (f x) (\<lambda>y. bindR (mapR f xs) (\<lambda>ys. Ok (y # ys)))"

text \<open>A \<open>for\<close> loop over a list with a carried value and \<open>?\<close> in its body.\<close>

fun foldR :: "('b \<Rightarrow> 'a \<Rightarrow> 'b res) \<Rightarrow> 'b \<Rightarrow> 'a list \<Rightarrow> 'b res" where
  "foldR f acc [] = Ok acc"
| "foldR f acc (x # xs) = bindR (f acc x) (\<lambda>acc'. foldR f acc' xs)"

text \<open>\<open>Option::ok_or\<close>.\<close>

definition ok_or :: "'a option \<Rightarrow> error \<Rightarrow> 'a res" where
  "ok_or m e = (case m of Some x \<Rightarrow> Ok x | None \<Rightarrow> Err e)"

text \<open>\<open>Result::ok\<close>; a panic is not caught by it.\<close>

fun res_is_ok :: "'a res \<Rightarrow> bool" where
  "res_is_ok (Ok _) = True"
| "res_is_ok _ = False"

text \<open>\<open>iter().filter_map(|x| f(x).ok())\<close>: failures are dropped, a panic is not.\<close>

fun filter_mapR :: "('a \<Rightarrow> 'b res) \<Rightarrow> 'a list \<Rightarrow> 'b list res" where
  "filter_mapR f [] = Ok []"
| "filter_mapR f (x # xs) =
     (case f x of
        Panic \<Rightarrow> Panic
      | Err _ \<Rightarrow> filter_mapR f xs
      | Ok y \<Rightarrow> bindR (filter_mapR f xs) (\<lambda>ys. Ok (y # ys)))"

lemma bindR_eq_Ok [res_simps]: "bindR m f = Ok y \<longleftrightarrow> (\<exists>x. m = Ok x \<and> f x = Ok y)"
  by (cases m) auto

lemma bindR_assoc [simp]: "bindR (bindR m f) g = bindR m (\<lambda>x. bindR (f x) g)"
  by (cases m) auto

lemma bindR_Ok_right [simp]: "bindR m Ok = m"
  by (cases m) auto

lemma bindR_cong [fundef_cong]:
  "m = m' \<Longrightarrow> (\<And>x. m' = Ok x \<Longrightarrow> f x = f' x) \<Longrightarrow> bindR m f = bindR m' f'"
  by (cases m') auto

lemma mapR_val_Ok [simp]: "mapR_val f (Ok x) = Ok (f x)"
  by (simp add: mapR_val_def)

lemma mapR_val_eq_Ok [res_simps]: "mapR_val f m = Ok y \<longleftrightarrow> (\<exists>x. m = Ok x \<and> y = f x)"
  by (cases m) (auto simp: mapR_val_def)

lemma ok_or_eq_Ok [res_simps]: "ok_or m e = Ok x \<longleftrightarrow> m = Some x"
  by (cases m) (auto simp: ok_or_def)

lemma mapR_eq_Ok: "mapR f xs = Ok ys \<longleftrightarrow> list_all2 (\<lambda>x y. f x = Ok y) xs ys"
proof (induction xs arbitrary: ys)
  case Nil
  then show ?case by auto
next
  case (Cons x xs)
  then show ?case by (cases ys) (auto simp: res_simps)
qed

lemma mapR_length: "mapR f xs = Ok ys \<Longrightarrow> length ys = length xs"
  by (auto simp: mapR_eq_Ok dest: list_all2_lengthD)

lemma mapR_Ok_map: "(\<And>x. x \<in> set xs \<Longrightarrow> f x = Ok (g x)) \<Longrightarrow> mapR f xs = Ok (map g xs)"
  by (induction xs) auto

lemma mapR_Ok_iff_map:
  "mapR f xs = Ok ys \<Longrightarrow> ys = map (\<lambda>x. ok_val (f x)) xs \<and> (\<forall>x \<in> set xs. f x = Ok (ok_val (f x)))"
  by (induction xs arbitrary: ys) (auto simp: res_simps)

lemma filter_mapR_eq_mapR: "(\<And>x. x \<in> set xs \<Longrightarrow> res_is_ok (f x)) \<Longrightarrow> filter_mapR f xs = mapR f xs"
proof (induction xs)
  case Nil
  then show ?case by simp
next
  case (Cons x xs)
  have "filter_mapR f xs = mapR f xs" using Cons by simp
  moreover have "res_is_ok (f x)" using Cons.prems by simp
  ultimately show ?case by (cases "f x") auto
qed

subsection \<open>Lists\<close>

text \<open>\<open>iter().find(p)\<close> is \<open>List.find\<close>; \<open>sort_by_key\<close> is the stable \<open>sort_key\<close>.\<close>

lemma find_Some_conv: "find P xs = Some x \<Longrightarrow> x \<in> set xs \<and> P x"
  by (auto simp: find_Some_iff)

lemma find_unique:
  assumes "distinct (map f xs)" and "x \<in> set xs"
  shows "find (\<lambda>y. f y = f x) xs = Some x"
  using assms by (induction xs) (auto simp: rev_image_eqI)

lemma find_cong_map: "find P (map f xs) = map_option f (find (P \<circ> f) xs)"
  by (induction xs) auto

lemma sum_list_sort_key [simp]:
  "sum_list (map f (sort_key k xs)) = sum_list (map (f :: _ \<Rightarrow> 'b::comm_monoid_add) xs)"
  by (metis mset_map mset_sort sum_mset_sum_list)

lemma foldl_plus_sum_list:
  "foldl (\<lambda>acc x. acc + f x) a xs = (a::'b::monoid_add) + sum_list (map f xs)"
  by (induction xs arbitrary: a) (auto simp: add.assoc)

lemma fold_plus_sum_list:
  "fold (\<lambda>x acc. acc + f x) xs a = (a::'b::monoid_add) + sum_list (map f xs)"
  by (induction xs arbitrary: a) (auto simp: add.assoc)

lemma sum_list_distinct_set:
  "distinct xs \<Longrightarrow> sum_list (map f xs) = (\<Sum>x \<in> set xs. f x)"
  by (rule sum_list_distinct_conv_sum_set)

text \<open>Stable sorts of two related lists by equal keys stay related.\<close>

lemma list_all2_insort_key:
  "list_all2 (\<lambda>x y. Q x y \<and> g y = f x) xs ys \<Longrightarrow> Q a b \<Longrightarrow> g b = f a \<Longrightarrow>
   list_all2 (\<lambda>x y. Q x y \<and> g y = f x) (insort_key f a xs) (insort_key g b ys)"
  by (induction xs ys rule: list_all2_induct) auto

lemma list_all2_sort_key:
  "list_all2 (\<lambda>x y. Q x y \<and> g y = f x) xs ys \<Longrightarrow>
   list_all2 (\<lambda>x y. Q x y \<and> g y = f x) (sort_key f xs) (sort_key g ys)"
  by (induction xs ys rule: list_all2_induct) (auto intro: list_all2_insort_key)

lemma sum_list_remove_key:
  assumes "distinct (map f xs)" and "a \<in> set xs"
  shows "(\<Sum>x \<leftarrow> xs. h x) = h a + (\<Sum>x \<leftarrow> filter (\<lambda>x. f x \<noteq> f a) xs. h x :: 'b::comm_monoid_add)"
  using assms
proof (induction xs)
  case Nil
  then show ?case by simp
next
  case (Cons x xs)
  show ?case
  proof (cases "x = a")
    case True
    then have "filter (\<lambda>x. f x \<noteq> f a) xs = xs"
      using Cons.prems(1) by (auto simp: filter_id_conv) (metis image_eqI)
    then show ?thesis using True by simp
  next
    case False
    then have "f x \<noteq> f a" using Cons.prems by (auto simp: image_iff)
    then show ?thesis using Cons False by (simp add: ac_simps)
  qed
qed

lemma list_all2_setL: "list_all2 P xs ys \<Longrightarrow> x \<in> set xs \<Longrightarrow> \<exists>y \<in> set ys. P x y"
  by (induction rule: list_all2_induct) auto

lemma list_all2_setR: "list_all2 P xs ys \<Longrightarrow> y \<in> set ys \<Longrightarrow> \<exists>x \<in> set xs. P x y"
  by (induction rule: list_all2_induct) auto

lemma list_all2_map_both: "list_all2 P (map f xs) (map g xs) \<longleftrightarrow> (\<forall>x \<in> set xs. P (f x) (g x))"
  by (induction xs) auto

end
