(* ===== verification/Externals.thy ===== *)
theory Externals
  imports Prelude
begin

text \<open>
  The third-party code the \<open>frost-taproot\<close> crate rests on, as a record of parameters, and its
  documented behaviour, as named predicates that theorems assume where they need them.

  \<^item> \<open>k256::Scalar\<close> is a type \<open>'s\<close> of class \<open>field\<close>, \<open>k256::ProjectivePoint\<close> a type
    \<open>'p\<close> of class \<open>ab_group_add\<close> (\<open>0\<close> is the identity); scalar multiplication, the
    generator, and the SEC1 encodings are fields of the record.
  \<^item> \<open>sha2\<close>, \<open>hmac\<close> and \<open>hash2curve\<close> are the functions \<open>sha256\<close>, \<open>hmac_sha256\<close> and
    \<open>expand_xmd\<close>.
  \<^item> \<open>k256::schnorr\<close> is given by \<open>vk_from_bytes_ok\<close>, \<open>sig_try_from_ok\<close> and \<open>verify_raw\<close>.
\<close>

record ('s, 'p) externals =
  scalar_repr :: "'s \<Rightarrow> nat"
  point_gen :: 'p
  point_mul :: "'p \<Rightarrow> 's \<Rightarrow> 'p"
  point_encode :: "'p \<Rightarrow> bytes"
  point_decode :: "bytes \<Rightarrow> 'p option"
  point_x :: "'p \<Rightarrow> bytes"
  sha256 :: "bytes \<Rightarrow> bytes"
  hmac_sha256 :: "bytes \<Rightarrow> bytes \<Rightarrow> bytes"
  expand_xmd :: "bytes \<Rightarrow> bytes \<Rightarrow> nat \<Rightarrow> bytes"
  vk_from_bytes_ok :: "bytes \<Rightarrow> bool"
  sig_try_from_ok :: "bytes \<Rightarrow> bool"
  verify_raw :: "bytes \<Rightarrow> bytes \<Rightarrow> bytes \<Rightarrow> bool"

subsection \<open>Documented behaviour of \<open>k256\<close>\<close>

text \<open>Every scalar has a canonical representative that fits 32 bytes.\<close>

definition scalar_laws :: "('s::field, 'p::ab_group_add, 'z) externals_scheme \<Rightarrow> bool" where
  "scalar_laws E \<longleftrightarrow> (\<forall>s. of_nat (scalar_repr E s) = s \<and> scalar_repr E s < 2 ^ 256)"

text \<open>Scalar multiplication is a module action, free on the generator.\<close>

definition point_laws :: "('s::field, 'p::ab_group_add, 'z) externals_scheme \<Rightarrow> bool" where
  "point_laws E \<longleftrightarrow>
     (\<forall>P a b. point_mul E P (a + b) = point_mul E P a + point_mul E P b) \<and>
     (\<forall>P Q a. point_mul E (P + Q) a = point_mul E P a + point_mul E Q a) \<and>
     (\<forall>P a b. point_mul E (point_mul E P a) b = point_mul E P (a * b)) \<and>
     (\<forall>P. point_mul E P 1 = P) \<and>
     (\<forall>a. point_mul E (point_gen E) a = 0 \<longrightarrow> a = 0)"

text \<open>
  SEC1 compressed encoding: 33 bytes with tag 2 or 3 (the parity of \<open>y\<close>) followed by \<open>x\<close>, a
  single byte for the identity; negation flips the tag; two points share their \<open>x\<close> exactly
  when they are equal or opposite.
\<close>

definition encode_laws :: "('s::field, 'p::ab_group_add, 'z) externals_scheme \<Rightarrow> bool" where
  "encode_laws E \<longleftrightarrow>
     point_encode E 0 = [0] \<and>
     (\<forall>P. P \<noteq> 0 \<longrightarrow>
        length (point_encode E P) = 33 \<and>
        (hd (point_encode E P) = 2 \<or> hd (point_encode E P) = 3) \<and>
        point_decode E (point_encode E P) = Some P \<and>
        point_encode E (- P) = (5 - hd (point_encode E P)) # tl (point_encode E P)) \<and>
     (\<forall>P Q. point_x E P = point_x E Q \<longleftrightarrow> P = Q \<or> P = - Q)"

definition k256_laws :: "('s::field, 'p::ab_group_add, 'z) externals_scheme \<Rightarrow> bool" where
  "k256_laws E \<longleftrightarrow> scalar_laws E \<and> point_laws E \<and> encode_laws E"

text \<open>
  BIP-340: a signature \<open>R.x || s\<close> with even \<open>R\<close>, \<open>s \<noteq> 0\<close> and \<open>s*G = R + e*P\<close> for the even
  point \<open>P\<close> of the x-only key verifies, \<open>e\<close> being the tagged hash of \<open>R.x || P.x || m\<close>.
\<close>

definition bip340_challenge ::
  "('s::field, 'p::ab_group_add, 'z) externals_scheme \<Rightarrow> bytes \<Rightarrow> bytes \<Rightarrow> bytes \<Rightarrow> 's" where
  "bip340_challenge E rx px m =
     (let th = sha256 E (str_bytes ''BIP0340/challenge'')
      in of_nat (be_nat (sha256 E (th @ th @ rx @ px @ m))))"

definition schnorr_laws :: "('s::field, 'p::ab_group_add, 'z) externals_scheme \<Rightarrow> bool" where
  "schnorr_laws E \<longleftrightarrow>
     (\<forall>P R s m.
        P \<noteq> 0 \<and> R \<noteq> 0 \<and> s \<noteq> 0 \<and>
        hd (point_encode E P) = 2 \<and> hd (point_encode E R) = 2 \<and>
        point_mul E (point_gen E) s =
          R + point_mul E P (bip340_challenge E (tl (point_encode E R)) (tl (point_encode E P)) m)
        \<longrightarrow>
        (let sig = tl (point_encode E R) @ be_bytes 32 (scalar_repr E s)
         in vk_from_bytes_ok E (tl (point_encode E P)) \<and> sig_try_from_ok E sig \<and>
            verify_raw E (tl (point_encode E P)) m sig))"

text \<open>Digest lengths.\<close>

definition digest_laws :: "('s::field, 'p::ab_group_add, 'z) externals_scheme \<Rightarrow> bool" where
  "digest_laws E \<longleftrightarrow>
     (\<forall>m. length (sha256 E m) = 32) \<and>
     (\<forall>k m. length (hmac_sha256 E k m) = 32) \<and>
     (\<forall>m d n. length (expand_xmd E m d n) = n)"

subsection \<open>Consequences used throughout\<close>

lemma k256_lawsD:
  assumes "k256_laws E"
  shows "scalar_laws E" and "point_laws E" and "encode_laws E"
  using assms by (simp_all add: k256_laws_def)

lemma of_nat_scalar_repr: "k256_laws E \<Longrightarrow> of_nat (scalar_repr E s) = s"
  by (simp add: k256_laws_def scalar_laws_def)

lemma scalar_repr_less: "k256_laws E \<Longrightarrow> scalar_repr E s < 2 ^ 256"
  by (simp add: k256_laws_def scalar_laws_def)

lemma point_mul_add: "k256_laws E \<Longrightarrow> point_mul E P (a + b) = point_mul E P a + point_mul E P b"
  by (simp add: k256_laws_def point_laws_def)

lemma point_mul_add_left: "k256_laws E \<Longrightarrow> point_mul E (P + Q) a = point_mul E P a + point_mul E Q a"
  by (simp add: k256_laws_def point_laws_def)

lemma point_mul_assoc: "k256_laws E \<Longrightarrow> point_mul E (point_mul E P a) b = point_mul E P (a * b)"
  by (simp add: k256_laws_def point_laws_def)

lemma point_mul_one: "k256_laws E \<Longrightarrow> point_mul E P 1 = P"
  by (simp add: k256_laws_def point_laws_def)

lemma point_mul_zero: "k256_laws E \<Longrightarrow> point_mul E P 0 = 0"
  using point_mul_add [of E P 0 0] by simp

lemma point_mul_zero_left: "k256_laws E \<Longrightarrow> point_mul E 0 a = 0"
  using point_mul_add_left [of E 0 0 a] by simp

lemma point_mul_minus: "k256_laws E \<Longrightarrow> point_mul E P (- a) = - point_mul E P a"
  using point_mul_add [of E P a "- a"] by (simp add: point_mul_zero eq_neg_iff_add_eq_0 add.commute)

lemma point_mul_minus_left: "k256_laws E \<Longrightarrow> point_mul E (- P) a = - point_mul E P a"
  using point_mul_add_left [of E P "- P" a]
  by (simp add: point_mul_zero_left eq_neg_iff_add_eq_0 add.commute)

lemma point_mul_diff: "k256_laws E \<Longrightarrow> point_mul E P (a - b) = point_mul E P a - point_mul E P b"
  using point_mul_add [of E P a "- b"] by (simp add: point_mul_minus)

lemma point_mul_gen_inj:
  assumes "k256_laws E" and "point_mul E (point_gen E) a = point_mul E (point_gen E) b"
  shows "a = b"
proof -
  have "point_mul E (point_gen E) (a - b) = 0"
    using assms by (simp add: point_mul_diff)
  then have "a - b = 0"
    using assms(1) unfolding k256_laws_def point_laws_def by blast
  then show ?thesis by simp
qed

lemma point_mul_gen_eq_iff:
  "k256_laws E \<Longrightarrow> point_mul E (point_gen E) a = point_mul E (point_gen E) b \<longleftrightarrow> a = b"
  by (auto dest: point_mul_gen_inj)

lemma point_mul_gen_zero_iff:
  "k256_laws E \<Longrightarrow> point_mul E (point_gen E) a = 0 \<longleftrightarrow> a = 0"
  using point_mul_gen_eq_iff [of E a 0] by (simp add: point_mul_zero)

lemma point_mul_sum_list:
  "k256_laws E \<Longrightarrow> point_mul E P (sum_list (map f xs)) = sum_list (map (\<lambda>x. point_mul E P (f x)) xs)"
  by (induction xs) (simp_all add: point_mul_zero point_mul_add)

lemma point_mul_sum_list_left:
  "k256_laws E \<Longrightarrow> point_mul E (sum_list (map f xs)) a = sum_list (map (\<lambda>x. point_mul E (f x) a) xs)"
  by (induction xs) (simp_all add: point_mul_zero_left point_mul_add_left)

lemma point_encode_length: "k256_laws E \<Longrightarrow> P \<noteq> 0 \<Longrightarrow> length (point_encode E P) = 33"
  by (simp add: k256_laws_def encode_laws_def)

lemma point_encode_zero: "k256_laws E \<Longrightarrow> point_encode E 0 = [0]"
  by (simp add: k256_laws_def encode_laws_def)

lemma point_encode_tag:
  "k256_laws E \<Longrightarrow> P \<noteq> 0 \<Longrightarrow> hd (point_encode E P) = 2 \<or> hd (point_encode E P) = 3"
  by (simp add: k256_laws_def encode_laws_def)

lemma point_decode_encode: "k256_laws E \<Longrightarrow> P \<noteq> 0 \<Longrightarrow> point_decode E (point_encode E P) = Some P"
  by (simp add: k256_laws_def encode_laws_def)

lemma point_encode_uminus:
  "k256_laws E \<Longrightarrow> P \<noteq> 0 \<Longrightarrow>
   point_encode E (- P) = (5 - hd (point_encode E P)) # tl (point_encode E P)"
  by (simp add: k256_laws_def encode_laws_def)

lemma point_encode_inj:
  assumes "k256_laws E" and "point_encode E P = point_encode E Q"
  shows "P = Q"
proof (cases "P = 0 \<or> Q = 0")
  case True
  then show ?thesis
    using assms point_encode_length [OF assms(1)] point_encode_zero [OF assms(1)]
    by (metis length_Cons list.size(3) numeral_eq_one_iff One_nat_def semiring_norm(84))
next
  case False
  then show ?thesis
    using assms point_decode_encode [OF assms(1)] by (metis option.inject)
qed

lemma point_x_eq_iff: "k256_laws E \<Longrightarrow> point_x E P = point_x E Q \<longleftrightarrow> P = Q \<or> P = - Q"
  by (simp add: k256_laws_def encode_laws_def)

lemma digest_lengths [simp]:
  assumes "digest_laws E"
  shows "length (sha256 E m) = 32" and "length (hmac_sha256 E k m) = 32"
    and "length (expand_xmd E m d n) = n"
  using assms by (simp_all add: digest_laws_def)

text \<open>The vector-space rules as one bundle, for \<open>simp\<close>.\<close>

lemmas point_mul_simps =
  point_mul_add point_mul_add_left point_mul_assoc point_mul_one point_mul_zero
  point_mul_zero_left point_mul_minus point_mul_minus_left point_mul_diff

end
