(* ===== verification/Ecc.thy ===== *)
theory Ecc
  imports Externals
begin

text \<open>
  \<open>src/ecc/util.rs\<close>, \<open>src/ecc/group.rs\<close> and \<open>src/util/assert.rs\<close> of the \<open>frost-taproot\<close>
  crate: scalar and point conversions, the squaring loop \<open>pow_n\<close>, and the run-time
  assertions.  \<open>copy_from_slice\<close> panics on the one-byte encoding of the identity, so
  serialising the identity is a panic.
\<close>

subsection \<open>Curve constants\<close>

definition curve_P :: nat where
  "curve_P = 0xfffffffffffffffffffffffffffffffffffffffffffffffffffffffefffffc2f"

definition group_N :: nat where
  "group_N = 0xfffffffffffffffffffffffffffffffebaaedce6af48a03bbfd25e8cd0364141"

subsection \<open>Scalars\<close>

definition mod_n :: "nat \<Rightarrow> 's::comm_ring_1" where
  "mod_n x = of_nat x"

definition scalar_from_bytes :: "bytes \<Rightarrow> 's::comm_ring_1" where
  "scalar_from_bytes bs = mod_n (be_nat bs)"

definition scalar_to_bytes ::
  "('s::field, 'p::ab_group_add, 'z) externals_scheme \<Rightarrow> 's \<Rightarrow> bytes" where
  "scalar_to_bytes E s = be_bytes 32 (scalar_repr E s)"

definition scalar_add :: "'s::field \<Rightarrow> 's \<Rightarrow> 's" where
  "scalar_add a b = a + b"

definition scalar_mul :: "'s::field \<Rightarrow> 's \<Rightarrow> 's" where
  "scalar_mul a b = a * b"

definition scalar_neg :: "'s::field \<Rightarrow> 's" where
  "scalar_neg a = - a"

definition scalar_invert :: "'s::field \<Rightarrow> 's res" where
  "scalar_invert a = (if a = 0 then Err ScalarInversion else Ok (inverse a))"

text \<open>The \<open>while e > 0\<close> loop of \<open>pow_n\<close>.\<close>

fun pow_n_loop :: "'s::field \<Rightarrow> 's \<Rightarrow> nat \<Rightarrow> 's" where
  "pow_n_loop result b e =
     (if e > 0
      then pow_n_loop (if odd e then result * b else result) (b * b) (e div 2)
      else result)"

declare pow_n_loop.simps [simp del]

definition pow_n :: "nat \<Rightarrow> nat \<Rightarrow> 's::field" where
  "pow_n base exp = (if exp = 0 then 1 else pow_n_loop 1 (mod_n base) exp)"

subsection \<open>Points\<close>

definition lift_x :: "('s::field, 'p::ab_group_add, 'z) externals_scheme \<Rightarrow> bytes \<Rightarrow> 'p res" where
  "lift_x E bs =
     (if length bs = 32 then ok_or (point_decode E (0x02 # bs)) InvalidPoint
      else if length bs = 33 then ok_or (point_decode E bs) InvalidPoint
      else Err InvalidPoint)"

definition serialize_point ::
  "('s::field, 'p::ab_group_add, 'z) externals_scheme \<Rightarrow> 'p \<Rightarrow> bytes res" where
  "serialize_point E pt =
     (let encoded = point_encode E pt
      in if length encoded = 33 then Ok encoded else Panic)"

definition deserialize_point ::
  "('s::field, 'p::ab_group_add, 'z) externals_scheme \<Rightarrow> bytes \<Rightarrow> 'p res" where
  "deserialize_point E bs = ok_or (point_decode E bs) InvalidPoint"

definition has_even_y ::
  "('s::field, 'p::ab_group_add, 'z) externals_scheme \<Rightarrow> 'p \<Rightarrow> bool" where
  "has_even_y E pt = (hd (point_encode E pt) = 0x02)"

definition negate_point :: "'p::ab_group_add \<Rightarrow> 'p" where
  "negate_point pt = - pt"

subsection \<open>\<open>ecc/group.rs\<close>\<close>

definition order_scalar :: "'s::field" where
  "order_scalar = 0"

definition identity_point :: "'p::ab_group_add" where
  "identity_point = 0"

text \<open>The argument is the 32 bytes drawn from \<open>OsRng\<close>.\<close>

definition random_scalar :: "bytes \<Rightarrow> 's::field" where
  "random_scalar rnd = mod_n (be_nat rnd)"

fun element_add :: "'p::ab_group_add option \<Rightarrow> 'p option \<Rightarrow> 'p res" where
  "element_add None None = Err BothPointsNull"
| "element_add None (Some b) = Ok b"
| "element_add (Some a) None = Ok a"
| "element_add (Some a) (Some b) = Ok (a + b)"

definition element_add_many :: "'p::ab_group_add option list \<Rightarrow> 'p res" where
  "element_add_many elems =
     (case elems of
        [] \<Rightarrow> Err BothPointsNull
      | e0 # es \<Rightarrow>
          bindR (foldR (\<lambda>acc e. mapR_val Some (element_add acc e)) e0 es)
            (\<lambda>acc. ok_or acc BothPointsNull))"

definition scalar_multi ::
  "('s::field, 'p::ab_group_add, 'z) externals_scheme \<Rightarrow> 'p \<Rightarrow> 's \<Rightarrow> 'p" where
  "scalar_multi E a k = point_mul E a k"

definition scalar_base_multi ::
  "('s::field, 'p::ab_group_add, 'z) externals_scheme \<Rightarrow> 's \<Rightarrow> 'p" where
  "scalar_base_multi E k = point_mul E (point_gen E) k"

definition serialize_element ::
  "('s::field, 'p::ab_group_add, 'z) externals_scheme \<Rightarrow> 'p \<Rightarrow> bytes res" where
  "serialize_element E pt = serialize_point E pt"

definition deserialize_element ::
  "('s::field, 'p::ab_group_add, 'z) externals_scheme \<Rightarrow> bytes \<Rightarrow> 'p res" where
  "deserialize_element E bs = deserialize_point E bs"

definition serialize_scalar_u32 :: "u32 \<Rightarrow> bytes" where
  "serialize_scalar_u32 idx = replicate 28 0 @ u32_be idx"

definition serialize_scalar ::
  "('s::field, 'p::ab_group_add, 'z) externals_scheme \<Rightarrow> 's \<Rightarrow> bytes" where
  "serialize_scalar E s = scalar_to_bytes E s"

definition deserialize_scalar :: "bytes \<Rightarrow> 's::field" where
  "deserialize_scalar bs = scalar_from_bytes bs"

subsection \<open>\<open>util/assert.rs\<close>\<close>

definition assert_ok :: "bool \<Rightarrow> string \<Rightarrow> unit res" where
  "assert_ok value message = (if \<not> value then Err (Assertion message) else Ok ())"

definition is_included :: "'a list \<Rightarrow> 'a \<Rightarrow> unit res" where
  "is_included xs item =
     (if item \<notin> set xs then Err (Assertion ''item is not included in array'') else Ok ())"

text \<open>The loop of \<open>is_unique_set\<close> over the elements \<open>ys\<close> still to visit.\<close>

fun is_unique_set_loop :: "'a list \<Rightarrow> 'a list \<Rightarrow> unit res" where
  "is_unique_set_loop xs [] = Ok ()"
| "is_unique_set_loop xs (y # ys) =
     (if length (filter (\<lambda>e. e = y) xs) \<noteq> 1
      then Err (Assertion ''item in set is not unique'')
      else is_unique_set_loop xs ys)"

definition is_unique_set :: "'a list \<Rightarrow> unit res" where
  "is_unique_set xs = is_unique_set_loop xs xs"

fun windows2_equal :: "'a list \<Rightarrow> bool" where
  "windows2_equal (x # y # zs) = (x = y \<and> windows2_equal (y # zs))"
| "windows2_equal _ = True"

definition is_equal_set :: "'a list \<Rightarrow> unit res" where
  "is_equal_set xs =
     (if \<not> windows2_equal xs then Err (Assertion ''set does not have equal items'') else Ok ())"

definition equal_arr_size :: "'a list \<Rightarrow> 'b list \<Rightarrow> unit res" where
  "equal_arr_size xs ys =
     (if length xs \<noteq> length ys then Err (Assertion ''array lengths are unequal'') else Ok ())"

subsection \<open>Lemmas\<close>

lemma scalar_from_to_bytes [simp]:
  assumes "k256_laws E"
  shows "scalar_from_bytes (scalar_to_bytes E s) = s"
proof -
  have "scalar_repr E s mod 256 ^ 32 = scalar_repr E s"
    using scalar_repr_less [OF assms, of s] by simp
  then show ?thesis
    using of_nat_scalar_repr [OF assms, of s]
    by (simp add: scalar_from_bytes_def scalar_to_bytes_def mod_n_def be_nat_be_bytes)
qed

lemma length_scalar_to_bytes [simp]: "length (scalar_to_bytes E s) = 32"
  by (simp add: scalar_to_bytes_def)

lemma scalar_to_bytes_inj:
  assumes "k256_laws E"
  shows "scalar_to_bytes E s = scalar_to_bytes E t \<longleftrightarrow> s = t"
  using assms by (metis scalar_from_to_bytes)

lemma pow_n_loop_power: "pow_n_loop result b e = result * b ^ e"
proof (induction result b e rule: pow_n_loop.induct)
  case (1 result b e)
  show ?case
  proof (cases "e > 0")
    case True
    have "b ^ e = b ^ (2 * (e div 2) + e mod 2)" by simp
    also have "\<dots> = (b * b) ^ (e div 2) * b ^ (e mod 2)"
      by (simp only: power_add power_mult power2_eq_square)
    finally have "b ^ e = (b * b) ^ (e div 2) * (if odd e then b else 1)"
      by (simp add: odd_iff_mod_2_eq_one)
    then show ?thesis
      using 1 True by (simp add: pow_n_loop.simps [of result b e] algebra_simps)
  next
    case False
    then show ?thesis by (simp add: pow_n_loop.simps)
  qed
qed

lemma pow_n_eq: "pow_n base exp = (of_nat base :: 's::field) ^ exp"
  by (simp add: pow_n_def pow_n_loop_power mod_n_def)

lemma serialize_point_nonzero [simp]:
  "k256_laws E \<Longrightarrow> P \<noteq> 0 \<Longrightarrow> serialize_point E P = Ok (point_encode E P)"
  by (simp add: serialize_point_def point_encode_length)

lemma serialize_point_identity: "k256_laws E \<Longrightarrow> serialize_point E 0 = Panic"
  by (simp add: serialize_point_def point_encode_zero)

lemma serialize_element_eq_Ok [res_simps]:
  assumes "k256_laws E"
  shows "serialize_element E P = Ok bs \<longleftrightarrow> P \<noteq> 0 \<and> bs = point_encode E P"
  using assms serialize_point_identity [OF assms] serialize_point_nonzero [OF assms, of P]
  by (cases "P = 0") (auto simp: serialize_element_def)

lemma lift_x_encode:
  "k256_laws E \<Longrightarrow> P \<noteq> 0 \<Longrightarrow> lift_x E (point_encode E P) = Ok P"
  by (simp add: lift_x_def point_encode_length point_decode_encode ok_or_def)

lemma has_even_y_uminus:
  assumes "k256_laws E" and "P \<noteq> 0"
  shows "has_even_y E (- P) \<longleftrightarrow> \<not> has_even_y E P"
  using point_encode_tag [OF assms] point_encode_uminus [OF assms]
  by (auto simp: has_even_y_def)

lemma encode_even:
  assumes "k256_laws E" and "P \<noteq> 0" and "has_even_y E P"
  shows "point_encode E P = 0x02 # tl (point_encode E P)"
  using assms point_encode_length [OF assms(1,2)]
  by (cases "point_encode E P") (auto simp: has_even_y_def)

text \<open>An x-only key lifts to the even one of the two points with that \<open>x\<close>.\<close>

lemma lift_x_x_only:
  assumes "k256_laws E" and "P \<noteq> 0"
  shows "lift_x E (tl (point_encode E P)) = Ok (if has_even_y E P then P else - P)"
proof -
  have len: "length (tl (point_encode E P)) = 32"
    using point_encode_length [OF assms] by simp
  show ?thesis
  proof (cases "has_even_y E P")
    case True
    then show ?thesis
      using len encode_even [OF assms True] point_decode_encode [OF assms]
      by (simp add: lift_x_def ok_or_def)
  next
    case False
    have neg: "- P \<noteq> 0" using assms(2) by simp
    have "hd (point_encode E P) = 3"
      using False point_encode_tag [OF assms] by (auto simp: has_even_y_def)
    then have "point_encode E (- P) = 0x02 # tl (point_encode E P)"
      using point_encode_uminus [OF assms] by simp
    then show ?thesis
      using len False point_decode_encode [OF assms(1) neg] by (simp add: lift_x_def ok_or_def)
  qed
qed

lemma element_add_Some [simp]: "element_add (Some a) (Some b) = Ok (a + b)"
  by simp

lemma is_unique_set_loop_Ok:
  "is_unique_set_loop xs ys = Ok () \<longleftrightarrow> (\<forall>y \<in> set ys. count_list xs y = 1)"
  by (induction ys) (auto simp: count_list_eq_length_filter eq_commute)

lemma is_unique_set_Ok [res_simps]: "is_unique_set xs = Ok () \<longleftrightarrow> distinct xs"
proof -
  have "distinct xs \<longleftrightarrow> (\<forall>y \<in> set xs. count_list xs y = 1)"
    by (auto simp: distinct_count_atmost_1 count_mset_0_iff count_mset intro: le_antisym)
  then show ?thesis
    by (simp add: is_unique_set_def is_unique_set_loop_Ok)
qed

lemma is_included_Ok [res_simps]: "is_included xs x = Ok () \<longleftrightarrow> x \<in> set xs"
  by (simp add: is_included_def)

lemma assert_ok_Ok [res_simps]: "assert_ok b m = Ok () \<longleftrightarrow> b"
  by (simp add: assert_ok_def)

lemma equal_arr_size_Ok [res_simps]: "equal_arr_size xs ys = Ok () \<longleftrightarrow> length xs = length ys"
  by (simp add: equal_arr_size_def)

lemma windows2_equal_iff: "windows2_equal (x # xs) \<longleftrightarrow> (\<forall>y \<in> set xs. y = x)"
  by (induction xs arbitrary: x) auto

lemma is_equal_set_Ok [res_simps]: "is_equal_set (x # xs) = Ok () \<longleftrightarrow> (\<forall>y \<in> set xs. y = x)"
  by (simp add: is_equal_set_def windows2_equal_iff)

lemma scalar_invert_Ok [res_simps]: "scalar_invert a = Ok b \<longleftrightarrow> a \<noteq> 0 \<and> b = inverse a"
  by (auto simp: scalar_invert_def)

lemma length_serialize_scalar_u32 [simp]: "length (serialize_scalar_u32 i) = 32"
  by (simp add: serialize_scalar_u32_def)

lemma be_nat_serialize_scalar_u32: "be_nat (serialize_scalar_u32 i) = unat i"
  by (simp add: serialize_scalar_u32_def be_nat_append)

lemma serialize_scalar_u32_inj: "serialize_scalar_u32 i = serialize_scalar_u32 j \<longleftrightarrow> i = j"
  by (metis be_nat_serialize_scalar_u32 unsigned_word_eqI)

end
