(* ===== verification/Hash.thy ===== *)
theory Hash
  imports Ecc
begin

text \<open>
  \<open>src/ecc/hash.rs\<close>, \<open>src/util/helpers.rs\<close> and \<open>src/helpers.rs\<close>: the ciphersuite hashes
  H1 to H5, tagged hashes, and the key helpers built on them.  Random draws from \<open>OsRng\<close> are
  arguments.
\<close>

subsection \<open>\<open>ecc/hash.rs\<close>\<close>

definition frost_domain :: string where
  "frost_domain = ''FROST-secp256k1-SHA256-v1''"

definition dst :: "string \<Rightarrow> bytes" where
  "dst sub = str_bytes (frost_domain @ sub)"

text \<open>\<open>u8::from_str_radix(_, 16)\<close> on a two-character slice; the standard library also takes a
  leading plus sign.\<close>

definition hex_val :: "char \<Rightarrow> nat option" where
  "hex_val c =
     (let n = (of_char c :: nat)
      in if 48 \<le> n \<and> n \<le> 57 then Some (n - 48)
         else if 97 \<le> n \<and> n \<le> 102 then Some (n - 87)
         else if 65 \<le> n \<and> n \<le> 70 then Some (n - 55)
         else None)"

definition u8_from_hex2 :: "char \<Rightarrow> char \<Rightarrow> byte option" where
  "u8_from_hex2 c d =
     (if c = CHR ''+'' then map_option of_nat (hex_val d)
      else (case (hex_val c, hex_val d) of
              (Some x, Some y) \<Rightarrow> Some (of_nat (16 * x + y))
            | _ \<Rightarrow> None))"

definition hex_literal_32 :: "string \<Rightarrow> bytes res" where
  "hex_literal_32 s =
     (let padded = replicate (64 - length s) CHR ''0'' @ s
      in mapR (\<lambda>i. case u8_from_hex2 (padded ! (i * 2)) (padded ! (i * 2 + 1)) of
                      None \<Rightarrow> Panic | Some b \<Rightarrow> Ok b) [0..<32])"

definition hash_to_field_n ::
  "('s::comm_ring_1, 'p, 'z) externals_scheme \<Rightarrow> bytes \<Rightarrow> bytes \<Rightarrow> 's" where
  "hash_to_field_n E msg dst_bytes =
     (let uniform = expand_xmd E msg dst_bytes 48;
          hi16 = take 16 uniform;
          lo32 = drop 16 uniform;
          lo_scalar = mod_n (be_nat lo32);
          two256_mod_n = mod_n (be_nat (ok_val (hex_literal_32
            ''000000000000000000000000000000014551231950b75fc4402da1732fc9bebf'')));
          hi32 = replicate 16 0 @ hi16;
          hi_scalar = mod_n (be_nat hi32)
      in hi_scalar * two256_mod_n + lo_scalar)"

definition h1 :: "('s::field, 'p::ab_group_add, 'z) externals_scheme \<Rightarrow> bytes \<Rightarrow> bytes" where
  "h1 E msg = scalar_to_bytes E (hash_to_field_n E msg (dst ''rho''))"

definition h2 :: "('s::field, 'p::ab_group_add, 'z) externals_scheme \<Rightarrow> bytes \<Rightarrow> bytes" where
  "h2 E msg = scalar_to_bytes E (hash_to_field_n E msg (dst ''chal''))"

definition h3 :: "('s::field, 'p::ab_group_add, 'z) externals_scheme \<Rightarrow> bytes \<Rightarrow> bytes" where
  "h3 E msg = scalar_to_bytes E (hash_to_field_n E msg (dst ''nonce''))"

definition h4 :: "('s, 'p, 'z) externals_scheme \<Rightarrow> bytes \<Rightarrow> bytes" where
  "h4 E msg = sha256 E (dst ''msg'' @ msg)"

definition h5 :: "('s, 'p, 'z) externals_scheme \<Rightarrow> bytes \<Rightarrow> bytes" where
  "h5 E msg = sha256 E (dst ''com'' @ msg)"

subsection \<open>\<open>util/helpers.rs\<close>\<close>

definition get_record :: "('a \<Rightarrow> u32) \<Rightarrow> 'a list \<Rightarrow> u32 \<Rightarrow> 'a res" where
  "get_record idx_of records idx = ok_or (find (\<lambda>r. idx_of r = idx) records) (RecordNotFound idx)"

definition taghash :: "('s, 'p, 'z) externals_scheme \<Rightarrow> string \<Rightarrow> bytes" where
  "taghash E tag = (let hash = sha256 E (str_bytes tag) in hash @ hash)"

definition hash340 :: "('s, 'p, 'z) externals_scheme \<Rightarrow> string \<Rightarrow> bytes list \<Rightarrow> bytes" where
  "hash340 E tag data = sha256 E (taghash E tag @ concat data)"

subsection \<open>\<open>helpers.rs\<close>\<close>

definition generate_seckey ::
  "('s::field, 'p::ab_group_add, 'z) externals_scheme \<Rightarrow> bytes option \<Rightarrow> bytes \<Rightarrow> bytes" where
  "generate_seckey E aux rnd = h3 E (case aux of Some a \<Rightarrow> a | None \<Rightarrow> rnd)"

definition generate_nonce ::
  "('s::field, 'p::ab_group_add, 'z) externals_scheme \<Rightarrow> bytes \<Rightarrow> bytes option \<Rightarrow> bytes \<Rightarrow> bytes"
where
  "generate_nonce E secret aux_seed rnd =
     (let aux = (case aux_seed of Some a \<Rightarrow> a | None \<Rightarrow> rnd)
      in h3 E (aux @ secret))"

definition get_pubkey ::
  "('s::field, 'p::ab_group_add, 'z) externals_scheme \<Rightarrow> bytes \<Rightarrow> bytes res" where
  "get_pubkey E secret =
     (let scalar = scalar_from_bytes secret;
          point = scalar_base_multi E scalar
      in serialize_element E point)"

definition tweak_seckey ::
  "('s::field, 'p::ab_group_add, 'z) externals_scheme \<Rightarrow> bytes \<Rightarrow> bytes \<Rightarrow> bytes" where
  "tweak_seckey E seckey tweak =
     (let tweak_scalar = scalar_from_bytes tweak;
          secret = scalar_from_bytes seckey
      in scalar_to_bytes E (secret + tweak_scalar))"

definition tweak_pubkey ::
  "('s::field, 'p::ab_group_add, 'z) externals_scheme \<Rightarrow> bytes \<Rightarrow> bytes \<Rightarrow> bytes res" where
  "tweak_pubkey E pubkey tweak =
     (let tweak_scalar = scalar_from_bytes tweak
      in bindR (lift_x E pubkey) (\<lambda>point.
         let tweak_point = scalar_base_multi E tweak_scalar
         in bindR (element_add (Some point) (Some tweak_point)) (\<lambda>tweaked.
            serialize_element E tweaked)))"

definition convert_pubkey_to_bip340 :: "bytes \<Rightarrow> bytes res" where
  "convert_pubkey_to_bip340 pubkey =
     (if length pubkey = 33 then Ok (tl pubkey)
      else if length pubkey = 32 then Ok pubkey
      else Err InvalidPoint)"

definition convert_pubkey_to_ecdsa :: "bytes \<Rightarrow> bytes res" where
  "convert_pubkey_to_ecdsa pubkey =
     (if length pubkey = 32 then Ok (0x02 # pubkey)
      else if length pubkey = 33 then Ok pubkey
      else Err InvalidPoint)"

definition get_challenge ::
  "('s::field, 'p::ab_group_add, 'z) externals_scheme \<Rightarrow> bytes \<Rightarrow> bytes \<Rightarrow> bytes \<Rightarrow> 's res" where
  "get_challenge E pnonce pubkey message =
     bindR (convert_pubkey_to_bip340 pnonce) (\<lambda>grp_pn.
     bindR (convert_pubkey_to_bip340 pubkey) (\<lambda>grp_pk.
     bindR (assert_ok (length grp_pn = 32) ''pnonce must be 32 bytes after conversion'') (\<lambda>_.
     bindR (assert_ok (length grp_pk = 32) ''pubkey must be 32 bytes after conversion'') (\<lambda>_.
     let digest = hash340 E ''BIP0340/challenge'' [grp_pn, grp_pk, message]
     in Ok (mod_n (be_nat digest))))))"

subsection \<open>Lemmas\<close>

text \<open>The constant the code names \<open>two256_mod_n\<close> is \<open>2^256 - N\<close>.\<close>

lemma hex_literal_two256:
  "hex_literal_32 ''000000000000000000000000000000014551231950b75fc4402da1732fc9bebf'' =
   Ok ([0, 0, 0, 0, 0, 0, 0, 0, 0, 0, 0, 0, 0, 0, 0, 0x01, 0x45, 0x51, 0x23, 0x19, 0x50, 0xb7, 0x5f, 0xc4, 0x40, 0x2d,
        0xa1, 0x73, 0x2f, 0xc9, 0xbe, 0xbf])"
  by (simp add: hex_literal_32_def u8_from_hex2_def hex_val_def Let_def
      upt_rec [of 0] upt_rec [of "Suc 0"] numeral_2_eq_2 [symmetric] upt_rec_numeral)

lemma two256_constant:
  "be_nat (ok_val (hex_literal_32
     ''000000000000000000000000000000014551231950b75fc4402da1732fc9bebf'')) = 2 ^ 256 - group_N"
  by (simp add: hex_literal_two256 be_nat_def group_N_def)

lemma hash_to_field_n_reduces:
  assumes "of_nat group_N = (0 :: 's::comm_ring_1)"
    and "length (expand_xmd E msg d 48) = 48"
  shows "hash_to_field_n (E :: ('s, 'p, 'z) externals_scheme) msg d =
         of_nat (be_nat (expand_xmd E msg d 48))"
proof -
  define u where "u = expand_xmd E msg d 48"
  have len: "length (drop 16 u) = 32" using assms(2) by (simp add: u_def)
  have "of_nat (2 ^ 256 - group_N) = (of_nat (2 ^ 256) :: 's) - of_nat group_N"
    by (rule of_nat_diff) (simp add: group_N_def)
  then have two256: "of_nat (2 ^ 256 - group_N) = (of_nat (2 ^ 256) :: 's)"
    using assms(1) by simp
  have "be_nat u = be_nat (take 16 u @ drop 16 u)" by simp
  also have "\<dots> = be_nat (take 16 u) * 2 ^ 256 + be_nat (drop 16 u)"
    by (simp only: be_nat_append len) simp
  finally have "of_nat (be_nat u) =
      (of_nat (be_nat (take 16 u)) * of_nat (2 ^ 256) + of_nat (be_nat (drop 16 u)) :: 's)"
    by (simp only: of_nat_add of_nat_mult)
  then show ?thesis
    by (simp only: hash_to_field_n_def Let_def two256_constant mod_n_def two256 be_nat_append
        be_nat_replicate_zero u_def mult_zero_left add_0)
qed

lemma length_h1 [simp]: "length (h1 E m) = 32"
  by (simp add: h1_def)

lemma length_h3 [simp]: "length (h3 E m) = 32"
  by (simp add: h3_def)

lemma get_pubkey_eq_Ok [res_simps]:
  fixes E :: "('s::field, 'p::ab_group_add, 'z) externals_scheme"
  assumes "k256_laws E"
  shows "get_pubkey E sk = Ok pk \<longleftrightarrow>
    scalar_from_bytes sk \<noteq> (0 :: 's) \<and> pk = point_encode E (point_mul E (point_gen E) (scalar_from_bytes sk))"
  using assms by (simp add: get_pubkey_def Let_def scalar_base_multi_def res_simps point_mul_gen_zero_iff)

lemma get_pubkey_zero:
  assumes "k256_laws E" and "scalar_from_bytes sk = (0 :: 's)"
  shows "get_pubkey (E :: ('s::field, 'p::ab_group_add, 'z) externals_scheme) sk = Panic"
  using assms
  by (simp add: get_pubkey_def Let_def scalar_base_multi_def point_mul_zero serialize_element_def
      serialize_point_identity)

lemma scalar_from_tweak_seckey [simp]:
  fixes E :: "('s::field, 'p::ab_group_add, 'z) externals_scheme"
  shows "k256_laws E \<Longrightarrow>
    scalar_from_bytes (tweak_seckey E sk t) = (scalar_from_bytes sk + scalar_from_bytes t :: 's)"
  by (simp add: tweak_seckey_def Let_def)

lemma length_tweak_seckey [simp]: "length (tweak_seckey E sk t) = 32"
  by (simp add: tweak_seckey_def Let_def)

text \<open>Tweaking the secret and tweaking the public key agree.\<close>

lemma tweak_pubkey_get_pubkey:
  assumes "k256_laws E" and "get_pubkey E sk = Ok pk"
  shows "tweak_pubkey E pk t = get_pubkey E (tweak_seckey E sk t)"
proof -
  have nz: "point_mul E (point_gen E) (scalar_from_bytes sk) \<noteq> 0"
    and pk: "pk = point_encode E (point_mul E (point_gen E) (scalar_from_bytes sk))"
    using assms by (simp_all add: get_pubkey_eq_Ok point_mul_gen_zero_iff)
  show ?thesis
    using assms(1)
    by (simp add: tweak_pubkey_def get_pubkey_def Let_def scalar_base_multi_def pk
        lift_x_encode [OF assms(1) nz] point_mul_add)
qed

lemma get_challenge_bip340:
  assumes "length pn = 33" and "length pk = 33"
  shows "get_challenge E pn pk m = Ok (bip340_challenge E (tl pn) (tl pk) m)"
  using assms
  by (simp add: get_challenge_def convert_pubkey_to_bip340_def assert_ok_def hash340_def taghash_def
      bip340_challenge_def mod_n_def Let_def)

lemma find_get_record [res_simps]:
  "get_record f rs i = Ok r \<longleftrightarrow> find (\<lambda>r. f r = i) rs = Some r"
  by (simp add: get_record_def res_simps)

end
