(* ===== verification/Poly.thy ===== *)
theory Poly
  imports Hash
begin

text \<open>
  \<open>src/poly.rs\<close>: Horner evaluation and the two Lagrange routines, \<open>interpolate_x\<close> (used when
  signing and when recovering a secret) and \<open>calc_lagrange_coeff\<close> (used for ECDH and for share
  repair).  The locale \<open>lagrange_zero\<close> is the contract the clients rely on, a coefficient per
  member with the Lagrange value at zero; both routines are interpreted as providers of it.
\<close>

subsection \<open>Definitions\<close>

definition evaluate_x :: "'s::field list \<Rightarrow> 's \<Rightarrow> 's res" where
  "evaluate_x coeffs x =
     (if x = 0 then Err (Assertion ''x is zero'')
      else Ok (foldl (\<lambda>value coeff. value * x + coeff) 0 (rev coeffs)))"

definition interpolate_x :: "'s::field list \<Rightarrow> 's \<Rightarrow> 's res" where
  "interpolate_x l x =
     bindR (is_included l x) (\<lambda>_.
     bindR (is_unique_set l) (\<lambda>_.
     let (numerator, denominator) =
           foldl (\<lambda>(num, den) x_j.
                    if x_j = x then (num, den) else (num * x_j, den * (x_j + (- x))))
             (1, 1) l
     in bindR (scalar_invert denominator) (\<lambda>inv. Ok (numerator * inv))))"

definition interpolate_root :: "('s::field \<times> 's) list \<Rightarrow> 's res" where
  "interpolate_root points =
     (let xs = map fst points
      in foldR (\<lambda>p (x, y). bindR (interpolate_x xs x) (\<lambda>delta. Ok (p + delta * y))) 0 points)"

definition calc_lagrange_coeff :: "'s::field list \<Rightarrow> 's \<Rightarrow> 's \<Rightarrow> 's res" where
  "calc_lagrange_coeff l p x =
     bindR (is_unique_set l) (\<lambda>_.
     let (numerator, denominator) =
           foldl (\<lambda>(num, den) x_j.
                    if x_j = p then (num, den) else (num * (x + (- x_j)), den * (p + (- x_j))))
             (1, 1) l
     in bindR (scalar_invert denominator) (\<lambda>inv. Ok (numerator * inv)))"

definition index_to_scalar :: "u32 \<Rightarrow> 's::field" where
  "index_to_scalar idx = scalar_from_bytes (replicate 28 0 @ u32_be idx)"

lemma index_to_scalar_eq: "index_to_scalar idx = (of_nat (unat idx) :: 's::field)"
  by (simp add: index_to_scalar_def scalar_from_bytes_def mod_n_def be_nat_append)

subsection \<open>Specification: polynomials as coefficient lists\<close>

text \<open>Ascending coefficients: \<open>c0 + c1*x + c2*x^2 + \<dots>\<close>.\<close>

fun poly_val :: "'s::comm_ring_1 list \<Rightarrow> 's \<Rightarrow> 's" where
  "poly_val [] x = 0"
| "poly_val (c # cs) x = c + x * poly_val cs x"

lemma foldl_horner: "foldl (\<lambda>v c. v * x + c) 0 (rev cs) = poly_val cs (x :: 's::comm_ring_1)"
  by (induction cs) (simp_all add: algebra_simps)

lemma poly_val_zero [simp]: "poly_val cs 0 = (case cs of [] \<Rightarrow> 0 | c # _ \<Rightarrow> c)"
  by (cases cs) auto

lemma evaluate_x_eq: "x \<noteq> 0 \<Longrightarrow> evaluate_x cs x = Ok (poly_val cs x)"
  by (simp add: evaluate_x_def foldl_horner)

lemma evaluate_x_eq_Ok [res_simps]: "evaluate_x cs x = Ok y \<longleftrightarrow> x \<noteq> 0 \<and> y = poly_val cs x"
  by (auto simp: evaluate_x_def foldl_horner)

lemma poly_val_sum: "poly_val cs x = (\<Sum>k < length cs. cs ! k * x ^ k)"
proof (induction cs)
  case Nil
  then show ?case by simp
next
  case (Cons c cs)
  have "x * (\<Sum>k < length cs. cs ! k * x ^ k) = (\<Sum>k < length cs. cs ! k * x ^ Suc k)"
    by (simp add: sum_distrib_left algebra_simps)
  then show ?case
    by (simp only: length_Cons sum.lessThan_Suc_shift poly_val.simps Cons.IH) simp
qed

text \<open>Coefficientwise sum of two polynomials of one length.\<close>

definition poly_add :: "'s::comm_ring_1 list \<Rightarrow> 's list \<Rightarrow> 's list" where
  "poly_add cs ds = map2 (+) cs ds"

lemma poly_val_add:
  "length cs = length ds \<Longrightarrow> poly_val (poly_add cs ds) x = poly_val cs x + poly_val ds x"
  unfolding poly_add_def
  by (induction cs ds rule: list_induct2) (simp_all add: algebra_simps)

text \<open>Division by \<open>x - a\<close>: the quotient is one coefficient shorter.\<close>

fun synth_div :: "'s::comm_ring_1 \<Rightarrow> 's list \<Rightarrow> 's list" where
  "synth_div a [] = []"
| "synth_div a [c] = []"
| "synth_div a (c # d # cs) = poly_val (d # cs) a # synth_div a (d # cs)"

lemma length_synth_div: "length (synth_div a cs) = length cs - 1"
  by (induction a cs rule: synth_div.induct) auto

lemma synth_div: "poly_val cs x - poly_val cs a = (x - a) * poly_val (synth_div a cs) x"
proof (induction cs)
  case Nil
  then show ?case by simp
next
  case (Cons c cs)
  have "poly_val (c # cs) x - poly_val (c # cs) a =
      x * (poly_val cs x - poly_val cs a) + (x - a) * poly_val cs a"
    by (simp add: algebra_simps)
  also have "\<dots> = (x - a) * (poly_val cs a + x * poly_val (synth_div a cs) x)"
    by (simp only: Cons.IH) (simp add: algebra_simps)
  finally show ?case by (cases cs) auto
qed

subsection \<open>Lagrange interpolation\<close>

definition lagrange_basis :: "'s::field set \<Rightarrow> 's \<Rightarrow> 's \<Rightarrow> 's" where
  "lagrange_basis A x z = (\<Prod>y \<in> A - {x}. (z - y) / (x - y))"

lemma lagrange_basis_insert:
  assumes "finite A" and "a \<notin> A" and "x \<noteq> a"
  shows "lagrange_basis (insert a A) x z = (z - a) / (x - a) * lagrange_basis A x z"
proof -
  have "insert a A - {x} = insert a (A - {x})" using assms(3) by auto
  then show ?thesis using assms by (simp add: lagrange_basis_def)
qed

lemma lagrange_basis_remove:
  assumes "finite A" and "a \<in> A" and "x \<noteq> a"
  shows "(z - a) * lagrange_basis (A - {a}) x z = (x - a) * lagrange_basis A x z"
proof -
  have "lagrange_basis A x z = (z - a) / (x - a) * lagrange_basis (A - {a}) x z"
    using lagrange_basis_insert [of "A - {a}" a x z] assms by (simp add: insert_absorb)
  then show ?thesis using assms(3) by simp
qed

text \<open>Neville's recursion for the sum of all basis values.\<close>

lemma lagrange_sum_neville:
  assumes "finite A" and "a \<in> A" and "b \<in> A" and "a \<noteq> b"
  shows "(b - a) * (\<Sum>x \<in> A. lagrange_basis A x z) =
    (z - a) * (\<Sum>x \<in> A - {a}. lagrange_basis (A - {a}) x z) -
    (z - b) * (\<Sum>x \<in> A - {b}. lagrange_basis (A - {b}) x z)"
proof -
  define L where "L x = lagrange_basis A x z" for x
  have shrink: "(z - c) * (\<Sum>x \<in> A - {c}. lagrange_basis (A - {c}) x z) =
      (\<Sum>x \<in> A. (x - c) * L x)" if "c \<in> A" for c
  proof -
    have "(z - c) * (\<Sum>x \<in> A - {c}. lagrange_basis (A - {c}) x z) = (\<Sum>x \<in> A - {c}. (x - c) * L x)"
      unfolding sum_distrib_left L_def
      using assms(1) that by (intro sum.cong) (auto simp: lagrange_basis_remove)
    also have "\<dots> = (\<Sum>x \<in> A. (x - c) * L x)"
      using assms(1) that by (simp add: sum_diff1)
    finally show ?thesis .
  qed
  have "(\<Sum>x \<in> A. (x - a) * L x) - (\<Sum>x \<in> A. (x - b) * L x) = (\<Sum>x \<in> A. (b - a) * L x)"
    unfolding sum_subtractf [symmetric] by (intro sum.cong) (simp_all add: algebra_simps)
  then show ?thesis
    using shrink [OF assms(2)] shrink [OF assms(3)] by (simp add: sum_distrib_left L_def)
qed

lemma lagrange_sum_one: "finite A \<Longrightarrow> A \<noteq> {} \<Longrightarrow> (\<Sum>x \<in> A. lagrange_basis A x z) = 1"
proof (induction "card A" arbitrary: A rule: less_induct)
  case less
  show ?case
  proof (cases "\<exists>a. A = {a}")
    case True
    then show ?thesis by (auto simp: lagrange_basis_def)
  next
    case False
    then obtain a b where ab: "a \<in> A" "b \<in> A" "a \<noteq> b"
      using less.prems(2) by (metis is_singletonI' is_singleton_def)
    have one: "(\<Sum>x \<in> A - {c}. lagrange_basis (A - {c}) x z) = 1" if "c \<in> A" for c
    proof (rule less.hyps)
      show "card (A - {c}) < card A" using less.prems(1) that by (rule card_Diff1_less)
      show "finite (A - {c})" using less.prems(1) by simp
      show "A - {c} \<noteq> {}" using ab that by blast
    qed
    have "(b - a) * (\<Sum>x \<in> A. lagrange_basis A x z) = (b - a) * 1"
      using lagrange_sum_neville [OF less.prems(1) ab, of z] one [OF ab(1)] one [OF ab(2)]
      by (simp add: algebra_simps)
    then show ?thesis using ab(3) by simp
  qed
qed

text \<open>A polynomial with at most \<open>card A\<close> coefficients is interpolated by its values on \<open>A\<close>.\<close>

lemma lagrange_interpolation:
  "finite A \<Longrightarrow> A \<noteq> {} \<Longrightarrow> length cs \<le> card A \<Longrightarrow>
   (\<Sum>x \<in> A. poly_val cs x * lagrange_basis A x z) = poly_val cs z"
proof (induction "card A" arbitrary: A cs rule: less_induct)
  case less
  obtain a where a: "a \<in> A" using less.prems(2) by blast
  define g where "g = synth_div a cs"
  have split: "poly_val cs x = poly_val cs a + (x - a) * poly_val g x" for x
    using synth_div [of cs x a] by (simp add: g_def algebra_simps)
  have "(\<Sum>x \<in> A. poly_val cs x * lagrange_basis A x z) =
      (\<Sum>x \<in> A. poly_val cs a * lagrange_basis A x z) +
      (\<Sum>x \<in> A. poly_val g x * ((x - a) * lagrange_basis A x z))"
    unfolding sum.distrib [symmetric]
  proof (rule sum.cong [OF refl])
    fix x
    show "poly_val cs x * lagrange_basis A x z = poly_val cs a * lagrange_basis A x z +
        poly_val g x * ((x - a) * lagrange_basis A x z)"
      by (subst split [of x]) (simp add: algebra_simps)
  qed
  also have "(\<Sum>x \<in> A. poly_val cs a * lagrange_basis A x z) = poly_val cs a"
    using lagrange_sum_one [OF less.prems(1,2)] by (simp add: sum_distrib_left [symmetric])
  also have "(\<Sum>x \<in> A. poly_val g x * ((x - a) * lagrange_basis A x z)) =
      (\<Sum>x \<in> A - {a}. poly_val g x * ((x - a) * lagrange_basis A x z))"
    using less.prems(1) a by (simp add: sum_diff1)
  also have "\<dots> = (z - a) * (\<Sum>x \<in> A - {a}. poly_val g x * lagrange_basis (A - {a}) x z)"
    unfolding sum_distrib_left
  proof (rule sum.cong [OF refl])
    fix x assume "x \<in> A - {a}"
    then have "(z - a) * lagrange_basis (A - {a}) x z = (x - a) * lagrange_basis A x z"
      using less.prems(1) a by (intro lagrange_basis_remove) auto
    then show "poly_val g x * ((x - a) * lagrange_basis A x z) =
        (z - a) * (poly_val g x * lagrange_basis (A - {a}) x z)"
      by (metis mult.left_commute)
  qed
  also have "\<dots> = (z - a) * poly_val g z"
  proof (cases "A = {a}")
    case True
    then have "g = []"
      using less.prems(3) length_synth_div [of a cs] by (simp add: g_def)
    then show ?thesis using True by simp
  next
    case False
    have "(\<Sum>x \<in> A - {a}. poly_val g x * lagrange_basis (A - {a}) x z) = poly_val g z"
    proof (rule less.hyps)
      show "card (A - {a}) < card A" using less.prems(1) a by (rule card_Diff1_less)
      show "finite (A - {a})" using less.prems(1) by simp
      show "A - {a} \<noteq> {}" using False a by blast
      show "length g \<le> card (A - {a})"
        using less.prems(1,3) a length_synth_div [of a cs] by (simp add: g_def)
    qed
    then show ?thesis by simp
  qed
  finally show ?case using split [of z] by simp
qed

subsection \<open>What the two routines compute\<close>

lemma foldl_prod_pair:
  "foldl (\<lambda>(n, d) y. if y = x then (n, d) else (n * f y, d * g y)) (n0, d0) l =
   (n0 * (\<Prod>y \<leftarrow> filter (\<lambda>y. y \<noteq> x) l. f y),
    (d0 :: 's::comm_ring_1) * (\<Prod>y \<leftarrow> filter (\<lambda>y. y \<noteq> x) l. g y))"
  by (induction l arbitrary: n0 d0) (auto simp: algebra_simps)

lemma prod_list_filter_distinct:
  "distinct l \<Longrightarrow>
   (\<Prod>y \<leftarrow> filter (\<lambda>y. y \<noteq> x) l. f y) = (\<Prod>y \<in> set l - {x}. (f y :: 's::comm_ring_1))"
proof (induction l)
  case Nil
  then show ?case by simp
next
  case (Cons a l)
  then show ?case by (cases "a = x") (auto simp: insert_Diff_if)
qed

lemma calc_lagrange_coeff_Ok:
  assumes "distinct l"
  shows "calc_lagrange_coeff l p x = Ok (lagrange_basis (set l) p x)"
proof -
  have "(\<Prod>y \<in> set l - {p}. p - y) \<noteq> 0"
    by (auto simp: prod_zero_iff)
  then show ?thesis
    using assms
    by (simp add: calc_lagrange_coeff_def is_unique_set_Ok [THEN iffD2] foldl_prod_pair
        prod_list_filter_distinct scalar_invert_def lagrange_basis_def prod_dividef)
      (simp add: divide_inverse)
qed

lemma calc_lagrange_coeff_duplicate:
  "\<not> distinct l \<Longrightarrow> \<not> res_is_ok (calc_lagrange_coeff l p x)"
  using is_unique_set_Ok [of l] by (cases "is_unique_set l") (auto simp: calc_lagrange_coeff_def)

lemma interpolate_x_Ok:
  assumes "distinct l" and "x \<in> set l"
  shows "interpolate_x l x = Ok (lagrange_basis (set l) x 0)"
proof -
  have nz: "(\<Prod>y \<in> set l - {x}. y - x) \<noteq> 0"
    by (auto simp: prod_zero_iff)
  have flip: "(\<Prod>y \<in> set l - {x}. y / (y - x)) = (\<Prod>y \<in> set l - {x}. (0 - y) / (x - y))"
  proof (rule prod.cong [OF refl])
    fix y assume "y \<in> set l - {x}"
    then show "y / (y - x) = (0 - y) / (x - y)"
      by (simp add: minus_divide_right)
  qed
  have num: "prod_list (filter (\<lambda>y. y \<noteq> x) l) = (\<Prod>y \<in> set l - {x}. y)"
    using prod_list_filter_distinct [OF assms(1), of "\<lambda>y. y" x] by simp
  have "interpolate_x l x =
      Ok ((\<Prod>y \<in> set l - {x}. y) * inverse (\<Prod>y \<in> set l - {x}. y - x))"
    using assms nz
    by (simp add: interpolate_x_def is_included_Ok [THEN iffD2] is_unique_set_Ok [THEN iffD2]
        foldl_prod_pair num prod_list_filter_distinct scalar_invert_def)
  also have "\<dots> = Ok (\<Prod>y \<in> set l - {x}. y / (y - x))"
    by (simp only: prod_dividef divide_inverse [symmetric])
  finally show ?thesis by (simp only: flip lagrange_basis_def)
qed

lemma interpolate_x_eq_Ok [res_simps]:
  "interpolate_x l x = Ok y \<longleftrightarrow> distinct l \<and> x \<in> set l \<and> y = lagrange_basis (set l) x 0"
proof
  assume ok: "interpolate_x l x = Ok y"
  then have "x \<in> set l" and "distinct l"
    by (auto simp: interpolate_x_def res_simps split: prod.splits)
  then show "distinct l \<and> x \<in> set l \<and> y = lagrange_basis (set l) x 0"
    using ok interpolate_x_Ok [of l x] by simp
next
  assume "distinct l \<and> x \<in> set l \<and> y = lagrange_basis (set l) x 0"
  then show "interpolate_x l x = Ok y" by (simp add: interpolate_x_Ok)
qed

subsection \<open>The contract of a Lagrange routine\<close>

text \<open>
  What \<open>sign_msg\<close>, \<open>derive_shares_secret\<close> and \<open>create_ecdh_share\<close> need: for the members'
  distinct x-coordinates, the coefficient of each member is the Lagrange basis value at zero.
\<close>

locale lagrange_zero =
  fixes coeff :: "'s::field list \<Rightarrow> 's \<Rightarrow> 's res"
  assumes coeff_ok:
    "distinct xs \<Longrightarrow> x \<in> set xs \<Longrightarrow> coeff xs x = Ok (lagrange_basis (set xs) x 0)"
begin

lemma coeff_total: "distinct xs \<Longrightarrow> x \<in> set xs \<Longrightarrow> coeff xs x = Ok (ok_val (coeff xs x))"
  by (simp add: coeff_ok)

lemma reconstruct:
  assumes "distinct xs" and "xs \<noteq> []" and "length cs \<le> length xs"
  shows "(\<Sum>x \<leftarrow> xs. ok_val (coeff xs x) * poly_val cs x) = poly_val cs 0"
proof -
  have "(\<Sum>x \<leftarrow> xs. ok_val (coeff xs x) * poly_val cs x) =
      (\<Sum>x \<in> set xs. poly_val cs x * lagrange_basis (set xs) x 0)"
    using assms(1) by (simp add: sum_list_distinct_set coeff_ok mult.commute)
  also have "\<dots> = poly_val cs 0"
    using assms by (intro lagrange_interpolation) (auto simp: distinct_card)
  finally show ?thesis .
qed

text \<open>The same with members given by their indices, and a factor common to all of them.\<close>

lemma reconstruct_indexed:
  assumes "distinct (map f ms)" and "ms \<noteq> []" and "length cs \<le> length ms"
    and "\<And>m. m \<in> set ms \<Longrightarrow> s m = poly_val cs (f m)"
  shows "(\<Sum>m \<leftarrow> ms. k * ok_val (coeff (map f ms) (f m)) * (c * s m)) = k * c * poly_val cs 0"
proof -
  have "(\<Sum>m \<leftarrow> ms. k * ok_val (coeff (map f ms) (f m)) * (c * s m)) =
      (\<Sum>m \<leftarrow> ms. k * c * (ok_val (coeff (map f ms) (f m)) * poly_val cs (f m)))"
    using assms(4) by (intro arg_cong [where f = sum_list] map_cong) (auto simp: algebra_simps)
  also have "\<dots> = k * c * (\<Sum>x \<leftarrow> map f ms. ok_val (coeff (map f ms) x) * poly_val cs x)"
    by (simp add: sum_list_const_mult comp_def)
  also have "\<dots> = k * c * poly_val cs 0"
    using reconstruct [of "map f ms" cs] assms(1-3) by simp
  finally show ?thesis .
qed

end

text \<open>\<open>interpolate_x\<close> over all members.\<close>

interpretation interp: lagrange_zero interpolate_x
  by unfold_locales (rule interpolate_x_Ok)

text \<open>\<open>calc_lagrange_coeff\<close> at zero, called with the other members only.\<close>

lemma lagrange_basis_others: "lagrange_basis (A - {x}) x z = lagrange_basis A x z"
  by (simp add: lagrange_basis_def)

interpretation calc: lagrange_zero "\<lambda>xs x. calc_lagrange_coeff (filter (\<lambda>y. y \<noteq> x) xs) x 0"
proof unfold_locales
  fix xs :: "'a list" and x
  assume "distinct xs" and "x \<in> set xs"
  moreover have "set (filter (\<lambda>y. y \<noteq> x) xs) = set xs - {x}" by auto
  ultimately show "calc_lagrange_coeff (filter (\<lambda>y. y \<noteq> x) xs) x 0 =
      Ok (lagrange_basis (set xs) x 0)"
    by (simp add: calc_lagrange_coeff_Ok lagrange_basis_others)
qed

lemma interpolate_root_Ok:
  assumes "distinct xs" and "xs \<noteq> []" and "length cs \<le> length xs"
  shows "interpolate_root (map (\<lambda>x. (x, poly_val cs x)) xs) = Ok (poly_val cs 0)"
proof -
  have loop: "foldR (\<lambda>p (x, y). bindR (interpolate_x xs x) (\<lambda>delta. Ok (p + delta * y))) p
      (map (\<lambda>x. (x, poly_val cs x)) ys) =
      Ok (p + (\<Sum>x \<leftarrow> ys. ok_val (interpolate_x xs x) * poly_val cs x))"
    if "set ys \<subseteq> set xs" for p ys
    using that assms(1)
  proof (induction ys arbitrary: p)
    case Nil
    then show ?case by simp
  next
    case (Cons y ys)
    then show ?case by (simp add: interpolate_x_Ok add.assoc)
  qed
  show ?thesis
    using loop [of xs 0] interp.reconstruct [OF assms]
    by (simp add: interpolate_root_def comp_def)
qed

end
