(* ===== verification/Shares.thy ===== *)
theory Shares
  imports Poly
begin

text \<open>
  \<open>src/types/share.rs\<close>, \<open>src/vss.rs\<close>, \<open>src/shares.rs\<close> and \<open>src/group.rs\<close>: Shamir shares of a
  secret polynomial, their Feldman commitments, share verification, and the trusted dealer's
  share set.  The lemmas give each operation its meaning on polynomials: a share at index \<open>i\<close>
  is the value at \<open>i\<close>, a commitment is the coefficient times the generator.
\<close>

subsection \<open>\<open>types/share.rs\<close>\<close>

record secret_share =
  ss_idx :: u32
  ss_seckey :: bytes

record public_share =
  ps_idx :: u32
  ps_pubkey :: bytes

record secret_share_set =
  sss_shares :: "secret_share list"
  sss_vss_commits :: "bytes list"

record dealer_share_set =
  dss_shares :: "secret_share list"
  dss_vss_commits :: "bytes list"
  dss_group_pk :: bytes

record secret_share_package =
  ssp_idx :: u32
  ssp_shares :: "secret_share list"
  ssp_vss_commits :: "bytes list"

subsection \<open>\<open>vss.rs\<close>\<close>

text \<open>\<open>rnd i\<close> is the draw \<open>random_bytes_32()\<close> makes for coefficient \<open>i\<close>.\<close>

definition create_share_coeffs :: "bytes list \<Rightarrow> nat \<Rightarrow> (nat \<Rightarrow> bytes) \<Rightarrow> 's::field list" where
  "create_share_coeffs secrets threshold rnd =
     map (\<lambda>i. if i < length secrets then mod_n (be_nat (secrets ! i)) else mod_n (be_nat (rnd i)))
       [0..<threshold]"

definition get_share_commits ::
  "('s::field, 'p::ab_group_add, 'z) externals_scheme \<Rightarrow> 's list \<Rightarrow> bytes list res" where
  "get_share_commits E coeffs = mapR (\<lambda>c. serialize_element E (scalar_base_multi E c)) coeffs"

definition merge_share_commits ::
  "('s::field, 'p::ab_group_add, 'z) externals_scheme \<Rightarrow> bytes list \<Rightarrow> bytes list \<Rightarrow> bytes list res"
where
  "merge_share_commits E commits_a commits_b =
     bindR (equal_arr_size commits_a commits_b) (\<lambda>_.
     mapR (\<lambda>(a, b).
             bindR (lift_x E a) (\<lambda>pa.
             bindR (lift_x E b) (\<lambda>pb.
             let pc = pa + pb in serialize_element E pc)))
       (zip commits_a commits_b))"

subsection \<open>\<open>shares.rs\<close>\<close>

definition create_shares ::
  "('s::field, 'p::ab_group_add, 'z) externals_scheme \<Rightarrow> 's list \<Rightarrow> u32 \<Rightarrow> secret_share list res" where
  "create_shares E coeffs cnt =
     mapR (\<lambda>i. let x = index_to_scalar i
                in bindR (evaluate_x coeffs x) (\<lambda>scalar.
                   Ok \<lparr>ss_idx = i, ss_seckey = scalar_to_bytes E scalar\<rparr>))
       (map of_nat [1..<Suc (unat cnt)])"

definition combine_shares ::
  "('s::field, 'p::ab_group_add, 'z) externals_scheme \<Rightarrow> secret_share list \<Rightarrow> bytes" where
  "combine_shares E shares =
     scalar_to_bytes E (foldl (\<lambda>acc s. acc + scalar_from_bytes (ss_seckey s)) 0 shares)"

definition combine_set ::
  "('s::field, 'p::ab_group_add, 'z) externals_scheme \<Rightarrow> secret_share list \<Rightarrow> secret_share res" where
  "combine_set E shares =
     bindR (is_equal_set (map ss_idx shares)) (\<lambda>_.
     case shares of
       [] \<Rightarrow> Panic
     | s # _ \<Rightarrow> Ok \<lparr>ss_idx = ss_idx s, ss_seckey = combine_shares E shares\<rparr>)"

definition merge_shares ::
  "('s::field, 'p::ab_group_add, 'z) externals_scheme \<Rightarrow>
   secret_share list \<Rightarrow> secret_share list \<Rightarrow> secret_share list res" where
  "merge_shares E shares_a shares_b =
     bindR (equal_arr_size shares_a shares_b) (\<lambda>_.
     mapR (\<lambda>curr.
             bindR (ok_or (find (\<lambda>s. ss_idx s = ss_idx curr) shares_b) (RecordNotFound (ss_idx curr)))
               (\<lambda>aux. combine_set E [curr, aux]))
       shares_a)"

text \<open>One round of the loop that sums the committed polynomial in the exponent.\<close>

definition vss_term ::
  "('s::field, 'p::ab_group_add, 'z) externals_scheme \<Rightarrow> bytes list \<Rightarrow> u32 \<Rightarrow>
   'p option \<Rightarrow> nat \<Rightarrow> 'p option res" where
  "vss_term E commits idx acc j =
     (if length commits \<le> j then Panic
      else bindR (lift_x E (commits ! j)) (\<lambda>point.
        let exp = pow_n (unat idx) j;
            prod = scalar_multi E point exp
        in Ok (Some (case acc of None \<Rightarrow> prod | Some a \<Rightarrow> a + prod))))"

definition verify_share ::
  "('s::field, 'p::ab_group_add, 'z) externals_scheme \<Rightarrow> bytes list \<Rightarrow> secret_share \<Rightarrow> nat \<Rightarrow> bool res"
where
  "verify_share E commits share threshold =
     (let scalar = scalar_from_bytes (ss_seckey share);
          s_i = scalar_base_multi E scalar
      in bindR (foldR (vss_term E commits (ss_idx share)) None [0..<threshold]) (\<lambda>s_ip_opt.
         bindR (ok_or s_ip_opt (Assertion ''no commits'')) (\<lambda>s_ip.
         Ok (point_x E s_i = point_x E s_ip))))"

definition derive_shares_secret ::
  "('s::field, 'p::ab_group_add, 'z) externals_scheme \<Rightarrow> secret_share list \<Rightarrow> bytes res" where
  "derive_shares_secret E shares =
     (let points = map (\<lambda>s. (index_to_scalar (ss_idx s), scalar_from_bytes (ss_seckey s))) shares
      in bindR (interpolate_root points) (\<lambda>secret. Ok (scalar_to_bytes E secret)))"

subsection \<open>\<open>group.rs\<close>\<close>

definition create_share_set ::
  "('s::field, 'p::ab_group_add, 'z) externals_scheme \<Rightarrow> nat \<Rightarrow> u32 \<Rightarrow> bytes list \<Rightarrow>
   (nat \<Rightarrow> bytes) \<Rightarrow> secret_share_set res" where
  "create_share_set E threshold share_max secrets rnd =
     (let coeffs = create_share_coeffs secrets threshold rnd
      in bindR (create_shares E coeffs share_max) (\<lambda>shares.
         bindR (get_share_commits E coeffs) (\<lambda>vss_commits.
         Ok \<lparr>sss_shares = shares, sss_vss_commits = vss_commits\<rparr>)))"

definition create_dealer_set ::
  "('s::field, 'p::ab_group_add, 'z) externals_scheme \<Rightarrow> nat \<Rightarrow> u32 \<Rightarrow> bytes list \<Rightarrow>
   (nat \<Rightarrow> bytes) \<Rightarrow> dealer_share_set res" where
  "create_dealer_set E threshold share_max secrets rnd =
     bindR (create_share_set E threshold share_max secrets rnd) (\<lambda>share_set.
     case sss_vss_commits share_set of
       [] \<Rightarrow> Panic
     | group_pk # _ \<Rightarrow>
         Ok \<lparr>dss_shares = sss_shares share_set, dss_vss_commits = sss_vss_commits share_set,
              dss_group_pk = group_pk\<rparr>)"

subsection \<open>Meaning on polynomials\<close>

text \<open>The scalar a share carries, in the scalar field of the given externals.\<close>

definition share_scalar ::
  "('s::field, 'p::ab_group_add, 'z) externals_scheme \<Rightarrow> secret_share \<Rightarrow> 's" where
  "share_scalar E s = scalar_from_bytes (ss_seckey s)"

text \<open>A share lies on the polynomial with the given coefficients.\<close>

definition on_poly ::
  "('s::field, 'p::ab_group_add, 'z) externals_scheme \<Rightarrow> 's list \<Rightarrow> secret_share \<Rightarrow> bool" where
  "on_poly E cs s \<longleftrightarrow> share_scalar E s = poly_val cs (index_to_scalar (ss_idx s))"

lemma length_create_share_coeffs [simp]: "length (create_share_coeffs secrets n rnd) = n"
  by (simp add: create_share_coeffs_def)

lemma get_share_commits_eq_Ok [res_simps]:
  assumes "k256_laws E"
  shows "get_share_commits E cs = Ok vs \<longleftrightarrow>
    0 \<notin> set cs \<and> vs = map (\<lambda>c. point_encode E (point_mul E (point_gen E) c)) cs"
proof -
  have "serialize_element E (scalar_base_multi E c) = Ok v \<longleftrightarrow>
      c \<noteq> 0 \<and> v = point_encode E (point_mul E (point_gen E) c)" for c v
    using assms
    by (simp add: serialize_element_eq_Ok scalar_base_multi_def point_mul_gen_zero_iff)
  then show ?thesis
    unfolding get_share_commits_def mapR_eq_Ok
    by (induction cs arbitrary: vs) (auto simp: list_all2_Cons1)
qed

lemma create_shares_eq_Ok:
  assumes "create_shares (E :: ('s::field, 'p::ab_group_add, 'z) externals_scheme) cs n = Ok shares"
  shows "shares = map (\<lambda>i. \<lparr>ss_idx = of_nat i,
             ss_seckey = scalar_to_bytes E (poly_val cs (index_to_scalar (of_nat i)))\<rparr>)
           [1..<Suc (unat n)]"
    and "\<forall>s \<in> set shares. index_to_scalar (ss_idx s) \<noteq> (0 :: 's)"
proof -
  have *: "list_all2 (\<lambda>i s. index_to_scalar i \<noteq> (0 :: 's) \<and>
        \<lparr>ss_idx = i, ss_seckey = scalar_to_bytes E (poly_val cs (index_to_scalar i))\<rparr> = s)
      (map of_nat [1..<Suc (unat n)]) shares"
    using assms by (simp add: create_shares_def mapR_eq_Ok Let_def res_simps del: upt_Suc)
  then have "shares = map (\<lambda>i. \<lparr>ss_idx = i,
      ss_seckey = scalar_to_bytes E (poly_val cs (index_to_scalar i))\<rparr>)
      (map of_nat [1..<Suc (unat n)])"
    by (intro nth_equalityI) (auto simp: list_all2_conv_all_nth simp del: upt_Suc)
  then show "shares = map (\<lambda>i. \<lparr>ss_idx = of_nat i,
             ss_seckey = scalar_to_bytes E (poly_val cs (index_to_scalar (of_nat i)))\<rparr>)
           [1..<Suc (unat n)]"
    by (simp add: comp_def del: upt_Suc)
  show "\<forall>s \<in> set shares. index_to_scalar (ss_idx s) \<noteq> (0 :: 's)"
  proof
    fix s assume "s \<in> set shares"
    then obtain i where "index_to_scalar i \<noteq> (0 :: 's)"
      and "\<lparr>ss_idx = i, ss_seckey = scalar_to_bytes E (poly_val cs (index_to_scalar i))\<rparr> = s"
      using * by (auto simp: list_all2_conv_all_nth in_set_conv_nth simp del: upt_Suc)
    then show "index_to_scalar (ss_idx s) \<noteq> (0 :: 's)" by auto
  qed
qed

lemma create_shares_on_poly:
  assumes "k256_laws E" and "create_shares E cs n = Ok shares" and "s \<in> set shares"
  shows "on_poly E cs s"
  using create_shares_eq_Ok(1) [OF assms(2)] assms(1,3)
  by (auto simp: on_poly_def share_scalar_def)

lemma create_shares_idx:
  assumes "create_shares E cs n = Ok shares"
  shows "map ss_idx shares = map of_nat [1..<Suc (unat n)]" and "length shares = unat n"
  using create_shares_eq_Ok(1) [OF assms] by (simp_all add: comp_def del: upt_Suc)

lemma create_shares_idx_distinct:
  assumes "create_shares E cs n = Ok shares"
  shows "distinct (map ss_idx shares)"
proof -
  have "unat (of_nat i :: u32) = i" if "i \<in> set [1..<Suc (unat n)]" for i
  proof -
    have "i < 4294967296"
      using that unat_u32_less [of n] by (simp only: set_upt atLeastLessThan_iff) linarith
    then show ?thesis by (simp add: unat_of_nat)
  qed
  then have "inj_on (of_nat :: nat \<Rightarrow> u32) (set [1..<Suc (unat n)])"
    by (metis inj_onI)
  then show ?thesis
    by (simp add: create_shares_idx(1) [OF assms] distinct_map del: upt_Suc)
qed

text \<open>The commitment sum is the committed polynomial's value times the generator.\<close>

lemma vss_loop:
  assumes "k256_laws E" and "0 \<notin> set cs" and "n \<le> length cs" and "n > 0"
  shows "foldR (vss_term E (map (\<lambda>c. point_encode E (point_mul E (point_gen E) c)) cs) idx) None [0..<n] =
    Ok (Some (point_mul E (point_gen E) (\<Sum>k < n. cs ! k * index_to_scalar idx ^ k)))"
proof -
  let ?commits = "map (\<lambda>c. point_encode E (point_mul E (point_gen E) c)) cs"
  let ?G = "point_gen E"
  have term1: "vss_term E ?commits idx acc j = Ok (Some
      ((case acc of None \<Rightarrow> 0 | Some a \<Rightarrow> a) + point_mul E ?G (cs ! j * index_to_scalar idx ^ j)))"
    if "j < length cs" for acc j
  proof -
    have "cs ! j \<noteq> 0" using that assms(2) by (metis nth_mem)
    then have "point_mul E ?G (cs ! j) \<noteq> 0"
      using assms(1) by (simp add: point_mul_gen_zero_iff)
    then show ?thesis
      using that assms(1)
      by (simp add: vss_term_def lift_x_encode pow_n_eq index_to_scalar_eq scalar_multi_def
          point_mul_assoc split: option.split)
  qed
  have app: "foldR f acc (xs @ [x]) = bindR (foldR f acc xs) (\<lambda>a. f a x)"
    for f :: "'b option \<Rightarrow> nat \<Rightarrow> 'b option res" and acc xs x
    by (induction f acc xs rule: foldR.induct) (auto intro: bindR_cong simp: bindR_eq_Ok)
  show ?thesis
    using assms(3,4)
  proof (induction n)
    case 0
    then show ?case by simp
  next
    case (Suc n)
    then have n: "n < length cs" by simp
    show ?case
    proof (cases "n = 0")
      case True
      have "vss_term E ?commits idx None 0 = Ok (Some (point_mul E ?G (cs ! 0)))"
        using term1 [of 0 None] n True by simp
      then show ?thesis by (simp add: True)
    next
      case False
      then show ?thesis
        using Suc assms(1) by (simp add: app term1 [OF n] point_mul_add)
    qed
  qed
qed

text \<open>
  Share verification against honest commitments accepts exactly the committed value and its
  negation: the comparison is of x-coordinates only.
\<close>

lemma verify_share_commits:
  assumes "k256_laws E" and "get_share_commits E cs = Ok commits" and "cs \<noteq> []"
  shows "verify_share E commits share (length cs) =
    Ok (share_scalar E share = poly_val cs (index_to_scalar (ss_idx share)) \<or>
        share_scalar E share = - poly_val cs (index_to_scalar (ss_idx share)))"
proof -
  let ?v = "poly_val cs (index_to_scalar (ss_idx share))"
  have cs: "0 \<notin> set cs" "commits = map (\<lambda>c. point_encode E (point_mul E (point_gen E) c)) cs"
    using assms by (auto simp: get_share_commits_eq_Ok)
  have "foldR (vss_term E commits (ss_idx share)) None [0..<length cs] =
      Ok (Some (point_mul E (point_gen E) ?v))"
    using vss_loop [OF assms(1) cs(1), of "length cs" "ss_idx share"] assms(3)
    by (simp add: cs(2) poly_val_sum)
  then show ?thesis
    using assms(1)
    by (simp add: verify_share_def Let_def ok_or_def scalar_base_multi_def point_x_eq_iff
        share_scalar_def point_mul_gen_eq_iff flip: point_mul_minus)
qed

lemma derive_shares_secret_eq:
  assumes "k256_laws E"
    and "\<forall>s \<in> set shares. on_poly E cs s"
    and "distinct (map (index_to_scalar \<circ> ss_idx) shares :: 's list)"
    and "shares \<noteq> []" and "length cs \<le> length shares"
  shows "derive_shares_secret (E :: ('s::field, 'p::ab_group_add, 'z) externals_scheme) shares =
         Ok (scalar_to_bytes E (poly_val cs 0))"
proof -
  let ?xs = "map (index_to_scalar \<circ> ss_idx) shares :: 's list"
  have "map (\<lambda>s. (index_to_scalar (ss_idx s), scalar_from_bytes (ss_seckey s))) shares =
      map (\<lambda>x. (x, poly_val cs x)) ?xs"
    using assms(2) by (simp add: on_poly_def share_scalar_def)
  moreover have "interpolate_root (map (\<lambda>x. (x, poly_val cs x)) ?xs) = Ok (poly_val cs 0)"
    by (rule interpolate_root_Ok) (use assms(3-5) in simp_all)
  ultimately show ?thesis
    by (simp only: derive_shares_secret_def Let_def bindR.simps)
qed

lemma combine_set_eq_Ok:
  "combine_set E shares = Ok r \<longleftrightarrow>
   shares \<noteq> [] \<and> (\<forall>s \<in> set shares. ss_idx s = ss_idx (hd shares)) \<and>
   r = \<lparr>ss_idx = ss_idx (hd shares),
        ss_seckey = scalar_to_bytes E (\<Sum>s \<leftarrow> shares. share_scalar E s)\<rparr>"
proof (cases shares)
  case Nil
  then show ?thesis by (simp add: combine_set_def is_equal_set_def)
next
  case (Cons s ss)
  have sum: "combine_shares E shares = scalar_to_bytes E (\<Sum>s \<leftarrow> shares. share_scalar E s)"
    by (simp only: combine_shares_def foldl_plus_sum_list share_scalar_def add_0)
  have eq: "combine_set E shares = Ok r \<longleftrightarrow> is_equal_set (map ss_idx shares) = Ok () \<and>
      Ok \<lparr>ss_idx = ss_idx s, ss_seckey = combine_shares E shares\<rparr> = Ok r"
    by (simp add: combine_set_def bindR_eq_Ok Cons)
  have all: "is_equal_set (map ss_idx shares) = Ok () \<longleftrightarrow> (\<forall>t \<in> set shares. ss_idx t = ss_idx s)"
    by (simp add: Cons is_equal_set_Ok)
  have hd: "hd shares = s" and ne: "shares \<noteq> []" by (simp_all add: Cons)
  show ?thesis
    by (simp only: eq sum all hd ne res.inject simp_thms) (rule conj_cong [OF refl], rule eq_commute)
qed

lemma combine_setD:
  assumes "combine_set E shares = Ok r"
  shows "shares \<noteq> []" and "s \<in> set shares \<Longrightarrow> ss_idx s = ss_idx r"
    and "r = \<lparr>ss_idx = ss_idx (hd shares),
        ss_seckey = scalar_to_bytes E (\<Sum>s \<leftarrow> shares. share_scalar E s)\<rparr>"
proof -
  show r: "r = \<lparr>ss_idx = ss_idx (hd shares),
        ss_seckey = scalar_to_bytes E (\<Sum>s \<leftarrow> shares. share_scalar E s)\<rparr>"
    and "shares \<noteq> []"
    using assms unfolding combine_set_eq_Ok by blast+
  show "s \<in> set shares \<Longrightarrow> ss_idx s = ss_idx r"
    using assms unfolding combine_set_eq_Ok by (metis secret_share.select_convs(1))
qed

lemma share_scalar_combine:
  assumes "k256_laws E" and "combine_set E shares = Ok r"
  shows "share_scalar E r = (\<Sum>s \<leftarrow> shares. share_scalar E s)"
  using combine_setD(3) [OF assms(2)] assms(1) by (simp add: share_scalar_def)

text \<open>Sums of shares are shares of the sum polynomial.\<close>

lemma length_poly_add [simp]: "length cs = length ds \<Longrightarrow> length (poly_add cs ds) = length cs"
  by (simp add: poly_add_def)

lemma foldl_poly_add:
  assumes "\<forall>ds \<in> set dss. length ds = length cs"
  shows "length (foldl poly_add cs dss) = length cs"
    and "poly_val (foldl poly_add cs dss) x = poly_val cs x + (\<Sum>ds \<leftarrow> dss. poly_val ds x)"
  using assms by (induction dss arbitrary: cs) (auto simp: poly_val_add add.assoc)

lemma on_poly_add:
  assumes "length cs = length ds" and "on_poly E cs s" and "on_poly E ds t"
    and "ss_idx t = ss_idx s" and "ss_idx r = ss_idx s"
    and "share_scalar E r = share_scalar E s + share_scalar E t"
  shows "on_poly E (poly_add cs ds) r"
  using assms by (simp add: on_poly_def poly_val_add)

end
