(* ===== verification/Commit.thy ===== *)
theory Commit
  imports Shares
begin

text \<open>
  \<open>src/types/commit.rs\<close> and \<open>src/commit.rs\<close>: nonces, their public commitments, the binding
  factors and the group nonce.  The lemmas compute the binding factor of a member and the group
  nonce as the sum of hidden nonces and factored binding nonces.
\<close>

subsection \<open>\<open>types/commit.rs\<close>\<close>

record secret_nonce =
  sn_idx :: u32
  binder_sn :: bytes
  hidden_sn :: bytes

record public_nonce =
  pn_idx :: u32
  binder_pn :: bytes
  hidden_pn :: bytes

record commitment_package =
  cp_idx :: u32
  cp_binder_sn :: bytes
  cp_hidden_sn :: bytes
  cp_binder_pn :: bytes
  cp_hidden_pn :: bytes

record bind_factor =
  bf_idx :: u32
  bf_factor :: bytes

definition cp_secret_nonce :: "commitment_package \<Rightarrow> secret_nonce" where
  "cp_secret_nonce c = \<lparr>sn_idx = cp_idx c, binder_sn = cp_binder_sn c, hidden_sn = cp_hidden_sn c\<rparr>"

definition cp_public_nonce :: "commitment_package \<Rightarrow> public_nonce" where
  "cp_public_nonce c = \<lparr>pn_idx = cp_idx c, binder_pn = cp_binder_pn c, hidden_pn = cp_hidden_pn c\<rparr>"

subsection \<open>\<open>commit.rs\<close>\<close>

definition get_nonce_ids :: "public_nonce list \<Rightarrow> u32 list" where
  "get_nonce_ids pnonces = map pn_idx pnonces"

definition get_commits_prefix :: "public_nonce list \<Rightarrow> bytes" where
  "get_commits_prefix pnonces =
     concat (map (\<lambda>pn. serialize_scalar_u32 (pn_idx pn) @ hidden_pn pn @ binder_pn pn)
       (sort_key pn_idx pnonces))"

definition get_group_prefix ::
  "('s, 'p, 'z) externals_scheme \<Rightarrow> public_nonce list \<Rightarrow> bytes \<Rightarrow> bytes \<Rightarrow> bytes" where
  "get_group_prefix E pnonces group_pk message =
     (let msg_hash = h4 E message;
          commit_list = get_commits_prefix pnonces;
          commit_hash = h5 E commit_list
      in group_pk @ msg_hash @ commit_hash)"

definition get_bind_factor :: "bind_factor list \<Rightarrow> u32 \<Rightarrow> bytes res" where
  "get_bind_factor binders idx =
     ok_or (map_option bf_factor (find (\<lambda>b. bf_idx b = idx) binders)) (RecordNotFound idx)"

definition get_group_binders ::
  "('s::field, 'p::ab_group_add, 'z) externals_scheme \<Rightarrow> public_nonce list \<Rightarrow> bytes \<Rightarrow> bind_factor list"
where
  "get_group_binders E pnonces prefx =
     map (\<lambda>pn. let scalar_bytes = serialize_scalar_u32 (pn_idx pn);
                   rho_input = prefx @ scalar_bytes;
                   factor = h1 E rho_input
               in \<lparr>bf_idx = pn_idx pn, bf_factor = factor\<rparr>) pnonces"

text \<open>One round of the loop of \<open>get_group_pubnonce\<close>.\<close>

definition pubnonce_step ::
  "('s::field, 'p::ab_group_add, 'z) externals_scheme \<Rightarrow> bind_factor list \<Rightarrow> 'p option \<Rightarrow>
   public_nonce \<Rightarrow> 'p option res" where
  "pubnonce_step E binders group_commit pn =
     bindR (lift_x E (hidden_pn pn)) (\<lambda>hidden_elem.
     bindR (lift_x E (binder_pn pn)) (\<lambda>binding_elem.
     bindR (get_bind_factor binders (pn_idx pn)) (\<lambda>bind_factor_bytes.
     let bind_factor = scalar_from_bytes bind_factor_bytes;
         factored_elem = scalar_multi E binding_elem bind_factor
     in bindR (element_add group_commit (Some hidden_elem)) (\<lambda>g1.
        bindR (element_add (Some g1) (Some factored_elem)) (\<lambda>g2. Ok (Some g2))))))"

definition get_group_pubnonce ::
  "('s::field, 'p::ab_group_add, 'z) externals_scheme \<Rightarrow> public_nonce list \<Rightarrow> bind_factor list \<Rightarrow>
   bytes res" where
  "get_group_pubnonce E pnonces binders =
     bindR (foldR (pubnonce_step E binders) None pnonces) (\<lambda>group_commit.
     bindR (ok_or group_commit BothPointsNull) (\<lambda>pt.
     serialize_element E pt))"

text \<open>\<open>binder_rnd\<close> and \<open>hidden_rnd\<close> are the draws made when the seed is absent.\<close>

definition create_commit_pkg ::
  "('s::field, 'p::ab_group_add, 'z) externals_scheme \<Rightarrow> secret_share \<Rightarrow> bytes option \<Rightarrow>
   bytes option \<Rightarrow> bytes \<Rightarrow> bytes \<Rightarrow> commitment_package res" where
  "create_commit_pkg E share hidden_seed binder_seed hidden_rnd binder_rnd =
     (let bsn = generate_nonce E (ss_seckey share) binder_seed binder_rnd;
          hsn = generate_nonce E (ss_seckey share) hidden_seed hidden_rnd
      in bindR (get_pubkey E bsn) (\<lambda>bpn.
         bindR (get_pubkey E hsn) (\<lambda>hpn.
         Ok \<lparr>cp_idx = ss_idx share, cp_binder_sn = bsn, cp_hidden_sn = hsn,
              cp_binder_pn = bpn, cp_hidden_pn = hpn\<rparr>)))"

definition get_commit_pkg :: "commitment_package list \<Rightarrow> secret_share \<Rightarrow> commitment_package res" where
  "get_commit_pkg commits share =
     ok_or (find (\<lambda>c. cp_idx c = ss_idx share) commits) (RecordNotFound (ss_idx share))"

subsection \<open>Binding factors\<close>

lemma get_bind_factor_binders:
  assumes "pn \<in> set pnonces"
  shows "get_bind_factor (get_group_binders E pnonces prefx) (pn_idx pn) =
    Ok (h1 E (prefx @ serialize_scalar_u32 (pn_idx pn)))"
  using assms
  by (induction pnonces)
    (auto simp: get_bind_factor_def get_group_binders_def ok_or_def Let_def)

lemma get_bind_factor_absent:
  "idx \<notin> pn_idx ` set pnonces \<Longrightarrow>
   get_bind_factor (get_group_binders E pnonces prefx) idx = Err (RecordNotFound idx)"
  by (induction pnonces)
    (auto simp: get_bind_factor_def get_group_binders_def ok_or_def Let_def)

lemma bf_idx_get_group_binders [simp]: "map bf_idx (get_group_binders E pnonces prefx) = map pn_idx pnonces"
  by (simp add: get_group_binders_def Let_def)

text \<open>The prefix binds the commitments as a set: it does not depend on the order of distinct members.\<close>

lemma get_commits_prefix_perm:
  assumes "mset xs = mset ys" and "distinct (map pn_idx xs)"
  shows "get_commits_prefix xs = get_commits_prefix ys"
proof -
  have set: "set xs = set ys" using assms(1) by (rule mset_eq_setD)
  have "distinct (map pn_idx ys)"
    using assms by (metis distinct_count_atmost_1 mset_map set_map set)
  then have "sort_key pn_idx xs = sort_key pn_idx ys"
    using assms(2) set by (intro map_sorted_distinct_set_unique [of pn_idx])
      (auto simp: distinct_map)
  then show ?thesis by (simp add: get_commits_prefix_def)
qed

subsection \<open>The group nonce\<close>

text \<open>A member's secret nonce matches its public one.\<close>

definition nonce_pair ::
  "('s::field, 'p::ab_group_add, 'z) externals_scheme \<Rightarrow> public_nonce \<Rightarrow> secret_nonce \<Rightarrow> bool" where
  "nonce_pair E pn sn \<longleftrightarrow>
     pn_idx pn = sn_idx sn \<and> get_pubkey E (hidden_sn sn) = Ok (hidden_pn pn) \<and>
     get_pubkey E (binder_sn sn) = Ok (binder_pn pn)"

definition nonce_scalar ::
  "('s::field, 'p::ab_group_add, 'z) externals_scheme \<Rightarrow> bytes \<Rightarrow> secret_nonce \<Rightarrow> 's" where
  "nonce_scalar E prefx sn =
     scalar_from_bytes (hidden_sn sn) +
     scalar_from_bytes (binder_sn sn) *
       scalar_from_bytes (h1 E (prefx @ serialize_scalar_u32 (sn_idx sn)))"

lemma create_commit_pkg_pair:
  "create_commit_pkg E share hs bs hr br = Ok c \<Longrightarrow>
   nonce_pair E (cp_public_nonce c) (cp_secret_nonce c) \<and> cp_idx c = ss_idx share"
  by (auto simp: create_commit_pkg_def nonce_pair_def cp_public_nonce_def cp_secret_nonce_def
      Let_def res_simps)

lemma pubkey_lift:
  fixes E :: "('s::field, 'p::ab_group_add, 'z) externals_scheme"
  assumes "k256_laws E" and "get_pubkey E sk = Ok pk"
  shows "lift_x E pk = Ok (point_mul E (point_gen E) (scalar_from_bytes sk))"
    and "length pk = 33"
  using assms
  by (auto simp: get_pubkey_eq_Ok lift_x_encode point_mul_gen_zero_iff point_encode_length)

lemma pubnonce_step_Ok:
  fixes E :: "('s::field, 'p::ab_group_add, 'z) externals_scheme"
  assumes "k256_laws E" and "nonce_pair E pn sn" and "pn \<in> set pnonces"
  shows "pubnonce_step E (get_group_binders E pnonces prefx) acc pn =
    Ok (Some ((case acc of None \<Rightarrow> 0 | Some a \<Rightarrow> a) +
      point_mul E (point_gen E) (nonce_scalar E prefx sn)))"
proof -
  have idx: "pn_idx pn = sn_idx sn" and lifts:
    "lift_x E (hidden_pn pn) = Ok (point_mul E (point_gen E) (scalar_from_bytes (hidden_sn sn)))"
    "lift_x E (binder_pn pn) = Ok (point_mul E (point_gen E) (scalar_from_bytes (binder_sn sn)))"
    using assms(2) pubkey_lift(1) [OF assms(1)] by (auto simp: nonce_pair_def)
  show ?thesis
    using get_bind_factor_binders [OF assms(3), of E prefx] assms(1)
    by (cases acc)
      (simp_all add: pubnonce_step_def lifts idx scalar_multi_def nonce_scalar_def point_mul_simps
        add.assoc)
qed

lemma pubnonce_fold:
  assumes "k256_laws E" and "list_all2 (nonce_pair E) ps sns" and "set ps \<subseteq> set pnonces"
  shows "foldR (pubnonce_step E (get_group_binders E pnonces prefx)) acc ps =
    Ok (if ps = [] then acc else Some ((case acc of None \<Rightarrow> 0 | Some a \<Rightarrow> a) +
      point_mul E (point_gen E) (\<Sum>sn \<leftarrow> sns. nonce_scalar E prefx sn)))"
  using assms(2,3)
proof (induction ps sns arbitrary: acc rule: list_all2_induct)
  case Nil
  then show ?case by simp
next
  case (Cons pn ps sn sns)
  then have "pn \<in> set pnonces" by simp
  note step = pubnonce_step_Ok [OF assms(1) Cons.hyps(1) this]
  show ?case
    using Cons.IH [of "Some b" for b] Cons.prems Cons.hyps(2)
    by (auto simp: step point_mul_simps [OF assms(1)] add.assoc)
qed

lemma get_group_pubnonce_eq:
  assumes "k256_laws E" and "list_all2 (nonce_pair E) pnonces sns" and "pnonces \<noteq> []"
  shows "get_group_pubnonce E pnonces (get_group_binders E pnonces prefx) =
    serialize_element E (point_mul E (point_gen E) (\<Sum>sn \<leftarrow> sns. nonce_scalar E prefx sn))"
  using pubnonce_fold [OF assms(1,2) order_refl, of prefx None] assms(3)
  by (simp add: get_group_pubnonce_def ok_or_def)

end
