(* ===== verification/Context.thy ===== *)
theory Context
  imports Commit
begin

text \<open>
  \<open>src/types/ecc.rs\<close>, \<open>src/types/ctx.rs\<close>, \<open>src/ecc/state.rs\<close> and \<open>src/context.rs\<close>: the
  parity and tweak state of the group key, and the signing context built from the key, the
  public nonces and the message.
\<close>

subsection \<open>Types\<close>

record ('s, 'p) point_state =
  st_parity :: 's
  st_point :: 'p
  st_state :: 's
  st_tweak :: 's

record ('s, 'p) group_key_context =
  kc_group_pt :: "('s, 'p) point_state"
  kc_group_pk :: bytes
  kc_int_pt :: "'p option"
  kc_int_pk :: "bytes option"
  kc_tweak :: "bytes option"

record 's group_commit_context =
  cc_bind_factors :: "bind_factor list"
  cc_bind_prefix :: bytes
  cc_challenge :: 's
  cc_group_pn :: bytes
  cc_indexes :: "u32 list"
  cc_message :: bytes
  cc_pnonces :: "public_nonce list"

record ('s, 'p) group_signing_ctx =
  ctx_group_pt :: "('s, 'p) point_state"
  ctx_group_pk :: bytes
  ctx_int_pt :: "'p option"
  ctx_int_pk :: "bytes option"
  ctx_tweak :: "bytes option"
  ctx_bind_factors :: "bind_factor list"
  ctx_bind_prefix :: bytes
  ctx_challenge :: 's
  ctx_group_pn :: bytes
  ctx_indexes :: "u32 list"
  ctx_message :: bytes
  ctx_pnonces :: "public_nonce list"

definition key_context :: "('s, 'p) group_signing_ctx \<Rightarrow> ('s, 'p) group_key_context" where
  "key_context c =
     \<lparr>kc_group_pt = ctx_group_pt c, kc_group_pk = ctx_group_pk c, kc_int_pt = ctx_int_pt c,
      kc_int_pk = ctx_int_pk c, kc_tweak = ctx_tweak c\<rparr>"

subsection \<open>\<open>ecc/state.rs\<close>\<close>

text \<open>One round of the tweak loop, on \<open>(point, state, tweak)\<close>.\<close>

definition point_state_step ::
  "('s::field, 'p::ab_group_add, 'z) externals_scheme \<Rightarrow> 'p \<times> 's \<times> 's \<Rightarrow> bytes \<Rightarrow> ('p \<times> 's \<times> 's) res"
where
  "point_state_step E acc t_bytes =
     (case acc of (point, state, tweak) \<Rightarrow>
       let t = scalar_from_bytes t_bytes;
           tg = scalar_base_multi E t;
           parity = (if has_even_y E point then 1 else - 1);
           point = (if parity = - 1 then negate_point point else point)
       in bindR (element_add (Some point) (Some tg)) (\<lambda>point.
          Ok (point, state * parity,
              mod_n (be_nat (scalar_to_bytes E (t + parity * tweak))))))"

definition get_point_state ::
  "('s::field, 'p::ab_group_add, 'z) externals_scheme \<Rightarrow> 'p \<Rightarrow> bytes list \<Rightarrow>
   ('s, 'p) point_state res" where
  "get_point_state E element tweaks =
     bindR (foldR (point_state_step E) (element, 1, 0) tweaks) (\<lambda>(point, state, tweak).
       let parity = (if has_even_y E point then 1 else - 1)
       in Ok \<lparr>st_parity = parity, st_point = point, st_state = state, st_tweak = tweak\<rparr>)"

subsection \<open>\<open>context.rs\<close>\<close>

definition get_group_key_context ::
  "('s::field, 'p::ab_group_add, 'z) externals_scheme \<Rightarrow> bytes \<Rightarrow> bytes list \<Rightarrow>
   ('s, 'p) group_key_context res" where
  "get_group_key_context E pubkey tweaks =
     bindR (lift_x E pubkey) (\<lambda>int_pt.
     bindR (serialize_element E int_pt) (\<lambda>int_pk_bytes.
     bindR (get_point_state E int_pt tweaks) (\<lambda>group_pt.
     bindR (serialize_element E (st_point group_pt)) (\<lambda>group_pk.
     Ok \<lparr>kc_group_pt = group_pt, kc_group_pk = group_pk, kc_int_pt = Some int_pt,
          kc_int_pk = Some int_pk_bytes, kc_tweak = None\<rparr>))))"

definition get_group_commit_context ::
  "('s::field, 'p::ab_group_add, 'z) externals_scheme \<Rightarrow> ('s, 'p) group_key_context \<Rightarrow>
   public_nonce list \<Rightarrow> bytes \<Rightarrow> 's group_commit_context res" where
  "get_group_commit_context E key_ctx pnonces message =
     (let bind_prefix = get_group_prefix E pnonces (kc_group_pk key_ctx) message;
          bind_factors = get_group_binders E pnonces bind_prefix
      in bindR (get_group_pubnonce E pnonces bind_factors) (\<lambda>group_pn.
         let indexes = get_nonce_ids pnonces
         in bindR (get_challenge E group_pn (kc_group_pk key_ctx) message) (\<lambda>challenge.
            Ok \<lparr>cc_bind_factors = bind_factors, cc_bind_prefix = bind_prefix,
                 cc_challenge = challenge, cc_group_pn = group_pn, cc_indexes = indexes,
                 cc_message = message, cc_pnonces = pnonces\<rparr>)))"

definition get_group_signing_ctx ::
  "('s::field, 'p::ab_group_add, 'z) externals_scheme \<Rightarrow> bytes \<Rightarrow> public_nonce list \<Rightarrow> bytes \<Rightarrow>
   bytes list \<Rightarrow> ('s, 'p) group_signing_ctx res" where
  "get_group_signing_ctx E group_pk pnonces message tweaks =
     bindR (get_group_key_context E group_pk tweaks) (\<lambda>key_ctx.
     bindR (get_group_commit_context E key_ctx pnonces message) (\<lambda>com_ctx.
     Ok \<lparr>ctx_group_pt = kc_group_pt key_ctx, ctx_group_pk = kc_group_pk key_ctx,
          ctx_int_pt = kc_int_pt key_ctx, ctx_int_pk = kc_int_pk key_ctx,
          ctx_tweak = kc_tweak key_ctx,
          ctx_bind_factors = cc_bind_factors com_ctx, ctx_bind_prefix = cc_bind_prefix com_ctx,
          ctx_challenge = cc_challenge com_ctx, ctx_group_pn = cc_group_pn com_ctx,
          ctx_indexes = cc_indexes com_ctx, ctx_message = cc_message com_ctx,
          ctx_pnonces = cc_pnonces com_ctx\<rparr>))"

subsection \<open>The accumulated point\<close>

text \<open>
  The loop invariant: the point is the state times the internal key plus the tweak times the
  generator, and the state is a sign.
\<close>

definition point_state_inv ::
  "('s::field, 'p::ab_group_add, 'z) externals_scheme \<Rightarrow> 'p \<Rightarrow> 'p \<times> 's \<times> 's \<Rightarrow> bool" where
  "point_state_inv E Q acc \<longleftrightarrow>
     (case acc of (point, state, tweak) \<Rightarrow>
        point = point_mul E Q state + point_mul E (point_gen E) tweak \<and>
        (state = 1 \<or> state = - 1))"

lemma one_neq_minus_one:
  assumes "k256_laws (E :: ('s::field, 'p::ab_group_add, 'z) externals_scheme)"
  shows "(1 :: 's) \<noteq> - 1"
proof
  assume eq: "(1 :: 's) = - 1"
  let ?G = "point_gen E"
  have "point_mul E ?G 1 \<noteq> 0" using assms by (simp add: point_mul_gen_zero_iff)
  then have G: "?G \<noteq> 0" using assms by (simp add: point_mul_one)
  have "- ?G = point_mul E ?G (- 1)" using assms by (simp add: point_mul_minus point_mul_one)
  also have "\<dots> = ?G" using assms by (simp add: eq [symmetric] point_mul_one)
  finally have "- ?G = ?G" .
  then show False using has_even_y_uminus [OF assms G] by simp
qed

lemma point_state_step_inv:
  assumes "k256_laws E" and "point_state_inv E Q acc"
  shows "\<exists>acc'. point_state_step E acc t = Ok acc' \<and> point_state_inv E Q acc'"
proof -
  obtain point state tweak where acc: "acc = (point, state, tweak)" by (cases acc)
  have re: "mod_n (be_nat (scalar_to_bytes E x)) = x" for x
    using scalar_from_to_bytes [OF assms(1)] by (simp add: scalar_from_bytes_def)
  show ?thesis
    using assms one_neq_minus_one [OF assms(1)]
    by (auto simp: acc point_state_step_def point_state_inv_def Let_def re negate_point_def
        scalar_base_multi_def point_mul_simps)
qed

lemma foldR_inv:
  assumes "\<And>acc x. I acc \<Longrightarrow> x \<in> set xs \<Longrightarrow> \<exists>acc'. f acc x = Ok acc' \<and> I acc'" and "I acc"
  shows "\<exists>acc'. foldR f acc xs = Ok acc' \<and> I acc'"
  using assms
proof (induction xs arbitrary: acc)
  case Nil
  then show ?case by simp
next
  case (Cons x xs)
  then obtain acc1 where "f acc x = Ok acc1" and "I acc1" by (meson list.set_intros(1))
  with Cons show ?case by simp
qed

text \<open>The final state: total, and the signed point is even.\<close>

lemma get_point_state_Ok:
  fixes E :: "('s::field, 'p::ab_group_add, 'z) externals_scheme"
  assumes "k256_laws E"
  obtains st where "get_point_state E Q tweaks = Ok st"
    and "st_point st = point_mul E Q (st_state st) + point_mul E (point_gen E) (st_tweak st)"
    and "st_state st = 1 \<or> st_state st = - 1"
    and "st_parity st = (if has_even_y E (st_point st) then 1 else - 1)"
proof -
  have "point_state_inv E Q (Q, 1, 0)"
    using assms by (simp add: point_state_inv_def point_mul_simps)
  then have "\<exists>acc. foldR (point_state_step E) (Q, 1, 0) tweaks = Ok acc \<and> point_state_inv E Q acc"
    by (rule foldR_inv [of "point_state_inv E Q", rotated]) (rule point_state_step_inv [OF assms])
  then obtain acc where acc: "foldR (point_state_step E) (Q, 1, 0) tweaks = Ok acc"
    "point_state_inv E Q acc" by blast
  obtain point state tweak where "acc = (point, state, tweak)" by (cases acc)
  then show thesis
    using acc by (intro that) (auto simp: get_point_state_def point_state_inv_def)
qed

text \<open>The point the signature verifies against.\<close>

lemma parity_point_even:
  assumes "k256_laws E" and "P \<noteq> 0"
  shows "has_even_y E (point_mul E P (if has_even_y E P then 1 else - 1))"
    and "tl (point_encode E (point_mul E P (if has_even_y E P then 1 else - 1))) = tl (point_encode E P)"
    and "point_mul E P (if has_even_y E P then 1 else - 1) \<noteq> 0"
  using assms has_even_y_uminus [OF assms] point_encode_uminus [OF assms]
  by (simp_all add: point_mul_simps)

lemma get_group_signing_ctxD:
  assumes "k256_laws E" and "get_group_signing_ctx E pk pnonces msg tweaks = Ok ctx"
  shows "ctx_pnonces ctx = pnonces" and "ctx_message ctx = msg"
    and "ctx_indexes ctx = map pn_idx pnonces"
    and "ctx_bind_prefix ctx = get_group_prefix E pnonces (ctx_group_pk ctx) msg"
    and "ctx_bind_factors ctx = get_group_binders E pnonces (ctx_bind_prefix ctx)"
    and "get_group_pubnonce E pnonces (ctx_bind_factors ctx) = Ok (ctx_group_pn ctx)"
    and "st_point (ctx_group_pt ctx) \<noteq> 0"
    and "ctx_group_pk ctx = point_encode E (st_point (ctx_group_pt ctx))"
    and "get_challenge E (ctx_group_pn ctx) (ctx_group_pk ctx) msg = Ok (ctx_challenge ctx)"
    and "\<exists>Q. lift_x E pk = Ok Q \<and> get_point_state E Q tweaks = Ok (ctx_group_pt ctx)"
  using assms
  by (auto simp: get_group_signing_ctx_def get_group_key_context_def get_group_commit_context_def
      get_nonce_ids_def Let_def res_simps)

end
