(* ===== verification/Sign.thy ===== *)
theory Sign
  imports Context
begin

text \<open>
  \<open>src/types/sign.rs\<close> and \<open>src/sign.rs\<close>: partial signatures, their aggregation and
  verification.  The lemmas compute what an honest member sends, show that the sum of a
  threshold of partial signatures satisfies the BIP-340 equation for the tweaked group key, and
  characterise exactly which partial signatures \<open>verify_partial_sig\<close> accepts.
\<close>

record share_signature =
  sg_idx :: u32
  sg_pubkey :: bytes
  sg_psig :: bytes

definition sign_msg ::
  "('s::field, 'p::ab_group_add, 'z) externals_scheme \<Rightarrow> ('s, 'p) group_signing_ctx \<Rightarrow>
   secret_share \<Rightarrow> secret_nonce \<Rightarrow> share_signature res" where
  "sign_msg E ctx share snonce =
     (if sn_idx snonce \<noteq> ss_idx share
      then Err (Assertion ''commit index does not match share index: '')
      else bindR (get_bind_factor (ctx_bind_factors ctx) (ss_idx share)) (\<lambda>bind_factor_bytes.
        let bind_factor = scalar_from_bytes bind_factor_bytes;
            indexes = map index_to_scalar (ctx_indexes ctx)
        in bindR (interpolate_x indexes (index_to_scalar (ss_idx share))) (\<lambda>coefficient.
           let snonce_h = scalar_from_bytes (hidden_sn snonce);
               snonce_b = scalar_from_bytes (binder_sn snonce);
               seckey = scalar_from_bytes (ss_seckey share)
           in bindR (lift_x E (ctx_group_pn ctx)) (\<lambda>r_elem.
              let (snonce_h, snonce_b) =
                    (if \<not> has_even_y E r_elem then (- snonce_h, - snonce_b)
                     else (snonce_h, snonce_b));
                  sk = st_parity (ctx_group_pt ctx) * st_state (ctx_group_pt ctx) * seckey;
                  nk = snonce_h + snonce_b * bind_factor;
                  ps = ctx_challenge ctx * coefficient * sk + nk
              in bindR (get_pubkey E (ss_seckey share)) (\<lambda>pubkey.
                 Ok \<lparr>sg_idx = ss_idx share, sg_pubkey = pubkey, sg_psig = scalar_to_bytes E ps\<rparr>)))))"

definition combine_partial_sigs ::
  "('s::field, 'p::ab_group_add, 'z) externals_scheme \<Rightarrow> ('s, 'p) group_signing_ctx \<Rightarrow>
   share_signature list \<Rightarrow> bytes res" where
  "combine_partial_sigs E ctx psigs =
     (let commit_prefix = get_group_prefix E (ctx_pnonces ctx) (ctx_group_pk ctx) (ctx_message ctx);
          group_binders = get_group_binders E (ctx_pnonces ctx) commit_prefix
      in bindR (get_group_pubnonce E (ctx_pnonces ctx) group_binders) (\<lambda>group_pnonce.
         let ps = foldl (\<lambda>acc s. acc + s) 0 (map (\<lambda>s. scalar_from_bytes (sg_psig s)) psigs);
             twk = ctx_challenge ctx * st_parity (ctx_group_pt ctx) * st_tweak (ctx_group_pt ctx);
             s = ps + twk
         in Ok (tl group_pnonce @ scalar_to_bytes E s)))"

definition verify_partial_sig ::
  "('s::field, 'p::ab_group_add, 'z) externals_scheme \<Rightarrow> ('s, 'p) group_signing_ctx \<Rightarrow>
   public_nonce \<Rightarrow> bytes \<Rightarrow> bytes \<Rightarrow> bool res" where
  "verify_partial_sig E ctx pnonce share_pk share_psig =
     bindR (get_bind_factor (ctx_bind_factors ctx) (pn_idx pnonce)) (\<lambda>bf.
     let binder = scalar_from_bytes bf
     in bindR (lift_x E (hidden_pn pnonce)) (\<lambda>hidden_elem.
        bindR (lift_x E (binder_pn pnonce)) (\<lambda>binder_elem.
        bindR (lift_x E share_pk) (\<lambda>public_elem.
        bindR (lift_x E (ctx_group_pn ctx)) (\<lambda>r_elem.
        let (hidden_elem, binder_elem) =
              (if \<not> has_even_y E r_elem then (- hidden_elem, - binder_elem)
               else (hidden_elem, binder_elem));
            commit_elem = scalar_multi E binder_elem binder
        in bindR (element_add (Some hidden_elem) (Some commit_elem)) (\<lambda>nonce_elem.
           let indexes = map index_to_scalar (ctx_indexes ctx)
           in bindR (interpolate_x indexes (index_to_scalar (pn_idx pnonce))) (\<lambda>lambda_i.
              let state = st_parity (ctx_group_pt ctx) * st_state (ctx_group_pt ctx);
                  chal = ctx_challenge ctx * lambda_i * state;
                  sig = scalar_from_bytes share_psig;
                  sg = scalar_base_multi E sig;
                  pki = scalar_multi E public_elem chal
              in bindR (element_add (Some nonce_elem) (Some pki)) (\<lambda>r.
                 Ok (point_x E sg = point_x E r)))))))))"

definition verify_final_sig ::
  "('s::field, 'p::ab_group_add, 'z) externals_scheme \<Rightarrow> ('s, 'p) group_key_context \<Rightarrow> bytes \<Rightarrow>
   bytes \<Rightarrow> bool res" where
  "verify_final_sig E ctx message signature =
     (let pk_bytes = tl (kc_group_pk ctx)
      in if length pk_bytes \<noteq> 32 then Panic
         else if \<not> vk_from_bytes_ok E pk_bytes then Err InvalidPoint
         else if \<not> sig_try_from_ok E signature then Err InvalidPoint
         else Ok (verify_raw E pk_bytes message signature))"

subsection \<open>A signing session\<close>

text \<open>
  The members of a session: each public nonce belongs to the member's secret nonce, and each
  share lies on the group's polynomial.
\<close>

definition session_member ::
  "('s::field, 'p::ab_group_add, 'z) externals_scheme \<Rightarrow> 's list \<Rightarrow> public_nonce \<Rightarrow>
   secret_share \<times> secret_nonce \<Rightarrow> bool" where
  "session_member E cs pn m \<longleftrightarrow>
     nonce_pair E pn (snd m) \<and> ss_idx (fst m) = sn_idx (snd m) \<and> on_poly E cs (fst m)"

definition honest_session ::
  "('s::field, 'p::ab_group_add, 'z) externals_scheme \<Rightarrow> 's list \<Rightarrow> bytes \<Rightarrow> public_nonce list \<Rightarrow>
   (secret_share \<times> secret_nonce) list \<Rightarrow> bool" where
  "honest_session E cs pk pnonces ms \<longleftrightarrow>
     lift_x E pk = Ok (point_mul E (point_gen E) (poly_val cs 0)) \<and>
     list_all2 (session_member E cs) pnonces ms \<and>
     distinct (map (index_to_scalar \<circ> pn_idx) pnonces :: 's list) \<and>
     pnonces \<noteq> [] \<and> length cs \<le> length pnonces"

text \<open>The scalar an honest member's partial signature carries.\<close>

definition nonce_sign ::
  "('s::field, 'p::ab_group_add, 'z) externals_scheme \<Rightarrow> bytes \<Rightarrow> 's" where
  "nonce_sign E pn = (if has_even_y E (ok_val (lift_x E pn)) then 1 else - 1)"

definition psig_scalar ::
  "('s::field, 'p::ab_group_add, 'z) externals_scheme \<Rightarrow> ('s, 'p) group_signing_ctx \<Rightarrow>
   secret_share \<Rightarrow> secret_nonce \<Rightarrow> 's" where
  "psig_scalar E ctx share sn =
     ctx_challenge ctx *
       ok_val (interpolate_x (map index_to_scalar (ctx_indexes ctx)) (index_to_scalar (ss_idx share))) *
       (st_parity (ctx_group_pt ctx) * st_state (ctx_group_pt ctx) * share_scalar E share) +
     nonce_sign E (ctx_group_pn ctx) * nonce_scalar E (ctx_bind_prefix ctx) sn"

lemma session_nonces:
  "list_all2 (session_member E cs) pnonces ms \<Longrightarrow> list_all2 (nonce_pair E) pnonces (map snd ms)"
  by (auto simp: session_member_def list_all2_conv_all_nth)

lemma ctx_group_nonce:
  fixes E :: "('s::field, 'p::ab_group_add, 'z) externals_scheme"
  assumes "k256_laws E" and "get_group_signing_ctx E pk pnonces msg tweaks = Ok ctx"
    and "honest_session E cs pk pnonces ms"
  shows "point_mul E (point_gen E) (\<Sum>m \<leftarrow> ms. nonce_scalar E (ctx_bind_prefix ctx) (snd m)) \<noteq> 0"
      (is "?R \<noteq> 0")
    and "ctx_group_pn ctx = point_encode E
      (point_mul E (point_gen E) (\<Sum>m \<leftarrow> ms. nonce_scalar E (ctx_bind_prefix ctx) (snd m)))"
proof -
  have "list_all2 (nonce_pair E) pnonces (map snd ms)" "pnonces \<noteq> []"
    using assms(3) session_nonces by (auto simp: honest_session_def)
  then have "serialize_element E ?R = Ok (ctx_group_pn ctx)"
    using get_group_signing_ctxD(5,6) [OF assms(1,2)] get_group_pubnonce_eq [OF assms(1)]
    by (simp add: comp_def)
  then show "?R \<noteq> 0" and "ctx_group_pn ctx = point_encode E ?R"
    using assms(1) by (simp_all add: res_simps)
qed

lemma session_indexes:
  fixes E :: "('s::field, 'p::ab_group_add, 'z) externals_scheme"
  assumes "k256_laws E" and "get_group_signing_ctx E pk pnonces msg tweaks = Ok ctx"
    and "honest_session E cs pk pnonces ms" and "pn \<in> set pnonces"
  shows "distinct (map index_to_scalar (ctx_indexes ctx) :: 's list)"
    and "index_to_scalar (pn_idx pn) \<in> set (map index_to_scalar (ctx_indexes ctx) :: 's list)"
  using assms(3,4) by (simp_all add: honest_session_def get_group_signing_ctxD(3) [OF assms(1,2)] comp_def)

lemma sign_msg_member:
  fixes E :: "('s::field, 'p::ab_group_add, 'z) externals_scheme"
  assumes k256: "k256_laws E" and ctx: "get_group_signing_ctx E pk pnonces msg tweaks = Ok ctx"
    and sess: "honest_session E cs pk pnonces ms"
    and mem: "(share, sn) \<in> set ms"
  shows "sign_msg E ctx share sn =
    bindR (get_pubkey E (ss_seckey share)) (\<lambda>pubkey.
      Ok \<lparr>sg_idx = ss_idx share, sg_pubkey = pubkey,
           sg_psig = scalar_to_bytes E (psig_scalar E ctx share sn)\<rparr>)"
proof -
  note ctxD = get_group_signing_ctxD [OF k256 ctx]
  note R = ctx_group_nonce [OF k256 ctx sess]
  have l2: "list_all2 (session_member E cs) pnonces ms"
    using sess by (simp add: honest_session_def)
  then obtain pn where pn: "pn \<in> set pnonces" "session_member E cs pn (share, sn)"
    using mem unfolding in_set_conv_nth list_all2_conv_all_nth by metis
  then have idx: "pn_idx pn = ss_idx share" "sn_idx sn = ss_idx share"
    by (auto simp: session_member_def nonce_pair_def)
  have dist: "distinct (map index_to_scalar (ctx_indexes ctx) :: 's list)"
    and inset: "index_to_scalar (ss_idx share) \<in> set (map index_to_scalar (ctx_indexes ctx) :: 's list)"
    using session_indexes [OF k256 ctx sess pn(1)] by (simp_all add: idx(1))
  obtain r_elem where lift: "lift_x E (ctx_group_pn ctx) = Ok r_elem"
    using lift_x_encode [OF k256 R(1)] R(2) by simp
  show ?thesis
    using get_bind_factor_binders [OF pn(1), of E "ctx_bind_prefix ctx"]
    by (simp add: sign_msg_def interpolate_x_Ok [OF dist inset] idx lift ctxD(5) Let_def
        psig_scalar_def nonce_sign_def nonce_scalar_def share_scalar_def algebra_simps)
qed

text \<open>The sum of the members' partial signatures.\<close>

lemma psig_sum:
  fixes E :: "('s::field, 'p::ab_group_add, 'z) externals_scheme"
  assumes k256: "k256_laws E" and ctx: "get_group_signing_ctx E pk pnonces msg tweaks = Ok ctx"
    and sess: "honest_session E cs pk pnonces ms"
  shows "(\<Sum>m \<leftarrow> ms. psig_scalar E ctx (fst m) (snd m)) =
    ctx_challenge ctx * (st_parity (ctx_group_pt ctx) * st_state (ctx_group_pt ctx)) * poly_val cs 0 +
    nonce_sign E (ctx_group_pn ctx) * (\<Sum>m \<leftarrow> ms. nonce_scalar E (ctx_bind_prefix ctx) (snd m))"
proof -
  note ctxD = get_group_signing_ctxD [OF k256 ctx]
  let ?f = "\<lambda>m. index_to_scalar (ss_idx (fst m)) :: 's"
  let ?c = "st_parity (ctx_group_pt ctx) * st_state (ctx_group_pt ctx)"
  have l2: "list_all2 (session_member E cs) pnonces ms"
    using sess by (simp add: honest_session_def)
  then have idx: "map index_to_scalar (ctx_indexes ctx) = map ?f ms" and
    len: "length ms = length pnonces"
    by (auto simp: ctxD(3) list_eq_iff_nth_eq list_all2_conv_all_nth session_member_def nonce_pair_def)
  have dist: "distinct (map ?f ms)" and ne: "ms \<noteq> []" and deg: "length cs \<le> length ms"
    using sess len idx by (auto simp: honest_session_def ctxD(3) comp_def)
  have poly: "share_scalar E (fst m) = poly_val cs (?f m)" if "m \<in> set ms" for m
    using l2 that unfolding in_set_conv_nth list_all2_conv_all_nth session_member_def on_poly_def
    by metis
  have "(\<Sum>m \<leftarrow> ms. ctx_challenge ctx * ok_val (interpolate_x (map ?f ms) (?f m)) *
      (?c * share_scalar E (fst m))) = ctx_challenge ctx * ?c * poly_val cs 0"
    by (rule interp.reconstruct_indexed [OF dist ne deg poly])
  then show ?thesis
    by (simp only: psig_scalar_def idx sum_list_addf sum_list_const_mult)
qed

text \<open>The BIP-340 equation of the aggregated signature.\<close>

lemma combine_equation:
  fixes E :: "('s::field, 'p::ab_group_add, 'z) externals_scheme"
  assumes k256: "k256_laws E" and ctx: "get_group_signing_ctx E pk pnonces msg tweaks = Ok ctx"
    and sess: "honest_session E cs pk pnonces ms"
    and psigs: "list_all2 (\<lambda>m s. sign_msg E ctx (fst m) (snd m) = Ok s) ms psigs"
  obtains s R P where
    "combine_partial_sigs E ctx psigs = Ok (tl (point_encode E R) @ scalar_to_bytes E s)"
    and "R \<noteq> 0" and "P \<noteq> 0" and "has_even_y E R" and "has_even_y E P"
    and "tl (point_encode E P) = tl (ctx_group_pk ctx)"
    and "point_mul E (point_gen E) s = R + point_mul E P
      (bip340_challenge E (tl (point_encode E R)) (tl (point_encode E P)) msg)"
proof -
  note ctxD = get_group_signing_ctxD [OF k256 ctx]
  note R0 = ctx_group_nonce [OF k256 ctx sess]
  define G where "G = point_gen E"
  define r where "r = (\<Sum>m \<leftarrow> ms. nonce_scalar E (ctx_bind_prefix ctx) (snd m))"
  define st where "st = ctx_group_pt ctx"
  define e where "e = ctx_challenge ctx"
  define ns where "ns = nonce_sign E (ctx_group_pn ctx)"
  define Q where "Q = point_mul E G (poly_val cs 0)"
  have sigs: "map (\<lambda>s. scalar_from_bytes (sg_psig s)) psigs =
      map (\<lambda>m. psig_scalar E ctx (fst m) (snd m)) ms"
  proof -
    have "scalar_from_bytes (sg_psig s) = psig_scalar E ctx (fst m) (snd m)"
      if "m \<in> set ms" and "sign_msg E ctx (fst m) (snd m) = Ok s" for m s
      using that sign_msg_member [OF k256 ctx sess, of "fst m" "snd m"] k256
      by (auto simp: bindR_eq_Ok)
    then show ?thesis
      using psigs by (auto simp: list_eq_iff_nth_eq list_all2_conv_all_nth)
  qed
  have lift: "lift_x E (ctx_group_pn ctx) = Ok (point_mul E G r)"
    using lift_x_encode [OF k256 R0(1)] R0(2) by (simp add: G_def r_def)
  have ns: "ns = (if has_even_y E (point_mul E G r) then 1 else - 1)"
    by (simp add: ns_def nonce_sign_def lift)
  have pk: "lift_x E pk = Ok Q" using sess by (simp add: honest_session_def Q_def G_def)
  obtain st' where "get_point_state E Q tweaks = Ok st'"
    and "st_point st' = point_mul E Q (st_state st') + point_mul E G (st_tweak st')"
    and "st_parity st' = (if has_even_y E (st_point st') then 1 else - 1)"
    using get_point_state_Ok [OF k256, of Q tweaks] unfolding G_def by metis
  then have point: "st_point st = point_mul E Q (st_state st) + point_mul E G (st_tweak st)"
    and parity: "st_parity st = (if has_even_y E (st_point st) then 1 else - 1)"
    using ctxD(10) pk by (auto simp: st_def)
  let ?R = "point_mul E (point_mul E G r) ns" and ?P = "point_mul E (st_point st) (st_parity st)"
  have Rnz: "point_mul E G r \<noteq> 0" using R0(1) by (simp add: G_def r_def)
  have Pnz: "st_point st \<noteq> 0" using ctxD(7) by (simp add: st_def)
  have R: "has_even_y E ?R" "tl (point_encode E ?R) = tl (ctx_group_pn ctx)" "?R \<noteq> 0"
    using parity_point_even [OF k256 Rnz] R0(2) by (simp_all only: ns G_def r_def not_False_eq_True)
  have P: "has_even_y E ?P" "tl (point_encode E ?P) = tl (ctx_group_pk ctx)" "?P \<noteq> 0"
    using parity_point_even [OF k256 Pnz] ctxD(8) by (simp_all only: parity not_False_eq_True flip: st_def)
  have chal: "e = bip340_challenge E (tl (ctx_group_pn ctx)) (tl (ctx_group_pk ctx)) msg"
    using ctxD(9) get_challenge_bip340 [of "ctx_group_pn ctx" "ctx_group_pk ctx" E msg]
      point_encode_length [OF k256] R0 ctxD(7,8) by (simp add: e_def)
  define s where "s = e * (st_parity st * st_state st) * poly_val cs 0 + ns * r +
    e * st_parity st * st_tweak st"
  have "combine_partial_sigs E ctx psigs = Ok (tl (ctx_group_pn ctx) @ scalar_to_bytes E s)"
    using ctxD(1,2,4,5,6) psig_sum [OF k256 ctx sess]
      foldl_plus_sum_list [of "\<lambda>x. x" 0 "map (\<lambda>m. psig_scalar E ctx (fst m) (snd m)) ms"]
    by (simp add: combine_partial_sigs_def Let_def sigs s_def e_def st_def ns_def r_def)
  moreover have "point_mul E G s = ?R + point_mul E ?P e"
    using k256 by (simp add: s_def point Q_def point_mul_simps algebra_simps)
  ultimately show thesis
    using R P chal by (intro that [of ?R s ?P]) (simp_all add: G_def)
qed

text \<open>
  \<open>verify_partial_sig\<close> accepts exactly the honest scalar and its negation, since only
  x-coordinates are compared.
\<close>

lemma verify_partial_sig_member:
  fixes E :: "('s::field, 'p::ab_group_add, 'z) externals_scheme"
  assumes k256: "k256_laws E" and ctx: "get_group_signing_ctx E pk pnonces msg tweaks = Ok ctx"
    and sess: "honest_session E cs pk pnonces ms"
    and pn: "pn \<in> set pnonces" "session_member E cs pn (share, sn)"
    and share_pk: "get_pubkey E (ss_seckey share) = Ok share_pk"
  shows "verify_partial_sig E ctx pn share_pk psig =
    Ok (scalar_from_bytes psig = psig_scalar E ctx share sn \<or>
        scalar_from_bytes psig = - psig_scalar E ctx share sn)"
proof -
  note ctxD = get_group_signing_ctxD [OF k256 ctx]
  note R = ctx_group_nonce [OF k256 ctx sess]
  define G where "G = point_gen E"
  have idx: "pn_idx pn = ss_idx share" "sn_idx sn = ss_idx share"
    using pn(2) by (auto simp: session_member_def nonce_pair_def)
  have lifts: "lift_x E (hidden_pn pn) = Ok (point_mul E G (scalar_from_bytes (hidden_sn sn)))"
    "lift_x E (binder_pn pn) = Ok (point_mul E G (scalar_from_bytes (binder_sn sn)))"
    "lift_x E share_pk = Ok (point_mul E G (scalar_from_bytes (ss_seckey share)))"
    using pn(2) pubkey_lift(1) [OF k256] share_pk
    by (auto simp: session_member_def nonce_pair_def G_def)
  define xs where "xs = (map index_to_scalar (ctx_indexes ctx) :: 's list)"
  have "distinct xs" and "index_to_scalar (ss_idx share) \<in> set xs"
    using session_indexes [OF k256 ctx sess pn(1)] by (simp_all add: idx(1) xs_def)
  note coeff = interpolate_x_Ok [OF this]
  obtain r_elem where lift: "lift_x E (ctx_group_pn ctx) = Ok r_elem"
    using lift_x_encode [OF k256 R(1)] R(2) by simp
  have sign: "nonce_sign E (ctx_group_pn ctx) = (if has_even_y E r_elem then 1 else - 1)"
    by (simp add: nonce_sign_def lift)
  note bf = get_bind_factor_binders [OF pn(1), of E "ctx_bind_prefix ctx"]
  have "verify_partial_sig E ctx pn share_pk psig =
      Ok (point_x E (point_mul E G (scalar_from_bytes psig)) =
          point_x E (point_mul E G (psig_scalar E ctx share sn)))"
    unfolding verify_partial_sig_def xs_def [symmetric] psig_scalar_def nonce_scalar_def sign
    using bf k256
    by (simp add: coeff ctxD(5) idx lifts lift Let_def scalar_multi_def scalar_base_multi_def
        point_mul_simps share_scalar_def G_def [symmetric] algebra_simps)
  then show ?thesis
    using k256
    by (simp add: point_x_eq_iff point_mul_gen_eq_iff G_def flip: point_mul_minus)
qed

text \<open>Under the documented behaviour of the BIP-340 verifier the aggregate verifies.\<close>

lemma combine_verifies:
  fixes E :: "('s::field, 'p::ab_group_add, 'z) externals_scheme"
  assumes k256: "k256_laws E" and schnorr: "schnorr_laws E"
    and ctx: "get_group_signing_ctx E pk pnonces msg tweaks = Ok ctx"
    and sess: "honest_session E cs pk pnonces ms"
    and psigs: "list_all2 (\<lambda>m s. sign_msg E ctx (fst m) (snd m) = Ok s) ms psigs"
  shows "\<exists>sig. combine_partial_sigs E ctx psigs = Ok sig \<and> length sig = 64 \<and>
    (scalar_from_bytes (drop 32 sig) \<noteq> (0 :: 's) \<longrightarrow>
     verify_final_sig E (key_context ctx) msg sig = Ok True)"
proof -
  obtain s R P where sig:
    "combine_partial_sigs E ctx psigs = Ok (tl (point_encode E R) @ scalar_to_bytes E s)"
    and nz: "R \<noteq> 0" "P \<noteq> 0" and even: "has_even_y E R" "has_even_y E P"
    and pk: "tl (point_encode E P) = tl (ctx_group_pk ctx)"
    and eq: "point_mul E (point_gen E) s = R + point_mul E P
      (bip340_challenge E (tl (point_encode E R)) (tl (point_encode E P)) msg)"
    by (rule combine_equation [OF k256 ctx sess psigs])
  have len: "length (tl (point_encode E R)) = 32" "length (tl (ctx_group_pk ctx)) = 32"
    using point_encode_length [OF k256] nz by (simp_all flip: pk)
  have "verify_final_sig E (key_context ctx) msg (tl (point_encode E R) @ scalar_to_bytes E s) = Ok True"
    if "s \<noteq> 0"
  proof -
    have "vk_from_bytes_ok E (tl (point_encode E P))"
      and "sig_try_from_ok E (tl (point_encode E R) @ be_bytes 32 (scalar_repr E s))"
      and "verify_raw E (tl (point_encode E P)) msg
        (tl (point_encode E R) @ be_bytes 32 (scalar_repr E s))"
      using schnorr [unfolded schnorr_laws_def Let_def, rule_format, of P R s msg] nz even eq that
      by (simp_all add: has_even_y_def)
    then show ?thesis
      using len by (simp add: verify_final_sig_def key_context_def Let_def scalar_to_bytes_def pk)
  qed
  then show ?thesis
    using sig len(1) k256 by auto
qed

end
