(* ===== verification/Frost_Types.thy ===== *)
theory Frost_Types
  imports Prelude
begin

text \<open>
  \<open>src/frost/types.rs\<close>: the packages the high-level \<open>frost\<close> modules exchange.  Byte arrays of
  a fixed size are byte lists; a \<open>usize\<close> threshold is a natural number.
\<close>

record share_package =
  sp_idx :: u32
  sp_seckey :: bytes

record member_package =
  mp_idx :: u32
  mp_pubkey :: bytes
  mp_identity_pk :: "bytes option"

record group_package =
  gp_group_pk :: bytes
  gp_threshold :: nat
  gp_members :: "member_package list"

record dealer_package =
  dp_group :: group_package
  dp_shares :: "share_package list"

record frost_public_nonce =
  fpn_binder_pn :: bytes
  fpn_hidden_pn :: bytes

record derived_nonce =
  dn_binder_pn :: bytes
  dn_hidden_pn :: bytes
  dn_code :: bytes

record member_nonce =
  mn_idx :: u32
  mn_binder_pn :: bytes
  mn_hidden_pn :: bytes
  mn_code :: bytes

record secret_nonce_pair =
  snp_code :: bytes
  snp_binder_sn :: bytes
  snp_hidden_sn :: bytes

record sign_session =
  ses_sid :: bytes
  ses_group_pk :: bytes
  ses_members :: "u32 list"
  ses_messages :: "(bytes \<times> bytes list) list"
  ses_nonces :: "member_nonce list"

record partial_sig =
  psg_message :: bytes
  psg_psig :: bytes

record partial_sig_package =
  psp_idx :: u32
  psp_pubkey :: bytes
  psp_sid :: bytes
  psp_psigs :: "partial_sig list"

record signature =
  sig_message :: bytes
  sig_pubkey :: bytes
  sig_sig :: bytes

record dkg_pop =
  pop_r :: bytes
  pop_z :: bytes

record dkg_commit_package =
  dcp_idx :: u32
  dcp_vss_commits :: "bytes list"
  dcp_pop :: dkg_pop

record dkg_share_package =
  dsp_sender_idx :: u32
  dsp_recipient_idx :: u32
  dsp_seckey :: bytes

record dkg_output =
  do_share :: share_package
  do_group :: group_package
  do_vss_commits :: "bytes list"

record ecdh_entry =
  ee_ecdh_pk :: bytes
  ee_keyshare :: bytes

record ecdh_package =
  ep_idx :: u32
  ep_members :: "u32 list"
  ep_entries :: "ecdh_entry list"

end
