(* ===== verification/Ecdh.thy ===== *)
theory Ecdh
  imports Shares Frost_Types
begin

text \<open>
  \<open>src/ecdh.rs\<close> and \<open>src/frost/ecdh.rs\<close>: threshold ECDH.  A member's contribution is its
  Lagrange-weighted share times the peer's point; the lemmas show that a threshold of
  contributions sums to the group secret times that point, and what the combiners return.
\<close>

subsection \<open>\<open>ecdh.rs\<close>\<close>

definition create_ecdh_share ::
  "('s::field, 'p::ab_group_add, 'z) externals_scheme \<Rightarrow> u32 list \<Rightarrow> secret_share \<Rightarrow> bytes \<Rightarrow>
   public_share res" where
  "create_ecdh_share E members share pubkey =
     (let mbrs = map index_to_scalar (filter (\<lambda>idx. idx \<noteq> ss_idx share) members);
          idx = index_to_scalar (ss_idx share);
          secret = scalar_from_bytes (ss_seckey share)
      in bindR (lift_x E pubkey) (\<lambda>point.
         bindR (calc_lagrange_coeff mbrs idx 0) (\<lambda>l_coeff.
         let p_coeff = l_coeff * secret;
             ecdh_pt = scalar_multi E point p_coeff
         in bindR (serialize_element E ecdh_pt) (\<lambda>pk.
            Ok \<lparr>ps_idx = ss_idx share, ps_pubkey = pk\<rparr>))))"

definition derive_ecdh_secret ::
  "('s::field, 'p::ab_group_add, 'z) externals_scheme \<Rightarrow> public_share list \<Rightarrow> bytes res" where
  "derive_ecdh_secret E shares =
     bindR (foldR (\<lambda>point share.
              bindR (lift_x E (ps_pubkey share)) (\<lambda>pt.
              bindR (element_add point (Some pt)) (\<lambda>p. Ok (Some p)))) None shares) (\<lambda>point.
     bindR (ok_or point BothPointsNull) (\<lambda>pt. serialize_element E pt))"

subsection \<open>\<open>frost/ecdh.rs\<close>\<close>

definition low_share :: "share_package \<Rightarrow> secret_share" where
  "low_share s = \<lparr>ss_idx = sp_idx s, ss_seckey = sp_seckey s\<rparr>"

definition create_ecdh_pkg ::
  "('s::field, 'p::ab_group_add, 'z) externals_scheme \<Rightarrow> u32 list \<Rightarrow> bytes \<Rightarrow> share_package \<Rightarrow>
   ecdh_package res" where
  "create_ecdh_pkg E members ecdh_pk share =
     bindR (create_ecdh_share E members (low_share share) ecdh_pk) (\<lambda>ecdh_share.
     Ok \<lparr>ep_idx = sp_idx share, ep_members = members,
          ep_entries = [\<lparr>ee_ecdh_pk = ecdh_pk, ee_keyshare = ps_pubkey ecdh_share\<rparr>]\<rparr>)"

definition create_batched_ecdh_pkg ::
  "('s::field, 'p::ab_group_add, 'z) externals_scheme \<Rightarrow> u32 list \<Rightarrow> bytes list \<Rightarrow> share_package \<Rightarrow>
   ecdh_package res" where
  "create_batched_ecdh_pkg E members ecdh_pks share =
     bindR (mapR (\<lambda>pk. bindR (create_ecdh_share E members (low_share share) pk) (\<lambda>ecdh_share.
              Ok \<lparr>ee_ecdh_pk = pk, ee_keyshare = ps_pubkey ecdh_share\<rparr>)) ecdh_pks) (\<lambda>entries.
     Ok \<lparr>ep_idx = sp_idx share, ep_members = members, ep_entries = entries\<rparr>)"

definition combine_ecdh_pkgs ::
  "('s::field, 'p::ab_group_add, 'z) externals_scheme \<Rightarrow> ecdh_package list \<Rightarrow> bytes \<Rightarrow> bytes res" where
  "combine_ecdh_pkgs E pkgs ecdh_pk =
     bindR (mapR (\<lambda>pkg.
              bindR (ok_or (find (\<lambda>e. ee_ecdh_pk e = ecdh_pk) (ep_entries pkg))
                       (Assertion ''ecdh_pk not found in package from member ''))
                (\<lambda>entry. Ok \<lparr>ps_idx = ep_idx pkg, ps_pubkey = ee_keyshare entry\<rparr>)) pkgs)
       (\<lambda>keyshares. derive_ecdh_secret E keyshares)"

definition combine_batched_ecdh_pkgs ::
  "('s::field, 'p::ab_group_add, 'z) externals_scheme \<Rightarrow> ecdh_package list \<Rightarrow> (bytes \<times> bytes) list res"
where
  "combine_batched_ecdh_pkgs E pkgs =
     (case pkgs of
        [] \<Rightarrow> Ok []
      | pkg0 # _ \<Rightarrow>
          mapR (\<lambda>entry. bindR (combine_ecdh_pkgs E pkgs (ee_ecdh_pk entry)) (\<lambda>secret.
                  Ok (ee_ecdh_pk entry, secret))) (ep_entries pkg0))"

subsection \<open>Lemmas\<close>

text \<open>A member's contribution.\<close>

definition ecdh_coeff ::
  "('s::field, 'p::ab_group_add, 'z) externals_scheme \<Rightarrow> u32 list \<Rightarrow> secret_share \<Rightarrow> 's" where
  "ecdh_coeff E members s =
     ok_val (calc_lagrange_coeff (filter (\<lambda>y. y \<noteq> index_to_scalar (ss_idx s)) (map index_to_scalar members))
       (index_to_scalar (ss_idx s)) 0) * share_scalar E s"

lemma filter_map_index:
  assumes "inj_on f (insert i (set xs))"
  shows "map f (filter (\<lambda>y. y \<noteq> i) xs) = filter (\<lambda>y. y \<noteq> f i) (map f xs)"
proof -
  have "filter (\<lambda>y. y \<noteq> i) xs = filter (\<lambda>y. f y \<noteq> f i) xs"
    by (rule filter_cong [OF refl]) (use inj_on_eq_iff [OF assms] in auto)
  then show ?thesis by (simp only: filter_map comp_def)
qed

lemma create_ecdh_share_eq:
  fixes E :: "('s::field, 'p::ab_group_add, 'z) externals_scheme"
  assumes "k256_laws E" and "distinct (map index_to_scalar members :: 's list)"
    and "ss_idx s \<in> set members" and "lift_x E pk = Ok P"
  shows "create_ecdh_share E members s pk = Ok r \<longleftrightarrow>
    point_mul E P (ecdh_coeff E members s) \<noteq> 0 \<and>
    r = \<lparr>ps_idx = ss_idx s, ps_pubkey = point_encode E (point_mul E P (ecdh_coeff E members s))\<rparr>"
proof -
  let ?sc = "index_to_scalar :: u32 \<Rightarrow> 's"
  have "inj_on ?sc (insert (ss_idx s) (set members))"
    using assms(2,3) by (simp add: distinct_map insert_absorb)
  note flt = filter_map_index [OF this]
  have mem: "?sc (ss_idx s) \<in> set (map ?sc members)" using assms(3) by simp
  show ?thesis
    using assms(1,4)
    by (subst create_ecdh_share_def)
      (auto simp: flt calc.coeff_ok [OF assms(2) mem] Let_def bindR_eq_Ok serialize_element_eq_Ok
        scalar_multi_def ecdh_coeff_def share_scalar_def)
qed

lemma ecdh_fold:
  assumes "k256_laws E" and "\<forall>s \<in> set shares. f s \<noteq> 0 \<and> ps_pubkey s = point_encode E (f s)"
  shows "foldR (\<lambda>point share.
              bindR (lift_x E (ps_pubkey share)) (\<lambda>pt.
              bindR (element_add point (Some pt)) (\<lambda>p. Ok (Some p)))) acc shares =
    Ok (if shares = [] then acc
        else Some ((case acc of None \<Rightarrow> 0 | Some a \<Rightarrow> a) + (\<Sum>s \<leftarrow> shares. f s)))"
  using assms(2)
proof (induction shares arbitrary: acc)
  case Nil
  then show ?case by simp
next
  case (Cons s shares)
  then have "lift_x E (ps_pubkey s) = Ok (f s)" using lift_x_encode [OF assms(1)] by simp
  then show ?case using Cons by (cases acc) (auto simp: add.assoc)
qed

lemma derive_ecdh_secret_eq:
  assumes "k256_laws E" and "shares \<noteq> []"
    and "\<forall>s \<in> set shares. f s \<noteq> 0 \<and> ps_pubkey s = point_encode E (f s)"
  shows "derive_ecdh_secret E shares = serialize_element E (\<Sum>s \<leftarrow> shares. f s)"
  using assms(2) by (simp add: derive_ecdh_secret_def ecdh_fold [OF assms(1,3)] ok_or_def)

text \<open>A threshold of contributions adds up to the group secret times the peer's point.\<close>

lemma ecdh_total:
  fixes E :: "('s::field, 'p::ab_group_add, 'z) externals_scheme"
  assumes k256: "k256_laws E" and P: "lift_x E pk = Ok P"
    and inj: "distinct (map index_to_scalar (map ss_idx shares) :: 's list)" and ne: "shares \<noteq> []"
    and deg: "length cs \<le> length shares" and poly: "\<forall>s \<in> set shares. on_poly E cs s"
    and kshares: "mapR (\<lambda>s. create_ecdh_share E (map ss_idx shares) s pk) shares = Ok kshares"
  shows "derive_ecdh_secret E kshares = serialize_element E (point_mul E P (poly_val cs 0))"
proof -
  let ?f = "\<lambda>s. index_to_scalar (ss_idx s) :: 's"
  let ?c = "ecdh_coeff E (map ss_idx shares)"
  let ?ks = "\<lambda>s. \<lparr>ps_idx = ss_idx s, ps_pubkey = point_encode E (point_mul E P (?c s))\<rparr>"
  have each: "create_ecdh_share E (map ss_idx shares) s pk = Ok r \<longleftrightarrow>
      point_mul E P (?c s) \<noteq> 0 \<and> r = ?ks s" if "s \<in> set shares" for s r
    using create_ecdh_share_eq [OF k256 inj _ P, of s] that by simp
  have nz: "\<forall>s \<in> set shares. point_mul E P (?c s) \<noteq> 0" and ks: "kshares = map ?ks shares"
    using kshares [THEN mapR_Ok_iff_map] each by (auto cong: map_cong)
  have dist: "distinct (map ?f shares)" using inj by (simp add: comp_def)
  have val: "share_scalar E s = poly_val cs (?f s)" if "s \<in> set shares" for s
    using poly that by (simp add: on_poly_def)
  have "(\<Sum>s \<leftarrow> shares. ?c s) = poly_val cs 0"
    using calc.reconstruct_indexed [OF dist ne deg val, of 1 1]
    by (simp add: ecdh_coeff_def comp_def)
  then have "(\<Sum>s \<leftarrow> shares. point_mul E P (?c s)) = point_mul E P (poly_val cs 0)"
    using point_mul_sum_list [OF k256, of P ?c shares] by simp
  moreover have "derive_ecdh_secret E (map ?ks shares) =
      serialize_element E (\<Sum>k \<leftarrow> map ?ks shares. ok_val (lift_x E (ps_pubkey k)))"
    using ne nz lift_x_encode [OF k256] by (intro derive_ecdh_secret_eq [OF k256]) auto
  moreover have "(\<Sum>k \<leftarrow> map ?ks shares. ok_val (lift_x E (ps_pubkey k))) =
      (\<Sum>s \<leftarrow> shares. point_mul E P (?c s))"
    using nz lift_x_encode [OF k256] by (auto intro!: arg_cong [where f = sum_list])
  ultimately show ?thesis by (simp add: ks)
qed

text \<open>Packages carry exactly the members' contributions.\<close>

lemma combine_ecdh_pkgs_shares:
  assumes "mapR (create_ecdh_pkg E members pk) shares = Ok pkgs"
  shows "\<exists>ks. mapR (\<lambda>s. create_ecdh_share E members s pk) (map low_share shares) = Ok ks \<and>
    combine_ecdh_pkgs E pkgs pk = derive_ecdh_secret E ks"
proof -
  let ?entry = "\<lambda>pkg. bindR (ok_or (find (\<lambda>e. ee_ecdh_pk e = pk) (ep_entries pkg))
      (Assertion ''ecdh_pk not found in package from member ''))
    (\<lambda>entry. Ok \<lparr>ps_idx = ep_idx pkg, ps_pubkey = ee_keyshare entry\<rparr>)"
  have "\<exists>ks. mapR (\<lambda>s. create_ecdh_share E members s pk) (map low_share shares) = Ok ks \<and>
    mapR ?entry pkgs = Ok ks"
    using assms
  proof (induction shares arbitrary: pkgs)
    case Nil
    then show ?case by simp
  next
    case (Cons s shares)
    then obtain p ps where p: "create_ecdh_pkg E members pk s = Ok p" and
      ps: "mapR (create_ecdh_pkg E members pk) shares = Ok ps" and pkgs: "pkgs = p # ps"
      by (auto simp: bindR_eq_Ok)
    obtain k where k: "create_ecdh_share E members (low_share s) pk = Ok k" and
      p': "p = \<lparr>ep_idx = sp_idx s, ep_members = members,
        ep_entries = [\<lparr>ee_ecdh_pk = pk, ee_keyshare = ps_pubkey k\<rparr>]\<rparr>"
      using p by (auto simp: create_ecdh_pkg_def bindR_eq_Ok)
    have "ps_idx k = sp_idx s"
      using k by (auto simp: create_ecdh_share_def Let_def bindR_eq_Ok low_share_def)
    then have "?entry p = Ok k" by (simp add: p' ok_or_def)
    then show ?case using Cons.IH [OF ps] k by (auto simp: pkgs)
  qed
  then show ?thesis by (auto simp: combine_ecdh_pkgs_def)
qed

text \<open>The batched routines agree with the single ones, key by key.\<close>

lemma create_batched_entry:
  assumes "create_batched_ecdh_pkg E members pks share = Ok pkg" and "pk \<in> set pks"
  shows "\<exists>p. create_ecdh_pkg E members pk share = Ok p \<and>
    find (\<lambda>e. ee_ecdh_pk e = pk) (ep_entries pkg) = Some (hd (ep_entries p))"
proof -
  have "list_all2 (\<lambda>pk e. \<exists>s. create_ecdh_share E members (low_share share) pk = Ok s \<and>
      e = \<lparr>ee_ecdh_pk = pk, ee_keyshare = ps_pubkey s\<rparr>) pks (ep_entries pkg)"
    using assms(1) by (auto simp: create_batched_ecdh_pkg_def res_simps mapR_eq_Ok
        elim!: list_all2_mono)
  then show ?thesis
    using assms(2)
    by (induction rule: list_all2_induct) (auto simp: create_ecdh_pkg_def)
qed

lemma combine_batched_eq:
  "combine_batched_ecdh_pkgs E pkgs = Ok rs \<Longrightarrow> (pk, secret) \<in> set rs \<Longrightarrow>
   combine_ecdh_pkgs E pkgs pk = Ok secret"
  by (auto simp: combine_batched_ecdh_pkgs_def mapR_eq_Ok list_all2_conv_all_nth in_set_conv_nth
      res_simps split: list.splits)

end
