(* ===== verification/Dealer.thy ===== *)
theory Dealer
  imports Commit Ecdh
begin

text \<open>
  \<open>src/frost/dealer.rs\<close> and \<open>src/frost/nonce.rs\<close>: the trusted dealer's package, grp
  identifiers and membership, and nonces that are re-derived from a stored code by HMAC.
\<close>

subsection \<open>\<open>frost/dealer.rs\<close>\<close>

definition generate_dealer_package ::
  "('s::field, 'p::ab_group_add, 'z) externals_scheme \<Rightarrow> nat \<Rightarrow> u32 \<Rightarrow> bytes list \<Rightarrow>
   (nat \<Rightarrow> bytes) \<Rightarrow> dealer_package res" where
  "generate_dealer_package E threshold share_count secrets rnd =
     bindR (create_dealer_set E threshold share_count secrets rnd) (\<lambda>dealer_set.
     let shares = map (\<lambda>s. \<lparr>sp_idx = ss_idx s, sp_seckey = ss_seckey s\<rparr>) (dss_shares dealer_set)
     in bindR (mapR (\<lambda>s. bindR (get_pubkey E (ss_seckey s)) (\<lambda>pk.
                 Ok \<lparr>mp_idx = ss_idx s, mp_pubkey = pk, mp_identity_pk = None\<rparr>))
                (dss_shares dealer_set)) (\<lambda>members.
        let grp = \<lparr>gp_group_pk = dss_group_pk dealer_set, gp_threshold = threshold,
                     gp_members = members\<rparr>
        in Ok \<lparr>dp_group = grp, dp_shares = shares\<rparr>))"

definition get_group_id :: "('s, 'p, 'z) externals_scheme \<Rightarrow> group_package \<Rightarrow> bytes" where
  "get_group_id E grp =
     (let sorted = sort_key mp_idx (gp_members grp)
      in sha256 E (gp_group_pk grp @ u32_be (of_nat (gp_threshold grp)) @
           concat (map mp_pubkey sorted)))"

definition is_group_member ::
  "('s::field, 'p::ab_group_add, 'z) externals_scheme \<Rightarrow> group_package \<Rightarrow> share_package \<Rightarrow> bool res"
where
  "is_group_member E grp share =
     bindR (get_pubkey E (sp_seckey share)) (\<lambda>pubkey.
     Ok (list_ex (\<lambda>m. mp_idx m = sp_idx share \<and> mp_pubkey m = pubkey) (gp_members grp)))"

fun verify_dealer_shares ::
  "('s::field, 'p::ab_group_add, 'z) externals_scheme \<Rightarrow> group_package \<Rightarrow> share_package list \<Rightarrow> bool res"
where
  "verify_dealer_shares E grp [] = Ok True"
| "verify_dealer_shares E grp (share # shares) =
     bindR (is_group_member E grp share) (\<lambda>b.
     if \<not> b then Ok False else verify_dealer_shares E grp shares)"

definition verify_dealer_package ::
  "('s::field, 'p::ab_group_add, 'z) externals_scheme \<Rightarrow> dealer_package \<Rightarrow> bool res" where
  "verify_dealer_package E pkg = verify_dealer_shares E (dp_group pkg) (dp_shares pkg)"

definition get_member_by_idx :: "group_package \<Rightarrow> u32 \<Rightarrow> member_package option" where
  "get_member_by_idx grp idx = find (\<lambda>m. mp_idx m = idx) (gp_members grp)"

definition get_member_by_pubkey :: "group_package \<Rightarrow> bytes \<Rightarrow> member_package option" where
  "get_member_by_pubkey grp pubkey = find (\<lambda>m. mp_pubkey m = pubkey) (gp_members grp)"

subsection \<open>\<open>frost/nonce.rs\<close>\<close>

definition domain_binder :: bytes where
  "domain_binder = str_bytes ''bifrost/nonce/binder/v1''"

definition domain_hidden :: bytes where
  "domain_hidden = str_bytes ''bifrost/nonce/hidden/v1''"

definition derive_nonce_secret :: "('s, 'p, 'z) externals_scheme \<Rightarrow> bytes \<Rightarrow> bytes \<Rightarrow> bytes \<Rightarrow> bytes"
where
  "derive_nonce_secret E share_secret code domn = hmac_sha256 E share_secret (code @ domn)"

definition generate_nonce_pair ::
  "('s::field, 'p::ab_group_add, 'z) externals_scheme \<Rightarrow> bytes \<Rightarrow> bytes \<Rightarrow> derived_nonce res" where
  "generate_nonce_pair E share_secret code =
     (let bsn = derive_nonce_secret E share_secret code domain_binder;
          hsn = derive_nonce_secret E share_secret code domain_hidden
      in bindR (get_pubkey E bsn) (\<lambda>bpn.
         bindR (get_pubkey E hsn) (\<lambda>hpn.
         Ok \<lparr>dn_binder_pn = bpn, dn_hidden_pn = hpn, dn_code = code\<rparr>)))"

definition generate_nonce_pairs ::
  "('s::field, 'p::ab_group_add, 'z) externals_scheme \<Rightarrow> bytes \<Rightarrow> nat \<Rightarrow> (nat \<Rightarrow> bytes) \<Rightarrow>
   derived_nonce list res" where
  "generate_nonce_pairs E share_secret cnt rnd =
     mapR (\<lambda>i. generate_nonce_pair E share_secret (rnd i)) [0..<cnt]"

definition derive_secret_nonce ::
  "('s, 'p, 'z) externals_scheme \<Rightarrow> bytes \<Rightarrow> bytes \<Rightarrow> secret_nonce_pair" where
  "derive_secret_nonce E share_secret code =
     (let bsn = derive_nonce_secret E share_secret code domain_binder;
          hsn = derive_nonce_secret E share_secret code domain_hidden
      in \<lparr>snp_code = code, snp_binder_sn = bsn, snp_hidden_sn = hsn\<rparr>)"

definition verify_nonce_code ::
  "('s::field, 'p::ab_group_add, 'z) externals_scheme \<Rightarrow> bytes \<Rightarrow> member_nonce \<Rightarrow> bool res" where
  "verify_nonce_code E share_secret nonce =
     (let derived = derive_secret_nonce E share_secret (mn_code nonce)
      in bindR (get_pubkey E (snp_binder_sn derived)) (\<lambda>bpn.
         bindR (get_pubkey E (snp_hidden_sn derived)) (\<lambda>hpn.
         Ok (bpn = mn_binder_pn nonce \<and> hpn = mn_hidden_pn nonce))))"

definition to_member_nonce :: "derived_nonce \<Rightarrow> u32 \<Rightarrow> member_nonce" where
  "to_member_nonce nonce idx =
     \<lparr>mn_idx = idx, mn_binder_pn = dn_binder_pn nonce, mn_hidden_pn = dn_hidden_pn nonce,
      mn_code = dn_code nonce\<rparr>"

definition validate_nonce ::
  "('s::field, 'p::ab_group_add, 'z) externals_scheme \<Rightarrow> derived_nonce \<Rightarrow> bool" where
  "validate_nonce E nonce \<longleftrightarrow>
     res_is_ok (lift_x E (dn_binder_pn nonce)) \<and> res_is_ok (lift_x E (dn_hidden_pn nonce))"

subsection \<open>The dealer's group\<close>

text \<open>
  What a group and its members' shares satisfy: the shares lie on a polynomial whose constant
  term is the discrete logarithm of the group key, and the roster lists their public keys.
\<close>

definition group_on_poly ::
  "('s::field, 'p::ab_group_add, 'z) externals_scheme \<Rightarrow> 's list \<Rightarrow> group_package \<Rightarrow> bool" where
  "group_on_poly E cs grp \<longleftrightarrow>
     gp_group_pk grp = point_encode E (point_mul E (point_gen E) (poly_val cs 0)) \<and>
     poly_val cs 0 \<noteq> 0 \<and>
     (\<forall>m \<in> set (gp_members grp).
        mp_pubkey m = point_encode E (point_mul E (point_gen E)
          (poly_val cs (index_to_scalar (mp_idx m)))))"

lemma get_pubkey_to_bytes:
  assumes "k256_laws E"
  shows "get_pubkey E (scalar_to_bytes E x) = Ok pk \<longleftrightarrow>
    x \<noteq> 0 \<and> pk = point_encode E (point_mul E (point_gen E) x)"
  using assms by (simp add: get_pubkey_eq_Ok)

lemma share_pubkey_on_poly:
  assumes "k256_laws E" and "on_poly E cs s" and "get_pubkey E (ss_seckey s) = Ok pk"
  shows "pk = point_encode E (point_mul E (point_gen E) (poly_val cs (index_to_scalar (ss_idx s))))"
  using assms by (auto simp: get_pubkey_eq_Ok on_poly_def share_scalar_def)

text \<open>The structure of a successful dealing.\<close>

lemma generate_dealer_packageD:
  fixes E :: "('s::field, 'p::ab_group_add, 'z) externals_scheme"
  assumes k256: "k256_laws E" and ok: "generate_dealer_package E t n secrets rnd = Ok pkg"
  defines "cs \<equiv> create_share_coeffs secrets t rnd :: 's list"
  shows "t > 0" and "0 \<notin> set cs"
    and "\<forall>s \<in> set (dp_shares pkg). on_poly E cs (low_share s)"
    and "map sp_idx (dp_shares pkg) = map of_nat [1..<Suc (unat n)]"
    and "group_on_poly E cs (dp_group pkg)" and "gp_threshold (dp_group pkg) = t"
    and "map mp_idx (gp_members (dp_group pkg)) = map sp_idx (dp_shares pkg)"
    and "list_all2 (\<lambda>s m. mp_idx m = sp_idx s \<and> get_pubkey E (sp_seckey s) = Ok (mp_pubkey m))
      (dp_shares pkg) (gp_members (dp_group pkg))"
proof -
  obtain ds members where
    ds: "create_dealer_set E t n secrets rnd = Ok ds" and
    mem: "mapR (\<lambda>s. bindR (get_pubkey E (ss_seckey s)) (\<lambda>pk.
      Ok \<lparr>mp_idx = ss_idx s, mp_pubkey = pk, mp_identity_pk = None\<rparr>)) (dss_shares ds) = Ok members" and
    pkg: "pkg = \<lparr>dp_group = \<lparr>gp_group_pk = dss_group_pk ds, gp_threshold = t, gp_members = members\<rparr>,
       dp_shares = map (\<lambda>s. \<lparr>sp_idx = ss_idx s, sp_seckey = ss_seckey s\<rparr>) (dss_shares ds)\<rparr>"
    using ok by (auto simp: generate_dealer_package_def Let_def bindR_eq_Ok)
  obtain st where "create_share_set E t n secrets rnd = Ok st"
    and ds_eq: "(case sss_vss_commits st of [] \<Rightarrow> Panic
      | g # _ \<Rightarrow> Ok \<lparr>dss_shares = sss_shares st, dss_vss_commits = sss_vss_commits st,
          dss_group_pk = g\<rparr>) = Ok ds"
    using ds by (auto simp: create_dealer_set_def bindR_eq_Ok)
  then have sh: "create_shares E cs n = Ok (dss_shares ds)" and
    cm: "get_share_commits E cs = Ok (sss_vss_commits st)" and
    cons: "sss_vss_commits st \<noteq> []" "dss_group_pk ds = hd (sss_vss_commits st)"
    by (auto simp: create_share_set_def Let_def bindR_eq_Ok cs_def split: list.split_asm)
  have csne: "cs \<noteq> []" and nz: "0 \<notin> set cs"
    and gpk: "dss_group_pk ds = point_encode E (point_mul E (point_gen E) (hd cs))"
    using cm cons k256 by (auto simp: get_share_commits_eq_Ok list.map_sel)
  show "t > 0" using csne by (simp add: cs_def flip: length_0_conv)
  show "0 \<notin> set cs" by (rule nz)
  have on: "on_poly E cs s" if "s \<in> set (dss_shares ds)" for s
    by (rule create_shares_on_poly [OF k256 sh that])
  then show "\<forall>s \<in> set (dp_shares pkg). on_poly E cs (low_share s)"
    by (simp add: pkg low_share_def on_poly_def share_scalar_def)
  show "map sp_idx (dp_shares pkg) = map of_nat [1..<Suc (unat n)]"
    using create_shares_idx(1) [OF sh] by (simp add: pkg comp_def del: upt_Suc)
  have all: "list_all2 (\<lambda>s m. mp_idx m = ss_idx s \<and> get_pubkey E (ss_seckey s) = Ok (mp_pubkey m))
      (dss_shares ds) members"
    using mem [unfolded mapR_eq_Ok] by (rule list_all2_mono) (auto simp: bindR_eq_Ok)
  then show "list_all2 (\<lambda>s m. mp_idx m = sp_idx s \<and> get_pubkey E (sp_seckey s) = Ok (mp_pubkey m))
      (dp_shares pkg) (gp_members (dp_group pkg))"
    by (simp add: pkg list_all2_map1)
  then show "map mp_idx (gp_members (dp_group pkg)) = map sp_idx (dp_shares pkg)"
    by (induction rule: list_all2_induct) auto
  show "gp_threshold (dp_group pkg) = t" by (simp add: pkg)
  have "mp_pubkey m = point_encode E (point_mul E (point_gen E) (poly_val cs (index_to_scalar (mp_idx m))))"
    if "m \<in> set members" for m
    using all that on share_pubkey_on_poly [OF k256]
    by (auto simp: list_all2_conv_all_nth in_set_conv_nth) (metis nth_mem)
  moreover have "poly_val cs 0 = hd cs" using csne by (cases cs) auto
  ultimately show "group_on_poly E cs (dp_group pkg)"
    using nz csne by (cases cs) (auto simp: group_on_poly_def pkg gpk)
qed

lemma verify_dealer_shares_True:
  "verify_dealer_shares E g ss = Ok True \<longleftrightarrow> (\<forall>s \<in> set ss. is_group_member E g s = Ok True)"
  by (induction ss) (auto simp: bindR_eq_Ok)

lemma dealer_package_verifies:
  assumes "k256_laws E" and "generate_dealer_package E t n secrets rnd = Ok pkg"
  shows "verify_dealer_package E pkg = Ok True"
  using generate_dealer_packageD(8) [OF assms]
  by (auto simp: verify_dealer_package_def verify_dealer_shares_True is_group_member_def bindR_eq_Ok
      list_ex_iff list_all2_conv_all_nth in_set_conv_nth) (metis nth_mem)

subsection \<open>Nonces\<close>

text \<open>The code alone recovers the secret half of a generated nonce.\<close>

definition member_public_nonce :: "member_nonce \<Rightarrow> public_nonce" where
  "member_public_nonce n = \<lparr>pn_idx = mn_idx n, binder_pn = mn_binder_pn n, hidden_pn = mn_hidden_pn n\<rparr>"

definition low_snonce :: "u32 \<Rightarrow> secret_nonce_pair \<Rightarrow> secret_nonce" where
  "low_snonce idx p = \<lparr>sn_idx = idx, binder_sn = snp_binder_sn p, hidden_sn = snp_hidden_sn p\<rparr>"

lemma verify_nonce_code_iff:
  "verify_nonce_code E ss n = Ok True \<longleftrightarrow>
   nonce_pair E (member_public_nonce n) (low_snonce (mn_idx n) (derive_secret_nonce E ss (mn_code n)))"
  by (auto simp: verify_nonce_code_def nonce_pair_def member_public_nonce_def low_snonce_def Let_def
      bindR_eq_Ok)

lemma generated_nonce_verifies:
  "generate_nonce_pair E ss code = Ok n \<Longrightarrow> verify_nonce_code E ss (to_member_nonce n i) = Ok True"
  by (auto simp: generate_nonce_pair_def verify_nonce_code_def derive_secret_nonce_def
      to_member_nonce_def Let_def bindR_eq_Ok)

lemma generated_nonce_valid:
  assumes "k256_laws E" and "generate_nonce_pair E ss code = Ok n"
  shows "validate_nonce E n"
  using assms pubkey_lift(1) [OF assms(1)]
  by (auto simp: generate_nonce_pair_def validate_nonce_def Let_def bindR_eq_Ok)

end
