(* ===== verification/Signing.thy ===== *)
theory Signing
  imports Sign Dealer
begin

text \<open>
  \<open>src/frost/signing.rs\<close>: signing sessions, partial signature packages, their verification and
  combination.  The lemmas reduce a session to the signing context of its one message, so that
  the facts of the theory of partial signatures apply to whole packages.
\<close>

definition build_public_nonces :: "member_nonce list \<Rightarrow> public_nonce list" where
  "build_public_nonces nonces =
     map (\<lambda>n. \<lparr>pn_idx = mn_idx n, binder_pn = mn_binder_pn n, hidden_pn = mn_hidden_pn n\<rparr>) nonces"

definition compute_session_id ::
  "('s, 'p, 'z) externals_scheme \<Rightarrow> group_package \<Rightarrow> u32 list \<Rightarrow> (bytes \<times> bytes list) list \<Rightarrow> bytes"
where
  "compute_session_id E grp members messages =
     (let gid = get_group_id E grp
      in sha256 E (gid @ concat (map u32_be members) @
           concat (map (\<lambda>(msg, tweaks). u32_be (of_nat (length msg)) @ msg @ concat tweaks) messages)))"

definition create_sign_session ::
  "('s, 'p, 'z) externals_scheme \<Rightarrow> group_package \<Rightarrow> u32 list \<Rightarrow> (bytes \<times> bytes list) list \<Rightarrow>
   member_nonce list \<Rightarrow> sign_session res" where
  "create_sign_session E grp members messages nonces =
     (if length messages \<noteq> 1
      then Err (Assertion ''a signing session must contain exactly one message'')
      else if length nonces \<noteq> length members
      then Err (Assertion ''nonce count must equal member count'')
      else let sorted_members = sort members;
               sid = compute_session_id E grp sorted_members messages
           in Ok \<lparr>ses_sid = sid, ses_group_pk = gp_group_pk grp, ses_members = sorted_members,
                   ses_messages = messages, ses_nonces = nonces\<rparr>)"

definition create_partial_sig_package ::
  "('s::field, 'p::ab_group_add, 'z) externals_scheme \<Rightarrow> sign_session \<Rightarrow> share_package \<Rightarrow>
   secret_nonce_pair \<Rightarrow> partial_sig_package res" where
  "create_partial_sig_package E session share nonce =
     (let pnonces = build_public_nonces (ses_nonces session)
      in bindR (mapR (\<lambda>(message, tweaks).
                  bindR (get_group_signing_ctx E (ses_group_pk session) pnonces message tweaks) (\<lambda>ctx.
                  bindR (sign_msg E ctx (low_share share) (low_snonce (sp_idx share) nonce)) (\<lambda>sig.
                  Ok \<lparr>psg_message = message, psg_psig = sg_psig sig\<rparr>)))
                (ses_messages session)) (\<lambda>psigs.
         bindR (get_pubkey E (sp_seckey share)) (\<lambda>pubkey.
         Ok \<lparr>psp_idx = sp_idx share, psp_pubkey = pubkey, psp_sid = ses_sid session,
              psp_psigs = psigs\<rparr>)))"

text \<open>The loop over the session's messages of \<open>verify_partial_sig_package\<close>, from position \<open>i\<close>.\<close>

fun verify_psigs_loop ::
  "('s::field, 'p::ab_group_add, 'z) externals_scheme \<Rightarrow> sign_session \<Rightarrow> partial_sig_package \<Rightarrow>
   public_nonce list \<Rightarrow> public_nonce \<Rightarrow> nat \<Rightarrow> (bytes \<times> bytes list) list \<Rightarrow> string option res" where
  "verify_psigs_loop E session pkg pnonces pnonce i [] = Ok None"
| "verify_psigs_loop E session pkg pnonces pnonce i ((message, tweaks) # rest) =
     (if length (psp_psigs pkg) \<le> i then Ok (Some ''missing partial sig for message'')
      else let psig_entry = psp_psigs pkg ! i
           in bindR (get_group_signing_ctx E (ses_group_pk session) pnonces message tweaks) (\<lambda>ctx.
              bindR (verify_partial_sig E ctx pnonce (psp_pubkey pkg) (psg_psig psig_entry)) (\<lambda>ok.
              if \<not> ok then Ok (Some ''partial sig invalid for message'')
              else verify_psigs_loop E session pkg pnonces pnonce (Suc i) rest)))"

definition verify_partial_sig_package ::
  "('s::field, 'p::ab_group_add, 'z) externals_scheme \<Rightarrow> sign_session \<Rightarrow> group_package \<Rightarrow>
   partial_sig_package \<Rightarrow> string option res" where
  "verify_partial_sig_package E session grp pkg =
     (if psp_sid pkg \<noteq> ses_sid session then Ok (Some ''session id mismatch'')
      else if psp_pubkey pkg \<notin> set (map mp_pubkey (gp_members grp))
      then Ok (Some ''pubkey not found in group'')
      else let pnonces = build_public_nonces (ses_nonces session)
           in case find (\<lambda>n. pn_idx n = psp_idx pkg) pnonces of
                None \<Rightarrow> Ok (Some ''no nonce for member'')
              | Some pnonce \<Rightarrow>
                  verify_psigs_loop E session pkg pnonces pnonce 0 (ses_messages session))"

definition combine_signatures ::
  "('s::field, 'p::ab_group_add, 'z) externals_scheme \<Rightarrow> sign_session \<Rightarrow> group_package \<Rightarrow>
   partial_sig_package list \<Rightarrow> signature list res" where
  "combine_signatures E session grp pkgs =
     (if length pkgs < gp_threshold grp
      then Err (Assertion ''need at least threshold partial sigs'')
      else let pnonces = build_public_nonces (ses_nonces session)
           in mapR (\<lambda>(i, message, tweaks).
                bindR (get_group_signing_ctx E (ses_group_pk session) pnonces message tweaks) (\<lambda>ctx.
                bindR (mapR (\<lambda>pkg.
                         if length (psp_psigs pkg) \<le> i
                         then Err (Assertion ''missing psig at index'')
                         else Ok \<lparr>sg_idx = psp_idx pkg, sg_pubkey = psp_pubkey pkg,
                                   sg_psig = psg_psig (psp_psigs pkg ! i)\<rparr>) pkgs) (\<lambda>share_sigs.
                bindR (combine_partial_sigs E ctx share_sigs) (\<lambda>sig.
                let key_ctx = key_context ctx
                in bindR (verify_final_sig E key_ctx message sig) (\<lambda>ok.
                   if \<not> ok
                   then Err (Assertion ''combined signature failed BIP340 verification'')
                   else Ok \<lparr>sig_message = message, sig_pubkey = ctx_group_pk ctx,
                             sig_sig = sig\<rparr>)))))
              (enumerate 0 (ses_messages session)))"

subsection \<open>Sessions\<close>

lemma create_sign_session_eq_Ok:
  "create_sign_session E grp members messages nonces = Ok ses \<longleftrightarrow>
   length messages = 1 \<and> length nonces = length members \<and>
   ses = \<lparr>ses_sid = compute_session_id E grp (sort members) messages,
          ses_group_pk = gp_group_pk grp, ses_members = sort members,
          ses_messages = messages, ses_nonces = nonces\<rparr>"
  by (auto simp: create_sign_session_def Let_def split: if_splits)

lemma create_sign_session_order:
  assumes "create_sign_session E grp members messages nonces = Ok ses" and "mset members' = mset members"
  shows "create_sign_session E grp members' messages nonces = Ok ses"
proof -
  have "sort members' = sort members" and "length members' = length members"
    using assms(2) by (metis mset_sort properties_for_sort sorted_sort, metis size_mset)
  then show ?thesis using assms(1) by (simp only: create_sign_session_eq_Ok)
qed

text \<open>Nothing leaves \<open>combine_signatures\<close> that the BIP-340 verifier has not accepted.\<close>

lemma verify_final_sig_True:
  "verify_final_sig E ctx m sig = Ok True \<longleftrightarrow>
   length (kc_group_pk ctx) = 33 \<and> vk_from_bytes_ok E (tl (kc_group_pk ctx)) \<and>
   sig_try_from_ok E sig \<and> verify_raw E (tl (kc_group_pk ctx)) m sig"
  by (auto simp: verify_final_sig_def Let_def)

lemma combine_signatures_verified:
  assumes "combine_signatures E ses grp pkgs = Ok sigs"
  shows "length pkgs \<ge> gp_threshold grp" and "map sig_message sigs = map fst (ses_messages ses)"
    and "\<forall>s \<in> set sigs. verify_raw E (tl (sig_pubkey s)) (sig_message s) (sig_sig s)"
proof -
  let ?P = "\<lambda>(i, m, t) s. sig_message s = m \<and> verify_raw E (tl (sig_pubkey s)) m (sig_sig s)"
  show "length pkgs \<ge> gp_threshold grp"
    using assms by (auto simp: combine_signatures_def split: if_splits)
  have all: "list_all2 ?P (enumerate 0 (ses_messages ses)) sigs"
    using assms
    by (auto simp: combine_signatures_def mapR_eq_Ok Let_def bindR_eq_Ok verify_final_sig_True
        key_context_def split: if_splits elim!: list_all2_mono)
  then show "\<forall>s \<in> set sigs. verify_raw E (tl (sig_pubkey s)) (sig_message s) (sig_sig s)"
    by (induction rule: list_all2_induct) auto
  have "map sig_message sigs = map (fst \<circ> snd) (enumerate 0 (ses_messages ses))"
    using all by (induction rule: list_all2_induct) auto
  also have "\<dots> = map fst (ses_messages ses)"
    by (simp only: map_map [symmetric] map_snd_enumerate)
  finally show "map sig_message sigs = map fst (ses_messages ses)" .
qed

subsection \<open>A session of honest members\<close>

text \<open>
  \<open>ms\<close> are the participating members, each with its share and the code of the nonce it put in
  the session.
\<close>

definition honest_member ::
  "('s::field, 'p::ab_group_add, 'z) externals_scheme \<Rightarrow> 's list \<Rightarrow> member_nonce \<Rightarrow> share_package \<Rightarrow>
   bool" where
  "honest_member E cs n share \<longleftrightarrow>
     mn_idx n = sp_idx share \<and> on_poly E cs (low_share share) \<and>
     verify_nonce_code E (sp_seckey share) n = Ok True"

definition sign_parts ::
  "('s::field, 'p::ab_group_add, 'z) externals_scheme \<Rightarrow> member_nonce list \<Rightarrow> share_package list \<Rightarrow>
   (secret_share \<times> secret_nonce) list" where
  "sign_parts E nonces shares =
     map2 (\<lambda>n s. (low_share s, low_snonce (sp_idx s) (derive_secret_nonce E (sp_seckey s) (mn_code n))))
       nonces shares"

lemma honest_session_packages:
  fixes E :: "('s::field, 'p::ab_group_add, 'z) externals_scheme"
  assumes "k256_laws E" and "group_on_poly E cs grp"
    and "list_all2 (honest_member E cs) nonces shares"
    and "distinct (map (index_to_scalar \<circ> sp_idx) shares :: 's list)"
    and "shares \<noteq> []" and "length cs \<le> length shares"
  shows "honest_session E cs (gp_group_pk grp) (build_public_nonces nonces) (sign_parts E nonces shares)"
proof -
  have "point_mul E (point_gen E) (poly_val cs 0) \<noteq> 0"
    using assms(1,2) by (simp add: group_on_poly_def point_mul_gen_zero_iff)
  from lift_x_encode [OF assms(1) this]
  have "lift_x E (gp_group_pk grp) = Ok (point_mul E (point_gen E) (poly_val cs 0))"
    using assms(2) by (simp only: group_on_poly_def)
  moreover have "list_all2 (session_member E cs) (build_public_nonces nonces) (sign_parts E nonces shares)"
    using assms(3)
    by (auto simp: list_all2_conv_all_nth build_public_nonces_def sign_parts_def session_member_def
        honest_member_def verify_nonce_code_iff member_public_nonce_def low_snonce_def low_share_def)
  moreover have "map (index_to_scalar \<circ> pn_idx) (build_public_nonces nonces) =
      (map (index_to_scalar \<circ> sp_idx) shares :: 's list)"
    using assms(3)
    by (auto simp: list_eq_iff_nth_eq list_all2_conv_all_nth build_public_nonces_def honest_member_def)
  ultimately show ?thesis
    using assms(4-6) list_all2_lengthD [OF assms(3)]
    by (auto simp: honest_session_def build_public_nonces_def)
qed

text \<open>What each member's package holds, for the session's one message.\<close>

lemma create_partial_sig_package_one:
  assumes "ses_messages ses = [(msg, tweaks)]"
    and "get_group_signing_ctx E (ses_group_pk ses) (build_public_nonces (ses_nonces ses)) msg tweaks = Ok ctx"
  shows "create_partial_sig_package E ses share np = Ok pkg \<longleftrightarrow>
    (\<exists>sig. sign_msg E ctx (low_share share) (low_snonce (sp_idx share) np) = Ok sig \<and>
      get_pubkey E (sp_seckey share) = Ok (psp_pubkey pkg) \<and>
      pkg = \<lparr>psp_idx = sp_idx share, psp_pubkey = psp_pubkey pkg, psp_sid = ses_sid ses,
        psp_psigs = [\<lparr>psg_message = msg, psg_psig = sg_psig sig\<rparr>]\<rparr>)"
  using assms by (auto simp: create_partial_sig_package_def Let_def bindR_eq_Ok)

text \<open>The partial signatures of one-message packages, as the low-level combiner takes them.\<close>

definition first_psig :: "partial_sig_package \<Rightarrow> share_signature" where
  "first_psig p =
     \<lparr>sg_idx = psp_idx p, sg_pubkey = psp_pubkey p, sg_psig = psg_psig (hd (psp_psigs p))\<rparr>"

lemma combine_signatures_one:
  assumes "ses_messages ses = [(msg, tweaks)]" and "gp_threshold grp \<le> length pkgs"
    and "get_group_signing_ctx E (ses_group_pk ses) (build_public_nonces (ses_nonces ses)) msg tweaks = Ok ctx"
    and "\<forall>p \<in> set pkgs. length (psp_psigs p) = 1"
    and "combine_partial_sigs E ctx (map first_psig pkgs) = Ok sig"
    and "verify_final_sig E (key_context ctx) msg sig = Ok True"
  shows "combine_signatures E ses grp pkgs =
    Ok [\<lparr>sig_message = msg, sig_pubkey = ctx_group_pk ctx, sig_sig = sig\<rparr>]"
proof -
  have "mapR (\<lambda>pkg. if length (psp_psigs pkg) \<le> 0 then Err (Assertion ''missing psig at index'')
      else Ok \<lparr>sg_idx = psp_idx pkg, sg_pubkey = psp_pubkey pkg, sg_psig = psg_psig (psp_psigs pkg ! 0)\<rparr>)
      pkgs = Ok (map first_psig pkgs)"
    using assms(4) by (intro mapR_Ok_map) (auto 0 4 simp: first_psig_def hd_conv_nth simp flip: length_greater_0_conv)
  then show ?thesis
    using assms by (simp add: combine_signatures_def)
qed

text \<open>What each member does in an honest run of a session.\<close>

definition honest_packages ::
  "('s::field, 'p::ab_group_add, 'z) externals_scheme \<Rightarrow> sign_session \<Rightarrow> member_nonce list \<Rightarrow>
   share_package list \<Rightarrow> partial_sig_package list \<Rightarrow> bool" where
  "honest_packages E ses nonces shares pkgs \<longleftrightarrow>
     list_all2 (\<lambda>(n, s) pkg. create_partial_sig_package E ses s
         (derive_secret_nonce E (sp_seckey s) (mn_code n)) = Ok pkg) (zip nonces shares) pkgs"

lemma honest_packages_ctx:
  assumes "honest_packages E ses nonces shares pkgs" and "zip nonces shares \<noteq> []"
    and "ses_messages ses = [(msg, tweaks)]"
  obtains ctx where "get_group_signing_ctx E (ses_group_pk ses) (build_public_nonces (ses_nonces ses))
    msg tweaks = Ok ctx"
proof -
  obtain n s where "(n, s) \<in> set (zip nonces shares)"
    using assms(2) by (cases "zip nonces shares") auto
  then obtain pkg where "create_partial_sig_package E ses s
      (derive_secret_nonce E (sp_seckey s) (mn_code n)) = Ok pkg"
    using list_all2_setL [OF assms(1) [unfolded honest_packages_def]] by auto
  then show thesis
    using assms(3) by (auto simp: create_partial_sig_package_def Let_def bindR_eq_Ok intro: that)
qed

lemma honest_packages_psigs:
  assumes "honest_packages E ses nonces shares pkgs" and "ses_messages ses = [(msg, tweaks)]"
    and ctx: "get_group_signing_ctx E (ses_group_pk ses) (build_public_nonces (ses_nonces ses)) msg tweaks = Ok ctx"
  shows "\<exists>sigs. list_all2 (\<lambda>m s. sign_msg E ctx (fst m) (snd m) = Ok s) (sign_parts E nonces shares) sigs \<and>
      map sg_psig sigs = map (sg_psig \<circ> first_psig) pkgs"
    and "\<forall>p \<in> set pkgs. length (psp_psigs p) = 1"
proof -
  let ?m = "\<lambda>(n, s). (low_share s, low_snonce (sp_idx s) (derive_secret_nonce E (sp_seckey s) (mn_code n)))"
  have parts: "sign_parts E nonces shares = map ?m (zip nonces shares)"
    by (simp add: sign_parts_def)
  have all: "list_all2 (\<lambda>ns pkg. (\<exists>sig. sign_msg E ctx (fst (?m ns)) (snd (?m ns)) = Ok sig \<and>
      sg_psig sig = sg_psig (first_psig pkg)) \<and> length (psp_psigs pkg) = 1) (zip nonces shares) pkgs"
    using assms(1) unfolding honest_packages_def
  proof (rule list_all2_mono)
    fix ns pkg
    assume made: "(case ns of (n, s) \<Rightarrow> \<lambda>pkg. create_partial_sig_package E ses s
      (derive_secret_nonce E (sp_seckey s) (mn_code n)) = Ok pkg) pkg"
    show "(\<exists>sig. sign_msg E ctx (fst (?m ns)) (snd (?m ns)) = Ok sig \<and>
      sg_psig sig = sg_psig (first_psig pkg)) \<and> length (psp_psigs pkg) = 1"
    proof (cases ns)
      case (Pair n s)
      obtain sig pk where "sign_msg E ctx (fst (?m ns)) (snd (?m ns)) = Ok sig"
        and "pkg = \<lparr>psp_idx = sp_idx s, psp_pubkey = pk, psp_sid = ses_sid ses,
          psp_psigs = [\<lparr>psg_message = msg, psg_psig = sg_psig sig\<rparr>]\<rparr>"
        using made unfolding Pair prod.case create_partial_sig_package_one [OF assms(2) ctx] by auto
      then show ?thesis by (simp add: first_psig_def)
    qed
  qed
  then show "\<forall>p \<in> set pkgs. length (psp_psigs p) = 1"
    by (induction rule: list_all2_induct) auto
  from all show "\<exists>sigs. list_all2 (\<lambda>m s. sign_msg E ctx (fst m) (snd m) = Ok s) (sign_parts E nonces shares) sigs \<and>
      map sg_psig sigs = map (sg_psig \<circ> first_psig) pkgs"
    unfolding parts
  proof (induction rule: list_all2_induct)
    case Nil
    then show ?case by simp
  next
    case (Cons ns nss pkg pkgs)
    then obtain sig sigs where "sign_msg E ctx (fst (?m ns)) (snd (?m ns)) = Ok sig"
      "sg_psig sig = sg_psig (first_psig pkg)"
      "list_all2 (\<lambda>m s. sign_msg E ctx (fst m) (snd m) = Ok s) (map ?m nss) sigs"
      "map sg_psig sigs = map (sg_psig \<circ> first_psig) pkgs" by blast
    then show ?case by (intro exI [of _ "sig # sigs"]) simp
  qed
qed

lemma combine_partial_sigs_cong:
  fixes E :: "('s::field, 'p::ab_group_add, 'z) externals_scheme"
  assumes "map sg_psig xs = map sg_psig ys"
  shows "combine_partial_sigs E ctx xs = combine_partial_sigs E ctx ys"
proof -
  have "map scalar_from_bytes (map sg_psig xs) = (map scalar_from_bytes (map sg_psig ys) :: 's list)"
    by (rule arg_cong [OF assms])
  then have "map (\<lambda>s. scalar_from_bytes (sg_psig s)) xs =
      (map (\<lambda>s. scalar_from_bytes (sg_psig s)) ys :: 's list)"
    by (simp only: map_map comp_def)
  then show ?thesis by (simp only: combine_partial_sigs_def)
qed

text \<open>An honest member's package passes verification.\<close>

lemma build_public_nonces_find:
  assumes "n \<in> set nonces" and "distinct (map mn_idx nonces)"
  shows "find (\<lambda>x. pn_idx x = mn_idx n) (build_public_nonces nonces) = Some (member_public_nonce n)"
proof -
  have "build_public_nonces nonces = map member_public_nonce nonces"
    by (simp add: build_public_nonces_def member_public_nonce_def)
  moreover have "find (\<lambda>x. mn_idx x = mn_idx n) nonces = Some n"
    by (rule find_unique [OF assms(2,1)])
  ultimately show ?thesis
    by (simp add: find_cong_map comp_def member_public_nonce_def)
qed

lemma honest_package_verifies:
  fixes E :: "('s::field, 'p::ab_group_add, 'z) externals_scheme"
  assumes k256: "k256_laws E"
    and sess: "honest_session E cs (ses_group_pk ses) (build_public_nonces (ses_nonces ses)) ms"
    and one: "ses_messages ses = [(msg, tweaks)]"
    and ctx: "get_group_signing_ctx E (ses_group_pk ses) (build_public_nonces (ses_nonces ses)) msg tweaks = Ok ctx"
    and n: "n \<in> set (ses_nonces ses)" "distinct (map mn_idx (ses_nonces ses))" "honest_member E cs n s"
    and mem: "(low_share s, low_snonce (sp_idx s) (derive_secret_nonce E (sp_seckey s) (mn_code n))) \<in> set ms"
    and pkg: "create_partial_sig_package E ses s (derive_secret_nonce E (sp_seckey s) (mn_code n)) = Ok pkg"
    and roster: "psp_pubkey pkg \<in> set (map mp_pubkey (gp_members grp))"
  shows "verify_partial_sig_package E ses grp pkg = Ok None"
proof -
  let ?sn = "low_snonce (sp_idx s) (derive_secret_nonce E (sp_seckey s) (mn_code n))"
  obtain sig where sig: "sign_msg E ctx (low_share s) ?sn = Ok sig"
    and pk': "get_pubkey E (sp_seckey s) = Ok (psp_pubkey pkg)"
    and p: "pkg = \<lparr>psp_idx = sp_idx s, psp_pubkey = psp_pubkey pkg, psp_sid = ses_sid ses,
      psp_psigs = [\<lparr>psg_message = msg, psg_psig = sg_psig sig\<rparr>]\<rparr>"
    using pkg unfolding create_partial_sig_package_one [OF one ctx] by blast
  have pk: "get_pubkey E (ss_seckey (low_share s)) = Ok (psp_pubkey pkg)"
    using pk' by (simp add: low_share_def)
  have fields: "psp_idx pkg = sp_idx s" "psp_sid pkg = ses_sid ses"
    "psp_psigs pkg = [\<lparr>psg_message = msg, psg_psig = sg_psig sig\<rparr>]"
    using arg_cong [OF p, of psp_idx] arg_cong [OF p, of psp_sid] arg_cong [OF p, of psp_psigs]
    by simp_all
  have idx: "mn_idx n = sp_idx s" using n(3) by (simp add: honest_member_def)
  have pn: "member_public_nonce n \<in> set (build_public_nonces (ses_nonces ses))"
    using n(1) by (auto simp: build_public_nonces_def member_public_nonce_def)
  have sm: "session_member E cs (member_public_nonce n) (low_share s, ?sn)"
    using n(3) by (auto simp: session_member_def honest_member_def verify_nonce_code_iff
        low_share_def low_snonce_def)
  have "scalar_from_bytes (sg_psig sig) = psig_scalar E ctx (low_share s) ?sn"
    using sign_msg_member [OF k256 ctx sess mem] sig k256 pk by simp
  then have "verify_partial_sig E ctx (member_public_nonce n) (psp_pubkey pkg) (sg_psig sig) = Ok True"
    using verify_partial_sig_member [OF k256 ctx sess pn sm pk] by simp
  moreover have "find (\<lambda>x. pn_idx x = sp_idx s) (build_public_nonces (ses_nonces ses)) =
      Some (member_public_nonce n)"
    using build_public_nonces_find [OF n(1,2)] by (simp add: idx)
  ultimately show ?thesis
    using roster by (simp add: verify_partial_sig_package_def fields one ctx)
qed

end
