(* ===== verification/Refresh_Recover.thy ===== *)
theory Refresh_Recover
  imports Shares
begin

text \<open>
  \<open>src/refresh.rs\<close> and \<open>src/recover.rs\<close>: proactive refresh of a share set by polynomials with
  zero constant term, and the repair of a lost share by a threshold of helpers.  The lemmas say
  that a refresh keeps the shared secret and that a repair yields the target's own share.

  \<open>threshold - 1\<close> on \<open>usize\<close> underflows for a zero threshold: a panic.
\<close>

subsection \<open>\<open>refresh.rs\<close>\<close>

definition gen_refresh_shares ::
  "('s::field, 'p::ab_group_add, 'z) externals_scheme \<Rightarrow> u32 \<Rightarrow> nat \<Rightarrow> u32 \<Rightarrow> bytes list \<Rightarrow>
   (nat \<Rightarrow> bytes) \<Rightarrow> secret_share_package res" where
  "gen_refresh_shares E index threshold share_max secrets rnd =
     (if threshold = 0 then Panic
      else let sub_coeffs = create_share_coeffs secrets (threshold - 1) rnd;
               coeffs = 0 # sub_coeffs
           in bindR (create_shares E coeffs share_max) (\<lambda>shares.
              bindR (get_share_commits E sub_coeffs) (\<lambda>vss_commits.
              Ok \<lparr>ssp_idx = index, ssp_shares = shares, ssp_vss_commits = vss_commits\<rparr>)))"

definition refresh_share ::
  "('s::field, 'p::ab_group_add, 'z) externals_scheme \<Rightarrow> secret_share list \<Rightarrow> secret_share \<Rightarrow>
   secret_share res" where
  "refresh_share E refresh_shares current_share = combine_set E (current_share # refresh_shares)"

subsection \<open>\<open>recover.rs\<close>\<close>

definition gen_recovery_shares ::
  "('s::field, 'p::ab_group_add, 'z) externals_scheme \<Rightarrow> u32 list \<Rightarrow> secret_share \<Rightarrow> u32 \<Rightarrow> nat \<Rightarrow>
   bytes list \<Rightarrow> (nat \<Rightarrow> bytes) \<Rightarrow> secret_share_package res" where
  "gen_recovery_shares E members share target threshold secrets rnd =
     bindR (assert_ok (length members \<ge> threshold) ''not enough members to meet threshold'') (\<lambda>_.
     bindR (assert_ok (length members = threshold) ''member count must equal threshold'') (\<lambda>_.
     let sorted_members = sort members;
         share_idx = index_to_scalar (ss_idx share);
         target_idx = index_to_scalar target;
         mbrs = map index_to_scalar (filter (\<lambda>idx. idx \<noteq> ss_idx share) sorted_members);
         share_seckey = scalar_from_bytes (ss_seckey share)
     in bindR (calc_lagrange_coeff mbrs share_idx target_idx) (\<lambda>lgrng_coeff.
        bindR (assert_ok (lgrng_coeff \<noteq> 0) ''lagrange coefficient must be greater than zero'') (\<lambda>_.
        if threshold = 0 then Panic
        else let rand_coeffs = create_share_coeffs secrets (threshold - 1) rnd;
                 coeff_sum = foldl (\<lambda>p n. p + n) 0 rand_coeffs;
                 repair_coeff = lgrng_coeff * share_seckey - coeff_sum;
                 repair_shares = rand_coeffs @ [repair_coeff]
             in bindR (get_share_commits E repair_shares) (\<lambda>vss_commits.
                bindR (mapR (\<lambda>(i, idx).
                        if length repair_shares \<le> i then Panic
                        else Ok \<lparr>ss_idx = idx, ss_seckey = scalar_to_bytes E (repair_shares ! i)\<rparr>)
                      (enumerate 0 sorted_members)) (\<lambda>shares.
                Ok \<lparr>ssp_idx = ss_idx share, ssp_shares = shares, ssp_vss_commits = vss_commits\<rparr>))))))"

definition recover_share ::
  "('s::field, 'p::ab_group_add, 'z) externals_scheme \<Rightarrow> secret_share list \<Rightarrow> u32 \<Rightarrow> secret_share"
where
  "recover_share E shares idx =
     (let summed = foldl (\<lambda>p n. p + n) 0 (map (\<lambda>s. scalar_from_bytes (ss_seckey s)) shares)
      in \<lparr>ss_idx = idx, ss_seckey = scalar_to_bytes E summed\<rparr>)"

subsection \<open>Refresh rounds\<close>

text \<open>One member's part of a refresh round: it picks its share out of every package.\<close>

definition refresh_from ::
  "('s::field, 'p::ab_group_add, 'z) externals_scheme \<Rightarrow> secret_share_package list \<Rightarrow> secret_share \<Rightarrow>
   secret_share res" where
  "refresh_from E pkgs s =
     bindR (mapR (\<lambda>p. get_record ss_idx (ssp_shares p) (ss_idx s)) pkgs) (\<lambda>rs. refresh_share E rs s)"

lemma gen_refresh_sharesD:
  assumes "gen_refresh_shares E i t n secrets rnd = Ok p"
  shows "t > 0"
    and "create_shares E (0 # create_share_coeffs secrets (t - 1) rnd) n = Ok (ssp_shares p)"
    and "get_share_commits E (create_share_coeffs secrets (t - 1) rnd) = Ok (ssp_vss_commits p)"
  using assms by (auto simp: gen_refresh_shares_def Let_def res_simps split: if_splits)

lemma gen_refresh_on_poly:
  assumes "k256_laws E" and "gen_refresh_shares E i t n secrets rnd = Ok p" and "s \<in> set (ssp_shares p)"
  shows "on_poly E (0 # create_share_coeffs secrets (t - 1) rnd) s"
  using create_shares_on_poly gen_refresh_sharesD(2) assms by blast

text \<open>Every package of a round is some polynomial of the same length with zero constant term.\<close>

definition zero_poly_pkg ::
  "('s::field, 'p::ab_group_add, 'z) externals_scheme \<Rightarrow> nat \<Rightarrow> secret_share_package \<Rightarrow> 's list \<Rightarrow> bool"
where
  "zero_poly_pkg E t p ds \<longleftrightarrow>
     length ds = t \<and> poly_val ds 0 = 0 \<and> (\<forall>s \<in> set (ssp_shares p). on_poly E ds s)"

lemma gen_refresh_zero_poly:
  assumes "k256_laws E" and "gen_refresh_shares E i t n secrets rnd = Ok p"
  shows "zero_poly_pkg E t p (0 # create_share_coeffs secrets (t - 1) rnd)"
  using gen_refresh_on_poly [OF assms] gen_refresh_sharesD(1) [OF assms(2)]
  by (simp add: zero_poly_pkg_def)

lemma zero_poly_lengths:
  "list_all2 (zero_poly_pkg E t) pkgs dss \<Longrightarrow> \<forall>ds \<in> set dss. length ds = t"
  by (induction pkgs dss rule: list_all2_induct) (auto simp: zero_poly_pkg_def)

lemma refresh_from_on_poly:
  assumes "k256_laws E" and "list_all2 (zero_poly_pkg E t) pkgs dss" and "length cs = t"
    and "on_poly E cs s" and "refresh_from E pkgs s = Ok r"
  shows "ss_idx r = ss_idx s" and "on_poly E (foldl poly_add cs dss) r"
proof -
  obtain rs where rs: "mapR (\<lambda>p. get_record ss_idx (ssp_shares p) (ss_idx s)) pkgs = Ok rs"
    and r: "combine_set E (s # rs) = Ok r"
    using assms(5) by (auto simp: refresh_from_def refresh_share_def res_simps)
  have idx: "ss_idx r = ss_idx s" by (simp add: combine_setD(3) [OF r])
  then show "ss_idx r = ss_idx s" .
  have picked: "list_all2 (\<lambda>p u. u \<in> set (ssp_shares p) \<and> ss_idx u = ss_idx s) pkgs rs"
    using rs [unfolded mapR_eq_Ok]
    by (rule list_all2_mono) (auto simp: res_simps dest: find_Some_conv)
  have "(\<Sum>u \<leftarrow> rs. share_scalar E u) = (\<Sum>ds \<leftarrow> dss. poly_val ds (index_to_scalar (ss_idx s)))"
    using assms(2) picked
  proof (induction pkgs dss arbitrary: rs rule: list_all2_induct)
    case Nil
    then show ?case by simp
  next
    case (Cons p ps ds dss)
    then obtain u us where "rs = u # us" "u \<in> set (ssp_shares p)" "ss_idx u = ss_idx s"
      "list_all2 (\<lambda>p u. u \<in> set (ssp_shares p) \<and> ss_idx u = ss_idx s) ps us"
      by (auto simp: list_all2_Cons1)
    then show ?case using Cons by (auto simp: zero_poly_pkg_def on_poly_def)
  qed
  then have "share_scalar E r = poly_val cs (index_to_scalar (ss_idx s)) +
      (\<Sum>ds \<leftarrow> dss. poly_val ds (index_to_scalar (ss_idx s)))"
    using share_scalar_combine [OF assms(1) r] assms(4) by (simp add: on_poly_def)
  then show "on_poly E (foldl poly_add cs dss) r"
    by (simp add: on_poly_def idx foldl_poly_add(2) [OF zero_poly_lengths [OF assms(2), folded assms(3)]])
qed

lemma zero_poly_sum:
  "list_all2 (zero_poly_pkg E t) pkgs dss \<Longrightarrow> (\<Sum>ds \<leftarrow> dss. poly_val ds 0) = 0"
  by (induction pkgs dss rule: list_all2_induct) (auto simp: zero_poly_pkg_def simp del: poly_val_zero)

text \<open>
  A refresh round: all members' new shares lie on one polynomial, as long as the old one and
  with the same constant term.
\<close>

lemma refresh_round:
  assumes "k256_laws E" and "list_all2 (zero_poly_pkg E (length cs)) pkgs dss"
    and "list_all2 (\<lambda>s r. on_poly E cs s \<and> refresh_from E pkgs s = Ok r) olds news"
  shows "\<exists>ds. length ds = length cs \<and> poly_val ds 0 = poly_val cs 0 \<and>
    (\<forall>r \<in> set news. on_poly E ds r) \<and> map ss_idx news = map ss_idx olds"
proof (intro exI conjI)
  note sums = foldl_poly_add [OF zero_poly_lengths [OF assms(2)]]
  show "length (foldl poly_add cs dss) = length cs" by (rule sums(1))
  show "poly_val (foldl poly_add cs dss) 0 = poly_val cs 0"
    unfolding sums(2) using zero_poly_sum [OF assms(2)] by simp
  have "list_all2 (\<lambda>s r. ss_idx r = ss_idx s \<and> on_poly E (foldl poly_add cs dss) r) olds news"
    using assms(3) by (rule list_all2_mono)
      (use refresh_from_on_poly [OF assms(1,2) refl] in blast)
  then show "\<forall>r \<in> set news. on_poly E (foldl poly_add cs dss) r"
    and "map ss_idx news = map ss_idx olds"
    by (induction rule: list_all2_induct) auto
qed

subsection \<open>Share repair\<close>

lemma gen_recovery_sharesD:
  fixes E :: "('s::field, 'p::ab_group_add, 'z) externals_scheme"
  assumes k256: "k256_laws E"
    and ok: "gen_recovery_shares E members s target t secrets rnd = Ok p"
    and inj: "distinct (map index_to_scalar members :: 's list)" and mem: "ss_idx s \<in> set members"
  shows "map ss_idx (ssp_shares p) = sort members"
    and "(\<Sum>u \<leftarrow> ssp_shares p. share_scalar E u) =
      lagrange_basis (index_to_scalar ` set members) (index_to_scalar (ss_idx s))
        (index_to_scalar target) * share_scalar E s"
proof -
  let ?sc = "index_to_scalar :: u32 \<Rightarrow> 's"
  let ?mbrs = "map ?sc (filter (\<lambda>i. i \<noteq> ss_idx s) (sort members))"
  let ?L = "lagrange_basis (?sc ` set members) (?sc (ss_idx s)) (?sc target)"
  have inj_on: "inj_on ?sc (set members)" and "distinct members"
    using inj by (simp_all add: distinct_map)
  then have "distinct ?mbrs" by (auto simp: distinct_map inj_on_def)
  moreover have "set ?mbrs = ?sc ` set members - {?sc (ss_idx s)}"
    using inj_on mem by (auto simp: inj_on_def)
  ultimately have coeff: "calc_lagrange_coeff ?mbrs (?sc (ss_idx s)) (?sc target) = Ok ?L"
    by (simp add: calc_lagrange_coeff_Ok lagrange_basis_others)
  define rand where "rand = (create_share_coeffs secrets (t - Suc 0) rnd :: 's list)"
  define rep where "rep = rand @ [?L * share_scalar E s - sum_list rand]"
  have fold: "foldl (+) 0 xs = sum_list xs" for xs :: "'s list"
    using foldl_plus_sum_list [of "\<lambda>x. x" 0 xs] by simp
  have t: "length members = t" "t > 0" and
    sh: "mapR (\<lambda>(i, idx). if length rep \<le> i then Panic
           else Ok \<lparr>ss_idx = idx, ss_seckey = scalar_to_bytes E (rep ! i)\<rparr>)
         (enumerate 0 (sort members)) = Ok (ssp_shares p)"
    using ok unfolding rep_def rand_def share_scalar_def
    by (auto simp: gen_recovery_shares_def Let_def bindR_eq_Ok coeff assert_ok_Ok fold
        share_scalar_def split: if_splits)
  have len: "length rep = length (sort members)" using t by (simp add: rep_def rand_def)
  have "ssp_shares p = map2 (\<lambda>idx r. \<lparr>ss_idx = idx, ss_seckey = scalar_to_bytes E r\<rparr>) (sort members) rep"
    using sh [unfolded mapR_eq_Ok] len
    by (intro nth_equalityI)
      (auto simp: list_all2_conv_all_nth nth_enumerate_eq split: if_splits)
  then have shares: "map ss_idx (ssp_shares p) = sort members" "map (share_scalar E) (ssp_shares p) = rep"
    using len k256 by (auto simp: list_eq_iff_nth_eq share_scalar_def)
  show "map ss_idx (ssp_shares p) = sort members" by (rule shares(1))
  show "(\<Sum>u \<leftarrow> ssp_shares p. share_scalar E u) = ?L * share_scalar E s"
    by (simp add: shares(2) rep_def)
qed

text \<open>What member \<open>j\<close> sends the target: the sum of the shares addressed to it.\<close>

definition aggregate_recovery ::
  "('s::field, 'p::ab_group_add, 'z) externals_scheme \<Rightarrow> secret_share_package list \<Rightarrow> u32 \<Rightarrow>
   secret_share res" where
  "aggregate_recovery E pkgs j =
     bindR (mapR (\<lambda>p. get_record ss_idx (ssp_shares p) j) pkgs) (combine_set E)"

lemma sum_list_find:
  assumes "distinct (map f us)"
  shows "(\<Sum>j \<leftarrow> map f us. g (the (find (\<lambda>u. f u = j) us))) = (\<Sum>u \<leftarrow> us. g u :: 'b::comm_monoid_add)"
  using assms by (auto intro!: arg_cong [where f = sum_list] simp: find_unique)

lemma aggregate_recovery_scalar:
  assumes "k256_laws E" and "aggregate_recovery E pkgs j = Ok a"
  shows "share_scalar E a =
    (\<Sum>p \<leftarrow> pkgs. share_scalar E (the (find (\<lambda>u. ss_idx u = j) (ssp_shares p))))"
proof -
  obtain rs where rs: "mapR (\<lambda>p. get_record ss_idx (ssp_shares p) j) pkgs = Ok rs"
    and a: "combine_set E rs = Ok a"
    using assms(2) by (auto simp: aggregate_recovery_def res_simps)
  have "rs = map (\<lambda>p. the (find (\<lambda>u. ss_idx u = j) (ssp_shares p))) pkgs"
    using rs [unfolded mapR_eq_Ok] by (induction rule: list_all2_induct) (auto simp: res_simps)
  then show ?thesis
    using share_scalar_combine [OF assms(1) a] by (simp add: comp_def)
qed

lemma sum_list_swap:
  "(\<Sum>x \<leftarrow> xs. \<Sum>y \<leftarrow> ys. f x y) = (\<Sum>y \<leftarrow> ys. \<Sum>x \<leftarrow> xs. f x y :: 'b::comm_monoid_add)"
  by (induction xs) (simp_all add: sum_list_addf)

lemma recovery_round:
  fixes E :: "('s::field, 'p::ab_group_add, 'z) externals_scheme"
  assumes k256: "k256_laws E"
    and inj: "distinct (map index_to_scalar members :: 's list)" and ne: "members \<noteq> []"
    and deg: "length cs \<le> length members"
    and holders: "map ss_idx holders = members" "\<forall>s \<in> set holders. on_poly E cs s"
    and pkgs: "list_all2 (\<lambda>s p. \<exists>secrets rnd.
      gen_recovery_shares E members s target t secrets rnd = Ok p) holders pkgs"
    and aggs: "mapR (aggregate_recovery E pkgs) members = Ok aggs"
  shows "on_poly E cs (recover_share E aggs target)"
proof -
  let ?sc = "index_to_scalar :: u32 \<Rightarrow> 's"
  let ?L = "\<lambda>i. lagrange_basis (set (map ?sc members)) (?sc i) (?sc target)"
  have agg: "map (share_scalar E) aggs = map (\<lambda>j. \<Sum>p \<leftarrow> pkgs.
      share_scalar E (the (find (\<lambda>u. ss_idx u = j) (ssp_shares p)))) members"
    using aggs [unfolded mapR_eq_Ok]
    by (induction rule: list_all2_induct) (auto simp: aggregate_recovery_scalar [OF k256])
  have per: "list_all2 (\<lambda>s p. (\<Sum>j \<leftarrow> members. share_scalar E
      (the (find (\<lambda>u. ss_idx u = j) (ssp_shares p)))) = ?L (ss_idx s) * share_scalar E s) holders pkgs"
    using pkgs
  proof (rule list.rel_mono_strong)
    fix s p assume sp: "s \<in> set holders"
      "\<exists>secrets rnd. gen_recovery_shares E members s target t secrets rnd = Ok p"
    then have "ss_idx s \<in> set members"
      using holders(1) by (metis image_eqI list.set_map)
    then have p: "map ss_idx (ssp_shares p) = sort members"
      "(\<Sum>u \<leftarrow> ssp_shares p. share_scalar E u) = ?L (ss_idx s) * share_scalar E s"
      using sp(2) gen_recovery_sharesD [OF k256 _ inj] by auto
    let ?g = "\<lambda>j. share_scalar E (the (find (\<lambda>u. ss_idx u = j) (ssp_shares p)))"
    have "distinct (map ss_idx (ssp_shares p))"
      using inj by (simp add: p(1) distinct_map)
    then have "(\<Sum>j \<leftarrow> sort members. ?g j) = (\<Sum>u \<leftarrow> ssp_shares p. share_scalar E u)"
      using sum_list_find [of ss_idx "ssp_shares p" "share_scalar E"] by (simp add: p(1))
    then show "(\<Sum>j \<leftarrow> members. ?g j) = ?L (ss_idx s) * share_scalar E s"
      using p(2) sum_list_sort_key [of ?g "\<lambda>x. x" members] by simp
  qed
  have "(\<Sum>a \<leftarrow> aggs. share_scalar E a) = (\<Sum>s \<leftarrow> holders. ?L (ss_idx s) * share_scalar E s)"
    unfolding agg sum_list_swap [of _ _ members]
    using per by (induction rule: list_all2_induct) auto
  also have "\<dots> = (\<Sum>x \<leftarrow> map ?sc members. poly_val cs x * lagrange_basis (set (map ?sc members)) x (?sc target))"
    using holders(2) unfolding holders(1) [symmetric]
    by (auto intro!: arg_cong [where f = sum_list] simp: on_poly_def mult.commute)
  also have "\<dots> = poly_val cs (?sc target)"
    unfolding sum_list_distinct_set [OF inj]
    using inj ne deg by (intro lagrange_interpolation) (auto simp: distinct_card simp del: set_map)
  finally have "(\<Sum>a \<leftarrow> aggs. share_scalar E a) = poly_val cs (?sc target)" .
  then show ?thesis
    using k256 foldl_plus_sum_list [of "\<lambda>x. x" 0 "map (\<lambda>s. scalar_from_bytes (ss_seckey s) :: 's) aggs"]
    by (simp add: on_poly_def recover_share_def Let_def share_scalar_def comp_def)
qed

end
