(* ===== verification/Dkg.thy ===== *)
theory Dkg
  imports Dealer Refresh_Recover
begin

text \<open>
  \<open>src/frost/dkg.rs\<close>: Pedersen distributed key generation with proofs of possession.  The
  lemmas give completeness and special soundness of the proofs, compute the merged commitments
  and the member keys derived from them, and show that honest participants end with shares of
  the sum polynomial and the group key of its constant term.
\<close>

definition dkg_pop_challenge_dst :: bytes where
  "dkg_pop_challenge_dst = str_bytes ''frost-taproot/dkg-pop/challenge/v1''"

definition dkg_pop_nonce_dst :: bytes where
  "dkg_pop_nonce_dst = str_bytes ''frost-taproot/dkg-pop/nonce/v1''"

definition dkg_pop_challenge ::
  "('s::field, 'p::ab_group_add, 'z) externals_scheme \<Rightarrow> u32 \<Rightarrow> bytes \<Rightarrow> bytes \<Rightarrow> 's" where
  "dkg_pop_challenge E idx c0 r =
     (let digest = sha256 E (dkg_pop_challenge_dst @ u32_be idx @ c0 @ r)
      in mod_n (be_nat digest))"

definition create_dkg_pop ::
  "('s::field, 'p::ab_group_add, 'z) externals_scheme \<Rightarrow> u32 \<Rightarrow> 's \<Rightarrow> bytes \<Rightarrow> dkg_pop res" where
  "create_dkg_pop E idx a0 c0 =
     (let nonce_digest = sha256 E (dkg_pop_nonce_dst @ scalar_to_bytes E a0 @ u32_be idx);
          k = mod_n (be_nat nonce_digest);
          k = (if k = 0 then 1 else k);
          r_point = scalar_base_multi E k
      in bindR (serialize_element E r_point) (\<lambda>r.
         let e = dkg_pop_challenge E idx c0 r;
             z = k + e * a0
         in Ok \<lparr>pop_r = r, pop_z = scalar_to_bytes E z\<rparr>))"

definition verify_dkg_pop ::
  "('s::field, 'p::ab_group_add, 'z) externals_scheme \<Rightarrow> u32 \<Rightarrow> bytes \<Rightarrow> dkg_pop \<Rightarrow> bool res" where
  "verify_dkg_pop E idx c0 pop =
     bindR (lift_x E (pop_r pop)) (\<lambda>r_point.
     bindR (lift_x E c0) (\<lambda>c0_point.
     let e = dkg_pop_challenge E idx c0 (pop_r pop);
         z = scalar_from_bytes (pop_z pop);
         lhs = scalar_base_multi E z
     in bindR (element_add (Some r_point) (Some (scalar_multi E c0_point e))) (\<lambda>rhs.
        bindR (serialize_element E lhs) (\<lambda>l.
        bindR (serialize_element E rhs) (\<lambda>r. Ok (l = r))))))"

definition dkg_round1 ::
  "('s::field, 'p::ab_group_add, 'z) externals_scheme \<Rightarrow> u32 \<Rightarrow> nat \<Rightarrow> bytes list \<Rightarrow>
   (nat \<Rightarrow> bytes) \<Rightarrow> (bytes list \<times> dkg_commit_package) res" where
  "dkg_round1 E idx threshold secrets rnd =
     (let coeffs = create_share_coeffs secrets threshold rnd
      in bindR (get_share_commits E coeffs) (\<lambda>vss_commits.
         case (coeffs, vss_commits) of
           (a0 # _, c0 # _) \<Rightarrow>
             bindR (create_dkg_pop E idx a0 c0) (\<lambda>pop.
             let secret_coeffs = map (scalar_to_bytes E) coeffs
             in Ok (secret_coeffs, \<lparr>dcp_idx = idx, dcp_vss_commits = vss_commits, dcp_pop = pop\<rparr>))
         | _ \<Rightarrow> Panic))"

definition dkg_round2 ::
  "('s::field, 'p::ab_group_add, 'z) externals_scheme \<Rightarrow> u32 \<Rightarrow> bytes list \<Rightarrow> u32 \<Rightarrow>
   dkg_share_package res" where
  "dkg_round2 E sender_idx secret_coeffs recipient_idx =
     (let coeffs = map scalar_from_bytes secret_coeffs;
          x = index_to_scalar recipient_idx
      in bindR (evaluate_x coeffs x) (\<lambda>share_scalar.
         Ok \<lparr>dsp_sender_idx = sender_idx, dsp_recipient_idx = recipient_idx,
              dsp_seckey = scalar_to_bytes E share_scalar\<rparr>))"

definition verify_dkg_share ::
  "('s::field, 'p::ab_group_add, 'z) externals_scheme \<Rightarrow> dkg_share_package \<Rightarrow> dkg_commit_package \<Rightarrow>
   nat \<Rightarrow> bool res" where
  "verify_dkg_share E share sender_commits threshold =
     (let low_share = \<lparr>ss_idx = dsp_recipient_idx share, ss_seckey = dsp_seckey share\<rparr>
      in verify_share E (dcp_vss_commits sender_commits) low_share threshold)"

definition sum_points ::
  "('s::field, 'p::ab_group_add, 'z) externals_scheme \<Rightarrow> bytes list \<Rightarrow> bytes res" where
  "sum_points E points =
     (case points of
        [] \<Rightarrow> Err (Assertion ''cannot sum empty point list'')
      | p0 # ps \<Rightarrow>
          bindR (lift_x E p0) (\<lambda>acc0.
          bindR (foldR (\<lambda>acc p. bindR (lift_x E p) (\<lambda>pt. Ok (acc + pt))) acc0 ps) (\<lambda>acc.
          serialize_element E acc)))"

definition eval_vss_pubkey ::
  "('s::field, 'p::ab_group_add, 'z) externals_scheme \<Rightarrow> bytes list \<Rightarrow> u32 \<Rightarrow> bytes res" where
  "eval_vss_pubkey E commits idx =
     (if commits = [] then Err (Assertion ''no VSS commits'')
      else bindR (foldR (\<lambda>acc (k, commit).
                   bindR (lift_x E commit) (\<lambda>point.
                   let exp = pow_n (unat idx) k;
                       term = scalar_multi E point exp
                   in Ok (Some (case acc of None \<Rightarrow> term | Some a \<Rightarrow> a + term))))
                   None (enumerate 0 commits)) (\<lambda>acc.
           case acc of None \<Rightarrow> Panic | Some pt \<Rightarrow> serialize_element E pt))"

text \<open>The two validation loops of \<open>dkg_finalize\<close>.\<close>

fun check_pops ::
  "('s::field, 'p::ab_group_add, 'z) externals_scheme \<Rightarrow> dkg_commit_package list \<Rightarrow> unit res" where
  "check_pops E [] = Ok ()"
| "check_pops E (c # cs) =
     (case dcp_vss_commits c of
        [] \<Rightarrow> Err (Assertion ''participant has no VSS commits'')
      | c0 # _ \<Rightarrow>
          bindR (verify_dkg_pop E (dcp_idx c) c0 (dcp_pop c)) (\<lambda>ok.
          if \<not> ok then Err (Assertion ''DKG proof of possession failed for participant'')
          else check_pops E cs))"

fun check_shares ::
  "('s::field, 'p::ab_group_add, 'z) externals_scheme \<Rightarrow> dkg_commit_package list \<Rightarrow> nat \<Rightarrow>
   dkg_share_package list \<Rightarrow> unit res" where
  "check_shares E all_commits threshold [] = Ok ()"
| "check_shares E all_commits threshold (pkg # pkgs) =
     bindR (ok_or (find (\<lambda>c. dcp_idx c = dsp_sender_idx pkg) all_commits)
              (RecordNotFound (dsp_sender_idx pkg))) (\<lambda>sender_commits.
     bindR (verify_dkg_share E pkg sender_commits threshold) (\<lambda>ok.
     if \<not> ok then Err (Assertion ''DKG share failed VSS verification'')
     else check_shares E all_commits threshold pkgs))"

text \<open>The \<open>try_fold\<close> that merges the sorted commitment sets.\<close>

definition merge_all ::
  "('s::field, 'p::ab_group_add, 'z) externals_scheme \<Rightarrow> bytes list list \<Rightarrow> bytes list res" where
  "merge_all E commits =
     bindR (foldR (\<lambda>acc c. case acc of
              None \<Rightarrow> Ok (Some c)
            | Some prev \<Rightarrow> mapR_val Some (merge_share_commits E prev c)) None commits) (\<lambda>acc.
     ok_or acc (Assertion ''no VSS commits to merge''))"

definition first_commit :: "dkg_commit_package \<Rightarrow> bytes res" where
  "first_commit c = (case dcp_vss_commits c of [] \<Rightarrow> Panic | c0 # _ \<Rightarrow> Ok c0)"

definition dkg_finalize ::
  "('s::field, 'p::ab_group_add, 'z) externals_scheme \<Rightarrow> u32 \<Rightarrow> bytes list \<Rightarrow>
   dkg_share_package list \<Rightarrow> dkg_commit_package list \<Rightarrow> nat \<Rightarrow> dkg_output res" where
  "dkg_finalize E my_idx my_coeffs received all_commits threshold =
     bindR (check_pops E all_commits) (\<lambda>_.
     bindR (check_shares E all_commits threshold received) (\<lambda>_.
     bindR (dkg_round2 E my_idx my_coeffs my_idx) (\<lambda>own_share_pkg.
     let own_share = \<lparr>ss_idx = my_idx, ss_seckey = dsp_seckey own_share_pkg\<rparr>;
         all_shares = own_share # map (\<lambda>pkg. \<lparr>ss_idx = my_idx, ss_seckey = dsp_seckey pkg\<rparr>) received
     in bindR (combine_set E all_shares) (\<lambda>aggregate.
        let sorted_commits = sort_key dcp_idx all_commits
        in bindR (mapR first_commit sorted_commits) (\<lambda>first_commits.
           bindR (sum_points E first_commits) (\<lambda>group_pk.
           bindR (merge_all E (map dcp_vss_commits sorted_commits)) (\<lambda>group_vss_commits.
           bindR (mapR (\<lambda>c.
                    bindR (eval_vss_pubkey E group_vss_commits (dcp_idx c)) (\<lambda>share_pubkey.
                    bindR (first_commit c) (\<lambda>c0.
                    Ok \<lparr>mp_idx = dcp_idx c, mp_pubkey = share_pubkey, mp_identity_pk = Some c0\<rparr>)))
                  sorted_commits) (\<lambda>members.
           let grp = \<lparr>gp_group_pk = group_pk, gp_threshold = threshold, gp_members = members\<rparr>
           in Ok \<lparr>do_share = \<lparr>sp_idx = my_idx, sp_seckey = ss_seckey aggregate\<rparr>,
                   do_group = grp, do_vss_commits = group_vss_commits\<rparr>)))))))) "

subsection \<open>Proofs of possession\<close>

lemma verify_dkg_pop_True:
  fixes E :: "('s::field, 'p::ab_group_add, 'z) externals_scheme"
  assumes "k256_laws E"
  shows "verify_dkg_pop E idx c0 pop = Ok True \<longleftrightarrow>
    (\<exists>R C. lift_x E (pop_r pop) = Ok R \<and> lift_x E c0 = Ok C \<and>
      scalar_from_bytes (pop_z pop) \<noteq> (0 :: 's) \<and>
      point_mul E (point_gen E) (scalar_from_bytes (pop_z pop)) =
      R + point_mul E C (dkg_pop_challenge E idx c0 (pop_r pop)))"
  using assms point_encode_inj [OF assms]
  by (auto simp: verify_dkg_pop_def Let_def bindR_eq_Ok scalar_base_multi_def scalar_multi_def
      serialize_element_eq_Ok point_mul_gen_zero_iff)

text \<open>An honest proof is accepted unless its response is zero.\<close>

lemma create_dkg_pop_verifies:
  fixes E :: "('s::field, 'p::ab_group_add, 'z) externals_scheme"
  assumes "k256_laws E" and "a0 \<noteq> 0" and "c0 = point_encode E (point_mul E (point_gen E) a0)"
    and "create_dkg_pop E idx a0 c0 = Ok pop" and "scalar_from_bytes (pop_z pop) \<noteq> (0 :: 's)"
  shows "verify_dkg_pop E idx c0 pop = Ok True"
proof -
  obtain k where k: "k \<noteq> 0" "pop_r pop = point_encode E (point_mul E (point_gen E) k)"
    "scalar_from_bytes (pop_z pop) = k + dkg_pop_challenge E idx c0 (pop_r pop) * a0"
    using assms(1,4)
    by (auto simp: create_dkg_pop_def Let_def bindR_eq_Ok serialize_element_eq_Ok
        scalar_base_multi_def split: if_splits)
  have "lift_x E c0 = Ok (point_mul E (point_gen E) a0)"
    and "lift_x E (pop_r pop) = Ok (point_mul E (point_gen E) k)"
    using assms(1-3) k(1,2) by (simp_all add: lift_x_encode point_mul_gen_zero_iff)
  then show ?thesis
    using assms(1,5) by (auto simp: verify_dkg_pop_True k(3) point_mul_simps mult.commute)
qed

text \<open>A response that reduces to zero makes the verifier panic instead of returning false.\<close>

lemma verify_dkg_pop_zero_panics:
  fixes E :: "('s::field, 'p::ab_group_add, 'z) externals_scheme"
  assumes "k256_laws E" and "lift_x E (pop_r pop) = Ok R" and "lift_x E c0 = Ok C"
    and "scalar_from_bytes (pop_z pop) = (0 :: 's)"
  shows "verify_dkg_pop E idx c0 pop = Panic"
  using assms
  by (simp add: verify_dkg_pop_def Let_def scalar_base_multi_def point_mul_zero
      serialize_element_def serialize_point_identity)

text \<open>
  Special soundness: two accepted proofs for one commitment with one nonce point and different
  challenges yield the discrete logarithm of the commitment.
\<close>

lemma verify_dkg_pop_extract:
  fixes E :: "('s::field, 'p::ab_group_add, 'z) externals_scheme"
  assumes k256: "k256_laws E"
    and v1: "verify_dkg_pop E i c0 p1 = Ok True" and v2: "verify_dkg_pop E j c0 p2 = Ok True"
    and r: "pop_r p1 = pop_r p2"
    and ne: "dkg_pop_challenge E i c0 (pop_r p1) \<noteq> dkg_pop_challenge E j c0 (pop_r p2)"
  defines "a \<equiv> (scalar_from_bytes (pop_z p1) - scalar_from_bytes (pop_z p2)) /
    (dkg_pop_challenge E i c0 (pop_r p1) - dkg_pop_challenge E j c0 (pop_r p2)) :: 's"
  shows "lift_x E c0 = Ok (point_mul E (point_gen E) a)"
proof -
  define e1 e2 where "e1 = dkg_pop_challenge E i c0 (pop_r p1)" and
    "e2 = dkg_pop_challenge E j c0 (pop_r p2)"
  define z1 z2 where "z1 = (scalar_from_bytes (pop_z p1) :: 's)" and
    "z2 = (scalar_from_bytes (pop_z p2) :: 's)"
  obtain R C where C: "lift_x E c0 = Ok C"
    and 1: "point_mul E (point_gen E) z1 = R + point_mul E C e1"
    and 2: "point_mul E (point_gen E) z2 = R + point_mul E C e2"
    using v1 v2 k256 by (auto simp: verify_dkg_pop_True r z1_def z2_def e1_def e2_def)
  have "point_mul E C (e1 - e2) = point_mul E (point_gen E) (z1 - z2)"
    using k256 1 2 by (simp add: point_mul_diff)
  then have "point_mul E C ((e1 - e2) * inverse (e1 - e2)) =
      point_mul E (point_gen E) ((z1 - z2) * inverse (e1 - e2))"
    using k256 by (simp only: point_mul_assoc [symmetric])
  moreover have "(e1 - e2) * inverse (e1 - e2) = 1"
    using ne by (simp add: e1_def e2_def)
  ultimately have "C = point_mul E (point_gen E) a"
    using k256 by (simp add: point_mul_one a_def z1_def z2_def e1_def e2_def divide_inverse)
  then show ?thesis using C by simp
qed

subsection \<open>Merged commitments\<close>

abbreviation commits_of ::
  "('s::field, 'p::ab_group_add, 'z) externals_scheme \<Rightarrow> 's list \<Rightarrow> bytes list" where
  "commits_of E cs \<equiv> map (\<lambda>c. point_encode E (point_mul E (point_gen E) c)) cs"

lemma merge_share_commits_eq:
  assumes "k256_laws E" and "0 \<notin> set cs" and "0 \<notin> set ds"
  shows "merge_share_commits E (commits_of E cs) (commits_of E ds) = Ok vs \<longleftrightarrow>
    length cs = length ds \<and> 0 \<notin> set (poly_add cs ds) \<and> vs = commits_of E (poly_add cs ds)"
proof (cases "length cs = length ds")
  case False
  then show ?thesis by (simp add: merge_share_commits_def equal_arr_size_def)
next
  case True
  let ?f = "\<lambda>(a, b). bindR (lift_x E a) (\<lambda>pa. bindR (lift_x E b) (\<lambda>pb.
      let pc = pa + pb in serialize_element E pc))"
  have "mapR ?f (zip (commits_of E cs) (commits_of E ds)) = Ok vs \<longleftrightarrow>
      0 \<notin> set (poly_add cs ds) \<and> vs = commits_of E (poly_add cs ds)"
    using True assms(2,3)
  proof (induction cs ds arbitrary: vs rule: list_induct2)
    case Nil
    then show ?case by (auto simp: poly_add_def)
  next
    case (Cons c cs d ds)
    have "lift_x E (point_encode E (point_mul E (point_gen E) c)) = Ok (point_mul E (point_gen E) c)"
      and "lift_x E (point_encode E (point_mul E (point_gen E) d)) = Ok (point_mul E (point_gen E) d)"
      using Cons.prems assms(1) by (simp_all add: lift_x_encode point_mul_gen_zero_iff)
    moreover have "serialize_element E (point_mul E (point_gen E) c + point_mul E (point_gen E) d) = Ok v \<longleftrightarrow>
        c + d \<noteq> 0 \<and> v = point_encode E (point_mul E (point_gen E) (c + d))" for v
      using assms(1) by (simp add: serialize_element_eq_Ok point_mul_gen_zero_iff flip: point_mul_add)
    ultimately show ?case
      using Cons by (auto simp: poly_add_def bindR_eq_Ok)
  qed
  then show ?thesis
    using True by (simp add: merge_share_commits_def equal_arr_size_def)
qed

lemma merge_fold:
  assumes "k256_laws E" and "0 \<notin> set cs" and "\<forall>ds \<in> set dss. 0 \<notin> set ds \<and> length ds = length cs"
    and "foldR (\<lambda>acc c. case acc of
              None \<Rightarrow> Ok (Some c)
            | Some prev \<Rightarrow> mapR_val Some (merge_share_commits E prev c))
      (Some (commits_of E cs)) (map (commits_of E) dss) = Ok (Some vs)"
  shows "0 \<notin> set (foldl poly_add cs dss) \<and> vs = commits_of E (foldl poly_add cs dss)"
  using assms(2-4)
proof (induction dss arbitrary: cs)
  case Nil
  then show ?case by simp
next
  case (Cons ds dss)
  then obtain ws where ws: "merge_share_commits E (commits_of E cs) (commits_of E ds) = Ok ws"
    and rest: "foldR (\<lambda>acc c. case acc of
              None \<Rightarrow> Ok (Some c)
            | Some prev \<Rightarrow> mapR_val Some (merge_share_commits E prev c))
      (Some ws) (map (commits_of E) dss) = Ok (Some vs)"
    by (auto simp: bindR_eq_Ok mapR_val_eq_Ok)
  have ds: "0 \<notin> set ds" "length cs = length ds" using Cons.prems by auto
  have "0 \<notin> set (poly_add cs ds)" and "ws = commits_of E (poly_add cs ds)"
    using ws merge_share_commits_eq [OF assms(1) Cons.prems(1) ds(1)] by auto
  moreover have "\<forall>es \<in> set dss. 0 \<notin> set es \<and> length es = length (poly_add cs ds)"
    using Cons.prems(2) unfolding length_poly_add [OF ds(2)] by simp
  ultimately show ?case
    using Cons.IH [of "poly_add cs ds"] rest by simp
qed

lemma merge_all_eq:
  assumes "k256_laws E" and "\<forall>ds \<in> set (cs # dss). 0 \<notin> set ds \<and> length ds = length cs"
    and "merge_all E (map (commits_of E) (cs # dss)) = Ok vs"
  shows "0 \<notin> set (foldl poly_add cs dss) \<and> vs = commits_of E (foldl poly_add cs dss)"
proof -
  have "foldR (\<lambda>acc c. case acc of
              None \<Rightarrow> Ok (Some c)
            | Some prev \<Rightarrow> mapR_val Some (merge_share_commits E prev c))
      (Some (commits_of E cs)) (map (commits_of E) dss) = Ok (Some vs)"
    using assms(3) by (auto simp: merge_all_def bindR_eq_Ok ok_or_eq_Ok)
  then show ?thesis
    using assms(1,2) by (intro merge_fold) auto
qed

lemma foldR_cong:
  "(\<And>a x. x \<in> set xs \<Longrightarrow> f a x = g a x) \<Longrightarrow> foldR f acc xs = foldR g acc xs"
  by (induction xs arbitrary: acc) simp_all

lemma foldR_map: "foldR f acc (map g xs) = foldR (\<lambda>a x. f a (g x)) acc xs"
  by (induction xs arbitrary: acc) simp_all

lemma enumerate_eq_map: "enumerate 0 xs = map (\<lambda>k. (k, xs ! k)) [0..<length xs]"
  by (rule nth_equalityI) (simp_all add: nth_enumerate_eq)

lemma eval_vss_pubkey_eq:
  assumes "k256_laws E" and "0 \<notin> set cs" and "cs \<noteq> []"
  shows "eval_vss_pubkey E (commits_of E cs) idx =
    serialize_element E (point_mul E (point_gen E) (poly_val cs (index_to_scalar idx)))"
proof -
  have "foldR (\<lambda>acc (k, commit).
           bindR (lift_x E commit) (\<lambda>point.
           let exp = pow_n (unat idx) k; term = scalar_multi E point exp
           in Ok (Some (case acc of None \<Rightarrow> term | Some a \<Rightarrow> a + term))))
         None (enumerate 0 (commits_of E cs)) =
      foldR (vss_term E (commits_of E cs) idx) None [0..<length cs]"
    unfolding enumerate_eq_map foldR_map length_map
    by (rule foldR_cong) (auto simp: vss_term_def)
  also have "\<dots> = Ok (Some (point_mul E (point_gen E) (poly_val cs (index_to_scalar idx))))"
    using vss_loop [OF assms(1,2), of "length cs"] assms(3) by (simp add: poly_val_sum)
  finally show ?thesis using assms(3) by (simp add: eval_vss_pubkey_def)
qed

lemma sum_points_eq:
  assumes "k256_laws E" and "\<forall>c \<in> set (c0 # cs). c \<noteq> 0"
  shows "sum_points E (commits_of E (c0 # cs)) =
    serialize_element E (point_mul E (point_gen E) (sum_list (c0 # cs)))"
proof -
  have lift: "lift_x E (point_encode E (point_mul E (point_gen E) c)) = Ok (point_mul E (point_gen E) c)"
    if "c \<noteq> 0" for c
    using that assms(1) by (simp add: lift_x_encode point_mul_gen_zero_iff)
  have "foldR (\<lambda>acc p. bindR (lift_x E p) (\<lambda>pt. Ok (acc + pt))) a (commits_of E cs) =
      Ok (a + point_mul E (point_gen E) (sum_list cs))" for a
    using assms(2)
    by (induction cs arbitrary: a) (simp_all add: lift point_mul_simps [OF assms(1)] add.assoc)
  then show ?thesis
    using assms by (simp add: sum_points_def lift point_mul_add)
qed

subsection \<open>An honest run\<close>

text \<open>
  A participant is its index with the coefficients round 1 returned; the group polynomial is
  the sum of the participants' polynomials, in index order.
\<close>

definition coeffs_of :: "bytes list \<Rightarrow> 's::field list" where
  "coeffs_of sc = map scalar_from_bytes sc"

definition dkg_party ::
  "('s::field, 'p::ab_group_add, 'z) externals_scheme \<Rightarrow> nat \<Rightarrow> u32 \<times> bytes list \<Rightarrow>
   dkg_commit_package \<Rightarrow> bool" where
  "dkg_party E t p c \<longleftrightarrow> (\<exists>secrets rnd. dkg_round1 E (fst p) t secrets rnd = Ok (snd p, c))"

definition sum_polys :: "'s::field list list \<Rightarrow> 's list" where
  "sum_polys css = (case css of [] \<Rightarrow> [] | cs # dss \<Rightarrow> foldl poly_add cs dss)"

definition dkg_poly :: "(u32 \<times> bytes list) list \<Rightarrow> 's::field list" where
  "dkg_poly parties = sum_polys (map (coeffs_of \<circ> snd) (sort_key fst parties))"

lemma dkg_round1D:
  fixes E :: "('s::field, 'p::ab_group_add, 'z) externals_scheme"
  assumes "k256_laws E" and "dkg_party E t p c"
  shows "dcp_idx c = fst p" and "length (coeffs_of (snd p) :: 's list) = t" and "t > 0"
    and "0 \<notin> set (coeffs_of (snd p) :: 's list)"
    and "dcp_vss_commits c = commits_of E (coeffs_of (snd p))"
    and "(coeffs_of (snd p) :: 's list) \<noteq> []"
proof -
  obtain secrets rnd where r1: "dkg_round1 E (fst p) t secrets rnd = Ok (snd p, c)"
    using assms(2) by (auto simp: dkg_party_def)
  define cs where "cs = (create_share_coeffs secrets t rnd :: 's list)"
  obtain vss where vss: "get_share_commits E cs = Ok vss"
    and rest: "(case (cs, vss) of
           (a0 # _, c0 # _) \<Rightarrow>
             bindR (create_dkg_pop E (fst p) a0 c0) (\<lambda>pop.
             let secret_coeffs = map (scalar_to_bytes E) cs
             in Ok (secret_coeffs, \<lparr>dcp_idx = fst p, dcp_vss_commits = vss, dcp_pop = pop\<rparr>))
         | _ \<Rightarrow> Panic) = Ok (snd p, c)"
    using r1 [unfolded dkg_round1_def, folded cs_def, unfolded Let_def [of cs]]
    by (auto simp: bindR_eq_Ok)
  have sc: "snd p = map (scalar_to_bytes E) cs" and idx: "dcp_idx c = fst p"
    and com: "dcp_vss_commits c = vss" and ne: "cs \<noteq> []"
    using rest by (auto simp: bindR_eq_Ok Let_def split: list.splits)
  have co: "coeffs_of (snd p) = cs"
    using assms(1) by (simp add: coeffs_of_def sc comp_def)
  show "dcp_idx c = fst p" by (rule idx)
  show "length (coeffs_of (snd p) :: 's list) = t" by (simp add: co cs_def)
  show "(coeffs_of (snd p) :: 's list) \<noteq> []" using ne by (simp add: co)
  show "t > 0" using ne by (simp add: cs_def flip: length_0_conv)
  show "0 \<notin> set (coeffs_of (snd p) :: 's list)"
    and "dcp_vss_commits c = commits_of E (coeffs_of (snd p))"
    using vss assms(1) by (simp_all add: co com get_share_commits_eq_Ok)
qed


lemma dkg_round2_eq_Ok:
  fixes E :: "('s::field, 'p::ab_group_add, 'z) externals_scheme"
  shows "dkg_round2 E i sc j = Ok r \<longleftrightarrow>
    index_to_scalar j \<noteq> (0 :: 's) \<and>
    r = \<lparr>dsp_sender_idx = i, dsp_recipient_idx = j,
         dsp_seckey = scalar_to_bytes E (poly_val (coeffs_of sc) (index_to_scalar j))\<rparr>"
  by (auto simp: dkg_round2_def Let_def bindR_eq_Ok evaluate_x_eq_Ok coeffs_of_def)

lemma dkg_poly_val:
  assumes "\<forall>p \<in> set parties. length (coeffs_of (snd p) :: 's::field list) = t" and "parties \<noteq> []"
  shows "length (dkg_poly parties :: 's list) = t"
    and "poly_val (dkg_poly parties) x = (\<Sum>p \<leftarrow> parties. poly_val (coeffs_of (snd p)) x :: 's)"
proof -
  let ?co = "\<lambda>p. coeffs_of (snd p) :: 's list"
  obtain p ps where sorted: "sort_key fst parties = p # ps"
    using assms(2) by (metis list.exhaust set_empty set_sort)
  then have len: "\<forall>ds \<in> set (map ?co ps). length ds = length (?co p)" "length (?co p) = t"
    using assms(1) by (metis (no_types, lifting) image_iff list.set_intros list.set_map set_sort)+
  have poly: "dkg_poly parties = foldl poly_add (?co p) (map ?co ps)"
    by (simp add: dkg_poly_def sum_polys_def sorted comp_def)
  show "length (dkg_poly parties :: 's list) = t"
    using foldl_poly_add(1) [OF len(1)] len(2) by (simp add: poly)
  have "poly_val (dkg_poly parties) x = (\<Sum>p \<leftarrow> sort_key fst parties. poly_val (?co p) x)"
    using foldl_poly_add(2) [OF len(1)] by (simp add: poly sorted comp_def)
  then show "poly_val (dkg_poly parties) x = (\<Sum>p \<leftarrow> parties. poly_val (?co p) x)"
    by simp
qed

text \<open>The aggregate share of a participant that received a share from every other one.\<close>

lemma dkg_aggregate:
  fixes E :: "('s::field, 'p::ab_group_add, 'z) externals_scheme"
  assumes k256: "k256_laws E"
    and len: "\<forall>p \<in> set parties. length (coeffs_of (snd p) :: 's list) = t"
    and mem: "(me, sc) \<in> set parties" and dist: "distinct (map fst parties)"
    and recv: "mapR (\<lambda>p. dkg_round2 E (fst p) (snd p) me) (filter (\<lambda>p. fst p \<noteq> me) parties) = Ok received"
    and own: "dkg_round2 E me sc me = Ok own"
    and agg: "combine_set E (\<lparr>ss_idx = me, ss_seckey = dsp_seckey own\<rparr> #
      map (\<lambda>pkg. \<lparr>ss_idx = me, ss_seckey = dsp_seckey pkg\<rparr>) received) = Ok a"
  shows "scalar_from_bytes (ss_seckey a) = poly_val (dkg_poly parties) (index_to_scalar me :: 's)"
proof -
  let ?f = "\<lambda>p. poly_val (coeffs_of (snd p)) (index_to_scalar me :: 's)"
  have "list_all2 (\<lambda>p r. scalar_from_bytes (dsp_seckey r) = ?f p) (filter (\<lambda>p. fst p \<noteq> me) parties) received"
    using recv [unfolded mapR_eq_Ok] k256 by (auto simp: dkg_round2_eq_Ok elim!: list_all2_mono)
  then have "(\<Sum>r \<leftarrow> received. scalar_from_bytes (dsp_seckey r)) = (\<Sum>p \<leftarrow> filter (\<lambda>p. fst p \<noteq> me) parties. ?f p)"
    by (induction rule: list_all2_induct) auto
  moreover have "scalar_from_bytes (dsp_seckey own) = ?f (me, sc)"
    using own k256 by (simp add: dkg_round2_eq_Ok)
  moreover have "share_scalar E a = scalar_from_bytes (dsp_seckey own) +
      (\<Sum>r \<leftarrow> received. scalar_from_bytes (dsp_seckey r))"
    using share_scalar_combine [OF k256 agg] by (simp add: share_scalar_def comp_def)
  moreover have "(\<Sum>p \<leftarrow> parties. ?f p) = ?f (me, sc) + (\<Sum>p \<leftarrow> filter (\<lambda>p. fst p \<noteq> me) parties. ?f p)"
    using sum_list_remove_key [OF dist mem, of ?f] by simp
  moreover have "parties \<noteq> []" using mem by auto
  ultimately show ?thesis
    using dkg_poly_val(2) [OF len] by (simp add: share_scalar_def)
qed

text \<open>The commitments of honest participants, in index order.\<close>

lemma dkg_sorted:
  fixes E :: "('s::field, 'p::ab_group_add, 'z) externals_scheme"
  assumes k256: "k256_laws E" and parties: "list_all2 (dkg_party E t) parties commits"
    and sp: "sort_key fst parties = p # ps"
  defines "co \<equiv> \<lambda>q. coeffs_of (snd q) :: 's list"
  shows "map dcp_vss_commits (sort_key dcp_idx commits) = map (commits_of E) (map co (p # ps))"
    and "\<forall>q \<in> set (p # ps). length (co q) = t \<and> 0 \<notin> set (co q) \<and> co q \<noteq> []"
    and "dkg_poly parties = foldl poly_add (co p) (map co ps)"
    and "mapR first_commit (sort_key dcp_idx commits) = Ok (commits_of E (map (hd \<circ> co) (p # ps)))"
    and "sum_points E (commits_of E (map (hd \<circ> co) (p # ps))) =
      serialize_element E (point_mul E (point_gen E) (poly_val (dkg_poly parties) 0))"
proof -
  have "list_all2 (\<lambda>p c. dkg_party E t p c \<and> dcp_idx c = fst p) parties commits"
    using parties dkg_round1D(1) [OF k256] by (auto elim: list_all2_mono)
  then have sorted: "list_all2 (\<lambda>p c. dkg_party E t p c \<and> dcp_idx c = fst p)
      (sort_key fst parties) (sort_key dcp_idx commits)"
    by (rule list_all2_sort_key)
  show "map dcp_vss_commits (sort_key dcp_idx commits) = map (commits_of E) (map co (p # ps))"
    using sorted dkg_round1D(5) [OF k256] unfolding sp co_def
    by (induction rule: list_all2_induct) auto
  show each: "\<forall>q \<in> set (p # ps). length (co q) = t \<and> 0 \<notin> set (co q) \<and> co q \<noteq> []"
    using list_all2_setL [OF sorted] dkg_round1D(2,4,6) [OF k256] unfolding sp co_def by blast
  show poly: "dkg_poly parties = foldl poly_add (co p) (map co ps)"
    by (simp add: dkg_poly_def sum_polys_def sp comp_def co_def)
  have "list_all2 (\<lambda>p c. dcp_vss_commits c = commits_of E (co p) \<and> co p \<noteq> [])
      (sort_key fst parties) (sort_key dcp_idx commits)"
    using sorted unfolding co_def by (rule list_all2_mono) (use dkg_round1D(5,6) [OF k256] in blast)
  then have "mapR first_commit (sort_key dcp_idx commits) =
      Ok (commits_of E (map (hd \<circ> co) (sort_key fst parties)))"
    by (induction rule: list_all2_induct) (auto simp: first_commit_def list.map_sel neq_Nil_conv)
  then show "mapR first_commit (sort_key dcp_idx commits) = Ok (commits_of E (map (hd \<circ> co) (p # ps)))"
    by (simp only: sp)
  have hd0: "poly_val (co q) 0 = hd (co q)" "hd (co q) \<noteq> 0" if "q \<in> set (p # ps)" for q
    using each that by (auto simp: neq_Nil_conv split: list.split)
  have "map (hd \<circ> co) (p # ps) = map (\<lambda>q. poly_val (co q) 0) (p # ps)"
    unfolding comp_def by (rule map_cong [OF refl]) (rule hd0(1) [symmetric])
  then have "sum_list (hd (co p) # map (hd \<circ> co) ps) = (\<Sum>q \<leftarrow> p # ps. poly_val (co q) 0)"
    by (simp only: list.map comp_apply)
  also have "\<dots> = poly_val (dkg_poly parties) 0"
    using foldl_poly_add(2) [of "map co ps" "co p" 0] each
    by (simp add: poly comp_def del: poly_val_zero)
  finally have total: "sum_list (hd (co p) # map (hd \<circ> co) ps) = poly_val (dkg_poly parties) 0" .
  have "\<forall>c \<in> set (hd (co p) # map (hd \<circ> co) ps). c \<noteq> 0"
    using hd0(2) by auto
  then show "sum_points E (commits_of E (map (hd \<circ> co) (p # ps))) =
      serialize_element E (point_mul E (point_gen E) (poly_val (dkg_poly parties) 0))"
    using sum_points_eq [OF k256, of "hd (co p)" "map (hd \<circ> co) ps"]
    by (simp only: total list.map comp_apply)
qed

text \<open>The group half of the output, from the participants' commitments.\<close>

lemma dkg_group:
  fixes E :: "('s::field, 'p::ab_group_add, 'z) externals_scheme"
  assumes k256: "k256_laws E" and parties: "list_all2 (dkg_party E t) parties commits"
    and ne: "parties \<noteq> []"
    and first: "mapR first_commit (sort_key dcp_idx commits) = Ok firsts"
    and sum: "sum_points E firsts = Ok group_pk"
    and merge: "merge_all E (map dcp_vss_commits (sort_key dcp_idx commits)) = Ok vss"
  shows "group_pk = point_encode E (point_mul E (point_gen E) (poly_val (dkg_poly parties) 0))"
    and "poly_val (dkg_poly parties) 0 \<noteq> (0 :: 's)"
    and "vss = commits_of E (dkg_poly parties)" and "0 \<notin> set (dkg_poly parties :: 's list)"
proof -
  obtain p ps where sp: "sort_key fst parties = p # ps"
    using ne by (metis list.exhaust set_empty set_sort)
  note sorted = dkg_sorted [OF k256 parties sp]
  have "0 \<notin> set (dkg_poly parties :: 's list) \<and> vss = commits_of E (dkg_poly parties)"
    using merge sorted(2) unfolding sorted(1,3) by (intro merge_all_eq [OF k256]) auto
  then show "vss = commits_of E (dkg_poly parties)" and "0 \<notin> set (dkg_poly parties :: 's list)"
    by simp_all
  have "serialize_element E (point_mul E (point_gen E) (poly_val (dkg_poly parties) 0)) = Ok group_pk"
    using first sum sorted(4,5) by simp
  then show "group_pk = point_encode E (point_mul E (point_gen E) (poly_val (dkg_poly parties) 0))"
    and "poly_val (dkg_poly parties) 0 \<noteq> (0 :: 's)"
    using k256 by (simp_all add: serialize_element_eq_Ok point_mul_gen_zero_iff del: poly_val_zero)
qed

text \<open>The roster of an honest run lists the public keys of the sum polynomial's shares.\<close>

lemma dkg_finalize_honest:
  fixes E :: "('s::field, 'p::ab_group_add, 'z) externals_scheme"
  assumes k256: "k256_laws E" and parties: "list_all2 (dkg_party E t) parties commits"
    and dist: "distinct (map fst parties)" and mem: "(me, sc) \<in> set parties"
    and recv: "mapR (\<lambda>p. dkg_round2 E (fst p) (snd p) me) (filter (\<lambda>p. fst p \<noteq> me) parties) = Ok received"
    and ok: "dkg_finalize E me sc received commits t = Ok out"
  shows "sp_idx (do_share out) = me" and "on_poly E (dkg_poly parties) (low_share (do_share out))"
    and "group_on_poly E (dkg_poly parties) (do_group out)"
    and "gp_threshold (do_group out) = t" and "length (dkg_poly parties :: 's list) = t"
    and "map mp_idx (gp_members (do_group out)) = sort (map fst parties)"
    and "do_vss_commits out = commits_of E (dkg_poly parties)"
    and "poly_val (dkg_poly parties) (index_to_scalar me) \<noteq> (0 :: 's)"
proof -
  let ?P = "dkg_poly parties :: 's list"
  have ne: "parties \<noteq> []" using mem by auto
  have len: "\<forall>p \<in> set parties. length (coeffs_of (snd p) :: 's list) = t"
    using list_all2_setL [OF parties] dkg_round1D(2) [OF k256] by blast
  let ?sorted = "sort_key dcp_idx commits"
  obtain own agg firsts gpk vss members where
    own: "dkg_round2 E me sc me = Ok own" and
    agg: "combine_set E (\<lparr>ss_idx = me, ss_seckey = dsp_seckey own\<rparr> #
      map (\<lambda>pkg. \<lparr>ss_idx = me, ss_seckey = dsp_seckey pkg\<rparr>) received) = Ok agg" and
    first: "mapR first_commit ?sorted = Ok firsts" and sum: "sum_points E firsts = Ok gpk" and
    merge: "merge_all E (map dcp_vss_commits ?sorted) = Ok vss" and
    mems: "mapR (\<lambda>c. bindR (eval_vss_pubkey E vss (dcp_idx c)) (\<lambda>share_pubkey.
        bindR (first_commit c) (\<lambda>c0.
        Ok \<lparr>mp_idx = dcp_idx c, mp_pubkey = share_pubkey, mp_identity_pk = Some c0\<rparr>))) ?sorted =
      Ok members" and
    out: "out = \<lparr>do_share = \<lparr>sp_idx = me, sp_seckey = ss_seckey agg\<rparr>,
      do_group = \<lparr>gp_group_pk = gpk, gp_threshold = t, gp_members = members\<rparr>, do_vss_commits = vss\<rparr>"
    using ok by (auto simp: dkg_finalize_def Let_def bindR_eq_Ok)
  note grp = dkg_group [OF k256 parties ne first sum merge]
  show "sp_idx (do_share out) = me" by (simp add: out)
  show "on_poly E ?P (low_share (do_share out))"
    using dkg_aggregate [OF k256 len mem dist recv own agg]
    by (simp add: on_poly_def share_scalar_def low_share_def out)
  show "gp_threshold (do_group out) = t" by (simp add: out)
  show lenP: "length ?P = t" by (rule dkg_poly_val(1) [OF len ne])
  show "do_vss_commits out = commits_of E ?P" by (simp add: out grp(3))
  have "t > 0" using list_all2_setL [OF parties mem] dkg_round1D(3) [OF k256] by blast
  then have "?P \<noteq> []" using lenP by auto
  then have eval: "eval_vss_pubkey E vss i = Ok pk \<Longrightarrow> poly_val ?P (index_to_scalar i) \<noteq> 0 \<and>
      pk = point_encode E (point_mul E (point_gen E) (poly_val ?P (index_to_scalar i)))" for i pk
    using eval_vss_pubkey_eq [OF k256 grp(4)] k256
    by (simp add: grp(3) serialize_element_eq_Ok point_mul_gen_zero_iff)
  have m: "list_all2 (\<lambda>c m. mp_idx m = dcp_idx c \<and> poly_val ?P (index_to_scalar (mp_idx m)) \<noteq> 0 \<and>
      mp_pubkey m = point_encode E (point_mul E (point_gen E) (poly_val ?P (index_to_scalar (mp_idx m)))))
      ?sorted members"
    using mems [unfolded mapR_eq_Ok] eval by (auto simp: bindR_eq_Ok elim!: list_all2_mono)
  then show "group_on_poly E ?P (do_group out)"
    using grp(1,2) list_all2_setR [OF m] by (auto simp: group_on_poly_def out simp del: poly_val_zero)
  have "map mp_idx members = map dcp_idx ?sorted"
    using m by (induction rule: list_all2_induct) auto
  also have "\<dots> = sort (map dcp_idx commits)"
    by (rule properties_for_sort [symmetric]) simp_all
  also have "map dcp_idx commits = map fst parties"
    using parties dkg_round1D(1) [OF k256] by (induction rule: list_all2_induct) auto
  finally have idx: "map mp_idx members = sort (map fst parties)" .
  then show "map mp_idx (gp_members (do_group out)) = sort (map fst parties)" by (simp add: out)
  have "me \<in> set (map mp_idx members)" using mem by (force simp: idx)
  then show "poly_val ?P (index_to_scalar me) \<noteq> 0" using list_all2_setR [OF m] by auto
qed

text \<open>\<open>dkg_finalize\<close> does not count the shares it received: with none it still succeeds.\<close>

lemma dkg_finalize_without_shares:
  fixes E :: "('s::field, 'p::ab_group_add, 'z) externals_scheme"
  assumes k256: "k256_laws E" and ok: "dkg_finalize E me sc received commits t = Ok out"
  shows "\<exists>out'. dkg_finalize E me sc [] commits t = Ok out' \<and> do_group out' = do_group out \<and>
    scalar_from_bytes (sp_seckey (do_share out')) = (poly_val (coeffs_of sc) (index_to_scalar me) :: 's)"
proof -
  obtain own where own: "dkg_round2 E me sc me = Ok own"
    using ok by (auto simp: dkg_finalize_def Let_def bindR_eq_Ok)
  have "scalar_from_bytes (dsp_seckey own) = (poly_val (coeffs_of sc) (index_to_scalar me) :: 's)"
    using own k256 by (simp add: dkg_round2_eq_Ok)
  moreover have "combine_set E [\<lparr>ss_idx = me, ss_seckey = dsp_seckey own\<rparr>] =
      Ok \<lparr>ss_idx = me, ss_seckey = scalar_to_bytes E (scalar_from_bytes (dsp_seckey own))\<rparr>"
    by (simp add: combine_set_eq_Ok share_scalar_def)
  ultimately show ?thesis
    using ok k256 own by (auto simp: dkg_finalize_def Let_def bindR_eq_Ok)
qed

end
