(* ===== verification/Gf7.thy ===== *)
theory Gf7
  imports Externals
begin

text \<open>
  A concrete instance of the external parameters: scalars and points are the integers modulo 7,
  the generator is 1, and the SEC1 laws, the BIP-340 law and the digest laws hold.  The
  witnesses evaluate the model at this instance, which shows the named hypotheses satisfiable
  together.
\<close>

datatype gf7 = GF0 | GF1 | GF2 | GF3 | GF4 | GF5 | GF6

fun val7 :: "gf7 \<Rightarrow> nat" where
  "val7 GF0 = 0" | "val7 GF1 = 1" | "val7 GF2 = 2" | "val7 GF3 = 3"
| "val7 GF4 = 4" | "val7 GF5 = 5" | "val7 GF6 = 6"

definition of7 :: "nat \<Rightarrow> gf7" where
  "of7 n = (let m = n mod 7 in
     if m = 0 then GF0 else if m = 1 then GF1 else if m = 2 then GF2 else if m = 3 then GF3
     else if m = 4 then GF4 else if m = 5 then GF5 else GF6)"

lemma val7_less [simp]: "val7 a < 7"
  by (cases a) auto

lemma of7_val7 [simp]: "of7 (val7 a) = a"
  by (cases a) (simp_all add: of7_def)

lemma val7_of7 [simp]: "val7 (of7 n) = n mod 7"
proof -
  have "n mod 7 < 7" by simp
  then have "n mod 7 \<in> {0, 1, 2, 3, 4, 5, 6}" by auto
  then show ?thesis by (auto simp: of7_def Let_def)
qed

lemma val7_inj: "val7 a = val7 b \<longleftrightarrow> a = b"
  by (metis of7_val7)

lemma of7_mod [simp]: "of7 (n mod 7) = of7 n"
  by (simp add: of7_def)

instantiation gf7 :: field
begin

definition zero_gf7 :: gf7 where "zero_gf7 = GF0"
definition one_gf7 :: gf7 where "one_gf7 = GF1"
definition plus_gf7 :: "gf7 \<Rightarrow> gf7 \<Rightarrow> gf7" where "plus_gf7 a b = of7 (val7 a + val7 b)"
definition times_gf7 :: "gf7 \<Rightarrow> gf7 \<Rightarrow> gf7" where "times_gf7 a b = of7 (val7 a * val7 b)"
definition uminus_gf7 :: "gf7 \<Rightarrow> gf7" where "uminus_gf7 a = of7 (7 - val7 a)"
definition minus_gf7 :: "gf7 \<Rightarrow> gf7 \<Rightarrow> gf7" where "minus_gf7 a b = of7 (val7 a + (7 - val7 b))"
definition inverse_gf7 :: "gf7 \<Rightarrow> gf7" where "inverse_gf7 a = of7 (val7 a ^ 5)"
definition divide_gf7 :: "gf7 \<Rightarrow> gf7 \<Rightarrow> gf7" where "divide_gf7 a b = a * inverse b"

instance
proof
  fix a b c :: gf7
  show "a * b * c = a * (b * c)"
    by (rule iffD1 [OF val7_inj]) (simp add: times_gf7_def mod_mult_left_eq mod_mult_right_eq mult.assoc)
  show "a * b = b * a" by (simp add: times_gf7_def mult.commute)
  show "1 * a = a" by (simp add: times_gf7_def one_gf7_def)
  show "a + b + c = a + (b + c)"
    by (rule iffD1 [OF val7_inj]) (simp add: plus_gf7_def mod_add_left_eq mod_add_right_eq add.assoc)
  show "a + b = b + a" by (simp add: plus_gf7_def add.commute)
  show "0 + a = a" by (simp add: plus_gf7_def zero_gf7_def)
  show "- a + a = 0"
    by (cases a) (simp_all add: plus_gf7_def uminus_gf7_def zero_gf7_def of7_def)
  show "a - b = a + - b"
    by (rule iffD1 [OF val7_inj]) (simp add: minus_gf7_def plus_gf7_def uminus_gf7_def mod_add_right_eq)
  show "(a + b) * c = a * c + b * c"
    by (rule iffD1 [OF val7_inj])
      (simp add: times_gf7_def plus_gf7_def mod_mult_left_eq mod_add_eq distrib_right)
  show "(0 :: gf7) \<noteq> 1" by (simp add: zero_gf7_def one_gf7_def)
  show "a \<noteq> 0 \<Longrightarrow> inverse a * a = 1"
    by (cases a) (simp_all add: inverse_gf7_def times_gf7_def zero_gf7_def one_gf7_def of7_def)
  show "a div b = a * inverse b" by (simp add: divide_gf7_def)
  show "inverse (0 :: gf7) = 0" by (simp add: inverse_gf7_def zero_gf7_def of7_def)
qed

end

lemma of_nat_gf7: "(of_nat n :: gf7) = of7 n"
proof (induction n)
  case 0
  then show ?case by (simp add: zero_gf7_def of7_def)
next
  case (Suc n)
  then have "(of_nat (Suc n) :: gf7) = of7 (1 + n mod 7)"
    by (simp add: plus_gf7_def one_gf7_def)
  also have "\<dots> = of7 (Suc n)"
    by (rule iffD1 [OF val7_inj]) (simp add: mod_Suc_eq)
  finally show ?case .
qed

text \<open>Ground arithmetic, for \<open>simp\<close>.\<close>

lemmas gf7_ground =
  zero_gf7_def one_gf7_def plus_gf7_def times_gf7_def uminus_gf7_def minus_gf7_def inverse_gf7_def
  divide_gf7_def of_nat_gf7

subsection \<open>The instance\<close>

text \<open>The magnitude of a point stands for its x-coordinate; the even half is 1, 2, 3.\<close>

definition mag7 :: "gf7 \<Rightarrow> nat" where
  "mag7 p = (if val7 p \<le> 3 then val7 p else 7 - val7 p)"

definition encode7 :: "gf7 \<Rightarrow> bytes" where
  "encode7 p = (if p = 0 then [0] else (if val7 p \<le> 3 then 2 else 3) # be_bytes 32 (mag7 p))"

definition decode7 :: "bytes \<Rightarrow> gf7 option" where
  "decode7 bs =
     (if length bs = 33 \<and> be_nat (tl bs) \<in> {1, 2, 3} then
        (if hd bs = 2 then Some (of7 (be_nat (tl bs)))
         else if hd bs = 3 then Some (of7 (7 - be_nat (tl bs))) else None)
      else None)"

definition sha7 :: "bytes \<Rightarrow> bytes" where
  "sha7 m = be_bytes 32 (Suc (length m mod 5))"

definition verify7 :: "bytes \<Rightarrow> bytes \<Rightarrow> bytes \<Rightarrow> bool" where
  "verify7 pk m sig =
     (let th = sha7 (str_bytes ''BIP0340/challenge'');
          e = of7 (be_nat (sha7 (th @ th @ take 32 sig @ pk @ m)));
          s = of7 (be_nat (drop 32 sig))
      in case (decode7 (2 # take 32 sig), decode7 (2 # pk)) of
           (Some R, Some P) \<Rightarrow> s = R + P * e
         | _ \<Rightarrow> False)"

definition ext7 :: "(gf7, gf7) externals" where
  "ext7 = \<lparr>scalar_repr = val7, point_gen = 1, point_mul = (*), point_encode = encode7,
     point_decode = decode7, point_x = (\<lambda>p. be_bytes 32 (mag7 p)), sha256 = sha7,
     hmac_sha256 = (\<lambda>k m. be_bytes 32 3), expand_xmd = (\<lambda>m d n. be_bytes n 2),
     vk_from_bytes_ok = (\<lambda>pk. decode7 (2 # pk) \<noteq> None), sig_try_from_ok = (\<lambda>sig. length sig = 64),
     verify_raw = verify7\<rparr>"

lemma mag7_range: "p \<noteq> 0 \<Longrightarrow> mag7 p \<in> {1, 2, 3}"
  by (cases p) (auto simp: mag7_def zero_gf7_def)

lemma be_nat_mag7 [simp]: "be_nat (be_bytes 32 (mag7 p)) = mag7 p"
proof -
  have "mag7 p \<le> 3" by (cases p) (auto simp: mag7_def)
  then have "mag7 p mod 256 ^ 32 = mag7 p" by simp
  then show ?thesis by (simp add: be_nat_be_bytes)
qed

lemma decode7_encode7: "p \<noteq> 0 \<Longrightarrow> decode7 (encode7 p) = Some p"
  using mag7_range [of p]
  by (cases p) (auto simp: decode7_def encode7_def mag7_def zero_gf7_def of7_def be_nat_be_bytes)

lemma encode7_uminus: "p \<noteq> 0 \<Longrightarrow> encode7 (- p) = (5 - hd (encode7 p)) # tl (encode7 p)"
  by (cases p) (simp_all add: encode7_def mag7_def gf7_ground of7_def)

lemma mag7_eq: "mag7 p = mag7 q \<longleftrightarrow> p = q \<or> p = - q"
  by (cases p; cases q) (simp_all add: mag7_def gf7_ground of7_def)

lemma k256_laws_ext7 [simp]: "k256_laws ext7"
proof -
  have "scalar_laws ext7"
    by (auto simp: scalar_laws_def ext7_def of_nat_gf7 intro: less_trans [OF val7_less])
  moreover have "point_laws ext7"
    by (simp add: point_laws_def ext7_def algebra_simps)
  moreover have "be_bytes 32 (mag7 p) = be_bytes 32 (mag7 q) \<longleftrightarrow> p = q \<or> p = - q" for p q
    using mag7_eq be_nat_mag7 by metis
  then have "encode_laws ext7"
    by (auto simp: encode_laws_def ext7_def decode7_encode7 encode7_uminus) (auto simp: encode7_def split: if_splits)
  ultimately show ?thesis by (simp add: k256_laws_def)
qed

lemma digest_laws_ext7 [simp]: "digest_laws ext7"
  by (simp add: digest_laws_def ext7_def sha7_def)

lemma schnorr_laws_ext7 [simp]: "schnorr_laws ext7"
proof -
  have len: "length (tl (encode7 p)) = 32" if "p \<noteq> 0" for p
    using that by (simp add: encode7_def)
  have even: "decode7 (2 # tl (encode7 p)) = Some p" if "p \<noteq> 0" "hd (encode7 p) = 2" for p
    using decode7_encode7 [OF that(1)] that by (cases "encode7 p") (auto simp: encode7_def)
  have s: "of7 (be_nat (be_bytes 32 (val7 s))) = s" for s
  proof -
    have "val7 s < 256 ^ 32" by (rule less_trans [OF val7_less]) simp
    then show ?thesis by (simp add: be_nat_be_bytes)
  qed
  have td: "take 32 (tl (encode7 p) @ bs) = tl (encode7 p)" "drop 32 (tl (encode7 p) @ bs) = bs"
    "length (tl (encode7 p) @ bs) = 32 + length bs" if "p \<noteq> 0" for p bs
    using len [OF that] by simp_all
  show ?thesis
    by (auto simp: schnorr_laws_def ext7_def Let_def verify7_def td even s bip340_challenge_def of_nat_gf7
        simp del: take_append drop_append length_append)
qed

end
