(* ===== verification/Example7.thy ===== *)
theory Example7
  imports Signing Dkg Gf7
begin

text \<open>
  A small group over the instance of the integers modulo 7, for the witnesses: the polynomial
  \<open>3 + x\<close>, members 1 and 2 of a two-of-three group, one signing session, and a two-party DKG.
  The collection \<open>eval7\<close> evaluates the model's operations at the instance.
\<close>

named_theorems eval7 "evaluation at the instance of the integers modulo 7"

lemma ext7_fields [eval7]:
  "scalar_repr ext7 = val7" "point_gen ext7 = 1" "point_mul ext7 = (*)"
  "point_encode ext7 = encode7" "point_decode ext7 = decode7"
  "sha256 ext7 = sha7" "hmac_sha256 ext7 = (\<lambda>k m. be_bytes 32 3)"
  by (simp_all add: ext7_def)

definition num7 :: "nat \<Rightarrow> bytes" where
  "num7 n = be_bytes 32 n"

lemma length_num7 [simp]: "length (num7 n) = 32"
  by (simp add: num7_def)

lemma be_nat_num7 [eval7]: "n < 256 \<Longrightarrow> be_nat (num7 n) = n"
  by (simp add: num7_def be_nat_be_bytes less_trans [of n 256])

lemma scalar_from_num7 [eval7]: "n < 256 \<Longrightarrow> (scalar_from_bytes (num7 n) :: gf7) = of7 n"
  by (simp add: scalar_from_bytes_def mod_n_def be_nat_num7 of_nat_gf7)

lemma mod_n_gf7 [eval7]: "(mod_n n :: gf7) = of7 n"
  by (simp add: mod_n_def of_nat_gf7)

lemma scalar_to_bytes_ext7 [eval7]: "scalar_to_bytes ext7 s = num7 (val7 s)"
  by (simp add: scalar_to_bytes_def num7_def eval7)

lemma of7_ground [eval7]: "of7 0 = GF0" "of7 (Suc 0) = GF1" "of7 1 = GF1" "of7 (Suc (Suc 0)) = GF2" "of7 2 = GF2" "of7 3 = GF3"
  "of7 4 = GF4" "of7 5 = GF5" "of7 6 = GF6"
  by (simp_all add: of7_def)

lemma of7_reduce [eval7]: "7 \<le> n \<Longrightarrow> of7 n = of7 (n mod 7)"
  by simp

lemma get_pubkey_num7 [eval7]:
  "n < 256 \<Longrightarrow> of7 n \<noteq> GF0 \<Longrightarrow> get_pubkey ext7 (num7 n) = Ok (encode7 (of7 n))"
  by (simp add: get_pubkey_eq_Ok scalar_from_num7 zero_gf7_def ext7_fields)

lemma lift_x_encode7 [eval7]: "p \<noteq> GF0 \<Longrightarrow> lift_x ext7 (encode7 p) = Ok p"
  using lift_x_encode [OF k256_laws_ext7, of p] by (simp add: zero_gf7_def ext7_fields)

lemma serialize_encode7 [eval7]: "p \<noteq> GF0 \<Longrightarrow> serialize_element ext7 p = Ok (encode7 p)"
  by (simp add: serialize_element_eq_Ok zero_gf7_def ext7_fields)

lemma length_encode7 [eval7]: "p \<noteq> GF0 \<Longrightarrow> length (encode7 p) = 33"
  by (simp add: encode7_def zero_gf7_def)

lemma has_even_y_ext7 [eval7]: "p \<noteq> GF0 \<Longrightarrow> has_even_y ext7 p = (val7 p \<le> 3)"
  by (simp add: has_even_y_def encode7_def zero_gf7_def ext7_fields)

lemma hash_to_field_n_ext7 [eval7]: "hash_to_field_n ext7 msg d = GF2"
proof -
  have exp: "expand_xmd ext7 msg d 48 = be_bytes 16 0 @ num7 2"
    using be_bytes_add [of 16 32 2] by (simp add: ext7_def num7_def)
  have "be_nat (be_bytes 16 0) = 0"
    by (simp add: be_nat_be_bytes)
  then show ?thesis
    by (simp add: hash_to_field_n_def Let_def exp be_nat_append be_nat_num7 mod_n_def of_nat_gf7
        of7_ground zero_gf7_def [symmetric])
qed

lemma h1_ext7 [eval7]: "h1 ext7 m = num7 2"
  by (simp add: h1_def eval7)

lemma sha7_num7 [eval7]: "sha7 m = num7 (Suc (length m mod 5))"
  by (simp add: sha7_def num7_def)

subsection \<open>The group\<close>

definition poly7 :: "gf7 list" where
  "poly7 = [GF3, GF1]"

definition share7 :: "u32 \<Rightarrow> nat \<Rightarrow> share_package" where
  "share7 i n = \<lparr>sp_idx = i, sp_seckey = num7 n\<rparr>"

definition member7 :: "u32 \<Rightarrow> nat \<Rightarrow> member_package" where
  "member7 i n = \<lparr>mp_idx = i, mp_pubkey = encode7 (of7 n), mp_identity_pk = None\<rparr>"

definition group7 :: group_package where
  "group7 = \<lparr>gp_group_pk = encode7 GF3, gp_threshold = 2,
     gp_members = [member7 1 4, member7 2 5, member7 3 6]\<rparr>"

lemma deal7:
  "generate_dealer_package ext7 2 3 [num7 3, num7 1] (\<lambda>_. []) =
   Ok \<lparr>dp_group = group7, dp_shares = [share7 1 4, share7 2 5, share7 3 6]\<rparr>"
  by (simp add: generate_dealer_package_def create_dealer_set_def create_share_set_def Let_def
      create_share_coeffs_def create_shares_def get_share_commits_def upt_rec scalar_base_multi_def
      evaluate_x_def index_to_scalar_eq of_nat_gf7 eval7 gf7_ground group7_def share7_def member7_def)

subsection \<open>A signing session\<close>

definition nonce7 :: "u32 \<Rightarrow> member_nonce" where
  "nonce7 i = \<lparr>mn_idx = i, mn_binder_pn = encode7 GF3, mn_hidden_pn = encode7 GF3, mn_code = num7 0\<rparr>"

definition nonces7 :: "member_nonce list" where
  "nonces7 = [nonce7 1, nonce7 2]"

definition shares7 :: "share_package list" where
  "shares7 = [share7 1 4, share7 2 5]"

definition session7 :: sign_session where
  "session7 = \<lparr>ses_sid = compute_session_id ext7 group7 [1, 2] [([], [num7 2])],
     ses_group_pk = encode7 GF3, ses_members = [1, 2], ses_messages = [([], [num7 2])],
     ses_nonces = nonces7\<rparr>"

definition pkgs7 :: "partial_sig_package list" where
  "pkgs7 =
     [\<lparr>psp_idx = 1, psp_pubkey = encode7 GF4, psp_sid = ses_sid session7,
       psp_psigs = [\<lparr>psg_message = [], psg_psig = num7 1\<rparr>]\<rparr>,
      \<lparr>psp_idx = 2, psp_pubkey = encode7 GF5, psp_sid = ses_sid session7,
       psp_psigs = [\<lparr>psg_message = [], psg_psig = num7 4\<rparr>]\<rparr>]"

lemma nonce_secret7 [eval7]: "derive_nonce_secret ext7 k c d = num7 3"
  by (simp add: derive_nonce_secret_def eval7 num7_def)

lemma index7 [eval7]:
  "(index_to_scalar 1 :: gf7) = GF1" "(index_to_scalar 2 :: gf7) = GF2" "(index_to_scalar 3 :: gf7) = GF3"
  by (simp_all add: index_to_scalar_eq of_nat_gf7 eval7)

lemma group_on_poly7: "group_on_poly ext7 poly7 group7"
  by (simp add: group_on_poly_def poly7_def group7_def member7_def eval7 gf7_ground)

lemma honest7: "list_all2 (honest_member ext7 poly7) nonces7 shares7"
  by (simp add: honest_member_def nonces7_def shares7_def nonce7_def share7_def on_poly_def
      share_scalar_def low_share_def poly7_def verify_nonce_code_def derive_secret_nonce_def Let_def
      eval7 gf7_ground)

lemma session7_created:
  "create_sign_session ext7 group7 [1, 2] [([], [num7 2])] nonces7 = Ok session7"
  by (simp add: create_sign_session_eq_Ok session7_def group7_def nonces7_def)

lemma indices7: "distinct (map (index_to_scalar \<circ> sp_idx) shares7 :: gf7 list)"
  by (simp add: shares7_def share7_def eval7)

definition pnonce7 :: "u32 \<Rightarrow> public_nonce" where
  "pnonce7 i = \<lparr>pn_idx = i, binder_pn = encode7 GF3, hidden_pn = encode7 GF3\<rparr>"

lemma pnonces7: "build_public_nonces nonces7 = [pnonce7 1, pnonce7 2]"
  by (simp add: build_public_nonces_def nonces7_def nonce7_def pnonce7_def)

definition ctx7 :: "(gf7, gf7) group_signing_ctx" where
  "ctx7 = ok_val (get_group_signing_ctx ext7 (encode7 GF3) [pnonce7 1, pnonce7 2] [] [num7 2])"

lemma ctx7_parts:
  "get_group_signing_ctx ext7 (encode7 GF3) [pnonce7 1, pnonce7 2] [] [num7 2] = Ok ctx7"
  "ctx_group_pt ctx7 = \<lparr>st_parity = GF6, st_point = GF5, st_state = GF1, st_tweak = GF2\<rparr>"
  "ctx_group_pk ctx7 = encode7 GF5" "ctx_challenge ctx7 = GF4" "ctx_group_pn ctx7 = encode7 GF4"
  "ctx_indexes ctx7 = [1, 2]" "ctx_pnonces ctx7 = [pnonce7 1, pnonce7 2]" "ctx_message ctx7 = []"
  "ctx_bind_factors ctx7 = [\<lparr>bf_idx = 1, bf_factor = num7 2\<rparr>, \<lparr>bf_idx = 2, bf_factor = num7 2\<rparr>]"
  by (simp_all add: ctx7_def get_group_signing_ctx_def get_group_key_context_def
      get_point_state_def point_state_step_def get_group_commit_context_def get_group_binders_def
      get_group_pubnonce_def pubnonce_step_def get_bind_factor_def ok_or_def get_nonce_ids_def
      get_challenge_def convert_pubkey_to_bip340_def assert_ok_def hash340_def taghash_def Let_def
      scalar_base_multi_def scalar_multi_def negate_point_def pnonce7_def eval7 gf7_ground)

lemma sign7:
  "honest_packages ext7 session7 nonces7 shares7 pkgs7"
  by (simp add: honest_packages_def nonces7_def shares7_def pkgs7_def nonce7_def share7_def
      create_partial_sig_package_def session7_def pnonces7 [unfolded nonces7_def nonce7_def]
      ctx7_parts sign_msg_def low_share_def low_snonce_def derive_secret_nonce_def get_bind_factor_def
      ok_or_def interpolate_x_def is_included_def is_unique_set_def scalar_invert_def Let_def
      eval7 gf7_ground)

lemma combine7:
  "combine_partial_sigs ext7 ctx7 (map first_psig pkgs7) = Ok (tl (encode7 GF4) @ num7 4)"
  by (simp add: combine_partial_sigs_def ctx7_parts pkgs7_def first_psig_def Let_def
      get_group_binders_def get_group_pubnonce_def pubnonce_step_def get_bind_factor_def ok_or_def
      scalar_multi_def pnonce7_def eval7 gf7_ground)

lemma drop_sig7 [eval7]: "p \<noteq> GF0 \<Longrightarrow> drop 32 (tl (encode7 p) @ bs) = bs"
  "p \<noteq> GF0 \<Longrightarrow> take 32 (tl (encode7 p) @ bs) = tl (encode7 p)"
  "p \<noteq> GF0 \<Longrightarrow> length (tl (encode7 p)) = 32"
  by (simp_all add: eval7)

lemma decode_even7 [eval7]: "p \<noteq> GF0 \<Longrightarrow> decode7 (2 # tl (encode7 p)) = Some (if val7 p \<le> 3 then p else - p)"
  by (cases p) (simp_all add: encode7_def decode7_def mag7_def be_nat_be_bytes eval7 gf7_ground)

lemma verify_fields7 [eval7]: "vk_from_bytes_ok ext7 = (\<lambda>pk. decode7 (2 # pk) \<noteq> None)"
  "sig_try_from_ok ext7 = (\<lambda>sig. length sig = 64)" "verify_raw ext7 = verify7"
  by (simp_all add: ext7_def)

lemma combined7:
  "combine_signatures ext7 session7 group7 pkgs7 =
   Ok [\<lparr>sig_message = [], sig_pubkey = encode7 GF5, sig_sig = tl (encode7 GF4) @ num7 4\<rparr>]"
proof -
  have "verify7 (tl (encode7 GF5)) [] (tl (encode7 GF4) @ num7 4)"
    by (simp add: verify7_def Let_def eval7 gf7_ground del: take_append drop_append)
  then have "verify_final_sig ext7 (key_context ctx7) [] (tl (encode7 GF4) @ num7 4) = Ok True"
    by (simp add: verify_final_sig_def key_context_def ctx7_parts Let_def eval7 gf7_ground)
  moreover have "ses_messages session7 = [([], [num7 2])]"
    and "gp_threshold group7 \<le> length pkgs7" and "\<forall>p \<in> set pkgs7. length (psp_psigs p) = 1"
    and "get_group_signing_ctx ext7 (ses_group_pk session7)
      (build_public_nonces (ses_nonces session7)) [] [num7 2] = Ok ctx7"
    by (simp_all add: session7_def group7_def pkgs7_def pnonces7 ctx7_parts)
  ultimately show ?thesis
    using combine_signatures_one [OF _ _ _ _ combine7] by (simp add: ctx7_parts)
qed

subsection \<open>Refresh and repair\<close>

definition refresh_pkg7 :: secret_share_package where
  "refresh_pkg7 = \<lparr>ssp_idx = 1,
     ssp_shares = [\<lparr>ss_idx = 1, ss_seckey = num7 2\<rparr>, \<lparr>ss_idx = 2, ss_seckey = num7 4\<rparr>],
     ssp_vss_commits = [encode7 GF2]\<rparr>"

lemma refresh7: "gen_refresh_shares ext7 1 (length poly7) 2 [num7 2] (\<lambda>_. []) = Ok refresh_pkg7"
  by (simp add: gen_refresh_shares_def Let_def create_share_coeffs_def create_shares_def
      get_share_commits_def upt_rec scalar_base_multi_def evaluate_x_def index_to_scalar_eq of_nat_gf7
      poly7_def refresh_pkg7_def eval7 gf7_ground)

definition holders7 :: "secret_share list" where
  "holders7 = map low_share shares7"

lemma holders7: "map ss_idx holders7 = [1, 2]" "\<forall>s \<in> set holders7. on_poly ext7 poly7 s"
  by (simp_all add: holders7_def shares7_def share7_def low_share_def poly7_def on_poly_def
      share_scalar_def eval7 gf7_ground)

lemma refreshed7:
  "mapR (refresh_from ext7 [refresh_pkg7]) holders7 =
   Ok [\<lparr>ss_idx = 1, ss_seckey = num7 6\<rparr>, \<lparr>ss_idx = 2, ss_seckey = num7 2\<rparr>]"
  by (simp add: refresh_from_def refresh_pkg7_def refresh_share_def holders7_def shares7_def share7_def
      low_share_def get_record_def ok_or_def combine_set_def is_equal_set_def combine_shares_def
      eval7 gf7_ground)

definition repair_pkg7 :: "u32 \<Rightarrow> secret_share_package" where
  "repair_pkg7 i = \<lparr>ssp_idx = i,
     ssp_shares = [\<lparr>ss_idx = 1, ss_seckey = num7 2\<rparr>, \<lparr>ss_idx = 2, ss_seckey = num7 1\<rparr>],
     ssp_vss_commits = [encode7 GF2, encode7 GF1]\<rparr>"

lemma repair7:
  "gen_recovery_shares ext7 [1, 2] \<lparr>ss_idx = 1, ss_seckey = num7 4\<rparr> 3 2 [num7 2] (\<lambda>_. []) = Ok (repair_pkg7 1)"
  "gen_recovery_shares ext7 [1, 2] \<lparr>ss_idx = 2, ss_seckey = num7 5\<rparr> 3 2 [num7 2] (\<lambda>_. []) = Ok (repair_pkg7 2)"
  by (simp_all add: gen_recovery_shares_def Let_def create_share_coeffs_def assert_ok_def
      get_share_commits_def upt_rec scalar_base_multi_def calc_lagrange_coeff_def is_unique_set_def
      scalar_invert_def repair_pkg7_def eval7 gf7_ground)

lemma aggregated7:
  "mapR (aggregate_recovery ext7 [repair_pkg7 1, repair_pkg7 2]) [1, 2] =
   Ok [\<lparr>ss_idx = 1, ss_seckey = num7 4\<rparr>, \<lparr>ss_idx = 2, ss_seckey = num7 2\<rparr>]"
  by (simp add: aggregate_recovery_def repair_pkg7_def get_record_def ok_or_def combine_set_def
      is_equal_set_def combine_shares_def eval7 gf7_ground)

subsection \<open>Key generation\<close>

definition commit7 :: "u32 \<Rightarrow> gf7 \<Rightarrow> nat \<Rightarrow> dkg_commit_package" where
  "commit7 i a z = \<lparr>dcp_idx = i, dcp_vss_commits = [encode7 a, encode7 GF2],
     dcp_pop = \<lparr>pop_r = encode7 GF2, pop_z = num7 z\<rparr>\<rparr>"

lemma pop7: "create_dkg_pop ext7 i GF3 (encode7 GF3) = Ok \<lparr>pop_r = encode7 GF2, pop_z = num7 3\<rparr>"
  "create_dkg_pop ext7 i GF2 (encode7 GF2) = Ok \<lparr>pop_r = encode7 GF2, pop_z = num7 5\<rparr>"
  by (simp_all add: create_dkg_pop_def dkg_pop_challenge_def dkg_pop_nonce_dst_def
      dkg_pop_challenge_dst_def str_bytes_def scalar_base_multi_def Let_def eval7 gf7_ground)

lemma round7:
  "dkg_round1 ext7 1 2 [num7 3, num7 2] (\<lambda>_. []) = Ok ([num7 3, num7 2], commit7 1 GF3 3)"
  "dkg_round1 ext7 2 2 [num7 2, num7 2] (\<lambda>_. []) = Ok ([num7 2, num7 2], commit7 2 GF2 5)"
  by (simp_all add: dkg_round1_def Let_def create_share_coeffs_def get_share_commits_def upt_rec
      scalar_base_multi_def pop7 commit7_def eval7 gf7_ground)

definition parties7 :: "(u32 \<times> bytes list) list" where
  "parties7 = [(1, [num7 3, num7 2]), (2, [num7 2, num7 2])]"

definition commits7 :: "dkg_commit_package list" where
  "commits7 = [commit7 1 GF3 3, commit7 2 GF2 5]"

lemma parties7: "list_all2 (dkg_party ext7 2) parties7 commits7"
  using round7 by (auto simp: parties7_def commits7_def dkg_party_def)

definition received7 :: "dkg_share_package list" where
  "received7 = [\<lparr>dsp_sender_idx = 2, dsp_recipient_idx = 1, dsp_seckey = num7 4\<rparr>]"

lemma received7:
  "mapR (\<lambda>p. dkg_round2 ext7 (fst p) (snd p) 1) (filter (\<lambda>p. fst p \<noteq> 1) parties7) = Ok received7"
  by (simp add: parties7_def dkg_round2_def Let_def evaluate_x_def received7_def eval7 gf7_ground)

definition out7 :: dkg_output where
  "out7 = \<lparr>do_share = \<lparr>sp_idx = 1, sp_seckey = num7 2\<rparr>,
     do_group = \<lparr>gp_group_pk = encode7 GF5, gp_threshold = 2,
       gp_members = [\<lparr>mp_idx = 1, mp_pubkey = encode7 GF2, mp_identity_pk = Some (encode7 GF3)\<rparr>,
         \<lparr>mp_idx = 2, mp_pubkey = encode7 GF6, mp_identity_pk = Some (encode7 GF2)\<rparr>]\<rparr>,
     do_vss_commits = [encode7 GF5, encode7 GF4]\<rparr>"

lemma pops7: "check_pops ext7 commits7 = Ok ()"
  by (simp add: commits7_def commit7_def verify_dkg_pop_def dkg_pop_challenge_def
      dkg_pop_challenge_dst_def str_bytes_def scalar_base_multi_def scalar_multi_def Let_def eval7 gf7_ground)

lemma finalize7: "dkg_finalize ext7 1 [num7 3, num7 2] received7 commits7 2 = Ok out7"
proof -
  have checked: "check_shares ext7 commits7 2 received7 = Ok ()"
    by (simp add: received7_def commits7_def commit7_def verify_dkg_share_def verify_share_def
        vss_term_def scalar_base_multi_def scalar_multi_def ok_or_def pow_n_eq upt_rec Let_def
        of_nat_gf7 eval7 gf7_ground)
  show ?thesis
    unfolding dkg_finalize_def pops7 checked
    by (simp add: dkg_round2_def evaluate_x_def received7_def commits7_def
        commit7_def combine_set_def is_equal_set_def combine_shares_def first_commit_def sum_points_def
        merge_all_def merge_share_commits_def equal_arr_size_def eval_vss_pubkey_def scalar_multi_def
        pow_n_eq ok_or_def mapR_val_def Let_def of_nat_gf7 out7_def eval7 gf7_ground)
qed

end
