(* ===== verification/Frost_Compose.thy ===== *)
theory Frost_Compose
  imports Signing Dkg
begin

text \<open>
  The modules of \<open>frost/\<close> together: members of one group make their packages, which combine to a
  signature; and a group that comes out of a key generation can sign.
\<close>

subsection \<open>A session of honest members\<close>

text \<open>The packages of a threshold combine.\<close>

lemma packages_sign:
  fixes E :: "('s::field, 'p::ab_group_add, 'z) externals_scheme"
  assumes k256: "k256_laws E" and schnorr: "schnorr_laws E"
    and grp: "group_on_poly E cs grp" and deg: "length cs \<le> gp_threshold grp"
    and honest: "list_all2 (honest_member E cs) nonces shares"
    and dist: "distinct (map (index_to_scalar \<circ> sp_idx) shares :: 's list)"
    and enough: "gp_threshold grp \<le> length shares" and ne: "shares \<noteq> []"
    and ses: "create_sign_session E grp members [(msg, tweaks)] nonces = Ok ses"
    and pkgs: "honest_packages E ses nonces shares pkgs"
  shows "\<exists>ctx sig.
    get_group_signing_ctx E (gp_group_pk grp) (build_public_nonces nonces) msg tweaks = Ok ctx \<and>
    combine_partial_sigs E ctx (map first_psig pkgs) = Ok sig \<and> length sig = 64 \<and>
    (scalar_from_bytes (drop 32 sig) \<noteq> (0 :: 's) \<longrightarrow>
     combine_signatures E ses grp pkgs =
       Ok [\<lparr>sig_message = msg, sig_pubkey = ctx_group_pk ctx, sig_sig = sig\<rparr>])"
proof -
  have s: "ses_messages ses = [(msg, tweaks)]" "ses_nonces ses = nonces"
    "ses_group_pk ses = gp_group_pk grp"
    using ses by (simp_all add: create_sign_session_eq_Ok)
  have len: "length nonces = length shares" using honest by (rule list_all2_lengthD)
  then have "zip nonces shares \<noteq> []" using ne by (cases shares; cases nonces) auto
  then obtain ctx where ctx: "get_group_signing_ctx E (ses_group_pk ses)
      (build_public_nonces (ses_nonces ses)) msg tweaks = Ok ctx"
    using honest_packages_ctx [OF pkgs _ s(1)] by blast
  obtain sigs where sigs: "list_all2 (\<lambda>m s. sign_msg E ctx (fst m) (snd m) = Ok s)
      (sign_parts E nonces shares) sigs" and eq: "map sg_psig sigs = map (sg_psig \<circ> first_psig) pkgs"
    using honest_packages_psigs(1) [OF pkgs s(1) ctx] by blast
  have "honest_session E cs (gp_group_pk grp) (build_public_nonces nonces) (sign_parts E nonces shares)"
    using deg enough by (intro honest_session_packages [OF k256 grp honest dist ne]) simp
  then obtain sig where sig: "combine_partial_sigs E ctx sigs = Ok sig" "length sig = 64"
    "scalar_from_bytes (drop 32 sig) \<noteq> (0 :: 's) \<longrightarrow> verify_final_sig E (key_context ctx) msg sig = Ok True"
    using combine_verifies [OF k256 schnorr ctx [unfolded s] _ sigs] by blast
  have comb: "combine_partial_sigs E ctx (map first_psig pkgs) = Ok sig"
    using combine_partial_sigs_cong [of sigs "map first_psig pkgs" E ctx] eq sig(1) by simp
  have "length pkgs = length shares"
    using list_all2_lengthD [OF pkgs [unfolded honest_packages_def]] len by simp
  then have "combine_signatures E ses grp pkgs =
      Ok [\<lparr>sig_message = msg, sig_pubkey = ctx_group_pk ctx, sig_sig = sig\<rparr>]"
    if "scalar_from_bytes (drop 32 sig) \<noteq> (0 :: 's)"
    using combine_signatures_one [OF s(1) _ ctx honest_packages_psigs(2) [OF pkgs s(1) ctx]]
      comb enough sig(3) that by simp
  then show ?thesis using ctx comb sig(2) by (auto simp: s)
qed

text \<open>Once the context of the session can be built, every member makes its package.\<close>

lemma packages_made:
  fixes E :: "('s::field, 'p::ab_group_add, 'z) externals_scheme"
  assumes k256: "k256_laws E" and grp: "group_on_poly E cs grp"
    and honest: "list_all2 (honest_member E cs) nonces shares"
    and dist: "distinct (map (index_to_scalar \<circ> sp_idx) shares :: 's list)"
    and ne: "shares \<noteq> []" and deg: "length cs \<le> length shares"
    and keys: "\<forall>s \<in> set shares. scalar_from_bytes (sp_seckey s) \<noteq> (0 :: 's)"
    and ses: "create_sign_session E grp members [(msg, tweaks)] nonces = Ok ses"
    and ctx: "get_group_signing_ctx E (gp_group_pk grp) (build_public_nonces nonces) msg tweaks = Ok ctx"
  shows "\<exists>pkgs. honest_packages E ses nonces shares pkgs"
proof -
  have s: "ses_messages ses = [(msg, tweaks)]" "ses_nonces ses = nonces" "ses_group_pk ses = gp_group_pk grp"
    using ses by (simp_all add: create_sign_session_eq_Ok)
  note sess = honest_session_packages [OF k256 grp honest dist ne deg]
  note one = create_partial_sig_package_one [OF s(1), of E ctx, unfolded s, OF ctx]
  let ?make = "\<lambda>(n, s). create_partial_sig_package E ses s (derive_secret_nonce E (sp_seckey s) (mn_code n))"
  have "\<exists>pkg. ?make ns = Ok pkg" if ns: "ns \<in> set (zip nonces shares)" for ns
  proof -
    obtain n sh where p: "ns = (n, sh)" by (cases ns)
    let ?sn = "low_snonce (sp_idx sh) (derive_secret_nonce E (sp_seckey sh) (mn_code n))"
    have "(low_share sh, ?sn) \<in> set (sign_parts E nonces shares)"
      using ns by (force simp: sign_parts_def p)
    from sign_msg_member [OF k256 ctx sess this]
    have msg: "sign_msg E ctx (low_share sh) ?sn = bindR (get_pubkey E (sp_seckey sh)) (\<lambda>pubkey.
        Ok \<lparr>sg_idx = sp_idx sh, sg_pubkey = pubkey,
             sg_psig = scalar_to_bytes E (psig_scalar E ctx (low_share sh) ?sn)\<rparr>)"
      by (simp add: low_share_def)
    have "sh \<in> set shares" using ns set_zip_rightD by (fastforce simp: p)
    then obtain pk where pk: "get_pubkey E (sp_seckey sh) = Ok pk"
      using keys by (auto simp: get_pubkey_eq_Ok [OF k256])
    let ?pkg = "\<lparr>psp_idx = sp_idx sh, psp_pubkey = pk, psp_sid = ses_sid ses,
      psp_psigs = [\<lparr>psg_message = msg, psg_psig = scalar_to_bytes E (psig_scalar E ctx (low_share sh) ?sn)\<rparr>]\<rparr>"
    let ?sig = "\<lparr>sg_idx = sp_idx sh, sg_pubkey = pk,
      sg_psig = scalar_to_bytes E (psig_scalar E ctx (low_share sh) ?sn)\<rparr>"
    have sig: "sign_msg E ctx (low_share sh) ?sn = Ok ?sig"
      unfolding msg pk by simp
    have "?make ns = Ok ?pkg"
      unfolding p prod.case by (rule iffD2 [OF one], rule exI [of _ ?sig], intro conjI sig) (simp_all add: pk)
    then show ?thesis by blast
  qed
  then have "\<forall>i < length (zip nonces shares). \<exists>pkg. ?make (zip nonces shares ! i) = Ok pkg"
    using nth_mem by blast
  then obtain pkgs where "length pkgs = length (zip nonces shares)"
    "\<forall>i < length (zip nonces shares). ?make (zip nonces shares ! i) = Ok (pkgs ! i)"
    unfolding Skolem_list_nth by blast
  then have "honest_packages E ses nonces shares pkgs"
    unfolding honest_packages_def by (simp add: list_all2_conv_all_nth)
  then show ?thesis by blast
qed

subsection \<open>Key generation, then signing\<close>

text \<open>Participant \<open>me\<close> of a key generation finalizes with \<open>out\<close>.\<close>

definition finalizes ::
  "('s::field, 'p::ab_group_add, 'z) externals_scheme \<Rightarrow> nat \<Rightarrow> (u32 \<times> bytes list) list \<Rightarrow>
   dkg_commit_package list \<Rightarrow> u32 \<Rightarrow> dkg_output \<Rightarrow> bool" where
  "finalizes E t parties commits me out \<longleftrightarrow>
     (\<exists>sc received. (me, sc) \<in> set parties \<and>
        mapR (\<lambda>p. dkg_round2 E (fst p) (snd p) me) (filter (\<lambda>p. fst p \<noteq> me) parties) = Ok received \<and>
        dkg_finalize E me sc received commits t = Ok out)"

text \<open>It generates a nonce from its share and publishes it under its index.\<close>

definition publishes_nonce ::
  "('s::field, 'p::ab_group_add, 'z) externals_scheme \<Rightarrow> dkg_output \<Rightarrow> member_nonce \<Rightarrow> bool" where
  "publishes_nonce E out n \<longleftrightarrow>
     (\<exists>code d. generate_nonce_pair E (sp_seckey (do_share out)) code = Ok d \<and>
        n = to_member_nonce d (sp_idx (do_share out)))"

lemma finalizedD:
  fixes E :: "('s::field, 'p::ab_group_add, 'z) externals_scheme"
  assumes k256: "k256_laws E" and parties: "list_all2 (dkg_party E t) parties commits"
    and dist: "distinct (map fst parties)" and fin: "finalizes E t parties commits me out"
  shows "sp_idx (do_share out) = me" and "on_poly E (dkg_poly parties) (low_share (do_share out))"
    and "group_on_poly E (dkg_poly parties) (do_group out)" and "gp_threshold (do_group out) = t"
    and "length (dkg_poly parties :: 's list) = t"
    and "scalar_from_bytes (sp_seckey (do_share out)) \<noteq> (0 :: 's)"
proof -
  obtain sc received where mem: "(me, sc) \<in> set parties"
    and recv: "mapR (\<lambda>p. dkg_round2 E (fst p) (snd p) me) (filter (\<lambda>p. fst p \<noteq> me) parties) = Ok received"
    and ok: "dkg_finalize E me sc received commits t = Ok out"
    using fin by (auto simp: finalizes_def)
  note out = dkg_finalize_honest [OF k256 parties dist mem recv ok]
  show "sp_idx (do_share out) = me" "on_poly E (dkg_poly parties) (low_share (do_share out))"
    "group_on_poly E (dkg_poly parties) (do_group out)" "gp_threshold (do_group out) = t"
    "length (dkg_poly parties :: 's list) = t"
    by (fact out)+
  show "scalar_from_bytes (sp_seckey (do_share out)) \<noteq> (0 :: 's)"
    using out(1,2,8) by (simp add: on_poly_def share_scalar_def low_share_def)
qed

lemma generated_group_signs:
  fixes E :: "('s::field, 'p::ab_group_add, 'z) externals_scheme"
  assumes k256: "k256_laws E" and schnorr: "schnorr_laws E"
    and parties: "list_all2 (dkg_party E t) parties commits" "distinct (map fst parties)"
    and outs: "list_all2 (finalizes E t parties commits) mes outs"
    and nonces: "list_all2 (publishes_nonce E) outs nonces"
    and dist: "distinct (map index_to_scalar mes :: 's list)" and enough: "t \<le> length mes" and ne: "mes \<noteq> []"
    and out: "out \<in> set outs"
    and ses: "create_sign_session E (do_group out) members [(msg, tweaks)] nonces = Ok ses"
    and ctx: "get_group_signing_ctx E (gp_group_pk (do_group out)) (build_public_nonces nonces) msg tweaks = Ok ctx"
  shows "\<exists>pkgs sig. honest_packages E ses nonces (map do_share outs) pkgs \<and>
    combine_partial_sigs E ctx (map first_psig pkgs) = Ok sig \<and> length sig = 64 \<and>
    (scalar_from_bytes (drop 32 sig) \<noteq> (0 :: 's) \<longrightarrow>
     combine_signatures E ses (do_group out) pkgs =
       Ok [\<lparr>sig_message = msg, sig_pubkey = ctx_group_pk ctx, sig_sig = sig\<rparr>])"
proof -
  let ?P = "dkg_poly parties :: 's list" and ?shares = "map do_share outs"
  note fin = finalizedD [OF k256 parties]
  have len: "length outs = length mes" "length nonces = length outs"
    using list_all2_lengthD [OF outs] list_all2_lengthD [OF nonces] by simp_all
  obtain me where "finalizes E t parties commits me out" using list_all2_setR [OF outs out] by blast
  note group = fin(3-5) [OF this]
  have each: "on_poly E ?P (low_share s) \<and> scalar_from_bytes (sp_seckey s) \<noteq> (0 :: 's)" if "s \<in> set ?shares" for s
  proof -
    from that obtain o' where "o' \<in> set outs" "s = do_share o'" by auto
    then obtain me where "finalizes E t parties commits me o'" using list_all2_setR [OF outs] by blast
    from fin(2,6) [OF this] show ?thesis using \<open>s = do_share o'\<close> by simp
  qed
  have idx: "map sp_idx ?shares = mes"
    using outs fin(1) by (auto simp: list_all2_conv_all_nth list_eq_iff_nth_eq)
  then have dist': "distinct (map (index_to_scalar \<circ> sp_idx) ?shares :: 's list)"
    using dist by (metis map_map)
  have honest: "list_all2 (honest_member E ?P) nonces ?shares"
    unfolding list_all2_conv_all_nth
  proof (intro conjI allI impI)
    fix i
    assume i: "i < length nonces"
    then have "publishes_nonce E (outs ! i) (nonces ! i)" using nonces by (simp add: list_all2_conv_all_nth)
    then show "honest_member E ?P (nonces ! i) (?shares ! i)"
      using i len each [of "do_share (outs ! i)"]
      by (auto simp: publishes_nonce_def honest_member_def to_member_nonce_def
          generated_nonce_verifies [unfolded to_member_nonce_def])
  qed (simp add: len)
  have ne': "?shares \<noteq> []" "length ?P \<le> length ?shares" using ne enough len group(3) by auto
  obtain pkgs where pkgs: "honest_packages E ses nonces ?shares pkgs"
    using packages_made [OF k256 group(1) honest dist' ne' _ ses ctx] each by blast
  have "length ?P \<le> gp_threshold (do_group out)" "gp_threshold (do_group out) \<le> length ?shares"
    using group(2,3) enough len by simp_all
  from packages_sign [OF k256 schnorr group(1) this(1) honest dist' this(2) ne'(1) ses pkgs] ctx pkgs
  show ?thesis by auto
qed

end
