(* ===== verification/Compose_Example.thy ===== *)
theory Compose_Example
  imports Example7 Frost_Compose
begin

text \<open>
  The two participants of the key generation of \<open>Example7\<close> both finalize, generate a nonce each
  and open a signing session over the generated group.
\<close>

definition received72 :: "dkg_share_package list" where
  "received72 = [\<lparr>dsp_sender_idx = 1, dsp_recipient_idx = 2, dsp_seckey = num7 0\<rparr>]"

lemma received72:
  "mapR (\<lambda>p. dkg_round2 ext7 (fst p) (snd p) 2) (filter (\<lambda>p. fst p \<noteq> 2) parties7) = Ok received72"
  by (simp add: parties7_def dkg_round2_def Let_def evaluate_x_def received72_def eval7 gf7_ground)

definition out72 :: dkg_output where
  "out72 = \<lparr>do_share = \<lparr>sp_idx = 2, sp_seckey = num7 6\<rparr>, do_group = do_group out7,
     do_vss_commits = [encode7 GF5, encode7 GF4]\<rparr>"

lemma finalize72: "dkg_finalize ext7 2 [num7 2, num7 2] received72 commits7 2 = Ok out72"
proof -
  have checked: "check_shares ext7 commits7 2 received72 = Ok ()"
    by (simp add: received72_def commits7_def commit7_def verify_dkg_share_def verify_share_def
        vss_term_def scalar_base_multi_def scalar_multi_def ok_or_def pow_n_eq upt_rec Let_def
        of_nat_gf7 eval7 gf7_ground)
  show ?thesis
    unfolding dkg_finalize_def pops7 checked
    by (simp add: dkg_round2_def evaluate_x_def received72_def commits7_def
        commit7_def combine_set_def is_equal_set_def combine_shares_def first_commit_def sum_points_def
        merge_all_def merge_share_commits_def equal_arr_size_def eval_vss_pubkey_def scalar_multi_def
        pow_n_eq ok_or_def mapR_val_def Let_def of_nat_gf7 out72_def out7_def eval7 gf7_ground)
qed

definition session72 :: sign_session where
  "session72 = \<lparr>ses_sid = compute_session_id ext7 (do_group out7) [1, 2] [([], [])],
     ses_group_pk = encode7 GF5, ses_members = [1, 2], ses_messages = [([], [])],
     ses_nonces = nonces7\<rparr>"

lemma session72_created:
  "create_sign_session ext7 (do_group out7) [1, 2] [([], [])] nonces7 = Ok session72"
  by (simp add: create_sign_session_eq_Ok session72_def out7_def nonces7_def)

lemma published7:
  "list_all2 (publishes_nonce ext7) [out7, out72] nonces7"
  by (simp add: publishes_nonce_def nonces7_def nonce7_def out7_def out72_def generate_nonce_pair_def
      to_member_nonce_def Let_def eval7 gf7_ground)

lemma finalized7: "list_all2 (finalizes ext7 2 parties7 commits7) [1, 2] [out7, out72]"
  using received7 finalize7 received72 finalize72
  by (auto simp: finalizes_def parties7_def)

definition ctx72 :: "(gf7, gf7) group_signing_ctx" where
  "ctx72 = ok_val (get_group_signing_ctx ext7 (encode7 GF5) [pnonce7 1, pnonce7 2] [] [])"

lemma ctx72_parts:
  "get_group_signing_ctx ext7 (encode7 GF5) [pnonce7 1, pnonce7 2] [] [] = Ok ctx72"
  "ctx_group_pt ctx72 = \<lparr>st_parity = GF6, st_point = GF5, st_state = GF1, st_tweak = GF0\<rparr>"
  "ctx_group_pk ctx72 = encode7 GF5" "ctx_challenge ctx72 = GF4" "ctx_group_pn ctx72 = encode7 GF4"
  "ctx_indexes ctx72 = [1, 2]" "ctx_pnonces ctx72 = [pnonce7 1, pnonce7 2]" "ctx_message ctx72 = []"
  "ctx_bind_factors ctx72 = [\<lparr>bf_idx = 1, bf_factor = num7 2\<rparr>, \<lparr>bf_idx = 2, bf_factor = num7 2\<rparr>]"
  by (simp_all add: ctx72_def get_group_signing_ctx_def get_group_key_context_def
      get_point_state_def point_state_step_def get_group_commit_context_def get_group_binders_def
      get_group_pubnonce_def pubnonce_step_def get_bind_factor_def ok_or_def get_nonce_ids_def
      get_challenge_def convert_pubkey_to_bip340_def assert_ok_def hash340_def taghash_def Let_def
      scalar_base_multi_def scalar_multi_def negate_point_def pnonce7_def eval7 gf7_ground)

definition pkgs72 :: "partial_sig_package list" where
  "pkgs72 =
     [\<lparr>psp_idx = 1, psp_pubkey = encode7 GF2, psp_sid = ses_sid session72,
       psp_psigs = [\<lparr>psg_message = [], psg_psig = num7 3\<rparr>]\<rparr>,
      \<lparr>psp_idx = 2, psp_pubkey = encode7 GF6, psp_sid = ses_sid session72,
       psp_psigs = [\<lparr>psg_message = [], psg_psig = num7 1\<rparr>]\<rparr>]"

lemma sign72:
  "honest_packages ext7 session72 nonces7 (map do_share [out7, out72]) pkgs72"
  by (simp add: honest_packages_def nonces7_def pkgs72_def nonce7_def out7_def out72_def
      create_partial_sig_package_def session72_def pnonces7 [unfolded nonces7_def nonce7_def]
      ctx72_parts sign_msg_def low_share_def low_snonce_def derive_secret_nonce_def get_bind_factor_def
      ok_or_def interpolate_x_def is_included_def is_unique_set_def scalar_invert_def Let_def
      eval7 gf7_ground)


lemma combine72:
  "combine_partial_sigs ext7 ctx72 (map first_psig pkgs72) = Ok (tl (encode7 GF4) @ num7 4)"
  by (simp add: combine_partial_sigs_def ctx72_parts pkgs72_def first_psig_def Let_def
      get_group_binders_def get_group_pubnonce_def pubnonce_step_def get_bind_factor_def ok_or_def
      scalar_multi_def pnonce7_def eval7 gf7_ground)

text \<open>The packages of a session are determined by its members.\<close>

lemma list_all2_Ok_unique:
  "list_all2 (\<lambda>x y. f x = Ok y) xs ys \<Longrightarrow> list_all2 (\<lambda>x y. f x = Ok y) xs zs \<Longrightarrow> zs = ys"
  by (induction xs arbitrary: ys zs) (auto simp: list_all2_Cons1)

lemma honest_packages_unique:
  assumes "honest_packages E ses nonces shares pkgs" and "honest_packages E ses nonces shares pkgs'"
  shows "pkgs' = pkgs"
  using assms unfolding honest_packages_def split_def by (rule list_all2_Ok_unique)

end
