(* ===== verification/Dkg_Complete.thy ===== *)
theory Dkg_Complete
  imports Dkg
begin

text \<open>
  When an honest key generation comes to its end.  \<open>dkg_finalize\<close> adds points that it serializes on
  the way, and the point at infinity has no serialization: the lemmas say exactly for which
  coefficients the run of honest participants succeeds.
\<close>

subsection \<open>The checks\<close>

lemma check_pops_eq_Ok:
  "check_pops E cs = Ok () \<longleftrightarrow>
     (\<forall>c \<in> set cs. dcp_vss_commits c \<noteq> [] \<and>
        verify_dkg_pop E (dcp_idx c) (hd (dcp_vss_commits c)) (dcp_pop c) = Ok True)"
  by (induction cs) (auto simp: bindR_eq_Ok split: list.split)

lemma check_shares_Ok:
  assumes "\<And>r. r \<in> set received \<Longrightarrow>
    \<exists>c. find (\<lambda>c. dcp_idx c = dsp_sender_idx r) commits = Some c \<and> verify_dkg_share E r c t = Ok True"
  shows "check_shares E commits t received = Ok ()"
  using assms by (induction received) (fastforce simp: bindR_eq_Ok ok_or_eq_Ok)+

text \<open>The proof of an honest participant is accepted unless its response is zero.\<close>

lemma dkg_party_pop:
  fixes E :: "('s::field, 'p::ab_group_add, 'z) externals_scheme"
  assumes k256: "k256_laws E" and party: "dkg_party E t p c"
  shows "verify_dkg_pop E (dcp_idx c) (hd (dcp_vss_commits c)) (dcp_pop c) = Ok True \<longleftrightarrow>
    scalar_from_bytes (pop_z (dcp_pop c)) \<noteq> (0 :: 's)"
proof
  assume "scalar_from_bytes (pop_z (dcp_pop c)) \<noteq> (0 :: 's)"
  moreover obtain secrets rnd where r1: "dkg_round1 E (fst p) t secrets rnd = Ok (snd p, c)"
    using party by (auto simp: dkg_party_def)
  define cs where "cs = (create_share_coeffs secrets t rnd :: 's list)"
  obtain vss where "get_share_commits E cs = Ok vss" and rest: "(case (cs, vss) of
           (a0 # _, c0 # _) \<Rightarrow>
             bindR (create_dkg_pop E (fst p) a0 c0) (\<lambda>pop.
             let secret_coeffs = map (scalar_to_bytes E) cs
             in Ok (secret_coeffs, \<lparr>dcp_idx = fst p, dcp_vss_commits = vss, dcp_pop = pop\<rparr>))
         | _ \<Rightarrow> Panic) = Ok (snd p, c)"
    using r1 [unfolded dkg_round1_def, folded cs_def, unfolded Let_def [of cs]]
    by (auto simp: bindR_eq_Ok)
  then obtain a0 as c0 where a0: "cs = a0 # as" "hd (dcp_vss_commits c) = c0"
    and pop: "create_dkg_pop E (fst p) a0 c0 = Ok (dcp_pop c)" and sc: "snd p = map (scalar_to_bytes E) cs"
    by (cases cs; cases vss) (auto simp: bindR_eq_Ok)
  have "coeffs_of (snd p) = cs" using k256 by (simp add: coeffs_of_def sc comp_def)
  then have "a0 \<noteq> 0" "c0 = point_encode E (point_mul E (point_gen E) a0)"
    using dkg_round1D(4,5) [OF k256 party] a0 by auto
  ultimately show "verify_dkg_pop E (dcp_idx c) (hd (dcp_vss_commits c)) (dcp_pop c) = Ok True"
    using create_dkg_pop_verifies [OF k256 _ _ pop] dkg_round1D(1) [OF k256 party] a0(2) by simp
qed (auto simp: verify_dkg_pop_True [OF k256])

text \<open>The share an honest participant sends passes the check against its commitments.\<close>

lemma dkg_party_share:
  fixes E :: "('s::field, 'p::ab_group_add, 'z) externals_scheme"
  assumes k256: "k256_laws E" and party: "dkg_party E t p c" and "dkg_round2 E (fst p) (snd p) me = Ok r"
  shows "verify_dkg_share E r c t = Ok True"
proof -
  let ?cs = "coeffs_of (snd p) :: 's list"
  note cs = dkg_round1D [OF k256 party]
  have "get_share_commits E ?cs = Ok (dcp_vss_commits c)"
    using cs(4,5) k256 by (simp add: get_share_commits_eq_Ok)
  from verify_share_commits [OF k256 this cs(6)] show ?thesis
    using assms(3) k256 cs(2)
    by (simp add: dkg_round2_eq_Ok verify_dkg_share_def Let_def share_scalar_def)
qed

subsection \<open>The merged commitments\<close>

lemma all_le_Suc: "(\<forall>n \<le> Suc m. P n) \<longleftrightarrow> P 0 \<and> (\<forall>n \<le> m. P (Suc n))"
  by (metis Suc_le_mono le0 not0_implies_Suc)

lemma merge_fold_iff:
  assumes "k256_laws E" and "0 \<notin> set cs" and "\<forall>ds \<in> set dss. 0 \<notin> set ds \<and> length ds = length cs"
  shows "(\<exists>vs. foldR (\<lambda>acc c. case acc of
              None \<Rightarrow> Ok (Some c)
            | Some prev \<Rightarrow> mapR_val Some (merge_share_commits E prev c))
      (Some (commits_of E cs)) (map (commits_of E) dss) = Ok (Some vs)) \<longleftrightarrow>
    (\<forall>n \<le> length dss. 0 \<notin> set (foldl poly_add cs (take n dss)))"
  using assms(2,3)
proof (induction dss arbitrary: cs)
  case (Cons ds dss)
  have ds: "0 \<notin> set ds" "length cs = length ds" using Cons.prems by auto
  note merge = merge_share_commits_eq [OF assms(1) Cons.prems(1) ds(1)]
  have "\<forall>es \<in> set dss. 0 \<notin> set es \<and> length es = length (poly_add cs ds)"
    using Cons.prems(2) unfolding length_poly_add [OF ds(2)] by simp
  then show ?case
    using Cons.IH [of "poly_add cs ds"] Cons.prems(1) ds(2)
    by (cases "0 \<in> set (poly_add cs ds)")
      (auto simp: bindR_eq_Ok mapR_val_eq_Ok merge all_le_Suc)
qed simp


subsection \<open>The run\<close>

text \<open>
  No response of a proof is zero, no sum of the first polynomials, in index order, has a zero
  coefficient, and no participant's share is zero.
\<close>

definition dkg_regular ::
  "('s::field, 'p::ab_group_add, 'z) externals_scheme \<Rightarrow> (u32 \<times> bytes list) list \<Rightarrow>
   dkg_commit_package list \<Rightarrow> bool" where
  "dkg_regular E parties commits \<longleftrightarrow>
     (\<forall>c \<in> set commits. scalar_from_bytes (pop_z (dcp_pop c)) \<noteq> (0 :: 's)) \<and>
     (\<forall>n < length parties. 0 \<notin> set (dkg_poly (take (Suc n) (sort_key fst parties)) :: 's list)) \<and>
     (\<forall>p \<in> set parties. poly_val (dkg_poly parties) (index_to_scalar (fst p)) \<noteq> (0 :: 's))"

lemma dkg_poly_take:
  assumes "sort_key fst parties = p # ps"
  shows "dkg_poly (take (Suc n) (sort_key fst parties)) =
    foldl poly_add (coeffs_of (snd p)) (take n (map (coeffs_of \<circ> snd) ps))"
proof -
  have "sorted (map fst (sort_key fst parties))" by (rule sorted_sort_key)
  then have "sorted (map fst (take (Suc n) (sort_key fst parties)))"
    using sorted_wrt_take [of "(\<le>)" "map fst (sort_key fst parties)" "Suc n"] by (simp add: take_map)
  then have "sort_key fst (take (Suc n) (sort_key fst parties)) = take (Suc n) (sort_key fst parties)"
    by (simp add: sorted_sort_id sort_key_id_if_sorted)
  then show ?thesis by (simp add: dkg_poly_def sum_polys_def assms comp_def take_map)
qed


lemma merge_all_iff:
  fixes E :: "('s::field, 'p::ab_group_add, 'z) externals_scheme"
  assumes k256: "k256_laws E" and parties: "list_all2 (dkg_party E t) parties commits" and "parties \<noteq> []"
  shows "(\<exists>vss. merge_all E (map dcp_vss_commits (sort_key dcp_idx commits)) = Ok vss) \<longleftrightarrow>
    (\<forall>n < length parties. 0 \<notin> set (dkg_poly (take (Suc n) (sort_key fst parties)) :: 's list))"
proof -
  let ?co = "\<lambda>q. coeffs_of (snd q) :: 's list"
  obtain p ps where sp: "sort_key fst parties = p # ps"
    using assms(3) by (metis list.exhaust set_empty set_sort)
  note sorted = dkg_sorted [OF k256 parties sp]
  have len: "length parties = Suc (length ps)"
    using arg_cong [OF sp, of length] by simp
  have "(\<exists>vss. merge_all E (map dcp_vss_commits (sort_key dcp_idx commits)) = Ok vss) \<longleftrightarrow>
      (\<exists>vss. foldR (\<lambda>acc c. case acc of None \<Rightarrow> Ok (Some c)
            | Some prev \<Rightarrow> mapR_val Some (merge_share_commits E prev c))
          (Some (commits_of E (?co p))) (map (commits_of E) (map ?co ps)) = Ok (Some vss))"
    unfolding sorted(1) by (simp add: merge_all_def bindR_eq_Ok ok_or_eq_Ok)
  also have "\<dots> \<longleftrightarrow> (\<forall>n \<le> length (map ?co ps). 0 \<notin> set (foldl poly_add (?co p) (take n (map ?co ps))))"
    by (rule merge_fold_iff [OF k256]) (use sorted(2) in auto)
  also have "\<dots> \<longleftrightarrow> (\<forall>n < length parties. 0 \<notin> set (dkg_poly (take (Suc n) (sort_key fst parties)) :: 's list))"
    unfolding dkg_poly_take [OF sp] by (simp add: len less_Suc_eq_le comp_def)
  finally show ?thesis .
qed

lemma mapR_Ok_iff: "(\<exists>ys. mapR f xs = Ok ys) \<longleftrightarrow> (\<forall>x \<in> set xs. \<exists>y. f x = Ok y)"
  by (induction xs) (auto simp: bindR_eq_Ok)

lemma bindR_ex_Ok: "(\<exists>y. bindR m f = Ok y) \<longleftrightarrow> (\<exists>x. m = Ok x \<and> (\<exists>y. f x = Ok y))"
  by (auto simp: bindR_eq_Ok)

lemma ex_Ok_unit: "(\<exists>u. m = Ok u \<and> P) \<longleftrightarrow> m = Ok () \<and> P" "Ex ((=) z) \<longleftrightarrow> True"
  "(\<exists>x. Ok z = Ok x \<and> Q x) \<longleftrightarrow> Q z" "(\<exists>u. m = Ok u) \<longleftrightarrow> m = Ok ()"
  by auto

lemma dkg_received:
  fixes E :: "('s::field, 'p::ab_group_add, 'z) externals_scheme"
  assumes "index_to_scalar me \<noteq> (0 :: 's)"
  shows "\<exists>received. mapR (\<lambda>p. dkg_round2 E (fst p) (snd p) me) ps = Ok received"
  using assms by (simp add: mapR_Ok_iff dkg_round2_eq_Ok)

lemma dkg_checks:
  fixes E :: "('s::field, 'p::ab_group_add, 'z) externals_scheme"
  assumes k256: "k256_laws E" and parties: "list_all2 (dkg_party E t) parties commits"
    and dist: "distinct (map fst parties)"
    and recv: "mapR (\<lambda>p. dkg_round2 E (fst p) (snd p) me) (filter (\<lambda>p. fst p \<noteq> me) parties) = Ok received"
  shows "check_pops E commits = Ok () \<longleftrightarrow>
      (\<forall>c \<in> set commits. scalar_from_bytes (pop_z (dcp_pop c)) \<noteq> (0 :: 's))"
    and "check_shares E commits t received = Ok ()"
proof -
  have "dcp_vss_commits c \<noteq> [] \<and> (verify_dkg_pop E (dcp_idx c) (hd (dcp_vss_commits c)) (dcp_pop c) = Ok True \<longleftrightarrow>
      scalar_from_bytes (pop_z (dcp_pop c)) \<noteq> (0 :: 's))" if c: "c \<in> set commits" for c
  proof -
    obtain p where p: "dkg_party E t p c" using list_all2_setR [OF parties c] by blast
    then show ?thesis using dkg_party_pop [OF k256 p] dkg_round1D(5,6) [OF k256 p] by simp
  qed
  then show "check_pops E commits = Ok () \<longleftrightarrow>
      (\<forall>c \<in> set commits. scalar_from_bytes (pop_z (dcp_pop c)) \<noteq> (0 :: 's))"
    unfolding check_pops_eq_Ok by blast
  have idx: "map dcp_idx commits = map fst parties"
    using parties dkg_round1D(1) [OF k256] by (induction rule: list_all2_induct) auto
  show "check_shares E commits t received = Ok ()"
  proof (rule check_shares_Ok)
    fix r
    assume "r \<in> set received"
    then obtain p where p: "p \<in> set parties" "dkg_round2 E (fst p) (snd p) me = Ok r"
      using list_all2_setR [OF recv [unfolded mapR_eq_Ok]] by fastforce
    then obtain c where c: "c \<in> set commits" "dkg_party E t p c" using list_all2_setL [OF parties] by blast
    have i: "dcp_idx c = dsp_sender_idx r"
      using dkg_round1D(1) [OF k256 c(2)] p(2) by (simp add: dkg_round2_eq_Ok)
    have "find (\<lambda>c. dcp_idx c = dsp_sender_idx r) commits = Some c"
      using find_unique c(1) i dist idx by metis
    then show "\<exists>c. find (\<lambda>c. dcp_idx c = dsp_sender_idx r) commits = Some c \<and> verify_dkg_share E r c t = Ok True"
      using dkg_party_share [OF k256 c(2) p(2)] by blast
  qed
qed

lemma dkg_merged:
  fixes E :: "('s::field, 'p::ab_group_add, 'z) externals_scheme"
  assumes k256: "k256_laws E" and parties: "list_all2 (dkg_party E t) parties commits"
    and sp: "sort_key fst parties = p # ps"
    and merge: "merge_all E (map dcp_vss_commits (sort_key dcp_idx commits)) = Ok vss"
  shows "0 \<notin> set (dkg_poly parties :: 's list)" and "vss = commits_of E (dkg_poly parties)"
    and "(dkg_poly parties :: 's list) \<noteq> []"
    and "\<exists>pk. sum_points E (commits_of E (map (hd \<circ> (\<lambda>q. coeffs_of (snd q) :: 's list)) (p # ps))) = Ok pk"
proof -
  let ?P = "dkg_poly parties :: 's list"
  note sorted = dkg_sorted [OF k256 parties sp]
  have "0 \<notin> set ?P \<and> vss = commits_of E ?P"
    using merge sorted(2) unfolding sorted(1,3) by (intro merge_all_eq [OF k256]) auto
  then show P: "0 \<notin> set ?P" "vss = commits_of E ?P" by simp_all
  have p: "p \<in> set parties" using sp by (metis list.set_intros(1) set_sort)
  have "\<forall>p \<in> set parties. length (coeffs_of (snd p) :: 's list) = t" "t > 0"
    using list_all2_setL [OF parties] dkg_round1D(2,3) [OF k256] p by blast+
  then show ne: "?P \<noteq> []" using dkg_poly_val(1) [of parties t] p by fastforce
  then have "poly_val ?P 0 \<noteq> 0" using P(1) by (cases ?P) auto
  then show "\<exists>pk. sum_points E (commits_of E (map (hd \<circ> (\<lambda>q. coeffs_of (snd q) :: 's list)) (p # ps))) = Ok pk"
    unfolding sorted(5) using k256 by (simp add: serialize_element_eq_Ok point_mul_gen_zero_iff)
qed

lemma dkg_roster:
  fixes E :: "('s::field, 'p::ab_group_add, 'z) externals_scheme"
  assumes k256: "k256_laws E" and parties: "list_all2 (dkg_party E t) parties commits"
    and poly: "0 \<notin> set P" "P \<noteq> []"
  shows "(\<exists>members. mapR (\<lambda>c. bindR (eval_vss_pubkey E (commits_of E P) (dcp_idx c)) (\<lambda>share_pubkey.
        bindR (first_commit c) (\<lambda>c0.
        Ok \<lparr>mp_idx = dcp_idx c, mp_pubkey = share_pubkey, mp_identity_pk = Some c0\<rparr>)))
      (sort_key dcp_idx commits) = Ok members) \<longleftrightarrow>
    (\<forall>p \<in> set parties. poly_val P (index_to_scalar (fst p)) \<noteq> (0 :: 's))"
proof -
  have eval: "(\<exists>pk. eval_vss_pubkey E (commits_of E P) i = Ok pk) \<longleftrightarrow> poly_val P (index_to_scalar i) \<noteq> 0" for i
    using k256 by (simp add: eval_vss_pubkey_eq [OF k256 poly] serialize_element_eq_Ok point_mul_gen_zero_iff)
  have first: "\<exists>c0. first_commit c = Ok c0" if c: "c \<in> set commits" for c
  proof -
    obtain p where p: "dkg_party E t p c" using list_all2_setR [OF parties c] by blast
    from dkg_round1D(5,6) [OF k256 p] show ?thesis by (auto simp: first_commit_def neq_Nil_conv)
  qed
  have idx: "map dcp_idx commits = map fst parties"
    using parties dkg_round1D(1) [OF k256] by (induction rule: list_all2_induct) auto
  have "(\<forall>c \<in> set commits. poly_val P (index_to_scalar (dcp_idx c)) \<noteq> 0) \<longleftrightarrow>
      (\<forall>i \<in> set (map dcp_idx commits). poly_val P (index_to_scalar i) \<noteq> 0)" by simp
  then show ?thesis
    using first eval by (simp add: mapR_Ok_iff bindR_eq_Ok idx) blast
qed

lemma dkg_finalize_iff:
  fixes E :: "('s::field, 'p::ab_group_add, 'z) externals_scheme"
  assumes k256: "k256_laws E" and parties: "list_all2 (dkg_party E t) parties commits"
    and dist: "distinct (map fst parties)" and mem: "(me, sc) \<in> set parties"
    and me: "index_to_scalar me \<noteq> (0 :: 's)"
    and recv: "mapR (\<lambda>p. dkg_round2 E (fst p) (snd p) me) (filter (\<lambda>p. fst p \<noteq> me) parties) = Ok received"
  shows "(\<exists>out. dkg_finalize E me sc received commits t = Ok out) \<longleftrightarrow> dkg_regular E parties commits"
proof -
  let ?P = "dkg_poly parties :: 's list" and ?sorted = "sort_key dcp_idx commits"
  note checks = dkg_checks [OF k256 parties dist recv]
  have ne: "parties \<noteq> []" using mem by auto
  then obtain p ps where sp: "sort_key fst parties = p # ps"
    by (metis list.exhaust set_empty set_sort)
  note sorted = dkg_sorted [OF k256 parties sp] and merge = merge_all_iff [OF k256 parties ne]
  have own: "dkg_round2 E me sc me = Ok \<lparr>dsp_sender_idx = me, dsp_recipient_idx = me,
      dsp_seckey = scalar_to_bytes E (poly_val (coeffs_of sc) (index_to_scalar me :: 's))\<rparr>"
    using me by (simp add: dkg_round2_eq_Ok)
  have agg: "\<exists>agg. combine_set E (\<lparr>ss_idx = me, ss_seckey = k\<rparr> #
      map (\<lambda>pkg. \<lparr>ss_idx = me, ss_seckey = dsp_seckey pkg\<rparr>) received) = Ok agg" for k
    by (simp add: combine_set_eq_Ok)
  note merged = dkg_merged [OF k256 parties sp]
  let ?roster = "\<lambda>vss. \<exists>members. mapR (\<lambda>c. bindR (eval_vss_pubkey E vss (dcp_idx c)) (\<lambda>share_pubkey.
        bindR (first_commit c) (\<lambda>c0.
        Ok \<lparr>mp_idx = dcp_idx c, mp_pubkey = share_pubkey, mp_identity_pk = Some c0\<rparr>))) ?sorted = Ok members"
  let ?A = "\<exists>agg. combine_set E (\<lparr>ss_idx = me,
      ss_seckey = scalar_to_bytes E (poly_val (coeffs_of sc) (index_to_scalar me :: 's))\<rparr> #
      map (\<lambda>pkg. \<lparr>ss_idx = me, ss_seckey = dsp_seckey pkg\<rparr>) received) = Ok agg"
  let ?S = "\<exists>pk. sum_points E (commits_of E (map (hd \<circ> (\<lambda>q. coeffs_of (snd q) :: 's list)) (p # ps))) = Ok pk"
  let ?M = "\<exists>vss. merge_all E (map dcp_vss_commits ?sorted) = Ok vss \<and> ?roster vss"
  have "(\<exists>out. dkg_finalize E me sc received commits t = Ok out) \<longleftrightarrow>
      check_pops E commits = Ok () \<and> ?A \<and> ?S \<and> ?M"
    unfolding dkg_finalize_def Let_def own
    by (simp only: bindR_ex_Ok checks(2) sorted(4) ex_simps(1,2) dkg_share_package.select_convs
        ex_Ok_unit simp_thms res.inject(1))
  moreover have "?M \<Longrightarrow> ?S" using merged(4) by blast
  ultimately have "(\<exists>out. dkg_finalize E me sc received commits t = Ok out) \<longleftrightarrow>
      check_pops E commits = Ok () \<and> ?M"
    using agg [of "scalar_to_bytes E (poly_val (coeffs_of sc) (index_to_scalar me))"] by argo
  moreover have "?M \<longleftrightarrow>
      (\<exists>vss. merge_all E (map dcp_vss_commits ?sorted) = Ok vss) \<and>
      (\<forall>p \<in> set parties. poly_val ?P (index_to_scalar (fst p)) \<noteq> 0)"
  proof -
    have "?roster vss \<longleftrightarrow> (\<forall>p \<in> set parties. poly_val ?P (index_to_scalar (fst p)) \<noteq> 0)"
      if "merge_all E (map dcp_vss_commits ?sorted) = Ok vss" for vss
    proof -
      show ?thesis unfolding merged(2) [OF that] by (rule dkg_roster [OF k256 parties merged(1,3) [OF that]])
    qed
    then show ?thesis by blast
  qed
  ultimately show ?thesis by (simp only: checks(1) merge dkg_regular_def)
qed

end
