(* ===== verification/Frost_Properties.thy ===== *)
theory Frost_Properties
  imports Compose_Example Dkg_Complete "HOL-Library.Numeral_Type"
begin

text \<open>
  The properties of the \<open>frost-taproot\<close> crate, each stated over the model's operations with
  its assumptions on the external code, and a witness at the instance of the integers modulo 7.
\<close>

subsection \<open>Signing\<close>

text \<open>
  C1: A threshold of honest members of one group, each signing with the nonce it put in the
  session, produces packages that \<open>combine_signatures\<close> turns into one 64-byte signature which
  the BIP-340 verifier accepts for the (tweaked) group key, unless the aggregate scalar is zero.
\<close>

theorem frost_sign_end_to_end:
  fixes E :: "('s::field, 'p::ab_group_add, 'z) externals_scheme"
  assumes k256: "k256_laws E" and schnorr: "schnorr_laws E"
    and grp: "group_on_poly E cs grp" and deg: "length cs \<le> gp_threshold grp"
    and honest: "list_all2 (honest_member E cs) nonces shares"
    and dist: "distinct (map (index_to_scalar \<circ> sp_idx) shares :: 's list)"
    and enough: "gp_threshold grp \<le> length shares" and ne: "shares \<noteq> []"
    and ses: "create_sign_session E grp members [(msg, tweaks)] nonces = Ok ses"
    and pkgs: "honest_packages E ses nonces shares pkgs"
  shows "\<exists>ctx sig.
    get_group_signing_ctx E (gp_group_pk grp) (build_public_nonces nonces) msg tweaks = Ok ctx \<and>
    combine_partial_sigs E ctx (map first_psig pkgs) = Ok sig \<and> length sig = 64 \<and>
    (scalar_from_bytes (drop 32 sig) \<noteq> (0 :: 's) \<longrightarrow>
     combine_signatures E ses grp pkgs =
       Ok [\<lparr>sig_message = msg, sig_pubkey = ctx_group_pk ctx, sig_sig = sig\<rparr>])"
  by (rule packages_sign [OF assms])

theorem frost_sign_end_to_end_witness:
  "combine_signatures ext7 session7 group7 pkgs7 =
   Ok [\<lparr>sig_message = [], sig_pubkey = encode7 GF5, sig_sig = tl (encode7 GF4) @ num7 4\<rparr>]"
proof -
  have "length poly7 \<le> gp_threshold group7" "gp_threshold group7 \<le> length shares7" "shares7 \<noteq> []"
    by (simp_all add: poly7_def group7_def shares7_def)
  from frost_sign_end_to_end [OF k256_laws_ext7 schnorr_laws_ext7 group_on_poly7 this(1) honest7
      indices7 this(2,3) session7_created sign7]
  obtain ctx sig where ctx: "get_group_signing_ctx ext7 (gp_group_pk group7)
      (build_public_nonces nonces7) [] [num7 2] = Ok ctx"
    and sig: "combine_partial_sigs ext7 ctx (map first_psig pkgs7) = Ok sig"
    and final: "scalar_from_bytes (drop 32 sig) \<noteq> (0 :: gf7) \<longrightarrow>
      combine_signatures ext7 session7 group7 pkgs7 =
        Ok [\<lparr>sig_message = [], sig_pubkey = ctx_group_pk ctx, sig_sig = sig\<rparr>]"
    by blast
  have c: "ctx = ctx7" using ctx by (simp add: group7_def pnonces7 ctx7_parts)
  then have s: "sig = tl (encode7 GF4) @ num7 4" using sig combine7 by simp
  have "scalar_from_bytes (drop 32 sig) \<noteq> (0 :: gf7)"
    by (simp add: s eval7 gf7_ground del: drop_append)
  then show ?thesis using final by (simp add: c s ctx7_parts)
qed

text \<open>
  C2: \<open>combine_signatures\<close> never returns a signature the BIP-340 verifier has not accepted for
  its message and key, and needs a threshold of packages; it returns one per session message.
\<close>

theorem combine_signatures_only_verified:
  assumes "combine_signatures E ses grp pkgs = Ok sigs"
  shows "gp_threshold grp \<le> length pkgs \<and> map sig_message sigs = map fst (ses_messages ses) \<and>
    (\<forall>s \<in> set sigs. verify_raw E (tl (sig_pubkey s)) (sig_message s) (sig_sig s))"
  using combine_signatures_verified [OF assms] by simp

theorem combine_signatures_only_verified_witness:
  "verify_raw ext7 (tl (encode7 GF5)) [] (tl (encode7 GF4) @ num7 4)"
  using combine_signatures_only_verified [OF combined7] by simp

text \<open>
  C3: A session is created for exactly one message, and every partial signature package made in it
  holds one signature, for that message: a nonce pair used in a session signs one message.  The
  session holds the given nonces, as many as there are members (whose they are is not checked here),
  and the members sorted, so that it does not depend on the order they are given in.
\<close>

theorem create_sign_session_single_message:
  fixes E :: "('s::field, 'p::ab_group_add, 'z) externals_scheme"
  assumes "create_sign_session E grp members messages nonces = Ok ses"
  shows "(\<exists>m tweaks. messages = [(m, tweaks)] \<and> ses_messages ses = [(m, tweaks)] \<and>
      (\<forall>share nonce pkg. create_partial_sig_package E ses share nonce = Ok pkg \<longrightarrow>
         map psg_message (psp_psigs pkg) = [m])) \<and>
    ses_nonces ses = nonces \<and> length nonces = length members \<and> ses_members ses = sort members \<and>
    (\<forall>members'. mset members' = mset members \<longrightarrow>
       create_sign_session E grp members' messages nonces = Ok ses)"
proof (intro conjI allI impI)
  obtain m tweaks where m: "messages = [(m, tweaks)]" "ses_messages ses = [(m, tweaks)]"
    using assms by (auto simp: create_sign_session_eq_Ok length_Suc_conv)
  then have "map psg_message (psp_psigs pkg) = [m]"
    if "create_partial_sig_package E ses share nonce = Ok pkg" for share nonce pkg
    using that by (auto simp: create_partial_sig_package_def Let_def res_simps)
  with m show "\<exists>m tweaks. messages = [(m, tweaks)] \<and> ses_messages ses = [(m, tweaks)] \<and>
      (\<forall>share nonce pkg. create_partial_sig_package E ses share nonce = Ok pkg \<longrightarrow>
         map psg_message (psp_psigs pkg) = [m])" by blast
  show "ses_nonces ses = nonces" and "length nonces = length members" and "ses_members ses = sort members"
    using assms by (simp_all add: create_sign_session_eq_Ok)
qed (rule create_sign_session_order [OF assms])

theorem create_sign_session_single_message_witness:
  "length (ses_messages session7) = 1 \<and> sorted (ses_members session7) \<and>
   create_sign_session ext7 group7 [2, 1] [([], [num7 2])] nonces7 = Ok session7"
proof -
  have "mset [2, 1 :: u32] = mset [1, 2]" by simp
  moreover have "length (ses_messages session7) = 1" "sorted (ses_members session7)"
    "\<forall>members'. mset members' = mset [1, 2] \<longrightarrow>
       create_sign_session ext7 group7 members' [([], [num7 2])] nonces7 = Ok session7"
    using create_sign_session_single_message [OF session7_created] by auto
  ultimately show ?thesis by blast
qed

text \<open>
  C4: \<open>verify_partial_sig\<close> accepts, for an honest member's nonce and public key, exactly the
  honest signature scalar and its negation (only x-coordinates are compared).
\<close>

theorem verify_partial_sig_exact:
  fixes E :: "('s::field, 'p::ab_group_add, 'z) externals_scheme"
  assumes "k256_laws E" and "get_group_signing_ctx E pk pnonces msg tweaks = Ok ctx"
    and "honest_session E cs pk pnonces ms"
    and "pn \<in> set pnonces" and "session_member E cs pn (share, sn)" and "(share, sn) \<in> set ms"
    and "get_pubkey E (ss_seckey share) = Ok share_pk" and "sign_msg E ctx share sn = Ok sig"
  shows "verify_partial_sig E ctx pn share_pk psig =
    Ok (scalar_from_bytes psig = (scalar_from_bytes (sg_psig sig) :: 's) \<or>
        scalar_from_bytes psig = - (scalar_from_bytes (sg_psig sig) :: 's))"
proof -
  have "scalar_from_bytes (sg_psig sig) = psig_scalar E ctx share sn"
    using sign_msg_member [OF assms(1-3,6)] assms(1,7,8) by simp
  then show ?thesis
    using verify_partial_sig_member [OF assms(1-5,7)] by simp
qed

theorem verify_partial_sig_exact_witness:
  "verify_partial_sig ext7 ctx7 (pnonce7 1) (encode7 GF4) (num7 1) = Ok True \<and>
   verify_partial_sig ext7 ctx7 (pnonce7 1) (encode7 GF4) (num7 6) = Ok True \<and>
   verify_partial_sig ext7 ctx7 (pnonce7 1) (encode7 GF4) (num7 2) = Ok False"
proof -
  let ?sh = "\<lparr>ss_idx = 1, ss_seckey = num7 4\<rparr>"
  let ?sn = "\<lparr>sn_idx = 1, binder_sn = num7 3, hidden_sn = num7 3\<rparr>"
  let ?ms = "[(?sh, ?sn), (\<lparr>ss_idx = 2, ss_seckey = num7 5\<rparr>, \<lparr>sn_idx = 2, binder_sn = num7 3, hidden_sn = num7 3\<rparr>)]"
  let ?sig = "\<lparr>sg_idx = 1, sg_pubkey = encode7 GF4, sg_psig = num7 1\<rparr>"
  have "honest_session ext7 poly7 (encode7 GF3) [pnonce7 1, pnonce7 2] ?ms"
    and "session_member ext7 poly7 (pnonce7 1) (?sh, ?sn)"
    by (simp_all add: honest_session_def session_member_def nonce_pair_def pnonce7_def poly7_def
        on_poly_def share_scalar_def eval7 gf7_ground)
  moreover have "sign_msg ext7 ctx7 ?sh ?sn = Ok ?sig"
    by (simp add: sign_msg_def ctx7_parts get_bind_factor_def ok_or_def interpolate_x_def
        is_included_def is_unique_set_def scalar_invert_def Let_def eval7 gf7_ground)
  moreover have "get_pubkey ext7 (ss_seckey ?sh) = Ok (encode7 GF4)"
    by (simp add: eval7)
  ultimately have "verify_partial_sig ext7 ctx7 (pnonce7 1) (encode7 GF4) (num7 z) =
      Ok (scalar_from_bytes (num7 z) = (scalar_from_bytes (sg_psig ?sig) :: gf7) \<or>
          scalar_from_bytes (num7 z) = - (scalar_from_bytes (sg_psig ?sig) :: gf7))" for z
    using verify_partial_sig_exact [OF k256_laws_ext7 ctx7_parts(1), of poly7 ?ms "pnonce7 1" ?sh ?sn
        "encode7 GF4" ?sig "num7 z"] by simp
  then show ?thesis by (simp add: eval7 gf7_ground)
qed

subsection \<open>Shares and secrets\<close>

text \<open>
  C5: Any threshold of the dealer's shares recovers the dealt secret: the first of the given
  secrets, reduced modulo the group order.
\<close>

theorem dealer_shares_recover_secret:
  fixes E :: "('s::field, 'p::ab_group_add, 'z) externals_scheme"
  assumes "k256_laws E" and "generate_dealer_package E t n (secret # secrets) rnd = Ok pkg"
    and "set shares \<subseteq> set (dp_shares pkg)" and "t \<le> length shares"
    and "distinct (map (index_to_scalar \<circ> sp_idx) shares :: 's list)"
  shows "derive_shares_secret E (map low_share shares) =
    Ok (scalar_to_bytes E (scalar_from_bytes secret))"
proof -
  let ?cs = "create_share_coeffs (secret # secrets) t rnd :: 's list"
  note pkg = generate_dealer_packageD [OF assms(1,2)]
  have "derive_shares_secret E (map low_share shares) = Ok (scalar_to_bytes E (poly_val ?cs 0))"
  proof (rule derive_shares_secret_eq [OF assms(1)])
    show "\<forall>s \<in> set (map low_share shares). on_poly E ?cs s" using assms(3) pkg(3) by auto
    show "distinct (map (index_to_scalar \<circ> ss_idx) (map low_share shares) :: 's list)"
      using assms(5) by (simp add: comp_def low_share_def)
    show "map low_share shares \<noteq> []" using assms(4) pkg(1) by auto
    show "length ?cs \<le> length (map low_share shares)" using assms(4) by simp
  qed
  moreover have "poly_val ?cs 0 = scalar_from_bytes secret"
    using pkg(1) by (cases t) (simp_all add: create_share_coeffs_def scalar_from_bytes_def upt_rec)
  ultimately show ?thesis by simp
qed

theorem dealer_shares_recover_secret_witness:
  "derive_shares_secret ext7 (map low_share [share7 3 6, share7 1 4]) = Ok (num7 3)"
  using dealer_shares_recover_secret [OF k256_laws_ext7 deal7, of "[share7 3 6, share7 1 4]"]
  by (simp add: share7_def eval7)

text \<open>
  C6: Against the commitments of a polynomial, \<open>verify_share\<close> accepts exactly the share at that
  index and its negation.
\<close>

theorem verify_share_exact:
  assumes "k256_laws E" and "get_share_commits E cs = Ok commits" and "cs \<noteq> []"
  shows "verify_share E commits share (length cs) =
    Ok (share_scalar E share = poly_val cs (index_to_scalar (ss_idx share)) \<or>
        share_scalar E share = - poly_val cs (index_to_scalar (ss_idx share)))"
  using assms by (rule verify_share_commits)

theorem verify_share_exact_witness:
  "verify_share ext7 [encode7 GF3, encode7 GF1] \<lparr>ss_idx = 1, ss_seckey = num7 4\<rparr> 2 = Ok True \<and>
   verify_share ext7 [encode7 GF3, encode7 GF1] \<lparr>ss_idx = 1, ss_seckey = num7 3\<rparr> 2 = Ok True \<and>
   verify_share ext7 [encode7 GF3, encode7 GF1] \<lparr>ss_idx = 1, ss_seckey = num7 5\<rparr> 2 = Ok False"
proof -
  have "get_share_commits ext7 [GF3, GF1] = Ok [encode7 GF3, encode7 GF1]"
    by (simp add: get_share_commits_def scalar_base_multi_def eval7 gf7_ground)
  from verify_share_exact [OF k256_laws_ext7 this]
  show ?thesis by (simp add: share_scalar_def numeral_2_eq_2 [symmetric] eval7 gf7_ground)
qed

text \<open>
  C7: A refresh round keeps the secret: when every package was made by \<open>gen_refresh_shares\<close> for
  the group's threshold, a threshold of refreshed shares recovers what the old shares recover.
\<close>

theorem refresh_keeps_secret:
  fixes E :: "('s::field, 'p::ab_group_add, 'z) externals_scheme"
  assumes k256: "k256_laws E"
    and pkgs: "\<forall>p \<in> set pkgs. \<exists>i n secrets rnd.
      gen_refresh_shares E i (length cs) n secrets rnd = Ok p"
    and old: "\<forall>s \<in> set olds. on_poly E cs s"
    and new: "mapR (refresh_from E pkgs) olds = Ok news"
    and dist: "distinct (map (index_to_scalar \<circ> ss_idx) olds :: 's list)"
    and enough: "olds \<noteq> []" "length cs \<le> length olds"
  shows "derive_shares_secret E news = derive_shares_secret E olds"
proof -
  have "\<forall>p \<in> set pkgs. \<exists>ds. zero_poly_pkg E (length cs) p ds"
    using pkgs gen_refresh_zero_poly [OF k256] by blast
  then obtain f where "\<forall>p \<in> set pkgs. zero_poly_pkg E (length cs) p (f p)" by metis
  then have zero: "list_all2 (zero_poly_pkg E (length cs)) pkgs (map f pkgs)"
    by (simp add: list_all2_conv_all_nth)
  have step: "list_all2 (\<lambda>s r. on_poly E cs s \<and> refresh_from E pkgs s = Ok r) olds news"
    using new old by (auto simp: mapR_eq_Ok list_all2_conv_all_nth)
  obtain ds where ds: "length ds = length cs" "poly_val ds 0 = poly_val cs 0"
    "\<forall>r \<in> set news. on_poly E ds r" "map ss_idx news = map ss_idx olds"
    using refresh_round [OF k256 zero step] by blast
  have "map (index_to_scalar \<circ> ss_idx) news = (map (index_to_scalar \<circ> ss_idx) olds :: 's list)"
    using ds(4) by (metis map_map)
  moreover have "length news = length olds" using ds(4) by (metis length_map)
  ultimately have "derive_shares_secret E news = Ok (scalar_to_bytes E (poly_val ds 0))"
    using dist enough ds(1,3) by (intro derive_shares_secret_eq [OF k256]) auto
  then show ?thesis
    using derive_shares_secret_eq [OF k256 old dist enough] ds(2) by simp
qed

theorem refresh_keeps_secret_witness:
  "derive_shares_secret ext7 [\<lparr>ss_idx = 1, ss_seckey = num7 6\<rparr>, \<lparr>ss_idx = 2, ss_seckey = num7 2\<rparr>] =
   derive_shares_secret ext7 holders7"
proof (rule refresh_keeps_secret [OF k256_laws_ext7 _ holders7(2) refreshed7])
  show "\<forall>p \<in> set [refresh_pkg7]. \<exists>i n secrets rnd.
      gen_refresh_shares ext7 i (length poly7) n secrets rnd = Ok p"
    using refresh7 by auto
  show "distinct (map (index_to_scalar \<circ> ss_idx) holders7 :: gf7 list)"
    by (simp add: holders7_def shares7_def share7_def low_share_def eval7)
qed (simp_all add: holders7_def shares7_def poly7_def)

text \<open>
  C8: Repairing a lost share: the sum of the helpers' aggregated repair shares is the target's
  own share of the group's polynomial.
\<close>

theorem recover_share_correct:
  fixes E :: "('s::field, 'p::ab_group_add, 'z) externals_scheme"
  assumes "k256_laws E"
    and "distinct (map index_to_scalar members :: 's list)" and "members \<noteq> []"
    and "length cs \<le> length members"
    and "map ss_idx holders = members" and "\<forall>s \<in> set holders. on_poly E cs s"
    and "list_all2 (\<lambda>s p. \<exists>secrets rnd.
      gen_recovery_shares E members s target t secrets rnd = Ok p) holders pkgs"
    and "mapR (aggregate_recovery E pkgs) members = Ok aggs"
  shows "share_scalar E (recover_share E aggs target) = poly_val cs (index_to_scalar target) \<and>
    ss_idx (recover_share E aggs target) = target"
  using recovery_round [OF assms]
  by (simp add: on_poly_def recover_share_def Let_def)

theorem recover_share_correct_witness:
  "share_scalar ext7 (recover_share ext7
     [\<lparr>ss_idx = 1, ss_seckey = num7 4\<rparr>, \<lparr>ss_idx = 2, ss_seckey = num7 2\<rparr>] 3) = GF6"
proof -
  have "list_all2 (\<lambda>s p. \<exists>secrets rnd. gen_recovery_shares ext7 [1, 2] s 3 2 secrets rnd = Ok p)
      holders7 [repair_pkg7 1, repair_pkg7 2]"
    using repair7 by (auto simp: holders7_def shares7_def share7_def low_share_def)
  from recover_share_correct [OF k256_laws_ext7 _ _ _ holders7 this aggregated7]
  show ?thesis by (simp add: poly7_def eval7 gf7_ground)
qed

subsection \<open>Key generation\<close>

text \<open>
  C9: In a DKG run of honest participants every participant that finalizes ends with its share of
  the same sum polynomial, the group key of that polynomial's constant term, and a roster of the
  members' public keys; its commitments are those of the polynomial.
\<close>

theorem dkg_finalize_correct:
  fixes E :: "('s::field, 'p::ab_group_add, 'z) externals_scheme"
  assumes "k256_laws E" and "list_all2 (dkg_party E t) parties commits"
    and "distinct (map fst parties)" and "(me, sc) \<in> set parties"
    and "mapR (\<lambda>p. dkg_round2 E (fst p) (snd p) me) (filter (\<lambda>p. fst p \<noteq> me) parties) = Ok received"
    and "dkg_finalize E me sc received commits t = Ok out"
  shows "sp_idx (do_share out) = me \<and>
    on_poly E (dkg_poly parties) (low_share (do_share out)) \<and>
    group_on_poly E (dkg_poly parties) (do_group out) \<and>
    map mp_idx (gp_members (do_group out)) = sort (map fst parties) \<and>
    gp_threshold (do_group out) = t \<and> length (dkg_poly parties :: 's list) = t \<and>
    get_share_commits E (dkg_poly parties) = Ok (do_vss_commits out)"
proof -
  note out = dkg_finalize_honest [OF assms]
  obtain firsts gpk vss where
    "mapR first_commit (sort_key dcp_idx commits) = Ok firsts" and "sum_points E firsts = Ok gpk"
    and "merge_all E (map dcp_vss_commits (sort_key dcp_idx commits)) = Ok vss"
    using assms(6) by (auto simp: dkg_finalize_def Let_def bindR_eq_Ok)
  moreover have "parties \<noteq> []" using assms(4) by auto
  ultimately have "0 \<notin> set (dkg_poly parties :: 's list)"
    using dkg_group(4) [OF assms(1,2)] by blast
  then have "get_share_commits E (dkg_poly parties) = Ok (do_vss_commits out)"
    using assms(1) out(7) by (simp add: get_share_commits_eq_Ok)
  then show ?thesis using out by simp
qed

theorem dkg_finalize_correct_witness:
  "on_poly ext7 (dkg_poly parties7) (low_share (do_share out7)) \<and>
   group_on_poly ext7 (dkg_poly parties7) (do_group out7) \<and>
   get_share_commits ext7 (dkg_poly parties7) = Ok [encode7 GF5, encode7 GF4]"
proof -
  have "distinct (map fst parties7)" and "(1, [num7 3, num7 2]) \<in> set parties7"
    by (simp_all add: parties7_def)
  from dkg_finalize_correct [OF k256_laws_ext7 parties7 this received7 finalize7]
  show ?thesis by (simp add: out7_def)
qed

text \<open>
  C10: An honest key generation ends.  Every other participant has a share to send, and with these
  \<open>dkg_finalize\<close> succeeds exactly when no value it has to serialize is the point at infinity: the
  response of no proof of possession, no sum of the first commitments in index order and no public
  share.  All its checks pass.
\<close>

theorem dkg_completes:
  fixes E :: "('s::field, 'p::ab_group_add, 'z) externals_scheme"
  assumes "k256_laws E" and "list_all2 (dkg_party E t) parties commits" and "distinct (map fst parties)"
    and "(me, sc) \<in> set parties" and "index_to_scalar me \<noteq> (0 :: 's)"
  shows "\<exists>received. mapR (\<lambda>p. dkg_round2 E (fst p) (snd p) me) (filter (\<lambda>p. fst p \<noteq> me) parties) = Ok received \<and>
    ((\<exists>out. dkg_finalize E me sc received commits t = Ok out) \<longleftrightarrow> dkg_regular E parties commits)"
  using dkg_received [OF assms(5)] dkg_finalize_iff [OF assms] by blast

theorem dkg_completes_witness:
  "\<exists>out. dkg_finalize ext7 1 [num7 3, num7 2] received7 commits7 2 = Ok out"
proof -
  have "sort_key fst parties7 = parties7" by (simp add: parties7_def)
  then have "dkg_regular ext7 parties7 commits7"
    by (auto simp: dkg_regular_def dkg_poly_def sum_polys_def parties7_def commits7_def commit7_def
        coeffs_of_def poly_add_def less_Suc_eq eval7 gf7_ground)
  moreover have "distinct (map fst parties7)" "(1, [num7 3, num7 2]) \<in> set parties7"
    "index_to_scalar 1 \<noteq> (0 :: gf7)"
    by (simp_all add: parties7_def index7 gf7_ground)
  ultimately show ?thesis
    using dkg_completes [OF k256_laws_ext7 parties7, of 1 "[num7 3, num7 2]"] received7 by simp
qed

text \<open>
  Completeness of the proof of possession: an honest proof verifies unless its response scalar
  is zero.
\<close>

theorem dkg_pop_complete:
  fixes E :: "('s::field, 'p::ab_group_add, 'z) externals_scheme"
  assumes "k256_laws E" and "get_pubkey E (scalar_to_bytes E a0) = Ok c0"
    and "create_dkg_pop E idx a0 c0 = Ok pop" and "scalar_from_bytes (pop_z pop) \<noteq> (0 :: 's)"
  shows "verify_dkg_pop E idx c0 pop = Ok True"
  using assms create_dkg_pop_verifies [OF assms(1)] by (simp add: get_pubkey_to_bytes)

theorem dkg_pop_complete_witness:
  "verify_dkg_pop ext7 1 (encode7 GF3) \<lparr>pop_r = encode7 GF2, pop_z = num7 3\<rparr> = Ok True"
  using dkg_pop_complete [OF k256_laws_ext7, of GF3 "encode7 GF3", OF _ pop7(1)]
  by (simp add: eval7 gf7_ground)

text \<open>
  C11: Special soundness of the proof of possession: two accepted proofs for one commitment that
  share the nonce point but answer different challenges determine the commitment's discrete
  logarithm, so nobody can prove a commitment whose secret is out of reach.
\<close>

theorem dkg_pop_special_sound:
  fixes E :: "('s::field, 'p::ab_group_add, 'z) externals_scheme"
  assumes "k256_laws E"
    and "verify_dkg_pop E i c0 p1 = Ok True" and "verify_dkg_pop E j c0 p2 = Ok True"
    and "pop_r p1 = pop_r p2"
    and "dkg_pop_challenge E i c0 (pop_r p1) \<noteq> dkg_pop_challenge E j c0 (pop_r p2)"
  shows "lift_x E c0 = Ok (point_mul E (point_gen E)
    ((scalar_from_bytes (pop_z p1) - scalar_from_bytes (pop_z p2)) /
     (dkg_pop_challenge E i c0 (pop_r p1) - dkg_pop_challenge E j c0 (pop_r p2))))"
  using assms by (rule verify_dkg_pop_extract)

theorem dkg_pop_special_sound_witness:
  "lift_x (ext7\<lparr>sha256 := \<lambda>m. num7 (be_nat (take 4 (drop 34 m)))\<rparr>) (encode7 GF3) = Ok GF3"
proof -
  let ?E = "ext7\<lparr>sha256 := \<lambda>m. num7 (be_nat (take 4 (drop 34 m)))\<rparr>"
  let ?p = "\<lambda>z. \<lparr>pop_r = encode7 GF2, pop_z = num7 z\<rparr>"
  have k256: "k256_laws ?E"
    using k256_laws_ext7 by (simp add: k256_laws_def scalar_laws_def point_laws_def encode_laws_def)
  have "length dkg_pop_challenge_dst = 34"
    by (simp add: dkg_pop_challenge_dst_def str_bytes_def)
  then have chal: "dkg_pop_challenge ?E 1 (encode7 GF3) r = GF1"
    "dkg_pop_challenge ?E 2 (encode7 GF3) r = GF2" for r
    by (simp_all add: dkg_pop_challenge_def eval7)
  have lift: "lift_x ?E (encode7 p) = Ok p" if "p \<noteq> GF0" for p
    using lift_x_encode7 [OF that] by (simp add: lift_x_def split: if_splits)
  have "verify_dkg_pop ?E 1 (encode7 GF3) (?p 5) = Ok True"
    and "verify_dkg_pop ?E 2 (encode7 GF3) (?p 1) = Ok True"
    by (simp_all add: verify_dkg_pop_def lift chal scalar_base_multi_def scalar_multi_def
        serialize_element_eq_Ok [OF k256] bindR_eq_Ok eval7 gf7_ground)
  from dkg_pop_special_sound [OF k256 this]
  show ?thesis by (simp add: chal eval7 gf7_ground)
qed

text \<open>
  A proof of possession whose response reduces to zero makes the verifier panic: it
  serialises the identity before it compares.
\<close>

theorem dkg_pop_zero_response_panics:
  fixes E :: "('s::field, 'p::ab_group_add, 'z) externals_scheme"
  assumes "k256_laws E" and "lift_x E (pop_r pop) = Ok R" and "lift_x E c0 = Ok C"
    and "scalar_from_bytes (pop_z pop) = (0 :: 's)"
  shows "verify_dkg_pop E idx c0 pop = Panic"
  using assms by (rule verify_dkg_pop_zero_panics)

theorem dkg_pop_zero_response_panics_witness:
  "verify_dkg_pop ext7 1 (encode7 GF3) \<lparr>pop_r = encode7 GF2, pop_z = num7 0\<rparr> = Panic"
  by (rule dkg_pop_zero_response_panics [OF k256_laws_ext7, of _ GF2 _ GF3])
    (simp_all add: eval7 gf7_ground)

subsection \<open>Threshold ECDH\<close>

text \<open>
  C13: A quorum of members that all used the same member list derives the group secret times the
  peer's point.
\<close>

theorem combine_ecdh_correct:
  fixes E :: "('s::field, 'p::ab_group_add, 'z) externals_scheme"
  assumes k256: "k256_laws E" and P: "lift_x E pk = Ok P"
    and dist: "distinct (map (index_to_scalar \<circ> sp_idx) shares :: 's list)" and ne: "shares \<noteq> []"
    and deg: "length cs \<le> length shares"
    and poly: "\<forall>s \<in> set shares. on_poly E cs (low_share s)"
    and pkgs: "mapR (create_ecdh_pkg E (map sp_idx shares) pk) shares = Ok pkgs"
  shows "combine_ecdh_pkgs E pkgs pk = serialize_element E (point_mul E P (poly_val cs 0))"
proof -
  let ?ls = "map low_share shares"
  have idx: "map ss_idx ?ls = map sp_idx shares" by (simp add: low_share_def)
  obtain ks where "mapR (\<lambda>s. create_ecdh_share E (map ss_idx ?ls) s pk) ?ls = Ok ks"
    and "combine_ecdh_pkgs E pkgs pk = derive_ecdh_secret E ks"
    using combine_ecdh_pkgs_shares [OF pkgs] unfolding idx by blast
  moreover have "distinct (map index_to_scalar (map ss_idx ?ls) :: 's list)"
    using dist by (simp add: low_share_def comp_def)
  ultimately show ?thesis
    using ecdh_total [OF k256 P, of ?ls cs ks] ne deg poly by simp
qed

theorem combine_ecdh_correct_witness:
  "\<exists>pkgs. mapR (create_ecdh_pkg ext7 (map sp_idx shares7) (encode7 GF2)) shares7 = Ok pkgs \<and>
    combine_ecdh_pkgs ext7 pkgs (encode7 GF2) = Ok (encode7 GF6)"
proof -
  obtain pkgs where pkgs:
    "mapR (create_ecdh_pkg ext7 (map sp_idx shares7) (encode7 GF2)) shares7 = Ok pkgs"
    by (simp add: shares7_def share7_def create_ecdh_pkg_def create_ecdh_share_def low_share_def
        calc_lagrange_coeff_def is_unique_set_def scalar_invert_def scalar_multi_def Let_def
        eval7 gf7_ground)
  have "\<forall>s \<in> set shares7. on_poly ext7 poly7 (low_share s)"
    using holders7(2) by (simp add: holders7_def)
  from combine_ecdh_correct [OF k256_laws_ext7 _ indices7 _ _ this pkgs, of GF2]
  show ?thesis
    using pkgs by (simp add: shares7_def poly7_def eval7 gf7_ground)
qed

subsection \<open>Package verification, nonces and hashing\<close>

text \<open>
  C14: In an honest session every member's package passes \<open>verify_partial_sig_package\<close>.
\<close>

theorem honest_packages_verify:
  fixes E :: "('s::field, 'p::ab_group_add, 'z) externals_scheme"
  assumes k256: "k256_laws E" and grp: "group_on_poly E cs grp"
    and deg: "length cs \<le> length shares"
    and honest: "list_all2 (honest_member E cs) nonces shares"
    and dist: "distinct (map (index_to_scalar \<circ> sp_idx) shares :: 's list)" and ne: "shares \<noteq> []"
    and roster: "set (map sp_idx shares) \<subseteq> set (map mp_idx (gp_members grp))"
    and ses: "create_sign_session E grp members [(msg, tweaks)] nonces = Ok ses"
    and pkgs: "honest_packages E ses nonces shares pkgs" and pkg: "pkg \<in> set pkgs"
  shows "verify_partial_sig_package E ses grp pkg = Ok None"
proof -
  have s: "ses_messages ses = [(msg, tweaks)]" "ses_nonces ses = nonces"
    "ses_group_pk ses = gp_group_pk grp"
    using ses by (simp_all add: create_sign_session_eq_Ok)
  have len: "length nonces = length shares" using honest by (rule list_all2_lengthD)
  then have "zip nonces shares \<noteq> []" using ne by (cases shares; cases nonces) auto
  then obtain ctx where ctx: "get_group_signing_ctx E (ses_group_pk ses)
      (build_public_nonces (ses_nonces ses)) msg tweaks = Ok ctx"
    using honest_packages_ctx [OF pkgs _ s(1)] by blast
  have sess: "honest_session E cs (ses_group_pk ses) (build_public_nonces (ses_nonces ses))
      (sign_parts E nonces shares)"
    using honest_session_packages [OF k256 grp honest dist ne deg] by (simp add: s)
  obtain n sh where ns: "(n, sh) \<in> set (zip nonces shares)"
    and made: "create_partial_sig_package E ses sh (derive_secret_nonce E (sp_seckey sh) (mn_code n)) = Ok pkg"
    using list_all2_setR [OF pkgs [unfolded honest_packages_def] pkg] by auto
  have hm: "honest_member E cs n sh"
    using honest ns by (auto simp: list_all2_iff)
  have "map mn_idx nonces = map sp_idx shares"
    using honest by (induction rule: list_all2_induct) (auto simp: honest_member_def)
  moreover have "distinct (map sp_idx shares)"
    using dist by (metis distinct_map map_map)
  ultimately have dn: "distinct (map mn_idx (ses_nonces ses))" by (simp add: s)
  have mem: "(low_share sh, low_snonce (sp_idx sh) (derive_secret_nonce E (sp_seckey sh) (mn_code n)))
      \<in> set (sign_parts E nonces shares)"
    using ns by (force simp: sign_parts_def)
  have "psp_pubkey pkg \<in> set (map mp_pubkey (gp_members grp))"
  proof -
    have "sp_idx sh \<in> set (map mp_idx (gp_members grp))"
      using roster set_zip_rightD [OF ns] by auto
    then obtain m where m: "m \<in> set (gp_members grp)" "mp_idx m = sp_idx sh" by auto
    have "get_pubkey E (sp_seckey sh) = Ok (psp_pubkey pkg)"
      using made create_partial_sig_package_one [OF s(1) ctx] by blast
    then have "psp_pubkey pkg = mp_pubkey m"
      using share_pubkey_on_poly [OF k256, of cs "low_share sh"] hm grp m
      by (simp add: honest_member_def low_share_def group_on_poly_def)
    then show ?thesis using m(1) by simp
  qed
  then show ?thesis
    using honest_package_verifies [OF k256 sess s(1) ctx _ dn hm mem made] set_zip_leftD [OF ns]
    by (simp add: s)
qed

theorem honest_packages_verify_witness:
  "verify_partial_sig_package ext7 session7 group7 (pkgs7 ! 0) = Ok None \<and>
   verify_partial_sig_package ext7 session7 group7 (pkgs7 ! 1) = Ok None"
proof -
  have "verify_partial_sig_package ext7 session7 group7 pkg = Ok None" if "pkg \<in> set pkgs7" for pkg
    using that
    by (intro honest_packages_verify [OF k256_laws_ext7 group_on_poly7 _ honest7 indices7 _ _
          session7_created sign7])
      (simp_all add: poly7_def shares7_def share7_def group7_def member7_def)
  then show ?thesis by (simp add: pkgs7_def)
qed

text \<open>
  C15: Nonces are re-derivable: the code of a generated nonce pair passes \<open>verify_nonce_code\<close>, its
  points are valid, and the re-derived secrets match the public nonce.
\<close>

theorem generated_nonce_rederives:
  assumes "k256_laws E" and "generate_nonce_pair E share_secret code = Ok n"
  shows "verify_nonce_code E share_secret (to_member_nonce n i) = Ok True \<and> validate_nonce E n \<and>
    nonce_pair E (member_public_nonce (to_member_nonce n i))
      (low_snonce i (derive_secret_nonce E share_secret (dn_code n)))"
proof (intro conjI)
  show v: "verify_nonce_code E share_secret (to_member_nonce n i) = Ok True"
    by (rule generated_nonce_verifies [OF assms(2)])
  show "validate_nonce E n" by (rule generated_nonce_valid [OF assms])
  show "nonce_pair E (member_public_nonce (to_member_nonce n i))
      (low_snonce i (derive_secret_nonce E share_secret (dn_code n)))"
    using v [unfolded verify_nonce_code_iff] by (simp add: to_member_nonce_def)
qed

theorem generated_nonce_rederives_witness:
  "verify_nonce_code ext7 (num7 4)
     \<lparr>mn_idx = 1, mn_binder_pn = encode7 GF3, mn_hidden_pn = encode7 GF3, mn_code = num7 0\<rparr> = Ok True"
proof -
  have "generate_nonce_pair ext7 (num7 4) (num7 0) =
      Ok \<lparr>dn_binder_pn = encode7 GF3, dn_hidden_pn = encode7 GF3, dn_code = num7 0\<rparr>"
    by (simp add: generate_nonce_pair_def Let_def eval7)
  from generated_nonce_rederives [OF k256_laws_ext7 this, of 1]
  show ?thesis by (simp add: to_member_nonce_def)
qed

text \<open>
  C16: The two-part reduction of \<open>hash_to_field_n\<close>, with its hard-coded \<open>2^256 mod N\<close>, is the
  48-byte expansion read as one number modulo the group order.
\<close>

theorem hash_to_field_n_correct:
  assumes "of_nat group_N = (0 :: 's::comm_ring_1)" and "length (expand_xmd E msg d 48) = 48"
  shows "hash_to_field_n (E :: ('s, 'p, 'z) externals_scheme) msg d =
         of_nat (be_nat (expand_xmd E msg d 48))"
  using assms by (rule hash_to_field_n_reduces)

text \<open>The integers modulo the group order, and an expansion whose high half is not zero.\<close>

type_synonym zN = "115792089237316195423570985008687907852837564279074904382605163141518161494337"

definition extN :: "(zN, zN) externals" where
  "extN = \<lparr>scalar_repr = (\<lambda>_. 0), point_gen = 0, point_mul = (*), point_encode = (\<lambda>_. []),
     point_decode = (\<lambda>_. None), point_x = (\<lambda>_. []), sha256 = (\<lambda>_. []), hmac_sha256 = (\<lambda>_ _. []),
     expand_xmd = (\<lambda>m d n. be_bytes n (2 ^ 256 + 5)), vk_from_bytes_ok = (\<lambda>_. False),
     sig_try_from_ok = (\<lambda>_. False), verify_raw = (\<lambda>_ _ _. False)\<rparr>"

theorem hash_to_field_n_correct_witness:
  "hash_to_field_n extN [] [] = of_nat (2 ^ 256 + 5)"
proof -
  have zero: "of_nat group_N = (0 :: zN)"
    by (simp add: group_N_def)
  have "be_nat (be_bytes 48 (2 ^ 256 + 5)) = 2 ^ 256 + 5"
    by (simp add: be_nat_be_bytes)
  then show ?thesis
    using hash_to_field_n_correct [OF zero, of extN "[]" "[]"] by (simp add: extN_def)
qed

text \<open>
  The square-and-multiply loop of \<open>pow_n\<close> computes the power, for every exponent.
\<close>

theorem pow_n_correct: "pow_n base exp = (of_nat base :: 's::field) ^ exp"
  by (rule pow_n_eq)

text \<open>
  Tweaking a public key and tweaking its secret agree, panics included.
\<close>

theorem tweak_commutes_with_pubkey:
  assumes "k256_laws E" and "get_pubkey E sk = Ok pk"
  shows "tweak_pubkey E pk t = get_pubkey E (tweak_seckey E sk t)"
  using assms by (rule tweak_pubkey_get_pubkey)

theorem tweak_commutes_with_pubkey_witness:
  "tweak_pubkey ext7 (encode7 GF3) (num7 2) = get_pubkey ext7 (tweak_seckey ext7 (num7 3) (num7 2)) \<and>
   get_pubkey ext7 (tweak_seckey ext7 (num7 3) (num7 2)) = Ok (encode7 GF5)"
  using tweak_commutes_with_pubkey [OF k256_laws_ext7, of "num7 3" "encode7 GF3" "num7 2"]
  by (simp add: tweak_seckey_def Let_def eval7 gf7_ground)

text \<open>
  C19: A group that comes out of an honest key generation signs: at least a threshold of its
  participants, each with the share it finalized with and a nonce generated from it, all make
  their packages once the context can be built, and these combine to one 64-byte signature,
  accepted by the BIP-340 verifier unless the aggregate scalar is zero.
\<close>

theorem dkg_group_signs:
  fixes E :: "('s::field, 'p::ab_group_add, 'z) externals_scheme"
  assumes "k256_laws E" and "schnorr_laws E"
    and "list_all2 (dkg_party E t) parties commits" and "distinct (map fst parties)"
    and "list_all2 (finalizes E t parties commits) mes outs"
    and "list_all2 (publishes_nonce E) outs nonces"
    and "distinct (map index_to_scalar mes :: 's list)" and "t \<le> length mes" and "mes \<noteq> []"
    and "out \<in> set outs"
    and "create_sign_session E (do_group out) members [(msg, tweaks)] nonces = Ok ses"
    and "get_group_signing_ctx E (gp_group_pk (do_group out)) (build_public_nonces nonces) msg tweaks = Ok ctx"
  shows "\<exists>pkgs sig. honest_packages E ses nonces (map do_share outs) pkgs \<and>
    combine_partial_sigs E ctx (map first_psig pkgs) = Ok sig \<and> length sig = 64 \<and>
    (scalar_from_bytes (drop 32 sig) \<noteq> (0 :: 's) \<longrightarrow>
     combine_signatures E ses (do_group out) pkgs =
       Ok [\<lparr>sig_message = msg, sig_pubkey = ctx_group_pk ctx, sig_sig = sig\<rparr>])"
  by (rule generated_group_signs [OF assms])

theorem dkg_group_signs_witness:
  "combine_signatures ext7 session72 (do_group out7) pkgs72 =
   Ok [\<lparr>sig_message = [], sig_pubkey = encode7 GF5, sig_sig = tl (encode7 GF4) @ num7 4\<rparr>]"
proof -
  have "distinct (map fst parties7)" "distinct (map index_to_scalar [1, 2] :: gf7 list)"
    "2 \<le> length [1 :: u32, 2]" "[1 :: u32, 2] \<noteq> []" "out7 \<in> set [out7, out72]"
    by (simp_all add: parties7_def eval7)
  note facts = this
  have "get_group_signing_ctx ext7 (gp_group_pk (do_group out7)) (build_public_nonces nonces7) [] [] = Ok ctx72"
    by (simp add: out7_def pnonces7 ctx72_parts)
  from dkg_group_signs [OF k256_laws_ext7 schnorr_laws_ext7 parties7 facts(1) finalized7 published7
      facts(2-5) session72_created this]
  obtain pkgs sig where pkgs: "honest_packages ext7 session72 nonces7 (map do_share [out7, out72]) pkgs"
    and sig: "combine_partial_sigs ext7 ctx72 (map first_psig pkgs) = Ok sig"
    and final: "scalar_from_bytes (drop 32 sig) \<noteq> (0 :: gf7) \<longrightarrow>
      combine_signatures ext7 session72 (do_group out7) pkgs =
        Ok [\<lparr>sig_message = [], sig_pubkey = ctx_group_pk ctx72, sig_sig = sig\<rparr>]"
    by blast
  have p: "pkgs = pkgs72" using honest_packages_unique [OF sign72 pkgs] .
  then have s: "sig = tl (encode7 GF4) @ num7 4" using sig combine72 by simp
  have "scalar_from_bytes (drop 32 sig) \<noteq> (0 :: gf7)"
    by (simp add: s eval7 gf7_ground del: drop_append)
  then show ?thesis using final by (simp add: p s ctx72_parts)
qed

text \<open>
  \<open>dkg_finalize\<close> does not check that the received shares cover all participants: whenever it
  succeeds it also succeeds with no received share at all, for the same group, and then hands
  out the participant's own evaluation as its share of the group key.
\<close>

theorem dkg_finalize_accepts_missing_shares:
  fixes E :: "('s::field, 'p::ab_group_add, 'z) externals_scheme"
  assumes "k256_laws E" and "dkg_finalize E me sc received commits t = Ok out"
  shows "\<exists>out'. dkg_finalize E me sc [] commits t = Ok out' \<and> do_group out' = do_group out \<and>
    scalar_from_bytes (sp_seckey (do_share out')) = (poly_val (coeffs_of sc) (index_to_scalar me) :: 's)"
  using assms by (rule dkg_finalize_without_shares)

theorem dkg_finalize_accepts_missing_shares_witness:
  "\<exists>out. dkg_finalize ext7 1 [num7 3, num7 2] [] commits7 2 = Ok out \<and> do_group out = do_group out7 \<and>
    scalar_from_bytes (sp_seckey (do_share out)) = GF5"
  using dkg_finalize_accepts_missing_shares [OF k256_laws_ext7 finalize7]
  by (simp add: coeffs_of_def eval7 gf7_ground)

end
