(* ===== verification/Schema.thy ===== *)
theory Schema
  imports Prelude
begin

text \<open>
  \<open>pomade-signer-rust/src/schema.rs\<close>: the wire types of the signer and the checks their
  deserializers make.  A Rust \<open>String\<close> is the list of its UTF-8 bytes as characters, so its
  \<open>len()\<close> is the length of the list.  The decoding of a JSON object into fields is derived
  by \<open>serde\<close> and is a parameter of the routing in \<open>Signer_Route\<close>; the checks written in the
  file (hexadecimal strings of a given length, bounded and non-empty vectors) are the
  \<open>_valid\<close> predicates, which the decoded data must pass before a handler sees it.
\<close>

definition MAX_HASHES_PER_REQUEST :: nat where "MAX_HASHES_PER_REQUEST = 10"
definition MAX_MEMBERS :: nat where "MAX_MEMBERS = 5"
definition MAX_COMMITS :: nat where "MAX_COMMITS = 5"

definition is_ascii_hexdigit :: "char \<Rightarrow> bool" where
  "is_ascii_hexdigit c \<longleftrightarrow> c \<in> set ''0123456789abcdefABCDEF''"

definition is_hex :: "string \<Rightarrow> bool" where
  "is_hex s \<longleftrightarrow> s \<noteq> [] \<and> even (length s) \<and> list_all is_ascii_hexdigit s"

text \<open>The three string deserializers, after \<open>String::deserialize\<close>.\<close>

definition deserialize_hex :: "string \<Rightarrow> string option" where
  "deserialize_hex s = (if \<not> is_hex s then None else Some s)"

definition deserialize_hex32 :: "string \<Rightarrow> string option" where
  "deserialize_hex32 s = (if length s \<noteq> 64 \<or> \<not> is_hex s then None else Some s)"

definition deserialize_hex33 :: "string \<Rightarrow> string option" where
  "deserialize_hex33 s = (if length s \<noteq> 66 \<or> \<not> is_hex s then None else Some s)"

definition deserialize_bounded_vec :: "nat \<Rightarrow> 'a list \<Rightarrow> 'a list option" where
  "deserialize_bounded_vec mx v = (if length v > mx then None else Some v)"

type_synonym hex = string
type_synonym hex32 = string
type_synonym hex33 = string

definition hex32_valid :: "hex32 \<Rightarrow> bool" where
  "hex32_valid s \<longleftrightarrow> deserialize_hex32 s \<noteq> None"

definition hex33_valid :: "hex33 \<Rightarrow> bool" where
  "hex33_valid s \<longleftrightarrow> deserialize_hex33 s \<noteq> None"

definition bounded_vec_valid :: "nat \<Rightarrow> ('a \<Rightarrow> bool) \<Rightarrow> 'a list \<Rightarrow> bool" where
  "bounded_vec_valid mx ok v \<longleftrightarrow> list_all ok v \<and> deserialize_bounded_vec mx v \<noteq> None"

definition sighash_vec_valid :: "hex32 list \<Rightarrow> bool" where
  "sighash_vec_valid v \<longleftrightarrow> bounded_vec_valid MAX_HASHES_PER_REQUEST hex32_valid v \<and> v \<noteq> []"

subsection \<open>Shared types\<close>

record commit_item =
  c_idx :: u32
  c_pubkey :: hex33
  c_hidden_pn :: hex33
  c_binder_pn :: hex33

record sgroup =
  g_commits :: "commit_item list"
  g_group_pk :: hex33
  g_threshold :: u32

record sshare =
  sh_idx :: u32
  sh_seckey :: hex32

definition commit_item_valid :: "commit_item \<Rightarrow> bool" where
  "commit_item_valid c \<longleftrightarrow>
     hex33_valid (c_pubkey c) \<and> hex33_valid (c_hidden_pn c) \<and> hex33_valid (c_binder_pn c)"

definition sgroup_valid :: "sgroup \<Rightarrow> bool" where
  "sgroup_valid g \<longleftrightarrow>
     bounded_vec_valid MAX_COMMITS commit_item_valid (g_commits g) \<and> hex33_valid (g_group_pk g)"

definition sshare_valid :: "sshare \<Rightarrow> bool" where
  "sshare_valid s \<longleftrightarrow> hex32_valid (sh_seckey s)"

record password_auth =
  pa_email_hash :: string
  pa_password_hash :: string

record otp_auth =
  oa_email_hash :: string
  oa_otp :: string

datatype auth = Password password_auth | Otp otp_auth

fun auth_email_hash :: "auth \<Rightarrow> string" where
  "auth_email_hash (Password a) = pa_email_hash a"
| "auth_email_hash (Otp a) = oa_email_hash a"

fun is_password :: "auth \<Rightarrow> bool" where
  "is_password (Password _) = True"
| "is_password (Otp _) = False"

fun is_otp :: "auth \<Rightarrow> bool" where
  "is_otp (Otp _) = True"
| "is_otp (Password _) = False"

record session_item =
  si_pubkey :: hex32
  si_client :: hex32
  si_created_at :: u64
  si_deactivated_at :: "u64 option"
  si_last_activity :: u64
  si_threshold :: u32
  si_total :: u32
  si_idx :: u32
  si_email :: "string option"

subsection \<open>Requests\<close>

record register_request =
  rq_share :: sshare
  rq_group :: sgroup
  rq_recovery :: bool

record sign_commit_request =
  scq_members :: "u32 list"

record public_nonce_item =
  pni_idx :: u32
  pni_hidden_pn :: hex33
  pni_binder_pn :: hex33

record sign_complete_inner =
  sci_content :: "string option"
  sci_hash :: "hex32 list"
  sci_members :: "u32 list"
  sci_stamp :: u64
  sci_kind :: string
  sci_gid :: hex32
  sci_sid :: hex32

record sign_complete_request =
  sq_commit_id :: hex32
  sq_request :: sign_complete_inner
  sq_pnonces :: "public_nonce_item list"

record ecdh_request =
  eq_idx :: u32
  eq_members :: "u32 list"
  eq_ecdh_pk :: hex32

record recovery_setup_request =
  rsq_email :: string
  rsq_password_hash :: string

record challenge_request =
  cq_prefix :: string
  cq_email_hash :: string

record login_start_request =
  lsq_auth :: auth

record recovery_start_request =
  rtq_auth :: auth

text \<open>\<open>LoginSelectRequest\<close>, \<open>RecoverySelectRequest\<close>, \<open>SessionDeactivateRequest\<close> and
  \<open>SessionDeleteRequest\<close> have one shape.\<close>

record client_request =
  clq_client :: hex32

type_synonym login_select_request = client_request
type_synonym recovery_select_request = client_request
type_synonym session_deactivate_request = client_request
type_synonym session_delete_request = client_request

definition register_request_valid :: "register_request \<Rightarrow> bool" where
  "register_request_valid r \<longleftrightarrow> sshare_valid (rq_share r) \<and> sgroup_valid (rq_group r)"

definition sign_commit_request_valid :: "sign_commit_request \<Rightarrow> bool" where
  "sign_commit_request_valid r \<longleftrightarrow> bounded_vec_valid MAX_MEMBERS (\<lambda>_. True) (scq_members r)"

definition public_nonce_item_valid :: "public_nonce_item \<Rightarrow> bool" where
  "public_nonce_item_valid p \<longleftrightarrow> hex33_valid (pni_hidden_pn p) \<and> hex33_valid (pni_binder_pn p)"

definition sign_complete_inner_valid :: "sign_complete_inner \<Rightarrow> bool" where
  "sign_complete_inner_valid r \<longleftrightarrow>
     sighash_vec_valid (sci_hash r) \<and> bounded_vec_valid MAX_MEMBERS (\<lambda>_. True) (sci_members r) \<and>
     hex32_valid (sci_gid r) \<and> hex32_valid (sci_sid r)"

definition sign_complete_request_valid :: "sign_complete_request \<Rightarrow> bool" where
  "sign_complete_request_valid r \<longleftrightarrow>
     hex32_valid (sq_commit_id r) \<and> sign_complete_inner_valid (sq_request r) \<and>
     bounded_vec_valid MAX_MEMBERS public_nonce_item_valid (sq_pnonces r)"

definition ecdh_request_valid :: "ecdh_request \<Rightarrow> bool" where
  "ecdh_request_valid r \<longleftrightarrow>
     bounded_vec_valid MAX_MEMBERS (\<lambda>_. True) (eq_members r) \<and> hex32_valid (eq_ecdh_pk r)"

definition client_request_valid :: "client_request \<Rightarrow> bool" where
  "client_request_valid r \<longleftrightarrow> hex32_valid (clq_client r)"

subsection \<open>Responses\<close>

text \<open>Every response has \<open>ok\<close> and \<open>message\<close>, and what it carries besides them.\<close>

record 'r response =
  resp_ok :: bool
  resp_message :: string
  resp_result :: 'r

record sign_commit_result =
  scr_commit_id :: hex32
  scr_idx :: u32
  scr_pubkey :: hex33
  scr_hidden_pn :: hex33
  scr_binder_pn :: hex33

record sign_complete_result =
  sr_idx :: u32
  sr_psig :: "hex32 \<times> hex32"
  sr_pubkey :: hex33
  sr_sid :: hex32

record ecdh_result =
  er_idx :: u32
  er_keyshare :: hex
  er_members :: "u32 list"
  er_ecdh_pk :: hex

type_synonym register_response = "unit response"
type_synonym recovery_setup_response = "unit response"
type_synonym challenge_response = "unit response"
type_synonym session_deactivate_response = "unit response"
type_synonym session_delete_response = "unit response"
type_synonym sign_commit_response = "sign_commit_result option response"
type_synonym sign_complete_response = "sign_complete_result option response"
type_synonym ecdh_response = "ecdh_result option response"
type_synonym login_start_response = "session_item list option response"
type_synonym recovery_start_response = "session_item list option response"
type_synonym login_select_response = "sgroup option response"
type_synonym recovery_select_response = "(sshare option \<times> sgroup option) response"
type_synonym session_list_response = "session_item list response"

definition respond :: "bool \<Rightarrow> string \<Rightarrow> 'r \<Rightarrow> 'r response" where
  "respond ok msg r = \<lparr>resp_ok = ok, resp_message = msg, resp_result = r\<rparr>"

lemma respond_sel [simp]:
  "resp_ok (respond ok msg r) = ok" "resp_message (respond ok msg r) = msg"
  "resp_result (respond ok msg r) = r"
  by (simp_all add: respond_def)

subsection \<open>What the checks guarantee\<close>

lemma hex32_valid_iff: "hex32_valid s \<longleftrightarrow> length s = 64 \<and> list_all is_ascii_hexdigit s"
  by (auto simp: hex32_valid_def deserialize_hex32_def is_hex_def)

lemma hex33_valid_iff: "hex33_valid s \<longleftrightarrow> length s = 66 \<and> list_all is_ascii_hexdigit s"
  by (auto simp: hex33_valid_def deserialize_hex33_def is_hex_def)

lemma bounded_vec_valid_iff: "bounded_vec_valid mx ok v \<longleftrightarrow> list_all ok v \<and> length v \<le> mx"
  by (auto simp: bounded_vec_valid_def deserialize_bounded_vec_def)

lemmas valid_simps = hex32_valid_iff hex33_valid_iff bounded_vec_valid_iff

lemma sgroup_validD:
  assumes "sgroup_valid g"
  shows "length (g_commits g) \<le> 5" and "length (g_group_pk g) = 66"
    and "list_all is_ascii_hexdigit (g_group_pk g)"
  using assms by (simp_all add: sgroup_valid_def valid_simps MAX_COMMITS_def)

text \<open>A string of ASCII characters can be sliced anywhere.\<close>

definition is_char_boundary :: "string \<Rightarrow> nat \<Rightarrow> bool" where
  "is_char_boundary s n \<longleftrightarrow>
     n = length s \<or> (n < length s \<and> \<not> (128 \<le> (of_char (s ! n) :: nat) \<and> (of_char (s ! n) :: nat) < 192))"

definition str_from :: "string \<Rightarrow> nat \<Rightarrow> string res" where
  "str_from s n = (if is_char_boundary s n then Ok (drop n s) else Panic)"

definition str_upto :: "string \<Rightarrow> nat \<Rightarrow> string res" where
  "str_upto s n = (if is_char_boundary s n then Ok (take n s) else Panic)"

lemma hexdigit_ascii: "is_ascii_hexdigit c \<Longrightarrow> (of_char c :: nat) < 128"
  by (auto simp: is_ascii_hexdigit_def)

lemma str_from_hex:
  assumes "list_all is_ascii_hexdigit s" and "n \<le> length s"
  shows "str_from s n = Ok (drop n s)"
proof (cases "n = length s")
  case True
  then show ?thesis by (simp add: str_from_def is_char_boundary_def)
next
  case False
  then have "n < length s" using assms(2) by simp
  then have "(of_char (s ! n) :: nat) < 128"
    using assms(1) by (auto simp: list_all_length intro: hexdigit_ascii)
  then show ?thesis using \<open>n < length s\<close> by (simp add: str_from_def is_char_boundary_def)
qed

end
