(* ===== verification/Signer_Externals.thy ===== *)
theory Signer_Externals
  imports Externals Schema
begin

text \<open>
  The third-party code of the signer, as fields added to the record of \<open>Externals\<close>, and its
  documented behaviour as named predicates.

  \<^item> The \<open>hex\<close> crate: \<open>hex_encode\<close> and \<open>hex_decode\<close>.
  \<^item> \<open>argon2\<close>: \<open>argon2id\<close> takes the memory parameter, the password and the salt; \<open>None\<close> is an
    error of \<open>Params::new\<close> or of \<open>hash_password_into\<close>.
  \<^item> The \<open>nostr\<close> crate: \<open>url_parse\<close>, \<open>verify_auth_header\<close> (NIP-98, at a time; its result is the
    hexadecimal public key) and \<open>event_from_json\<close> (the id of the event); \<open>base64_decode\<close>.
  \<^item> \<open>challenge_template\<close> is the text of the file \<open>challenge.html\<close>, included at build time.
  \<^item> \<open>log_debug\<close> tells whether the logger is enabled at the debug level: only then are the
    arguments of \<open>log::debug!\<close> evaluated.
\<close>

record ('s, 'p) s_externals = "('s, 'p) externals" +
  hex_encode :: "bytes \<Rightarrow> string"
  hex_decode :: "string \<Rightarrow> bytes option"
  argon2id :: "u32 \<Rightarrow> bytes \<Rightarrow> bytes \<Rightarrow> bytes option"
  url_parse :: "string \<Rightarrow> string option"
  verify_auth_header :: "string \<Rightarrow> string \<Rightarrow> u64 \<Rightarrow> string option"
  base64_decode :: "string \<Rightarrow> bytes option"
  event_from_json :: "bytes \<Rightarrow> bytes option"
  challenge_template :: string
  log_debug :: bool

text \<open>\<open>hex\<close>: encoding writes two lower-case digits a byte; decoding accepts exactly the strings of
  even length over the hexadecimal digits and inverts the encoding.\<close>

definition hex_laws :: "('s, 'p, 'z) s_externals_scheme \<Rightarrow> bool" where
  "hex_laws E \<longleftrightarrow>
     (\<forall>bs. length (hex_encode E bs) = 2 * length bs \<and>
           list_all is_ascii_hexdigit (hex_encode E bs) \<and>
           hex_decode E (hex_encode E bs) = Some bs) \<and>
     (\<forall>s. hex_decode E s \<noteq> None \<longleftrightarrow> even (length s) \<and> list_all is_ascii_hexdigit s) \<and>
     (\<forall>s bs. hex_decode E s = Some bs \<longrightarrow> 2 * length bs = length s)"

lemma hex_decode_encode: "hex_laws E \<Longrightarrow> hex_decode E (hex_encode E bs) = Some bs"
  by (simp add: hex_laws_def)

lemma length_hex_encode: "hex_laws E \<Longrightarrow> length (hex_encode E bs) = 2 * length bs"
  by (simp add: hex_laws_def)

lemma hex_encode_digits: "hex_laws E \<Longrightarrow> list_all is_ascii_hexdigit (hex_encode E bs)"
  by (simp add: hex_laws_def)

lemma hex_encode_inj: "hex_laws E \<Longrightarrow> hex_encode E a = hex_encode E b \<longleftrightarrow> a = b"
  by (metis hex_decode_encode option.inject)

lemma hex_decode_length: "hex_laws E \<Longrightarrow> hex_decode E s = Some bs \<Longrightarrow> 2 * length bs = length s"
  by (simp add: hex_laws_def)

lemma hex32_decodes:
  assumes "hex_laws E" and "hex32_valid s"
  obtains bs where "hex_decode E s = Some bs" "length bs = 32"
proof -
  have "hex_decode E s \<noteq> None"
    using assms by (simp add: hex_laws_def hex32_valid_iff)
  then obtain bs where "hex_decode E s = Some bs" by blast
  with hex_decode_length [OF assms(1) this] assms(2) that show thesis by (simp add: hex32_valid_iff)
qed

lemma hex33_decodes:
  assumes "hex_laws E" and "hex33_valid s"
  obtains bs where "hex_decode E s = Some bs" "length bs = 33"
proof -
  have "hex_decode E s \<noteq> None"
    using assms by (simp add: hex_laws_def hex33_valid_iff)
  then obtain bs where "hex_decode E s = Some bs" by blast
  with hex_decode_length [OF assms(1) this] assms(2) that show thesis by (simp add: hex33_valid_iff)
qed

text \<open>\<open>PublicKey::to_hex\<close>: an authenticated key is 64 hexadecimal digits; an event id is 32 bytes.\<close>

definition nostr_laws :: "('s, 'p, 'z) s_externals_scheme \<Rightarrow> bool" where
  "nostr_laws E \<longleftrightarrow>
     (\<forall>h u t k. verify_auth_header E h u t = Some k \<longrightarrow> hex32_valid k) \<and>
     (\<forall>b i. event_from_json E b = Some i \<longrightarrow> length i = 32)"

end
