(* ===== verification/Nostr.thy ===== *)
theory Nostr
  imports Signer_Externals
begin

text \<open>
  \<open>pomade-signer-rust/src/nostr.rs\<close>: NIP-98 authentication of a request.
\<close>

record nostr_auth =
  na_pubkey :: string
  na_event_id :: bytes

definition strip_prefix :: "string \<Rightarrow> string \<Rightarrow> string option" where
  "strip_prefix p s = (if take (length p) s = p then Some (drop (length p) s) else None)"

definition parse_auth ::
  "('s, 'p, 'z) s_externals_scheme \<Rightarrow> u64 \<Rightarrow> string \<Rightarrow> string \<Rightarrow> string \<Rightarrow> nostr_auth option" where
  "parse_auth E now header base_url path =
     (let url_str = base_url @ path
      in Option.bind (url_parse E url_str) (\<lambda>url.
         Option.bind (verify_auth_header E header url now) (\<lambda>pubkey.
         Option.bind (strip_prefix ''Nostr '' header) (\<lambda>token.
         Option.bind (base64_decode E token) (\<lambda>decoded.
         Option.bind (event_from_json E decoded) (\<lambda>event.
         Some \<lparr>na_pubkey = pubkey, na_event_id = event\<rparr>))))))"

lemma parse_authD:
  assumes "parse_auth E now header base_url path = Some auth"
  shows "\<exists>url. url_parse E (base_url @ path) = Some url \<and>
    verify_auth_header E header url now = Some (na_pubkey auth)"
  using assms by (auto simp: parse_auth_def Let_def split: Option.bind_splits)

lemma parse_auth_pubkey:
  "nostr_laws E \<Longrightarrow> parse_auth E now header base_url path = Some auth \<Longrightarrow> hex32_valid (na_pubkey auth)"
  using parse_authD unfolding nostr_laws_def by blast

lemma parse_auth_event:
  "nostr_laws E \<Longrightarrow> parse_auth E now header base_url path = Some auth \<Longrightarrow> length (na_event_id auth) = 32"
  by (auto simp: parse_auth_def Let_def nostr_laws_def split: Option.bind_splits)

end
