(* ===== verification/Storage.thy ===== *)
theory Storage
  imports Prelude "HOL-Library.Char_ord" "HOL-Library.List_Lexorder"
begin

text \<open>
  \<open>pomade-signer-rust/src/storage.rs\<close>.  First the contract the signer relies on, the locale
  \<open>kv_store\<close>, and the abstract collection that provides it: a list of entries sorted by key.
  Then the file's own layers: \<open>Collection<T>\<close> (JSON over a backend), \<open>SledBackend\<close>
  (encryption over a sled tree).  The \<open>sled\<close> database, the XChaCha20-Poly1305 cipher and
  \<open>serde_json\<close> are parameters with their documented laws; under these the layered collection
  refines the abstract one, which is what the signer's state is made of.
\<close>

subsection \<open>The contract of a collection\<close>

locale kv_store =
  fixes inv :: "'s \<Rightarrow> bool"
    and look :: "'s \<Rightarrow> string \<Rightarrow> 'v option"
    and put :: "'s \<Rightarrow> string \<Rightarrow> 'v \<Rightarrow> 's"
    and del :: "'s \<Rightarrow> string \<Rightarrow> 's"
    and items :: "'s \<Rightarrow> (string \<times> 'v) list"
  assumes inv_put: "inv s \<Longrightarrow> inv (put s k v)"
    and inv_del: "inv s \<Longrightarrow> inv (del s k)"
    and look_put: "inv s \<Longrightarrow> look (put s k v) k' = (if k' = k then Some v else look s k')"
    and look_del: "inv s \<Longrightarrow> look (del s k) k' = (if k' = k then None else look s k')"
    and items_distinct: "inv s \<Longrightarrow> distinct (map fst (items s))"
    and items_look: "inv s \<Longrightarrow> map_of (items s) = look s"
begin

text \<open>The loop \<open>for (k, v) in entries() { if p(v) { delete(&k) } }\<close>; the test may depend on
  the round, since it reads the clock.\<close>

primrec purge :: "(nat \<Rightarrow> 'v \<Rightarrow> bool) \<Rightarrow> nat \<Rightarrow> (string \<times> 'v) list \<Rightarrow> 's \<Rightarrow> 's" where
  "purge p n [] s = s"
| "purge p n (kv # kvs) s = purge p (Suc n) kvs (if p n (snd kv) then del s (fst kv) else s)"

lemma inv_purge: "inv s \<Longrightarrow> inv (purge p n kvs s)"
  by (induction kvs arbitrary: n s) (auto simp: inv_del)

lemma look_purge:
  assumes "inv s"
  shows "look (purge p n kvs s) k =
    (if \<exists>i < length kvs. fst (kvs ! i) = k \<and> p (n + i) (snd (kvs ! i)) then None else look s k)"
  using assms
proof (induction kvs arbitrary: n s)
  case Nil
  then show ?case by simp
next
  case (Cons kv kvs)
  let ?s = "if p n (snd kv) then del s (fst kv) else s"
  have "inv ?s" using Cons.prems by (simp add: inv_del)
  note ih = Cons.IH [OF this, of "Suc n"]
  have split: "(\<exists>i < length (kv # kvs). fst ((kv # kvs) ! i) = k \<and> p (n + i) (snd ((kv # kvs) ! i)))
      \<longleftrightarrow> (fst kv = k \<and> p n (snd kv)) \<or> (\<exists>i < length kvs. fst (kvs ! i) = k \<and> p (Suc n + i) (snd (kvs ! i)))"
    by (simp add: Ex_less_Suc2)
  show ?case unfolding split using ih Cons.prems by (auto simp: look_del)
qed

lemma look_items: "inv s \<Longrightarrow> look s k = Some v \<longleftrightarrow> (k, v) \<in> set (items s)"
  by (metis items_distinct items_look map_of_eq_Some_iff)

text \<open>Over all the entries of the collection, the loop removes exactly those its test accepts.\<close>

lemma look_purge_items:
  assumes "inv s" and "\<And>i v. p i v = q v"
  shows "look (purge p n (items s) s) k =
    (case look s k of None \<Rightarrow> None | Some v \<Rightarrow> if q v then None else Some v)"
proof (cases "look s k")
  case None
  then show ?thesis using assms(1) by (simp add: look_purge)
next
  case (Some v)
  have "(\<exists>i < length (items s). fst (items s ! i) = k \<and> p (n + i) (snd (items s ! i))) \<longleftrightarrow> q v"
    using Some look_items [OF assms(1)] assms(2)
    by (metis in_set_conv_nth fst_conv snd_conv surjective_pairing option.inject)
  then show ?thesis using Some assms(1) by (simp add: look_purge)
qed

end

subsection \<open>The abstract collection\<close>

type_synonym 'v col = "(string \<times> 'v) list"

definition col_get :: "'v col \<Rightarrow> string \<Rightarrow> 'v option" where
  "col_get c k = map_of c k"

fun col_set :: "'v col \<Rightarrow> string \<Rightarrow> 'v \<Rightarrow> 'v col" where
  "col_set [] k v = [(k, v)]"
| "col_set ((k', v') # c) k v =
     (if k < k' then (k, v) # (k', v') # c
      else if k = k' then (k, v) # c
      else (k', v') # col_set c k v)"

definition col_delete :: "'v col \<Rightarrow> string \<Rightarrow> 'v col" where
  "col_delete c k = filter (\<lambda>kv. fst kv \<noteq> k) c"

definition col_entries :: "'v col \<Rightarrow> (string \<times> 'v) list" where
  "col_entries c = c"

definition col_sorted :: "'v col \<Rightarrow> bool" where
  "col_sorted c \<longleftrightarrow> sorted_wrt (<) (map fst c)"

lemma col_get_Nil [simp]: "col_get [] k = None"
  by (simp add: col_get_def)

lemma col_get_set [simp]: "col_get (col_set c k v) k' = (if k' = k then Some v else col_get c k')"
  by (induction c k v rule: col_set.induct) (auto simp: col_get_def)

lemma col_get_delete [simp]: "col_get (col_delete c k) k' = (if k' = k then None else col_get c k')"
  by (induction c) (auto simp: col_get_def col_delete_def)

lemma fst_col_set: "fst ` set (col_set c k v) = insert k (fst ` set c)"
  by (induction c k v rule: col_set.induct) auto

lemma col_sorted_set: "col_sorted c \<Longrightarrow> col_sorted (col_set c k v)"
proof (induction c k v rule: col_set.induct)
  case (1 k v)
  then show ?case by (simp add: col_sorted_def)
next
  case (2 k' v' c k v)
  have "\<forall>x \<in> fst ` set c. k' < x" and "col_sorted c"
    using 2(2) by (auto simp: col_sorted_def)
  then show ?case
    using 2 fst_col_set [of c k v] by (auto simp: col_sorted_def)
qed

lemma col_sorted_delete: "col_sorted c \<Longrightarrow> col_sorted (col_delete c k)"
  by (induction c) (auto simp: col_sorted_def col_delete_def)

lemma col_sorted_distinct: "col_sorted c \<Longrightarrow> distinct (map fst c)"
  by (simp add: col_sorted_def strict_sorted_iff)

interpretation col: kv_store col_sorted col_get col_set col_delete col_entries
proof unfold_locales
  fix s :: "'v col"
  show "map_of (col_entries s) = col_get s"
    by (rule ext) (simp add: col_entries_def col_get_def)
qed (simp_all add: col_sorted_set col_sorted_delete col_sorted_distinct col_entries_def)

text \<open>A sorted collection is determined by its lookups.\<close>

lemma col_eqI:
  assumes "col_sorted c" and "col_sorted c'" and "\<And>k. col_get c k = col_get c' k"
  shows "c = c'"
proof -
  note d = col_sorted_distinct [OF assms(1)] col_sorted_distinct [OF assms(2)]
  have "map_of c = map_of c'" using assms(3) by (auto simp: col_get_def)
  then have eq: "set c = set c'" using map_of_inject_set [OF d] by simp
  then have "inj_on fst (set c \<union> set c')" using d(1) by (simp add: distinct_map)
  then show ?thesis
    using assms(1,2) eq map_sorted_distinct_set_unique [of fst c c']
    by (simp add: col_sorted_def strict_sorted_iff)
qed

subsection \<open>\<open>Collection<T>\<close> over a \<open>StorageBackend\<close>\<close>

text \<open>\<open>bk_set\<close> takes the random bytes its implementation may draw.\<close>

record 'd backend =
  bk_get :: "'d \<Rightarrow> string \<Rightarrow> string \<Rightarrow> bytes option res"
  bk_set :: "bytes \<Rightarrow> 'd \<Rightarrow> string \<Rightarrow> string \<Rightarrow> bytes \<Rightarrow> 'd res"
  bk_delete :: "'d \<Rightarrow> string \<Rightarrow> string \<Rightarrow> (bool \<times> 'd) res"
  bk_entries :: "'d \<Rightarrow> string \<Rightarrow> (string \<times> bytes) list res"

text \<open>\<open>serde_json::to_vec\<close> and \<open>from_slice\<close> at the element type.\<close>

record 'v codec =
  to_vec :: "'v \<Rightarrow> bytes option"
  from_slice :: "bytes \<Rightarrow> 'v option"

definition collection_get :: "'d backend \<Rightarrow> 'v codec \<Rightarrow> string \<Rightarrow> 'd \<Rightarrow> string \<Rightarrow> 'v option res" where
  "collection_get B J name d key =
     bindR (bk_get B d name key) (\<lambda>r. Ok (Option.bind r (from_slice J)))"

definition collection_set ::
  "'d backend \<Rightarrow> 'v codec \<Rightarrow> string \<Rightarrow> bytes \<Rightarrow> 'd \<Rightarrow> string \<Rightarrow> 'v \<Rightarrow> 'd res" where
  "collection_set B J name rnd d key val =
     (case to_vec J val of
        Some bs \<Rightarrow> bk_set B rnd d name key bs
      | None \<Rightarrow> Ok d)"

definition collection_delete :: "'d backend \<Rightarrow> string \<Rightarrow> 'd \<Rightarrow> string \<Rightarrow> (bool \<times> 'd) res" where
  "collection_delete B name d key = bk_delete B d name key"

definition collection_entries ::
  "'d backend \<Rightarrow> 'v codec \<Rightarrow> string \<Rightarrow> 'd \<Rightarrow> (string \<times> 'v) list res" where
  "collection_entries B J name d =
     bindR (bk_entries B d name) (\<lambda>kvs.
     Ok (List.map_filter (\<lambda>(k, v). map_option (Pair k) (from_slice J v)) kvs))"

subsection \<open>\<open>SledBackend\<close>\<close>

text \<open>The database: \<open>None\<close> from an operation is an I/O error.  A tree is named by its collection.\<close>

record 'd sled =
  sl_open :: "'d \<Rightarrow> string \<Rightarrow> bool"
  sl_get :: "'d \<Rightarrow> string \<Rightarrow> bytes \<Rightarrow> bytes option option"
  sl_insert :: "'d \<Rightarrow> string \<Rightarrow> bytes \<Rightarrow> bytes \<Rightarrow> 'd"
  sl_remove :: "'d \<Rightarrow> string \<Rightarrow> bytes \<Rightarrow> bytes option option \<times> 'd"
  sl_iter :: "'d \<Rightarrow> string \<Rightarrow> (bytes \<times> bytes) option list"

text \<open>The cipher: key set-up, encryption and decryption under a nonce.\<close>

record 'k aead =
  aead_new :: "bytes \<Rightarrow> 'k option"
  aead_encrypt :: "'k \<Rightarrow> bytes \<Rightarrow> bytes \<Rightarrow> bytes option"
  aead_decrypt :: "'k \<Rightarrow> bytes \<Rightarrow> bytes \<Rightarrow> bytes option"

definition NONCE_LEN :: nat where "NONCE_LEN = 24"

text \<open>\<open>String::from_utf8\<close>.\<close>

definition utf8_cont :: "byte \<Rightarrow> bool" where
  "utf8_cont b \<longleftrightarrow> 0x80 \<le> b \<and> b \<le> 0xBF"

fun utf8_valid :: "bytes \<Rightarrow> bool" where
  "utf8_valid [] = True"
| "utf8_valid (b # bs) =
     (if b < 0x80 then utf8_valid bs
      else if 0xC2 \<le> b \<and> b \<le> 0xDF then
        (case bs of c1 # r \<Rightarrow> utf8_cont c1 \<and> utf8_valid r | _ \<Rightarrow> False)
      else if 0xE0 \<le> b \<and> b \<le> 0xEF then
        (case bs of
           c1 # c2 # r \<Rightarrow>
             utf8_cont c1 \<and> (b = 0xE0 \<longrightarrow> 0xA0 \<le> c1) \<and> (b = 0xED \<longrightarrow> c1 \<le> 0x9F) \<and>
             utf8_cont c2 \<and> utf8_valid r
         | _ \<Rightarrow> False)
      else if 0xF0 \<le> b \<and> b \<le> 0xF4 then
        (case bs of
           c1 # c2 # c3 # r \<Rightarrow>
             utf8_cont c1 \<and> (b = 0xF0 \<longrightarrow> 0x90 \<le> c1) \<and> (b = 0xF4 \<longrightarrow> c1 \<le> 0x8F) \<and>
             utf8_cont c2 \<and> utf8_cont c3 \<and> utf8_valid r
         | _ \<Rightarrow> False)
      else False)"

definition bytes_str :: "bytes \<Rightarrow> string" where
  "bytes_str bs = map (\<lambda>b. char_of (unat b)) bs"

definition from_utf8 :: "bytes \<Rightarrow> string option" where
  "from_utf8 bs = (if utf8_valid bs then Some (bytes_str bs) else None)"

text \<open>What a Rust \<open>String\<close> holds.\<close>

abbreviation utf8 :: "string \<Rightarrow> bool" where "utf8 s \<equiv> utf8_valid (str_bytes s)"

definition sled_open_encrypted :: "(bytes \<Rightarrow> bytes) \<Rightarrow> 'k aead \<Rightarrow> string \<Rightarrow> 'k option res" where
  "sled_open_encrypted sha A secret =
     (let key = sha (str_bytes secret)
      in case aead_new A key of None \<Rightarrow> Panic | Some k \<Rightarrow> Ok (Some k))"

definition sled_tree :: "'d sled \<Rightarrow> 'd \<Rightarrow> string \<Rightarrow> string res" where
  "sled_tree S d collection = (if sl_open S d collection then Ok collection else Panic)"

definition sled_encode :: "'k aead \<Rightarrow> 'k option \<Rightarrow> bytes \<Rightarrow> bytes \<Rightarrow> bytes res" where
  "sled_encode A cipher nonce_bytes plaintext =
     (case cipher of
        None \<Rightarrow> Ok plaintext
      | Some k \<Rightarrow>
          (case aead_encrypt A k nonce_bytes plaintext of
             None \<Rightarrow> Panic
           | Some ciphertext \<Rightarrow> Ok (nonce_bytes @ ciphertext)))"

definition sled_decode :: "'k aead \<Rightarrow> 'k option \<Rightarrow> bytes \<Rightarrow> bytes option" where
  "sled_decode A cipher val =
     (case cipher of
        None \<Rightarrow> Some val
      | Some k \<Rightarrow>
          if length val \<le> NONCE_LEN then None
          else aead_decrypt A k (take NONCE_LEN val) (drop NONCE_LEN val))"

definition sled_get ::
  "'d sled \<Rightarrow> 'k aead \<Rightarrow> 'k option \<Rightarrow> 'd \<Rightarrow> string \<Rightarrow> string \<Rightarrow> bytes option res" where
  "sled_get S A cipher d collection key =
     bindR (sled_tree S d collection) (\<lambda>t.
     Ok (case sl_get S d t (str_bytes key) of
           Some (Some raw) \<Rightarrow> sled_decode A cipher raw
         | _ \<Rightarrow> None))"

definition sled_set ::
  "'d sled \<Rightarrow> 'k aead \<Rightarrow> 'k option \<Rightarrow> bytes \<Rightarrow> 'd \<Rightarrow> string \<Rightarrow> string \<Rightarrow> bytes \<Rightarrow> 'd res" where
  "sled_set S A cipher rnd d collection key val =
     bindR (sled_tree S d collection) (\<lambda>t.
     bindR (sled_encode A cipher rnd val) (\<lambda>enc.
     Ok (sl_insert S d t (str_bytes key) enc)))"

definition sled_delete :: "'d sled \<Rightarrow> 'd \<Rightarrow> string \<Rightarrow> string \<Rightarrow> (bool \<times> 'd) res" where
  "sled_delete S d collection key =
     bindR (sled_tree S d collection) (\<lambda>t.
     let (r, d') = sl_remove S d t (str_bytes key)
     in Ok (case r of Some (Some _) \<Rightarrow> True | _ \<Rightarrow> False, d'))"

definition sled_entries ::
  "'d sled \<Rightarrow> 'k aead \<Rightarrow> 'k option \<Rightarrow> 'd \<Rightarrow> string \<Rightarrow> (string \<times> bytes) list res" where
  "sled_entries S A cipher d collection =
     bindR (sled_tree S d collection) (\<lambda>t.
     Ok (List.map_filter (\<lambda>(k, v).
            Option.bind (from_utf8 k) (\<lambda>key.
            Option.bind (sled_decode A cipher v) (\<lambda>val. Some (key, val))))
         (List.map_filter (\<lambda>r. r) (sl_iter S d t))))"

definition sled_backend :: "'d sled \<Rightarrow> 'k aead \<Rightarrow> 'k option \<Rightarrow> 'd backend" where
  "sled_backend S A cipher =
     \<lparr>bk_get = sled_get S A cipher, bk_set = sled_set S A cipher,
      bk_delete = sled_delete S, bk_entries = sled_entries S A cipher\<rparr>"

subsection \<open>Documented behaviour of the third-party layers\<close>

text \<open>
  \<open>sled\<close> without I/O errors: every tree is an ordered map, the trees are independent, and
  \<open>iter\<close> yields the entries in key order.
\<close>

definition sled_laws :: "'d sled \<Rightarrow> bool" where
  "sled_laws S \<longleftrightarrow>
     (\<forall>d t. sl_open S d t) \<and>
     (\<forall>d t k. sl_get S d t k \<noteq> None) \<and>
     (\<forall>d t k v t' k'. sl_get S (sl_insert S d t k v) t' k' =
        (if t' = t \<and> k' = k then Some (Some v) else sl_get S d t' k')) \<and>
     (\<forall>d t k. fst (sl_remove S d t k) = sl_get S d t k) \<and>
     (\<forall>d t k t' k'. sl_get S (snd (sl_remove S d t k)) t' k' =
        (if t' = t \<and> k' = k then Some None else sl_get S d t' k')) \<and>
     (\<forall>d t. \<exists>kvs. sl_iter S d t = map Some kvs \<and> sorted_wrt (<) (map fst kvs) \<and>
        (\<forall>k v. (k, v) \<in> set kvs \<longleftrightarrow> sl_get S d t k = Some (Some v)))"

text \<open>The cipher decrypts what it encrypted, and its output carries a tag.\<close>

definition aead_laws :: "'k aead \<Rightarrow> 'k option \<Rightarrow> bool" where
  "aead_laws A cipher \<longleftrightarrow>
     (case cipher of
        None \<Rightarrow> True
      | Some k \<Rightarrow>
          \<forall>n p. length n = NONCE_LEN \<longrightarrow>
            (\<exists>ct. aead_encrypt A k n p = Some ct \<and> ct \<noteq> [] \<and> aead_decrypt A k n ct = Some p))"

text \<open>
  \<open>serde_json\<close> reads back what it wrote, for the values that the \<open>Deserialize\<close> of their type
  accepts: those of \<open>schema.rs\<close> refuse a string that is not hexadecimal of the right length and a
  vector that is too long.
\<close>

definition codec_laws :: "('v \<Rightarrow> bool) \<Rightarrow> 'v codec \<Rightarrow> bool" where
  "codec_laws valid J \<longleftrightarrow> (\<forall>v. valid v \<longrightarrow> (\<exists>b. to_vec J v = Some b \<and> from_slice J b = Some v))"

lemma sled_decode_encode:
  assumes "aead_laws A cipher" and "length rnd = NONCE_LEN"
  shows "\<exists>enc. sled_encode A cipher rnd p = Ok enc \<and> sled_decode A cipher enc = Some p"
proof (cases cipher)
  case None
  then show ?thesis by (simp add: sled_encode_def sled_decode_def)
next
  case (Some k)
  then obtain ct where "aead_encrypt A k rnd p = Some ct" "ct \<noteq> []" "aead_decrypt A k rnd ct = Some p"
    using assms by (auto simp: aead_laws_def)
  then show ?thesis using Some assms(2) by (simp add: sled_encode_def sled_decode_def)
qed

end
