(* ===== verification/Ratelimit.thy ===== *)
theory Ratelimit
  imports Prelude
begin

text \<open>
  \<open>pomade-signer-rust/src/ratelimit.rs\<close>: the per-key attempt bucket.  Every call of the clock
  is an argument.  The \<open>u32\<close> and \<open>u64\<close> additions wrap, as in the release build; the lemmas
  below show that the attempt counter never reaches its bound, because the signer records an
  attempt only when the bucket is not limited.
\<close>

record rate_limit_bucket =
  b_attempts :: u32
  b_first_attempt :: u64
  b_last_attempt :: u64

record rate_limit_config =
  max_attempts :: u32
  window_seconds :: u64

definition is_rate_limited :: "u64 \<Rightarrow> rate_limit_bucket option \<Rightarrow> rate_limit_config \<Rightarrow> bool" where
  "is_rate_limited now bucket config =
     (case bucket of
        None \<Rightarrow> False
      | Some b \<Rightarrow>
          (let window_start = saturating_sub now (window_seconds config)
           in b_last_attempt b \<ge> window_start \<and> b_attempts b \<ge> max_attempts config))"

definition record_attempt ::
  "u64 \<Rightarrow> rate_limit_bucket option \<Rightarrow> rate_limit_config \<Rightarrow> rate_limit_bucket" where
  "record_attempt current bucket config =
     (let window_start = saturating_sub current (window_seconds config);
          fresh = \<lparr>b_attempts = 1, b_first_attempt = current, b_last_attempt = current\<rparr>
      in case bucket of
           Some b \<Rightarrow>
             if b_last_attempt b \<ge> window_start
             then \<lparr>b_attempts = b_attempts b + 1, b_first_attempt = b_first_attempt b,
                   b_last_attempt = current\<rparr>
             else fresh
         | None \<Rightarrow> fresh)"

text \<open>\<open>now2\<close> is the second reading of the clock.\<close>

definition get_rate_limit_reset_time ::
  "u64 \<Rightarrow> u64 \<Rightarrow> rate_limit_bucket option \<Rightarrow> rate_limit_config \<Rightarrow> u64" where
  "get_rate_limit_reset_time now1 now2 bucket config =
     (case bucket of
        None \<Rightarrow> 0
      | Some b \<Rightarrow>
          (let window_start = saturating_sub now1 (window_seconds config)
           in if b_last_attempt b < window_start then 0
              else (let reset = b_first_attempt b + window_seconds config
                    in saturating_sub reset now2)))"

text \<open>The two policies of \<open>signer.rs\<close>.\<close>

definition CLIENT_RATE_LIMITS :: rate_limit_config where
  "CLIENT_RATE_LIMITS = \<lparr>max_attempts = 500, window_seconds = 60\<rparr>"

definition EMAIL_RATE_LIMITS :: rate_limit_config where
  "EMAIL_RATE_LIMITS = \<lparr>max_attempts = 5, window_seconds = 120\<rparr>"

subsection \<open>A guarded attempt\<close>

text \<open>
  The pattern both callers follow: refuse when the bucket is limited, record otherwise.  The
  clock is read once for each of the two calls.
\<close>

definition attempt ::
  "rate_limit_config \<Rightarrow> u64 \<Rightarrow> u64 \<Rightarrow> rate_limit_bucket option \<Rightarrow> bool \<times> rate_limit_bucket option"
where
  "attempt config now1 now2 bucket =
     (if is_rate_limited now1 bucket config then (False, bucket)
      else (True, Some (record_attempt now2 bucket config)))"

text \<open>Attempts let through in the closed interval of the policy's length that starts at \<open>a\<close>.\<close>

definition in_window :: "rate_limit_config \<Rightarrow> nat \<Rightarrow> u64 list \<Rightarrow> u64 list" where
  "in_window config a ts = filter (\<lambda>t. a \<le> unat t \<and> unat t \<le> a + unat (window_seconds config)) ts"

text \<open>The counter of a bucket stays within the policy's bound, so it never wraps.\<close>

definition bucket_ok :: "rate_limit_config \<Rightarrow> rate_limit_bucket option \<Rightarrow> bool" where
  "bucket_ok config bucket \<longleftrightarrow>
     (case bucket of None \<Rightarrow> True
      | Some b \<Rightarrow> 0 < b_attempts b \<and> b_attempts b \<le> max_attempts config)"

text \<open>
  What a bucket says about the times recorded up to \<open>l\<close>: no window holds more than the policy
  allows, an absent bucket has only times out of reach, and the counter of a bucket covers every
  time within reach of its last attempt.
\<close>

definition window_inv ::
  "rate_limit_config \<Rightarrow> rate_limit_bucket option \<Rightarrow> u64 list \<Rightarrow> u64 \<Rightarrow> bool" where
  "window_inv config bucket log l \<longleftrightarrow>
     (\<forall>t \<in> set log. t \<le> l) \<and>
     (\<forall>a. length (in_window config a log) \<le> unat (max_attempts config)) \<and>
     (case bucket of
        None \<Rightarrow> \<forall>t \<in> set log. unat t + unat (window_seconds config) < unat l
      | Some b \<Rightarrow>
          b_last_attempt b \<le> l \<and> (\<forall>t \<in> set log. t \<le> b_last_attempt b) \<and> bucket_ok config bucket \<and>
          length (filter (\<lambda>t. unat (b_last_attempt b) \<le> unat t + unat (window_seconds config)) log)
            \<le> unat (b_attempts b))"

lemma less_saturating_sub:
  "b < saturating_sub t w \<longleftrightarrow> unat b + unat w < unat t"
  by (auto simp: word_less_nat_alt unat_saturating_sub)

lemma saturating_sub_le:
  "saturating_sub t w \<le> b \<longleftrightarrow> unat t \<le> unat b + unat w"
  by (auto simp: word_le_nat_alt unat_saturating_sub)

lemma window_inv_open: "window_inv config None [] l"
  by (simp add: window_inv_def in_window_def)

lemma window_inv_bound:
  "window_inv config bucket log l \<Longrightarrow> length (in_window config a log) \<le> unat (max_attempts config)"
  by (simp add: window_inv_def)

lemma window_inv_later:
  assumes "window_inv config bucket log l" and "l \<le> l'"
  shows "window_inv config bucket log l'"
  using assms order_trans [of _ l l']
  by (auto simp: window_inv_def word_le_nat_alt split: option.splits)

lemma length_filter_mono:
  assumes "\<And>x. x \<in> set xs \<Longrightarrow> P x \<Longrightarrow> Q x"
  shows "length (filter P xs) \<le> length (filter Q xs)"
  using assms by (induction xs) auto

text \<open>The clean-up drops a bucket only when its last attempt is out of reach.\<close>

lemma window_inv_purge:
  assumes inv: "window_inv config (Some b) log l" and le: "l \<le> t"
    and old: "b_last_attempt b < saturating_sub t (window_seconds config)"
  shows "window_inv config None log t"
proof -
  have "unat s + unat (window_seconds config) < unat t" if "s \<in> set log" for s
  proof -
    have "unat s \<le> unat (b_last_attempt b)"
      using inv that by (simp add: window_inv_def word_le_nat_alt)
    then show ?thesis using old by (simp add: less_saturating_sub)
  qed
  moreover have "\<forall>s \<in> set log. s \<le> t"
    using inv le by (auto simp: window_inv_def)
  ultimately show ?thesis using inv by (simp add: window_inv_def)
qed

text \<open>What the guard relies on: a policy whose bound is positive and leaves the counter room.\<close>

locale rate_policy =
  fixes config :: rate_limit_config
  assumes max_pos: "0 < max_attempts config"
    and max_room: "unat (max_attempts config) < 2 ^ 32 - 1"
begin

lemma record_in_window:
  assumes "bucket_ok config (Some b)" and "\<not> is_rate_limited t1 (Some b) config"
    and "t1 \<le> t2" and "saturating_sub t2 (window_seconds config) \<le> b_last_attempt b"
  shows "record_attempt t2 (Some b) config =
      b\<lparr>b_attempts := b_attempts b + 1, b_last_attempt := t2\<rparr>"
    and "unat (b_attempts b + 1) = unat (b_attempts b) + 1"
    and "unat (b_attempts b) < unat (max_attempts config)"
proof -
  have "saturating_sub t1 (window_seconds config) \<le> b_last_attempt b"
    using assms(3) assms(4) [unfolded saturating_sub_le]
    unfolding saturating_sub_le by (simp add: word_le_nat_alt)
  then show lt: "unat (b_attempts b) < unat (max_attempts config)"
    using assms(2) by (auto simp: is_rate_limited_def Let_def not_le word_less_nat_alt)
  then have "unat (b_attempts b) + unat (1::u32) < 2 ^ LENGTH(32)"
    using max_room by simp
  then show "unat (b_attempts b + 1) = unat (b_attempts b) + 1"
    unfolding unat_plus_if' by simp
  show "record_attempt t2 (Some b) config = b\<lparr>b_attempts := b_attempts b + 1, b_last_attempt := t2\<rparr>"
    using assms(4) by (cases b) (simp add: record_attempt_def Let_def)
qed

lemma record_fresh:
  assumes "b_last_attempt b < saturating_sub t2 (window_seconds config)"
  shows "record_attempt t2 (Some b) config =
    \<lparr>b_attempts = 1, b_first_attempt = t2, b_last_attempt = t2\<rparr>"
  using assms by (simp add: record_attempt_def Let_def flip: not_le)

lemma one_le: "1 \<le> unat (max_attempts config)"
  using max_pos by (simp add: word_less_nat_alt Suc_le_eq)

lemma bucket_ok_attempt:
  assumes "bucket_ok config bucket" and "t1 \<le> t2"
  shows "bucket_ok config (snd (attempt config t1 t2 bucket))"
proof (cases "is_rate_limited t1 bucket config")
  case True
  then show ?thesis using assms(1) by (simp add: attempt_def)
next
  case False
  have one: "(1::u32) \<le> max_attempts config" using one_le by (simp add: word_le_nat_alt)
  show ?thesis
  proof (cases bucket)
    case None
    then show ?thesis using False one
      by (simp add: attempt_def bucket_ok_def record_attempt_def Let_def)
  next
    case (Some b)
    show ?thesis
    proof (cases "saturating_sub t2 (window_seconds config) \<le> b_last_attempt b")
      case True
      note rec = record_in_window [OF assms(1) [unfolded Some] False [unfolded Some] assms(2) True]
      show ?thesis using False rec
        by (simp add: attempt_def Some bucket_ok_def word_le_nat_alt word_less_nat_alt)
    next
      case outside: False
      then show ?thesis using False one record_fresh [of b t2]
        by (simp add: attempt_def Some bucket_ok_def)
    qed
  qed
qed

text \<open>Recording an attempt that was let through.\<close>

lemma in_window_snoc:
  assumes "\<And>s. s \<in> set log \<Longrightarrow> s \<le> t"
    and "length (filter (\<lambda>s. unat t \<le> unat s + unat (window_seconds config)) log) < unat (max_attempts config)"
    and "\<And>a. length (in_window config a log) \<le> unat (max_attempts config)"
  shows "length (in_window config a (log @ [t])) \<le> unat (max_attempts config)"
proof (cases "a \<le> unat t \<and> unat t \<le> a + unat (window_seconds config)")
  case True
  then have "length (in_window config a log) \<le>
      length (filter (\<lambda>s. unat t \<le> unat s + unat (window_seconds config)) log)"
    unfolding in_window_def by (intro length_filter_mono) linarith
  then show ?thesis using assms(2) True by (simp add: in_window_def)
next
  case False
  then show ?thesis using assms(3) [of a] by (auto simp: in_window_def)
qed

lemma window_inv_record:
  assumes inv: "window_inv config bucket log l" and free: "\<not> is_rate_limited t1 bucket config"
    and le: "l \<le> t1" "t1 \<le> t2"
  shows "window_inv config (Some (record_attempt t2 bucket config)) (log @ [t2]) t2"
proof -
  let ?w = "unat (window_seconds config)" and ?b = "record_attempt t2 bucket config"
  let ?near = "length (filter (\<lambda>s. unat t2 \<le> unat s + ?w) log)"
  have below: "s \<le> t2" if "s \<in> set log" for s
    using inv that le by (auto simp: window_inv_def)
  have last: "b_last_attempt ?b = t2" by (simp add: record_attempt_def Let_def split: option.splits)
  have old: "bucket_ok config bucket"
    using inv by (cases bucket) (simp_all add: window_inv_def bucket_ok_def)
  have ok: "bucket_ok config (Some ?b)"
    using bucket_ok_attempt [OF old le(2)] free by (simp add: attempt_def)
  have near: "?near + 1 \<le> unat (b_attempts ?b) \<and> ?near < unat (max_attempts config)"
  proof (cases "\<exists>b. bucket = Some b \<and> saturating_sub t2 (window_seconds config) \<le> b_last_attempt b")
    case True
    then obtain b where b: "bucket = Some b" "saturating_sub t2 (window_seconds config) \<le> b_last_attempt b"
      by blast
    note rec = record_in_window [OF old [unfolded b] free [unfolded b(1)] le(2) b(2)]
    have "b_last_attempt b \<le> t2" using inv b(1) le by (auto simp: window_inv_def)
    then have "?near \<le> length (filter (\<lambda>s. unat (b_last_attempt b) \<le> unat s + ?w) log)"
      by (intro length_filter_mono) (simp add: word_le_nat_alt)
    then have "?near \<le> unat (b_attempts b)" using inv b(1) by (simp add: window_inv_def)
    then show ?thesis using rec b(1) by simp
  next
    case False
    have "unat s + ?w < unat t2" if "s \<in> set log" for s
    proof (cases bucket)
      case None
      then have "unat s + ?w < unat l" using inv that by (simp add: window_inv_def)
      then show ?thesis using le by (simp add: word_le_nat_alt)
    next
      case (Some b)
      then have "\<not> saturating_sub t2 (window_seconds config) \<le> b_last_attempt b" using False by simp
      then have "unat (b_last_attempt b) + ?w < unat t2" by (simp add: saturating_sub_le)
      moreover have "unat s \<le> unat (b_last_attempt b)"
        using inv that Some by (simp add: window_inv_def word_le_nat_alt)
      ultimately show ?thesis by linarith
    qed
    then have "filter (\<lambda>s. unat t2 \<le> unat s + ?w) log = []"
      by (auto simp: filter_empty_conv not_le)
    moreover have "1 \<le> unat (b_attempts ?b)"
      using ok by (simp add: bucket_ok_def word_less_nat_alt Suc_le_eq)
    ultimately show ?thesis using one_le by simp
  qed
  have "length (in_window config a (log @ [t2])) \<le> unat (max_attempts config)" for a
    using in_window_snoc [OF below conjunct2 [OF near]] window_inv_bound [OF inv] by blast
  then show ?thesis
    using below near ok last by (auto simp: window_inv_def)
qed

end

interpretation client_policy: rate_policy CLIENT_RATE_LIMITS
  by unfold_locales (simp_all add: CLIENT_RATE_LIMITS_def)

interpretation email_policy: rate_policy EMAIL_RATE_LIMITS
  by unfold_locales (simp_all add: EMAIL_RATE_LIMITS_def)

end
