(* ===== verification/Session.thy ===== *)
theory Session
  imports Signer_Externals Sign Ecdh
begin

text \<open>
  \<open>pomade-signer-rust/src/session.rs\<close>: the bridge from the hexadecimal wire types to
  \<open>frost-taproot\<close>.  A function of the file that shares its name with one of the
  \<open>frost-taproot\<close> crate has the prefix \<open>s_\<close> here.
\<close>

definition num_to_bytes_be_varwidth :: "u32 \<Rightarrow> bytes" where
  "num_to_bytes_be_varwidth n =
     (if n \<le> 0xFF then [ucast n]
      else if n \<le> 0xFFFF then be_bytes 2 (unat n)
      else u32_be n)"

text \<open>The text of the \<open>Err\<close> of \<open>decode32\<close> and \<open>decode33\<close> is never used.\<close>

definition decode32 :: "('s, 'p, 'z) s_externals_scheme \<Rightarrow> string \<Rightarrow> bytes option" where
  "decode32 E s = Option.bind (hex_decode E s) (\<lambda>b. if length b = 32 then Some b else None)"

definition decode33 :: "('s, 'p, 'z) s_externals_scheme \<Rightarrow> string \<Rightarrow> bytes option" where
  "decode33 E s = Option.bind (hex_decode E s) (\<lambda>b. if length b = 33 then Some b else None)"

definition encode32 :: "('s, 'p, 'z) s_externals_scheme \<Rightarrow> bytes \<Rightarrow> string" where
  "encode32 E b = hex_encode E b"

definition encode33 :: "('s, 'p, 'z) s_externals_scheme \<Rightarrow> bytes \<Rightarrow> string" where
  "encode33 E b = hex_encode E b"

definition s_is_group_member ::
  "('s::field, 'p::ab_group_add, 'z) s_externals_scheme \<Rightarrow> sgroup \<Rightarrow> sshare \<Rightarrow> bool res" where
  "s_is_group_member E grp share =
     (case decode32 E (sh_seckey share) of
        None \<Rightarrow> Ok False
      | Some seckey \<Rightarrow>
          bindR (get_pubkey E seckey) (\<lambda>pubkey.
          let pubkey_hex = encode33 E pubkey
          in Ok (list_ex (\<lambda>c. c_idx c = sh_idx share \<and> c_pubkey c = pubkey_hex) (g_commits grp))))"

text \<open>Feeding the hasher the decodable entries of a list of hexadecimal strings.\<close>

definition hex_concat :: "('s, 'p, 'z) s_externals_scheme \<Rightarrow> string list \<Rightarrow> bytes" where
  "hex_concat E hs = concat (List.map_filter (hex_decode E) hs)"

definition get_sighash_binder ::
  "('s, 'p, 'z) s_externals_scheme \<Rightarrow> bytes \<Rightarrow> u32 \<Rightarrow> hex32 list \<Rightarrow> bytes" where
  "get_sighash_binder E session_id member_idx sigvec =
     sha256 E (session_id @ u32_be member_idx @ hex_concat E sigvec)"

definition tweak_pnonce ::
  "('s::field, 'p::ab_group_add, 'z) s_externals_scheme \<Rightarrow> u32 \<Rightarrow> string \<Rightarrow> string \<Rightarrow> bytes \<Rightarrow>
   hex32 list \<Rightarrow> public_nonce res" where
  "tweak_pnonce E idx hidden_hex binder_hex session_id sigvec =
     (let bind_hash = get_sighash_binder E session_id idx sigvec
      in bindR (ok_or (decode33 E hidden_hex) InvalidPoint) (\<lambda>hd33.
         bindR (tweak_pubkey E hd33 bind_hash) (\<lambda>hidden.
         bindR (ok_or (decode33 E binder_hex) InvalidPoint) (\<lambda>bd33.
         bindR (tweak_pubkey E bd33 bind_hash) (\<lambda>binder.
         Ok \<lparr>pn_idx = idx, binder_pn = binder, hidden_pn = hidden\<rparr>)))))"

record ('s, 'p) sighash_ctx =
  sx_sighash :: bytes
  sx_ctx :: "('s, 'p) group_signing_ctx"

record base_pnonce =
  bp_idx :: u32
  bp_hidden_pn :: string
  bp_binder_pn :: string

text \<open>
  The loop runs over the single sighash vector of the request.  \<open>hashes[0]\<close> panics on an empty
  vector; a public nonce that cannot be tweaked is dropped by the \<open>filter_map\<close>.
\<close>

definition build_sighash_contexts_from_pnonces ::
  "('s::field, 'p::ab_group_add, 'z) s_externals_scheme \<Rightarrow> sgroup \<Rightarrow> sign_complete_inner \<Rightarrow> bytes \<Rightarrow>
   base_pnonce list \<Rightarrow> ('s, 'p) sighash_ctx list res" where
  "build_sighash_contexts_from_pnonces E grp request session_id base =
     bindR (ok_or (decode33 E (g_group_pk grp)) InvalidPoint) (\<lambda>group_pk.
     mapR (\<lambda>hashes.
       (case hashes of
          [] \<Rightarrow> Panic
        | h0 # hs \<Rightarrow>
            bindR (ok_or (decode32 E h0) InvalidPoint) (\<lambda>sighash.
            let tweaks = List.map_filter (decode32 E) hs
            in bindR (filter_mapR (\<lambda>pn. tweak_pnonce E (bp_idx pn) (bp_hidden_pn pn) (bp_binder_pn pn)
                   session_id hashes) base) (\<lambda>pnonces.
               bindR (get_group_signing_ctx E group_pk pnonces sighash tweaks) (\<lambda>ctx.
               Ok \<lparr>sx_sighash = sighash, sx_ctx = ctx\<rparr>))))) [sci_hash request])"

definition s_compute_group_id :: "('s, 'p, 'z) s_externals_scheme \<Rightarrow> sgroup \<Rightarrow> bytes" where
  "s_compute_group_id E grp =
     (let sorted = sort_key c_idx (g_commits grp);
          prefx = concat (map (\<lambda>c.
            (replicate 28 0 @ u32_be (c_idx c)) @
            hex_concat E [c_hidden_pn c] @ hex_concat E [c_binder_pn c]) sorted)
      in sha256 E (prefx @ hex_concat E [g_group_pk grp]))"

definition s_compute_session_id ::
  "('s, 'p, 'z) s_externals_scheme \<Rightarrow> sgroup \<Rightarrow> sign_complete_inner \<Rightarrow> bytes" where
  "s_compute_session_id E grp request =
     (let group_id = s_compute_group_id E grp
      in sha256 E
           (group_id @
            concat (map num_to_bytes_be_varwidth (sci_members request)) @
            hex_concat E (sci_hash request) @
            (case sci_content request of Some content \<Rightarrow> hex_concat E [content] | None \<Rightarrow> [0]) @
            str_bytes (sci_kind request) @
            u32_be (ucast (sci_stamp request))))"

definition verify_session_pkg ::
  "('s, 'p, 'z) s_externals_scheme \<Rightarrow> sgroup \<Rightarrow> sign_complete_inner \<Rightarrow> bool" where
  "verify_session_pkg E grp request =
     (let gid = s_compute_group_id E grp;
          sid = s_compute_session_id E grp request
      in hex_encode E gid = sci_gid request \<and> hex_encode E sid = sci_sid request)"

definition tweak_secret_nonce ::
  "('s::field, 'p::ab_group_add, 'z) s_externals_scheme \<Rightarrow> secret_nonce \<Rightarrow> bytes \<Rightarrow> hex32 list \<Rightarrow>
   secret_nonce" where
  "tweak_secret_nonce E secret session_id sigvec =
     (let bind_hash = get_sighash_binder E session_id (sn_idx secret) sigvec
      in \<lparr>sn_idx = sn_idx secret,
          binder_sn = tweak_seckey E (binder_sn secret) bind_hash,
          hidden_sn = tweak_seckey E (hidden_sn secret) bind_hash\<rparr>)"

definition base_of_item :: "public_nonce_item \<Rightarrow> base_pnonce" where
  "base_of_item pn =
     \<lparr>bp_idx = pni_idx pn, bp_hidden_pn = pni_hidden_pn pn, bp_binder_pn = pni_binder_pn pn\<rparr>"

definition create_psig_pkg_with_nonce ::
  "('s::field, 'p::ab_group_add, 'z) s_externals_scheme \<Rightarrow> sgroup \<Rightarrow> sign_complete_inner \<Rightarrow> sshare \<Rightarrow>
   secret_nonce \<Rightarrow> public_nonce_item list \<Rightarrow> sign_complete_result res" where
  "create_psig_pkg_with_nonce E grp request share secret pnonces =
     (let session_id = s_compute_session_id E grp request;
          base = map base_of_item pnonces
      in bindR (build_sighash_contexts_from_pnonces E grp request session_id base) (\<lambda>ctxs.
         bindR (ok_or (decode32 E (sh_seckey share)) InvalidPoint) (\<lambda>seckey.
         bindR (get_pubkey E seckey) (\<lambda>pubkey.
         let secret_share = \<lparr>ss_idx = sh_idx share, ss_seckey = seckey\<rparr>
         in bindR (mapR (\<lambda>sc.
                let snonce = tweak_secret_nonce E secret session_id (sci_hash request)
                in bindR (sign_msg E (sx_ctx sc) secret_share snonce) (\<lambda>sig.
                   Ok (hex_encode E (sx_sighash sc), hex_encode E (sg_psig sig)))) ctxs) (\<lambda>psigs.
            bindR (ok_or (case psigs of [] \<Rightarrow> None | p # _ \<Rightarrow> Some p) InvalidPoint) (\<lambda>psig.
            Ok \<lparr>sr_idx = sh_idx share, sr_psig = psig, sr_pubkey = encode33 E pubkey,
                 sr_sid = hex_encode E session_id\<rparr>))))))"

definition GENERATOR_X :: string where
  "GENERATOR_X = ''79be667ef9dcbbac55a06295ce870b07029bfcdb2dce28d959f2815b16f81798''"

definition s_create_ecdh_pkg ::
  "('s::field, 'p::ab_group_add, 'z) s_externals_scheme \<Rightarrow> ecdh_request \<Rightarrow> sshare \<Rightarrow>
   ecdh_result res" where
  "s_create_ecdh_pkg E request share =
     (if eq_ecdh_pk request = GENERATOR_X then Err InvalidPoint
      else bindR (ok_or (decode32 E (sh_seckey share)) InvalidPoint) (\<lambda>seckey.
         bindR (ok_or (decode32 E (eq_ecdh_pk request)) InvalidPoint) (\<lambda>ecdh_pk.
         let secret_share = \<lparr>ss_idx = sh_idx share, ss_seckey = seckey\<rparr>;
             members = eq_members request
         in bindR (create_ecdh_share E members secret_share ecdh_pk) (\<lambda>ecdh_share.
            Ok \<lparr>er_idx = ps_idx ecdh_share, er_keyshare = encode33 E (ps_pubkey ecdh_share),
                 er_members = members, er_ecdh_pk = eq_ecdh_pk request\<rparr>))))"

end
