(* ===== verification/Pow.thy ===== *)
theory Pow
  imports Prelude
begin

text \<open>
  \<open>pomade-signer-rust/src/pow.rs\<close>: the proof of work of an event id is the number of leading
  zero bits.  \<open>leading_zeros\<close> is the integer method of the standard library, here on a number
  of \<open>n\<close> bits.
\<close>

primrec leading_zeros :: "nat \<Rightarrow> nat \<Rightarrow> nat" where
  "leading_zeros 0 x = 0"
| "leading_zeros (Suc n) x = (if 2 ^ n \<le> x then 0 else Suc (leading_zeros n x))"

text \<open>The loop of \<open>get_pow\<close>: a zero byte continues it, any other byte ends it.\<close>

fun get_pow_loop :: "u32 \<Rightarrow> bytes \<Rightarrow> u32" where
  "get_pow_loop cnt [] = cnt"
| "get_pow_loop cnt (byt # rest) =
     (if byt = 0 then get_pow_loop (cnt + 8) rest
      else cnt + of_nat (leading_zeros 8 (unat byt)))"

definition get_pow :: "bytes \<Rightarrow> u32" where
  "get_pow ident = get_pow_loop 0 ident"

subsection \<open>Leading zeros as a magnitude\<close>

lemma leading_zeros_le: "leading_zeros n x \<le> n"
  by (induction n) auto

lemma leading_zeros_ge_iff: "k \<le> n \<Longrightarrow> x < 2 ^ n \<Longrightarrow> k \<le> leading_zeros n x \<longleftrightarrow> x < 2 ^ (n - k)"
proof (induction n arbitrary: k)
  case 0
  then show ?case by simp
next
  case (Suc n)
  show ?case
  proof (cases k)
    case 0
    then show ?thesis using Suc.prems by simp
  next
    case (Suc j)
    show ?thesis
    proof (cases "2 ^ n \<le> x")
      case True
      have "(2::nat) ^ (n - j) \<le> 2 ^ n" by (simp add: power_increasing)
      then have "\<not> x < 2 ^ (n - j)" using True by linarith
      then show ?thesis using True \<open>k = Suc j\<close> by simp
    next
      case False
      then show ?thesis using Suc.IH [of j] Suc.prems(1) \<open>k = Suc j\<close> by simp
    qed
  qed
qed

lemma leading_zeros_add:
  "leading_zeros (m + n) x =
     (if x < 2 ^ n then m + leading_zeros n x else leading_zeros m (x div 2 ^ n))"
proof (induction m)
  case 0
  show ?case by (induction n) auto
next
  case (Suc m)
  have "2 ^ m \<le> x div 2 ^ n \<longleftrightarrow> 2 ^ (m + n) \<le> x"
    by (simp add: less_eq_div_iff_mult_less_eq power_add)
  moreover have "x < 2 ^ n \<Longrightarrow> \<not> 2 ^ (m + n) \<le> x"
    using power_increasing [of n "m + n" "2::nat"] by linarith
  ultimately show ?case using Suc.IH by auto
qed

lemma leading_zeros_zero: "leading_zeros n 0 = n"
  by (induction n) auto

lemma get_pow_loop_eq:
  "get_pow_loop cnt bs = cnt + of_nat (leading_zeros (8 * length bs) (be_nat bs))"
proof (induction bs arbitrary: cnt)
  case Nil
  then show ?case by simp
next
  case (Cons b bs)
  let ?n = "8 * length bs"
  have bound: "be_nat bs < 2 ^ ?n"
    using be_nat_bound [of bs] by (simp add: power_mult)
  have val: "be_nat (b # bs) = unat b * 2 ^ ?n + be_nat bs"
    using be_nat_append [of "[b]" bs] be_nat_snoc [of "[]" b] by (simp add: power_mult)
  have len: "8 * length (b # bs) = 8 + ?n" by simp
  show ?case
  proof (cases "b = 0")
    case True
    then show ?thesis
      using bound Cons.IH [of "cnt + 8"] unfolding len leading_zeros_add val by simp
  next
    case False
    then have "0 < unat b" by (simp add: unat_gt_0)
    then have ge: "2 ^ ?n \<le> unat b * 2 ^ ?n" by simp
    then have "\<not> unat b * 2 ^ ?n + be_nat bs < 2 ^ ?n" by linarith
    moreover have "(unat b * 2 ^ ?n + be_nat bs) div 2 ^ ?n = unat b"
      using bound by simp
    ultimately show ?thesis using False unfolding len leading_zeros_add val by simp
  qed
qed

text \<open>The proof of work is at least \<open>k\<close> bits exactly when the id is below \<open>2 ^ (256 - k)\<close>.\<close>

lemma unat_get_pow:
  assumes "length ident = 32"
  shows "unat (get_pow ident) = leading_zeros 256 (be_nat ident)"
proof -
  have "leading_zeros 256 (be_nat ident) < 2 ^ 32"
    using leading_zeros_le [of 256 "be_nat ident"] by (rule le_less_trans) simp
  then have "unat (of_nat (leading_zeros 256 (be_nat ident)) :: u32) = leading_zeros 256 (be_nat ident)"
    by (simp add: unat_of_nat take_bit_nat_eq_self)
  then show ?thesis using assms by (simp add: get_pow_def get_pow_loop_eq)
qed

end
