(* ===== verification/Mailer.thy ===== *)
theory Mailer
  imports Prelude
begin

text \<open>
  \<open>pomade-signer-rust/src/mailer.rs\<close> and the modules of \<open>mailer/\<close>: the mails of the signer and
  the requests each provider gets.  The HTTP client of \<open>reqwest\<close> and the transport of \<open>lettre\<close>
  are the fields of \<open>transports\<close>; what the code makes of a mail and of their answer is modelled.
\<close>

record mail =
  ml_to :: string
  ml_subject :: string
  ml_text :: string
  ml_html :: string

text \<open>\<open>MailResult\<close>.\<close>

type_synonym mail_result = "string + unit"

subsection \<open>Requests\<close>

text \<open>The values of the \<open>json!\<close> macro; the members of an object in the order the source writes
  them, which carries no meaning.\<close>

datatype json = JStr string | JArr "json list" | JObj "(string \<times> json) list"

datatype http_auth = Bearer string | Basic string string | Header string string

datatype http_body = JsonBody json | FormBody "(string \<times> string) list"

record http_request =
  hr_url :: string
  hr_auth :: http_auth
  hr_body :: http_body

record http_response =
  hs_code :: nat
  hs_status :: string

definition is_success :: "http_response \<Rightarrow> bool" where
  "is_success res \<longleftrightarrow> 200 \<le> hs_code res \<and> hs_code res < 300"

record smtp_message =
  sm_from :: string
  sm_to :: string
  sm_subject :: string
  sm_plain :: string
  sm_html :: string

record smtp_relay =
  rl_host :: string
  rl_port :: "16 word"
  rl_credentials :: "(string \<times> string) option"

text \<open>
  \<open>tr_http\<close> posts a request; \<open>tr_mailbox\<close> parses an address, \<open>tr_message\<close> builds a message,
  \<open>tr_starttls\<close> looks the relay up and \<open>tr_smtp\<close> sends.  \<open>Inl\<close> is the text of the error.
\<close>

record transports =
  tr_http :: "http_request \<Rightarrow> string + http_response"
  tr_mailbox :: "string \<Rightarrow> string + string"
  tr_message :: "smtp_message \<Rightarrow> string + smtp_message"
  tr_starttls :: "string \<Rightarrow> string + unit"
  tr_smtp :: "smtp_relay \<Rightarrow> smtp_message \<Rightarrow> string + unit"

text \<open>The end all five HTTP providers share: the request is posted and its status judged.\<close>

definition post :: "transports \<Rightarrow> string \<Rightarrow> http_request \<Rightarrow> mail_result" where
  "post T provider req =
     (case tr_http T req of
        Inl e \<Rightarrow> Inl e
      | Inr res \<Rightarrow>
          if is_success res then Inr () else Inl (provider @ '' error: '' @ hs_status res))"

definition sender :: "string \<Rightarrow> string \<Rightarrow> string" where
  "sender from_email from_name = from_name @ '' <'' @ from_email @ ''>''"

subsection \<open>Providers\<close>

datatype mailgun_region = Us | Eu

definition api_base :: "mailgun_region \<Rightarrow> string" where
  "api_base region =
     (case region of Us \<Rightarrow> ''https://api.mailgun.net/v3'' | Eu \<Rightarrow> ''https://api.eu.mailgun.net/v3'')"

definition mailgun_request ::
  "string \<Rightarrow> string \<Rightarrow> mailgun_region \<Rightarrow> string \<Rightarrow> string \<Rightarrow> mail \<Rightarrow> http_request" where
  "mailgun_request api_key domain_name region from_email from_name email =
     \<lparr>hr_url = api_base region @ ''/'' @ domain_name @ ''/messages'',
      hr_auth = Basic ''api'' api_key,
      hr_body = FormBody
        [(''from'', sender from_email from_name), (''to'', ml_to email),
         (''subject'', ml_subject email), (''text'', ml_text email), (''html'', ml_html email)]\<rparr>"

definition postmark_request :: "string \<Rightarrow> string \<Rightarrow> string \<Rightarrow> mail \<Rightarrow> http_request" where
  "postmark_request api_token from_email from_name email =
     \<lparr>hr_url = ''https://api.postmarkapp.com/email'',
      hr_auth = Header ''X-Postmark-Server-Token'' api_token,
      hr_body = JsonBody (JObj
        [(''From'', JStr (sender from_email from_name)), (''To'', JStr (ml_to email)),
         (''Subject'', JStr (ml_subject email)), (''TextBody'', JStr (ml_text email)),
         (''HtmlBody'', JStr (ml_html email))])\<rparr>"

definition resend_request :: "string \<Rightarrow> string \<Rightarrow> string \<Rightarrow> mail \<Rightarrow> http_request" where
  "resend_request api_key from_email from_name email =
     \<lparr>hr_url = ''https://api.resend.com/emails'', hr_auth = Bearer api_key,
      hr_body = JsonBody (JObj
        [(''from'', JStr (sender from_email from_name)), (''to'', JArr [JStr (ml_to email)]),
         (''subject'', JStr (ml_subject email)), (''text'', JStr (ml_text email)),
         (''html'', JStr (ml_html email))])\<rparr>"

definition sendgrid_request :: "string \<Rightarrow> string \<Rightarrow> string \<Rightarrow> mail \<Rightarrow> http_request" where
  "sendgrid_request api_key from_email from_name email =
     \<lparr>hr_url = ''https://api.sendgrid.com/v3/mail/send'', hr_auth = Bearer api_key,
      hr_body = JsonBody (JObj
        [(''from'', JObj [(''email'', JStr from_email), (''name'', JStr from_name)]),
         (''personalizations'', JArr [JObj [(''to'', JArr [JObj [(''email'', JStr (ml_to email))]])]]),
         (''subject'', JStr (ml_subject email)),
         (''content'', JArr
            [JObj [(''type'', JStr ''text/plain''), (''value'', JStr (ml_text email))],
             JObj [(''type'', JStr ''text/html''), (''value'', JStr (ml_html email))]])])\<rparr>"

definition sendlayer_request :: "string \<Rightarrow> string \<Rightarrow> string \<Rightarrow> mail \<Rightarrow> http_request" where
  "sendlayer_request api_key from_email from_name email =
     \<lparr>hr_url = ''https://console.sendlayer.com/api/v1/email'', hr_auth = Bearer api_key,
      hr_body = JsonBody (JObj
        [(''From'', JObj [(''name'', JStr from_name), (''email'', JStr from_email)]),
         (''To'', JArr [JObj [(''name'', JStr []), (''email'', JStr (ml_to email))]]),
         (''Subject'', JStr (ml_subject email)), (''ContentType'', JStr ''HTML''),
         (''HTMLContent'', JStr (ml_html email)), (''PlainContent'', JStr (ml_text email))])\<rparr>"

subsection \<open>Sending\<close>

definition mailgun_send ::
  "transports \<Rightarrow> string \<Rightarrow> string \<Rightarrow> mailgun_region \<Rightarrow> string \<Rightarrow> string \<Rightarrow> mail \<Rightarrow> mail_result" where
  "mailgun_send T api_key domain_name region from_email from_name email =
     post T ''mailgun'' (mailgun_request api_key domain_name region from_email from_name email)"

definition postmark_send ::
  "transports \<Rightarrow> string \<Rightarrow> string \<Rightarrow> string \<Rightarrow> mail \<Rightarrow> mail_result" where
  "postmark_send T api_token from_email from_name email =
     post T ''postmark'' (postmark_request api_token from_email from_name email)"

definition resend_send ::
  "transports \<Rightarrow> string \<Rightarrow> string \<Rightarrow> string \<Rightarrow> mail \<Rightarrow> mail_result" where
  "resend_send T api_key from_email from_name email =
     post T ''resend'' (resend_request api_key from_email from_name email)"

definition sendgrid_send ::
  "transports \<Rightarrow> string \<Rightarrow> string \<Rightarrow> string \<Rightarrow> mail \<Rightarrow> mail_result" where
  "sendgrid_send T api_key from_email from_name email =
     post T ''sendgrid'' (sendgrid_request api_key from_email from_name email)"

definition sendlayer_send ::
  "transports \<Rightarrow> string \<Rightarrow> string \<Rightarrow> string \<Rightarrow> mail \<Rightarrow> mail_result" where
  "sendlayer_send T api_key from_email from_name email =
     post T ''sendlayer'' (sendlayer_request api_key from_email from_name email)"

text \<open>\<open>SmtpMailer::send\<close>: the two addresses are parsed, the message built, the relay looked up and
  the message sent, in this order; each step has its own error text.\<close>

definition map_err :: "string \<Rightarrow> string + 'a \<Rightarrow> string + 'a" where
  "map_err txt r = (case r of Inl e \<Rightarrow> Inl (txt @ e) | Inr x \<Rightarrow> Inr x)"

definition bindE :: "string + 'a \<Rightarrow> ('a \<Rightarrow> string + 'b) \<Rightarrow> string + 'b" where
  "bindE r f = (case r of Inl e \<Rightarrow> Inl e | Inr x \<Rightarrow> f x)"

definition smtp_send ::
  "transports \<Rightarrow> string \<Rightarrow> 16 word \<Rightarrow> string option \<Rightarrow> string option \<Rightarrow> string \<Rightarrow> string \<Rightarrow> mail \<Rightarrow>
   mail_result" where
  "smtp_send T host port user password from_email from_name email =
     (let credentials = map_option (\<lambda>u. (u, case password of Some p \<Rightarrow> p | None \<Rightarrow> [])) user
      in bindE (map_err ''invalid from address: '' (tr_mailbox T (sender from_email from_name))) (\<lambda>from_box.
         bindE (map_err ''invalid to address: '' (tr_mailbox T (ml_to email))) (\<lambda>to_box.
         bindE (map_err ''failed to build message: '' (tr_message T
           \<lparr>sm_from = from_box, sm_to = to_box, sm_subject = ml_subject email,
            sm_plain = ml_text email, sm_html = ml_html email\<rparr>)) (\<lambda>msg.
         bindE (map_err ''smtp relay error: '' (tr_starttls T host)) (\<lambda>_.
         map_err ''smtp send error: ''
           (tr_smtp T \<lparr>rl_host = host, rl_port = port, rl_credentials = credentials\<rparr> msg))))))"

text \<open>The implementations of the trait \<open>Mailer\<close>.\<close>

datatype mailer =
    Mailgun string string mailgun_region
  | Postmark string
  | Resend string
  | Sendgrid string
  | Sendlayer string
  | Smtp string "16 word" "string option" "string option"

fun send_mail :: "transports \<Rightarrow> mailer \<Rightarrow> string \<Rightarrow> string \<Rightarrow> mail \<Rightarrow> mail_result" where
  "send_mail T (Mailgun api_key dmn region) = mailgun_send T api_key dmn region"
| "send_mail T (Postmark api_token) = postmark_send T api_token"
| "send_mail T (Resend api_key) = resend_send T api_key"
| "send_mail T (Sendgrid api_key) = sendgrid_send T api_key"
| "send_mail T (Sendlayer api_key) = sendlayer_send T api_key"
| "send_mail T (Smtp host port user password) = smtp_send T host port user password"

lemmas http_send_defs =
  mailgun_send_def postmark_send_def resend_send_def sendgrid_send_def sendlayer_send_def

subsection \<open>What a provider is given\<close>

text \<open>The strings of a JSON value.\<close>

fun json_strings :: "json \<Rightarrow> string list" where
  "json_strings (JStr s) = [s]"
| "json_strings (JArr js) = concat (map json_strings js)"
| "json_strings (JObj kvs) = concat (map (\<lambda>kv. json_strings (snd kv)) kvs)"

definition body_strings :: "http_body \<Rightarrow> string list" where
  "body_strings b = (case b of JsonBody j \<Rightarrow> json_strings j | FormBody kvs \<Rightarrow> map snd kvs)"

text \<open>The HTTP request of a provider, none for SMTP.\<close>

fun mail_request :: "mailer \<Rightarrow> string \<Rightarrow> string \<Rightarrow> mail \<Rightarrow> http_request option" where
  "mail_request (Mailgun key dmn region) fe fn email = Some (mailgun_request key dmn region fe fn email)"
| "mail_request (Postmark token) fe fn email = Some (postmark_request token fe fn email)"
| "mail_request (Resend key) fe fn email = Some (resend_request key fe fn email)"
| "mail_request (Sendgrid key) fe fn email = Some (sendgrid_request key fe fn email)"
| "mail_request (Sendlayer key) fe fn email = Some (sendlayer_request key fe fn email)"
| "mail_request (Smtp host port user password) fe fn email = None"

lemma request_carries_mail:
  "mail_request m fe fn email = Some req \<Longrightarrow>
   {ml_to email, ml_subject email, ml_text email, ml_html email} \<subseteq> set (body_strings (hr_body req))"
  by (cases m) (auto simp: body_strings_def mailgun_request_def postmark_request_def resend_request_def
      sendgrid_request_def sendlayer_request_def)

lemma post_Inr: "post T p req = Inr () \<longleftrightarrow> (\<exists>res. tr_http T req = Inr res \<and> is_success res)"
  by (auto simp: post_def split: sum.splits)

lemma send_http:
  "mail_request m fe fn email = Some req \<Longrightarrow>
   send_mail T m fe fn email = Inr () \<longleftrightarrow> (\<exists>res. tr_http T req = Inr res \<and> is_success res)"
  by (cases m) (auto simp: http_send_defs post_Inr)

lemma map_err_Inr [simp]: "map_err txt r = Inr x \<longleftrightarrow> r = Inr x"
  by (auto simp: map_err_def split: sum.splits)

lemma bindE_Inr: "bindE r f = Inr y \<longleftrightarrow> (\<exists>x. r = Inr x \<and> f x = Inr y)"
  by (auto simp: bindE_def split: sum.splits)

lemma send_smtp:
  "send_mail T (Smtp host port user password) fe fn email = Inr () \<longleftrightarrow>
   (\<exists>from_box to_box msg.
      tr_mailbox T (sender fe fn) = Inr from_box \<and> tr_mailbox T (ml_to email) = Inr to_box \<and>
      tr_message T \<lparr>sm_from = from_box, sm_to = to_box, sm_subject = ml_subject email,
        sm_plain = ml_text email, sm_html = ml_html email\<rparr> = Inr msg \<and>
      tr_starttls T host = Inr () \<and>
      tr_smtp T \<lparr>rl_host = host, rl_port = port,
        rl_credentials = map_option (\<lambda>u. (u, case password of Some p \<Rightarrow> p | None \<Rightarrow> [])) user\<rparr> msg = Inr ())"
  by (simp add: smtp_send_def Let_def bindE_Inr)

text \<open>
  A successful send has delivered the mail's text to the mail's address: an HTTP provider accepted a
  request that carries both, or a relay a message with the text for the mailbox of the address.
\<close>

definition delivered :: "transports \<Rightarrow> string \<Rightarrow> string \<Rightarrow> bool" where
  "delivered T address txt \<longleftrightarrow>
     (\<exists>req res. tr_http T req = Inr res \<and> is_success res \<and> {address, txt} \<subseteq> set (body_strings (hr_body req))) \<or>
     (\<exists>relay sm msg. tr_mailbox T address = Inr (sm_to sm) \<and> sm_plain sm = txt \<and>
        tr_message T sm = Inr msg \<and> tr_smtp T relay msg = Inr ())"

lemma send_delivers:
  assumes "send_mail T m fe fn email = Inr ()"
  shows "delivered T (ml_to email) (ml_text email)"
proof (cases "mail_request m fe fn email")
  case None
  then obtain host port user password where m: "m = Smtp host port user password" by (cases m) auto
  obtain from_box to_box msg where sent: "tr_mailbox T (ml_to email) = Inr to_box"
    "tr_message T \<lparr>sm_from = from_box, sm_to = to_box, sm_subject = ml_subject email,
        sm_plain = ml_text email, sm_html = ml_html email\<rparr> = Inr msg"
    "tr_smtp T \<lparr>rl_host = host, rl_port = port,
        rl_credentials = map_option (\<lambda>u. (u, case password of Some p \<Rightarrow> p | None \<Rightarrow> [])) user\<rparr> msg = Inr ()"
    using assms unfolding m send_smtp by blast
  let ?sm = "\<lparr>sm_from = from_box, sm_to = to_box, sm_subject = ml_subject email,
        sm_plain = ml_text email, sm_html = ml_html email\<rparr>"
  show ?thesis
    unfolding delivered_def by (intro disjI2 exI [of _ ?sm] exI [of _ msg] exI) (use sent in auto)
next
  case (Some req)
  then obtain res where "tr_http T req = Inr res" "is_success res"
    using assms send_http by blast
  then show ?thesis
    unfolding delivered_def using request_carries_mail [OF Some] by (intro disjI1 exI [of _ req]) auto
qed

end
