(* ===== verification/Signer_State.thy ===== *)
theory Signer_State
  imports Nostr Storage Ratelimit Session Pow Mailer
begin

text \<open>
  \<open>pomade-signer-rust/src/signer.rs\<close>, lines 30 to 395 and 1222 to 1254: the state of the signer,
  its clean-up, its internal helpers and the utilities.

  A collection is the abstract one of \<open>Storage\<close>; the pending commitments are the map the mutex
  guards.  An operation returns its outcome together with the state it leaves, also when it
  panics.  The clock is a function \<open>clk\<close>: \<open>clk k\<close> is what the program point numbered \<open>k\<close> of the
  call reads.  Mails handed to the mailer are appended to \<open>sv_outbox\<close>.  Of the arguments of
  \<open>log::debug!\<close>, only the slices of attacker-chosen strings are modelled, since they can panic;
  the other slices are of 64 hexadecimal digits.
\<close>

definition MINUTE_SECS :: u64 where "MINUTE_SECS = 60"
definition MONTH_SECS :: u64 where "MONTH_SECS = 30 * 24 * 3600"
definition COMMIT_TTL_SECS :: u64 where "COMMIT_TTL_SECS = 2 * 60"

subsection \<open>Utilities\<close>

text \<open>\<open>fill_bytes\<close> on the four-byte buffer is the argument \<open>buf\<close>; a remainder by zero panics.\<close>

definition random_int :: "bytes \<Rightarrow> u32 \<Rightarrow> u32 \<Rightarrow> u32 res" where
  "random_int buf mn mx =
     (let v = (of_nat (be_nat buf) :: u32)
      in if mx - mn = 0 then Panic else Ok (mn + (v mod (mx - mn))))"

definition random_commit_id :: "('s, 'p, 'z) s_externals_scheme \<Rightarrow> bytes \<Rightarrow> string" where
  "random_commit_id E buf = hex_encode E buf"

definition get_pubkey_compressed ::
  "('s::field, 'p::ab_group_add, 'z) s_externals_scheme \<Rightarrow> bytes \<Rightarrow> bytes res" where
  "get_pubkey_compressed E secret = get_pubkey E secret"

definition hex_to_id :: "('s, 'p, 'z) s_externals_scheme \<Rightarrow> string \<Rightarrow> bytes" where
  "hex_to_id E hx =
     (let b = (case hex_decode E hx of Some b \<Rightarrow> b | None \<Rightarrow> [])
      in if length b = 32 then b else replicate 32 0)"

definition regex_is_hex64 :: "string \<Rightarrow> bool" where
  "regex_is_hex64 s \<longleftrightarrow> length s = 64 \<and> list_all (\<lambda>c. c \<in> set ''0123456789abcdef'') s"

definition ct_str_eq :: "string \<Rightarrow> string \<Rightarrow> bool" where
  "ct_str_eq a b \<longleftrightarrow> length a = length b \<and> list_all2 (=) (str_bytes a) (str_bytes b)"

definition hash_email :: "('s, 'p, 'z) s_externals_scheme \<Rightarrow> string \<Rightarrow> string \<Rightarrow> u32 \<Rightarrow> string res" where
  "hash_email E email url argon_m =
     (case argon2id E argon_m (str_bytes email) (str_bytes url) of
        None \<Rightarrow> Panic
      | Some output \<Rightarrow> Ok (hex_encode E output))"

text \<open>The decimal digits of a number, as \<open>format!\<close> writes them.\<close>

fun dec_digits :: "nat \<Rightarrow> string" where
  "dec_digits n =
     (if n < 10 then [char_of (48 + n)] else dec_digits (n div 10) @ [char_of (48 + n mod 10)])"

declare dec_digits.simps [simp del]

text \<open>\<open>str::replace\<close> with a non-empty pattern.\<close>

function str_replace :: "string \<Rightarrow> string \<Rightarrow> string \<Rightarrow> string" where
  "str_replace pat rep s =
     (if pat = [] \<or> s = [] then s
      else if take (length pat) s = pat then rep @ str_replace pat rep (drop (length pat) s)
      else hd s # str_replace pat rep (tl s))"
  by pat_completeness auto
termination by (relation "measure (\<lambda>(_, _, s). length s)") auto

declare str_replace.simps [simp del]

subsection \<open>Domain types\<close>

record commit_entry =
  ce_commit_id :: string
  ce_members :: "u32 list"
  ce_secret :: secret_nonce
  ce_created_at :: u64

record signer_session =
  sess_client :: string
  sess_share :: sshare
  sess_group :: sgroup
  sess_recovery :: bool
  sess_created_at :: u64
  sess_deactivated_at :: "u64 option"
  sess_last_activity :: u64
  sess_email :: "string option"
  sess_email_hash :: "string option"
  sess_password_hash :: "string option"

record session_index =
  ix_clients :: "string list"

record signer_recovery =
  srec_created_at :: u64
  srec_clients :: "string list"

record signer_login =
  slog_created_at :: u64
  slog_clients :: "string list"

record signer_challenge =
  ch_created_at :: u64
  ch_otp :: string

definition challenge_html :: "('s, 'p, 'z) s_externals_scheme \<Rightarrow> string \<Rightarrow> string" where
  "challenge_html E otp = str_replace ''{{otp}}'' otp (challenge_template E)"

definition challenge_text :: "string \<Rightarrow> string" where
  "challenge_text otp =
     ''Someone attempted to log in using your email address. If this was you, please continue by copying the one-time password below:'' @
     [char_of (10::nat), char_of (10::nat)] @ otp @ [char_of (10::nat), char_of (10::nat)] @
     ''This code will expire in 15 minutes.'' @ [char_of (10::nat), char_of (10::nat)] @
     ''If you did not request this code, please ignore this email.'' @
     [char_of (10::nat), char_of (10::nat)] @ ''---'' @ [char_of (10::nat), char_of (10::nat)] @
     ''This is an automated message from a Nostr signer. Please do not reply to this email.''"

definition challenge_email :: "('s, 'p, 'z) s_externals_scheme \<Rightarrow> string \<Rightarrow> mail" where
  "challenge_email E otp =
     \<lparr>ml_to = [], ml_subject = ''Your One-Time Password'', ml_text = challenge_text otp,
      ml_html = challenge_html E otp\<rparr>"

definition make_session_item :: "signer_session \<Rightarrow> session_item res" where
  "make_session_item session =
     bindR (str_from (g_group_pk (sess_group session)) 2) (\<lambda>pubkey.
     Ok \<lparr>si_pubkey = pubkey, si_client = sess_client session,
          si_created_at = sess_created_at session,
          si_deactivated_at = sess_deactivated_at session,
          si_last_activity = sess_last_activity session,
          si_threshold = g_threshold (sess_group session),
          si_total = of_nat (length (g_commits (sess_group session))),
          si_idx = sh_idx (sess_share session),
          si_email = sess_email session\<rparr>)"

record signer_options =
  opt_url :: string
  opt_register_pow :: u32
  opt_argon_m :: u32
  opt_from_email :: string
  opt_from_name :: string
  opt_mailer :: "mailer option"
  opt_test_mode :: bool

record signer =
  sv_options :: signer_options
  sv_logins :: "signer_login col"
  sv_sessions :: "signer_session col"
  sv_recoveries :: "signer_recovery col"
  sv_challenges :: "signer_challenge col"
  sv_sessions_by_email_hash :: "session_index col"
  sv_rate_limit_by_email_hash :: "rate_limit_bucket col"
  sv_rate_limit_by_client :: "rate_limit_bucket col"
  sv_commits_by_client :: "string \<rightharpoonup> commit_entry list"
  sv_outbox :: "(string \<times> string \<times> mail) list"

text \<open>\<open>Signer::open\<close> on an empty database.\<close>

definition signer_open :: "signer_options \<Rightarrow> signer" where
  "signer_open options =
     \<lparr>sv_options = options, sv_logins = [], sv_sessions = [], sv_recoveries = [], sv_challenges = [],
      sv_sessions_by_email_hash = [], sv_rate_limit_by_email_hash = [], sv_rate_limit_by_client = [],
      sv_commits_by_client = Map.empty, sv_outbox = []\<rparr>"

text \<open>
  \<open>Signer::open\<close> on the database an earlier process left: the collections are there again, the
  pending commitments are not.
\<close>

definition signer_reopen :: "signer_options \<Rightarrow> signer \<Rightarrow> signer" where
  "signer_reopen options st =
     (signer_open options)\<lparr>sv_logins := sv_logins st, sv_sessions := sv_sessions st,
       sv_recoveries := sv_recoveries st, sv_challenges := sv_challenges st,
       sv_sessions_by_email_hash := sv_sessions_by_email_hash st,
       sv_rate_limit_by_email_hash := sv_rate_limit_by_email_hash st,
       sv_rate_limit_by_client := sv_rate_limit_by_client st, sv_outbox := sv_outbox st\<rparr>"

type_synonym 'a action = "'a res \<times> signer"

subsection \<open>Clean-up\<close>

text \<open>The loop \<open>for (k, v) in entries() { if test(v) { delete(&k) } }\<close>; the test gets the number
  of the round.\<close>

fun purge_loop :: "(nat \<Rightarrow> 'v \<Rightarrow> bool) \<Rightarrow> nat \<Rightarrow> (string \<times> 'v) list \<Rightarrow> 'v col \<Rightarrow> 'v col" where
  "purge_loop p n [] c = c"
| "purge_loop p n (kv # kvs) c =
     purge_loop p (Suc n) kvs (if p n (snd kv) then col_delete c (fst kv) else c)"

lemma purge_loop_eq: "purge_loop p n kvs c = col.purge p n kvs c"
  by (induction kvs arbitrary: n c) auto

text \<open>\<open>HashMap::retain\<close> over the pending lists, each pruned with \<open>Vec::retain\<close>.\<close>

definition retain_commits ::
  "u64 \<Rightarrow> (string \<rightharpoonup> commit_entry list) \<Rightarrow> (string \<rightharpoonup> commit_entry list)" where
  "retain_commits cutoff commits =
     (\<lambda>c. case commits c of
            None \<Rightarrow> None
          | Some pending \<Rightarrow>
              (let pending' = filter (\<lambda>e. ce_created_at e \<ge> cutoff) pending
               in if pending' = [] then None else Some pending'))"

definition cleanup :: "(nat \<Rightarrow> u64) \<Rightarrow> signer \<Rightarrow> signer" where
  "cleanup clk st =
     (let cutoff_15m = saturating_sub (clk 0) (15 * MINUTE_SECS);
          cutoff_month = saturating_sub (clk 1) MONTH_SECS;
          recoveries = purge_loop (\<lambda>_ r. srec_created_at r < cutoff_15m) 0
            (col_entries (sv_recoveries st)) (sv_recoveries st);
          logins = purge_loop (\<lambda>_ l. slog_created_at l < cutoff_15m) 0
            (col_entries (sv_logins st)) (sv_logins st);
          challenges = purge_loop (\<lambda>_ c. ch_created_at c < cutoff_15m) 0
            (col_entries (sv_challenges st)) (sv_challenges st);
          emails = col_entries (sv_rate_limit_by_email_hash st);
          rl_email = purge_loop
            (\<lambda>i b. b_last_attempt b < saturating_sub (clk (2 + i)) (window_seconds EMAIL_RATE_LIMITS)) 0
            emails (sv_rate_limit_by_email_hash st);
          clients = col_entries (sv_rate_limit_by_client st);
          rl_client = purge_loop
            (\<lambda>i b. b_last_attempt b <
               saturating_sub (clk (2 + length emails + i)) (window_seconds CLIENT_RATE_LIMITS)) 0
            clients (sv_rate_limit_by_client st);
          sessions = purge_loop (\<lambda>_ s. sess_last_activity s < cutoff_month) 0
            (col_entries (sv_sessions st)) (sv_sessions st);
          commit_cutoff = saturating_sub (clk (2 + length emails + length clients)) COMMIT_TTL_SECS;
          commits = retain_commits commit_cutoff (sv_commits_by_client st)
      in st\<lparr>sv_recoveries := recoveries, sv_logins := logins, sv_challenges := challenges,
            sv_rate_limit_by_email_hash := rl_email, sv_rate_limit_by_client := rl_client,
            sv_sessions := sessions, sv_commits_by_client := commits\<rparr>)"

subsection \<open>Internal helpers\<close>

text \<open>\<open>log::debug!\<close> with the first eight bytes of a string.\<close>

definition debug_slice :: "('s, 'p, 'z) s_externals_scheme \<Rightarrow> string \<Rightarrow> unit res" where
  "debug_slice E s = (if log_debug E then bindR (str_upto s 8) (\<lambda>_. Ok ()) else Ok ())"

definition check_and_record_rate_limit :: "(nat \<Rightarrow> u64) \<Rightarrow> string \<Rightarrow> signer \<Rightarrow> bool \<times> signer" where
  "check_and_record_rate_limit clk client st =
     (let bucket = col_get (sv_rate_limit_by_client st) client
      in if is_rate_limited (clk 0) bucket CLIENT_RATE_LIMITS then (False, st)
         else (True, st\<lparr>sv_rate_limit_by_client :=
                col_set (sv_rate_limit_by_client st) client
                  (record_attempt (clk 1) bucket CLIENT_RATE_LIMITS)\<rparr>))"

text \<open>\<open>Iterator::position\<close> and \<open>Vec::swap_remove\<close>.\<close>

fun position :: "('a \<Rightarrow> bool) \<Rightarrow> 'a list \<Rightarrow> nat option" where
  "position P [] = None"
| "position P (x # xs) = (if P x then Some 0 else map_option Suc (position P xs))"

definition swap_remove :: "nat \<Rightarrow> 'a list \<Rightarrow> 'a \<times> 'a list" where
  "swap_remove i xs = (xs ! i, butlast (xs[i := last xs]))"

definition take_commit :: "string \<Rightarrow> string \<Rightarrow> signer \<Rightarrow> commit_entry option \<times> signer" where
  "take_commit commit_id client st =
     (case sv_commits_by_client st client of
        None \<Rightarrow> (None, st)
      | Some pending \<Rightarrow>
          (case position (\<lambda>e. ct_str_eq (ce_commit_id e) commit_id) pending of
             None \<Rightarrow> (None, st)
           | Some pos \<Rightarrow>
               (let (entry, pending') = swap_remove pos pending;
                    commits = (if pending' = [] then (sv_commits_by_client st)(client := None)
                               else (sv_commits_by_client st)(client \<mapsto> pending'))
                in (Some entry, st\<lparr>sv_commits_by_client := commits\<rparr>))))"

definition get_authenticated_sessions ::
  "('s, 'p, 'z) s_externals_scheme \<Rightarrow> (nat \<Rightarrow> u64) \<Rightarrow> auth \<Rightarrow> signer \<Rightarrow> signer_session list action" where
  "get_authenticated_sessions E clk auth st =
     (let email_hash = auth_email_hash auth;
          bucket = col_get (sv_rate_limit_by_email_hash st) email_hash
      in if is_rate_limited (clk 0) bucket EMAIL_RATE_LIMITS
         then (bindR (debug_slice E email_hash) (\<lambda>_. Ok []), st)
         else
           (let index = col_get (sv_sessions_by_email_hash st) email_hash;
                (sessions, st1) =
                  (case index of
                     None \<Rightarrow> ([], st)
                   | Some ix \<Rightarrow>
                       (case auth of
                          Password pa \<Rightarrow>
                            (filter (\<lambda>s. case sess_password_hash s of
                                           None \<Rightarrow> False
                                         | Some h \<Rightarrow> ct_str_eq h (pa_password_hash pa))
                               (List.map_filter (col_get (sv_sessions st)) (ix_clients ix)), st)
                        | Otp oa \<Rightarrow>
                            (case col_get (sv_challenges st) email_hash of
                               None \<Rightarrow> ([], st)
                             | Some challenge \<Rightarrow>
                                 (let st' = st\<lparr>sv_challenges := col_delete (sv_challenges st) email_hash\<rparr>
                                  in if ct_str_eq (oa_otp oa) (ch_otp challenge)
                                     then (List.map_filter (col_get (sv_sessions st')) (ix_clients ix), st')
                                     else ([], st')))));
                st2 =
                  (if sessions = []
                   then st1\<lparr>sv_rate_limit_by_email_hash :=
                          col_set (sv_rate_limit_by_email_hash st1) email_hash
                            (record_attempt (clk 1) bucket EMAIL_RATE_LIMITS)\<rparr>
                   else st1)
            in (Ok sessions, st2)))"

definition check_key_reuse :: "string \<Rightarrow> signer \<Rightarrow> bool" where
  "check_key_reuse client st =
     (if col_get (sv_sessions st) client \<noteq> None then True
      else if col_get (sv_recoveries st) client \<noteq> None then True
      else if col_get (sv_logins st) client \<noteq> None then True
      else False)"

definition add_session :: "string \<Rightarrow> signer_session \<Rightarrow> signer \<Rightarrow> signer" where
  "add_session client session st =
     (let st1 = st\<lparr>sv_sessions := col_set (sv_sessions st) client session\<rparr>
      in case sess_email_hash session of
           None \<Rightarrow> st1
         | Some email_hash \<Rightarrow>
             (let index = (case col_get (sv_sessions_by_email_hash st1) email_hash of
                             Some ix \<Rightarrow> ix | None \<Rightarrow> \<lparr>ix_clients = []\<rparr>);
                  index' = (if client \<notin> set (ix_clients index)
                            then index\<lparr>ix_clients := ix_clients index @ [client]\<rparr> else index)
              in st1\<lparr>sv_sessions_by_email_hash :=
                   col_set (sv_sessions_by_email_hash st1) email_hash index'\<rparr>))"

definition deactivate_session :: "u64 \<Rightarrow> string \<Rightarrow> signer \<Rightarrow> signer" where
  "deactivate_session now client st =
     (case col_get (sv_sessions st) client of
        None \<Rightarrow> st
      | Some session \<Rightarrow>
          st\<lparr>sv_sessions := col_set (sv_sessions st) client
               (session\<lparr>sess_deactivated_at := Some now\<rparr>)\<rparr>)"

definition delete_session :: "string \<Rightarrow> signer \<Rightarrow> signer" where
  "delete_session client st =
     (case col_get (sv_sessions st) client of
        None \<Rightarrow> st
      | Some session \<Rightarrow>
          (let st1 =
             (case sess_email_hash session of
                None \<Rightarrow> st
              | Some email_hash \<Rightarrow>
                  (case col_get (sv_sessions_by_email_hash st) email_hash of
                     None \<Rightarrow> st
                   | Some index \<Rightarrow>
                       (let clients = filter (\<lambda>c. c \<noteq> client) (ix_clients index)
                        in if clients = []
                           then st\<lparr>sv_sessions_by_email_hash :=
                                  col_delete (sv_sessions_by_email_hash st) email_hash\<rparr>
                           else st\<lparr>sv_sessions_by_email_hash :=
                                  col_set (sv_sessions_by_email_hash st) email_hash
                                    (index\<lparr>ix_clients := clients\<rparr>)\<rparr>)))
           in st1\<lparr>sv_sessions := col_delete (sv_sessions st1) client\<rparr>))"

end
