(* ===== verification/Signer_Handlers.thy ===== *)
theory Signer_Handlers
  imports Signer_State
begin

text \<open>
  The thirteen handlers of \<open>pomade-signer-rust/src/signer.rs\<close>, lines 399 to 1175.  A handler
  takes the clock, the random draws it may make, the authenticated key and the decoded request,
  and returns the response (or a panic) with the state it leaves.  Program points \<open>0\<close> and \<open>1\<close>
  of the clock are the rate limiter's, the following ones the handler's own.
\<close>

text \<open>A step that cannot change the state; its failure keeps the state reached so far.\<close>

definition bindA :: "'a res \<Rightarrow> signer \<Rightarrow> ('a \<Rightarrow> 'b action) \<Rightarrow> 'b action" where
  "bindA m st f = (case m of Ok x \<Rightarrow> f x | Err e \<Rightarrow> (Err e, st) | Panic \<Rightarrow> (Panic, st))"

lemma bindA_simps [simp]:
  "bindA (Ok x) st f = f x" "bindA (Err e) st f = (Err e, st)" "bindA Panic st f = (Panic, st)"
  by (simp_all add: bindA_def)

subsection \<open>Registration and recovery set-up\<close>

definition new_session :: "string \<Rightarrow> sshare \<Rightarrow> sgroup \<Rightarrow> bool \<Rightarrow> u64 \<Rightarrow> u64 \<Rightarrow> signer_session" where
  "new_session client share grp recovery t1 t2 =
     \<lparr>sess_client = client, sess_share = share, sess_group = grp, sess_recovery = recovery,
      sess_created_at = t1, sess_deactivated_at = None, sess_last_activity = t2,
      sess_email = None, sess_email_hash = None, sess_password_hash = None\<rparr>"

definition handle_register ::
  "('s::field, 'p::ab_group_add, 'z) s_externals_scheme \<Rightarrow> (nat \<Rightarrow> u64) \<Rightarrow> nostr_auth \<Rightarrow>
   register_request \<Rightarrow> signer \<Rightarrow> register_response action" where
  "handle_register E clk auth data st =
     (let client = na_pubkey auth;
          grp = rq_group data; share = rq_share data; recovery = rq_recovery data
      in if check_key_reuse client st
         then (Ok (respond False ''Do not re-use session keys.'' ()), st)
         else if get_pow (na_event_id auth) < opt_register_pow (sv_options st)
         then (Ok (respond False ''Registration requires 16 bits of proof of work (NIP-13).'' ()), st)
         else
           (let threshold = unat (g_threshold grp); total = length (g_commits grp)
            in if threshold = 0 \<or> threshold > total
               then (Ok (respond False ''Invalid group threshold.'' ()), st)
               else
                 bindA (s_is_group_member E grp share) st (\<lambda>member.
                 if \<not> member
                 then (Ok (respond False ''Share does not belong to the provided group.'' ()), st)
                 else
                   (let idxs = map c_idx (g_commits grp)
                    in if length (remdups_adj idxs) \<noteq> length idxs
                       then (Ok (respond False ''Group contains duplicate member indices.'' ()), st)
                       else if \<not> list_ex (\<lambda>c. c_idx c = sh_idx share) (g_commits grp)
                       then (Ok (respond False ''Share index not found in group commits.'' ()), st)
                       else if col_get (sv_sessions st) client \<noteq> None
                       then (Ok (respond False ''Client is already registered.'' ()), st)
                       else (Ok (respond True ''Your key has been registered'' ()),
                             add_session client
                               (new_session client share grp recovery (clk 2) (clk 3)) st)))))"

definition handle_recovery_setup ::
  "('s, 'p, 'z) s_externals_scheme \<Rightarrow> (nat \<Rightarrow> u64) \<Rightarrow> nostr_auth \<Rightarrow> recovery_setup_request \<Rightarrow>
   signer \<Rightarrow> recovery_setup_response action" where
  "handle_recovery_setup E clk auth data st =
     (let client = na_pubkey auth
      in case col_get (sv_sessions st) client of
           None \<Rightarrow> (Ok (respond False ''No session found.'' ()), st)
         | Some session \<Rightarrow>
             if \<not> sess_recovery session
             then (Ok (respond False ''Recovery is disabled on this session.'' ()), st)
             else if sess_created_at session < saturating_sub (clk 2) (15 * MINUTE_SECS)
             then (Ok (respond False ''Recovery method must be set within 15 minutes of session.'' ()), st)
             else if sess_email session \<noteq> None
             then (Ok (respond False ''Recovery has already been initialized.'' ()), st)
             else if \<not> regex_is_hex64 (rsq_password_hash data)
             then (Ok (respond False ''Recovery method password hash must be an argon2id hash of user email and password.'' ()), st)
             else
               bindA (hash_email E (rsq_email data) (opt_url (sv_options st)) (opt_argon_m (sv_options st))) st
                 (\<lambda>email_hash.
                  (Ok (respond True ''Recovery method successfully initialized.'' ()),
                   add_session client
                     (session\<lparr>sess_last_activity := clk 3, sess_email := Some (rsq_email data),
                        sess_email_hash := Some email_hash,
                        sess_password_hash := Some (rsq_password_hash data)\<rparr>) st)))"

subsection \<open>Challenges\<close>

text \<open>The address a challenge goes to: the \<open>let\<close> chain of \<open>handle_challenge\<close>.\<close>

definition challenge_target :: "string \<Rightarrow> signer \<Rightarrow> string option" where
  "challenge_target email_hash st =
     Option.bind (col_get (sv_sessions_by_email_hash st) email_hash) (\<lambda>index.
     Option.bind (case ix_clients index of [] \<Rightarrow> None | client # _ \<Rightarrow> Some client) (\<lambda>client.
     Option.bind (col_get (sv_sessions st) client) (\<lambda>session. sess_email session)))"

definition challenge_reply :: challenge_response where
  "challenge_reply = respond True ''Please check your email inbox for a one-time password.'' ()"

definition handle_challenge ::
  "('s, 'p, 'z) s_externals_scheme \<Rightarrow> (nat \<Rightarrow> u64) \<Rightarrow> bytes \<Rightarrow> nostr_auth \<Rightarrow> challenge_request \<Rightarrow>
   signer \<Rightarrow> challenge_response action" where
  "handle_challenge E clk buf auth data st =
     (let email_hash = cq_email_hash data;
          bucket = col_get (sv_rate_limit_by_email_hash st) email_hash
      in if is_rate_limited (clk 0) bucket EMAIL_RATE_LIMITS then (Ok challenge_reply, st)
         else
           (case challenge_target email_hash st of
              Some email \<Rightarrow>
                (let st1 = st\<lparr>sv_rate_limit_by_email_hash :=
                       col_set (sv_rate_limit_by_email_hash st) email_hash
                         (record_attempt (clk 1) bucket EMAIL_RATE_LIMITS)\<rparr>
                 in bindA (random_int buf 100000 1000000) st1 (\<lambda>n.
                    let otp = cq_prefix data @ dec_digits (unat n);
                        st2 = st1\<lparr>sv_challenges := col_set (sv_challenges st1) email_hash
                                  \<lparr>ch_created_at = clk 2, ch_otp = otp\<rparr>\<rparr>
                    in if opt_test_mode (sv_options st) then (Ok challenge_reply, st2)
                       else if opt_mailer (sv_options st) \<noteq> None
                       then (let mail = (challenge_email E otp)\<lparr>ml_to := email\<rparr>
                             in (Ok challenge_reply,
                                 st2\<lparr>sv_outbox := sv_outbox st2 @
                                   [(opt_from_email (sv_options st), opt_from_name (sv_options st), mail)]\<rparr>))
                       else (Panic, st2)))
            | None \<Rightarrow> bindA (debug_slice E email_hash) st (\<lambda>_. (Ok challenge_reply, st))))"

subsection \<open>Recovery and login\<close>

definition handle_recovery_start ::
  "('s, 'p, 'z) s_externals_scheme \<Rightarrow> (nat \<Rightarrow> u64) \<Rightarrow> nostr_auth \<Rightarrow> recovery_start_request \<Rightarrow>
   signer \<Rightarrow> recovery_start_response action" where
  "handle_recovery_start E clk auth data st =
     (let client = na_pubkey auth
      in if check_key_reuse client st
         then (Ok (respond False ''Do not re-use session keys.'' None), st)
         else
           (let (r, st1) = get_authenticated_sessions E clk (rtq_auth data) st
            in bindA r st1 (\<lambda>sessions.
               if sessions = [] then (Ok (respond False ''No sessions found.'' None), st1)
               else
                 (let clients = map sess_client sessions
                  in bindA (mapR make_session_item sessions) st1 (\<lambda>items.
                     (Ok (respond True ''Successfully retrieved recovery options.'' (Some items)),
                      st1\<lparr>sv_recoveries := col_set (sv_recoveries st1) client
                            \<lparr>srec_created_at = clk 2, srec_clients = clients\<rparr>\<rparr>))))))"

definition handle_recovery_select ::
  "nostr_auth \<Rightarrow> recovery_select_request \<Rightarrow> signer \<Rightarrow> recovery_select_response action" where
  "handle_recovery_select auth data st =
     (let client = na_pubkey auth
      in case col_get (sv_recoveries st) client of
           None \<Rightarrow> (Ok (respond False ''No active recovery found.'' (None, None)), st)
         | Some recovery \<Rightarrow>
             (let st1 = st\<lparr>sv_recoveries := col_delete (sv_recoveries st) client\<rparr>
              in if clq_client data \<notin> set (srec_clients recovery)
                 then (Ok (respond False ''Invalid session selected for recovery.'' (None, None)), st1)
                 else
                   (case col_get (sv_sessions st1) (clq_client data) of
                      None \<Rightarrow> (Ok (respond False ''Recovery session not found.'' (None, None)), st1)
                    | Some session \<Rightarrow>
                        (Ok (respond True ''Recovery successfully completed.''
                           (Some (sess_share session), Some (sess_group session))), st1))))"

definition handle_login_start ::
  "('s, 'p, 'z) s_externals_scheme \<Rightarrow> (nat \<Rightarrow> u64) \<Rightarrow> nostr_auth \<Rightarrow> login_start_request \<Rightarrow>
   signer \<Rightarrow> login_start_response action" where
  "handle_login_start E clk auth data st =
     (let client = na_pubkey auth
      in if check_key_reuse client st
         then (Ok (respond False ''Do not re-use session keys.'' None), st)
         else
           (let (r, st1) = get_authenticated_sessions E clk (lsq_auth data) st
            in bindA r st1 (\<lambda>sessions.
               if sessions = [] then (Ok (respond False ''No sessions found.'' None), st1)
               else
                 (let clients = map sess_client sessions
                  in bindA (mapR make_session_item sessions) st1 (\<lambda>items.
                     (Ok (respond True ''Successfully retrieved login options.'' (Some items)),
                      st1\<lparr>sv_logins := col_set (sv_logins st1) client
                            \<lparr>slog_created_at = clk 2, slog_clients = clients\<rparr>\<rparr>))))))"

definition handle_login_select ::
  "(nat \<Rightarrow> u64) \<Rightarrow> nostr_auth \<Rightarrow> login_select_request \<Rightarrow> signer \<Rightarrow> login_select_response action" where
  "handle_login_select clk auth data st =
     (let client = na_pubkey auth
      in case col_get (sv_logins st) client of
           None \<Rightarrow> (Ok (respond False ''No active login found.'' None), st)
         | Some login \<Rightarrow>
             (let st1 = st\<lparr>sv_logins := col_delete (sv_logins st) client\<rparr>
              in if clq_client data \<notin> set (slog_clients login)
                 then (Ok (respond False ''Invalid session selected for login.'' None), st1)
                 else
                   (case col_get (sv_sessions st1) (clq_client data) of
                      None \<Rightarrow> (Ok (respond False ''Login session not found.'' None), st1)
                    | Some session \<Rightarrow>
                        (Ok (respond True ''Login successfully completed.'' (Some (sess_group session))),
                         add_session client
                           \<lparr>sess_client = client, sess_share = sess_share session,
                            sess_group = sess_group session, sess_recovery = True,
                            sess_created_at = clk 2, sess_deactivated_at = None,
                            sess_last_activity = clk 3, sess_email = sess_email session,
                            sess_email_hash = sess_email_hash session,
                            sess_password_hash = sess_password_hash session\<rparr> st1))))"

subsection \<open>Signing\<close>

definition handle_sign_commit ::
  "('s::field, 'p::ab_group_add, 'z) s_externals_scheme \<Rightarrow> (nat \<Rightarrow> u64) \<Rightarrow> (nat \<Rightarrow> bytes) \<Rightarrow>
   nostr_auth \<Rightarrow> sign_commit_request \<Rightarrow> signer \<Rightarrow> sign_commit_response action" where
  "handle_sign_commit E clk rnd auth data st =
     (let client = na_pubkey auth
      in case col_get (sv_sessions st) client of
           None \<Rightarrow> (Ok (respond False ''No session found for client'' None), st)
         | Some session \<Rightarrow>
             if sess_deactivated_at session \<noteq> None
             then (Ok (respond False ''Session is deactivated'' None), st)
             else
               (let (allowed, st1) = check_and_record_rate_limit clk client st
                in if \<not> allowed
                   then (Ok (respond False ''Rate limit exceeded. Please try again later.'' None), st1)
                   else if sh_idx (sess_share session) \<notin> set (scq_members data)
                   then (Ok (respond False ''Signer index not present in members list'' None), st1)
                   else
                     (case decode32 E (sh_seckey (sess_share session)) of
                        None \<Rightarrow> (Ok (respond False ''Failed to create commitment'' None), st1)
                      | Some seckey \<Rightarrow>
                          (let secret_share = \<lparr>ss_idx = sh_idx (sess_share session), ss_seckey = seckey\<rparr>
                           in bindA (create_commit_pkg E secret_share None None (rnd 1) (rnd 0)) st1 (\<lambda>pkg.
                              let commit_id = random_commit_id E (rnd 2);
                                  pending = (case sv_commits_by_client st1 client of
                                               None \<Rightarrow> [] | Some p \<Rightarrow> p);
                                  entry = \<lparr>ce_commit_id = commit_id, ce_members = scq_members data,
                                           ce_secret = cp_secret_nonce pkg, ce_created_at = clk 2\<rparr>;
                                  st2 = st1\<lparr>sv_commits_by_client :=
                                          (sv_commits_by_client st1)(client \<mapsto> pending @ [entry])\<rparr>
                              in bindA (get_pubkey_compressed E seckey) st2 (\<lambda>pubkey.
                                 (Ok (respond True ''Commitment created''
                                    (Some \<lparr>scr_commit_id = commit_id,
                                       scr_idx = sh_idx (sess_share session),
                                       scr_pubkey = hex_encode E pubkey,
                                       scr_hidden_pn = hex_encode E (cp_hidden_pn pkg),
                                       scr_binder_pn = hex_encode E (cp_binder_pn pkg)\<rparr>)), st2)))))))"

text \<open>The public nonces cover exactly the members, one entry each.\<close>

definition pnonces_cover :: "sgroup \<Rightarrow> u32 list \<Rightarrow> public_nonce_item list \<Rightarrow> bool" where
  "pnonces_cover grp members pnonces \<longleftrightarrow>
     length pnonces = length members \<and>
     list_all (\<lambda>m. m \<in> set (map c_idx (g_commits grp)) \<and>
        length (filter (\<lambda>pn. pni_idx pn = m) pnonces) = 1) members"

text \<open>\<open>sessions.set(client, {last_activity: now(), ..session})\<close>.\<close>

definition touch_session :: "u64 \<Rightarrow> string \<Rightarrow> signer_session \<Rightarrow> signer \<Rightarrow> signer" where
  "touch_session now client session st =
     st\<lparr>sv_sessions := col_set (sv_sessions st) client (session\<lparr>sess_last_activity := now\<rparr>)\<rparr>"

definition handle_sign_complete ::
  "('s::field, 'p::ab_group_add, 'z) s_externals_scheme \<Rightarrow> (nat \<Rightarrow> u64) \<Rightarrow> nostr_auth \<Rightarrow>
   sign_complete_request \<Rightarrow> signer \<Rightarrow> sign_complete_response action" where
  "handle_sign_complete E clk auth data st =
     (let client = na_pubkey auth
      in case col_get (sv_sessions st) client of
           None \<Rightarrow> (Ok (respond False ''No session found for client'' None), st)
         | Some session \<Rightarrow>
             if sess_deactivated_at session \<noteq> None
             then (Ok (respond False ''Session is deactivated'' None), st)
             else
               (let (allowed, st1) = check_and_record_rate_limit clk client st
                in if \<not> allowed
                   then (Ok (respond False ''Rate limit exceeded. Please try again later.'' None), st1)
                   else
                     (case take_commit (sq_commit_id data) client st1 of
                        (None, st2) \<Rightarrow>
                          (Ok (respond False ''Commitment not found or already used'' None), st2)
                      | (Some entry, st2) \<Rightarrow>
                          if sci_members (sq_request data) \<noteq> ce_members entry
                          then (Ok (respond False ''Member set does not match commitment'' None), st2)
                          else if \<not> pnonces_cover (sess_group session) (sci_members (sq_request data))
                                      (sq_pnonces data)
                          then (Ok (respond False ''Invalid public nonce set'' None), st2)
                          else
                            bindA (get_pubkey_compressed E (hidden_sn (ce_secret entry))) st2 (\<lambda>own_hidden.
                            bindA (get_pubkey_compressed E (binder_sn (ce_secret entry))) st2 (\<lambda>own_binder.
                            if \<not> list_ex (\<lambda>pn. pni_idx pn = sn_idx (ce_secret entry) \<and>
                                   pni_hidden_pn pn = hex_encode E own_hidden \<and>
                                   pni_binder_pn pn = hex_encode E own_binder) (sq_pnonces data)
                            then (Ok (respond False ''Public nonce does not match commitment'' None), st2)
                            else if \<not> verify_session_pkg E (sess_group session) (sq_request data)
                            then (Ok (respond False ''Failed to verify session package'' None), st2)
                            else
                              (case create_psig_pkg_with_nonce E (sess_group session) (sq_request data)
                                      (sess_share session) (ce_secret entry) (sq_pnonces data) of
                                 Ok result \<Rightarrow>
                                   (Ok (respond True ''Successfully signed event'' (Some result)),
                                    touch_session (clk 2) client session st2)
                               | Err e \<Rightarrow> (Ok (respond False ''Failed to sign event'' None), st2)
                               | Panic \<Rightarrow> (Panic, st2)))))))"

definition handle_ecdh ::
  "('s::field, 'p::ab_group_add, 'z) s_externals_scheme \<Rightarrow> (nat \<Rightarrow> u64) \<Rightarrow> nostr_auth \<Rightarrow>
   ecdh_request \<Rightarrow> signer \<Rightarrow> ecdh_response action" where
  "handle_ecdh E clk auth data st =
     (let client = na_pubkey auth
      in case col_get (sv_sessions st) client of
           None \<Rightarrow> (Ok (respond False ''No session found for client'' None), st)
         | Some session \<Rightarrow>
             if sess_deactivated_at session \<noteq> None
             then (Ok (respond False ''Session is deactivated'' None), st)
             else
               (let (allowed, st1) = check_and_record_rate_limit clk client st
                in if \<not> allowed
                   then (Ok (respond False ''Rate limit exceeded. Please try again later.'' None), st1)
                   else if eq_ecdh_pk data = GENERATOR_X
                   then (Ok (respond False ''Invalid ECDH public key'' None), st1)
                   else
                     (case s_create_ecdh_pkg E data (sess_share session) of
                        Ok result \<Rightarrow>
                          (Ok (respond True ''Successfully derived shared secret'' (Some result)),
                           touch_session (clk 2) client session st1)
                      | Err e \<Rightarrow> (Ok (respond False ''Key derivation failed'' None), st1)
                      | Panic \<Rightarrow> (Panic, st1))))"

subsection \<open>Sessions\<close>

definition handle_session_list :: "nostr_auth \<Rightarrow> signer \<Rightarrow> session_list_response action" where
  "handle_session_list auth st =
     (let pubkey = na_pubkey auth
      in bindA (mapR (\<lambda>(_, s).
           bindR (str_from (g_group_pk (sess_group s)) 2) (\<lambda>pk.
           if pk = pubkey then bindR (make_session_item s) (\<lambda>item. Ok [item]) else Ok []))
           (col_entries (sv_sessions st))) st (\<lambda>items.
         (Ok (respond True ''Successfully retrieved session list.'' (concat items)), st)))"

text \<open>The \<open>if let\<close> guard of the two handlers below: the session exists and belongs to the group
  whose key signed the request.\<close>

definition owns_session :: "string \<Rightarrow> string \<Rightarrow> signer \<Rightarrow> bool res" where
  "owns_session pubkey client st =
     (case col_get (sv_sessions st) client of
        None \<Rightarrow> Ok False
      | Some session \<Rightarrow>
          bindR (str_from (g_group_pk (sess_group session)) 2) (\<lambda>pk. Ok (pk = pubkey)))"

definition handle_session_deactivate ::
  "(nat \<Rightarrow> u64) \<Rightarrow> nostr_auth \<Rightarrow> session_deactivate_request \<Rightarrow> signer \<Rightarrow>
   session_deactivate_response action" where
  "handle_session_deactivate clk auth data st =
     bindA (owns_session (na_pubkey auth) (clq_client data) st) st (\<lambda>owned.
     if owned
     then (Ok (respond True ''Successfully deactivated selected session.'' ()),
           deactivate_session (clk 2) (clq_client data) st)
     else (Ok (respond False ''Failed to deactivate selected session.'' ()), st))"

definition handle_session_delete ::
  "nostr_auth \<Rightarrow> session_delete_request \<Rightarrow> signer \<Rightarrow> session_delete_response action" where
  "handle_session_delete auth data st =
     bindA (owns_session (na_pubkey auth) (clq_client data) st) st (\<lambda>owned.
     if owned
     then (Ok (respond True ''Successfully deleted selected session.'' ()),
           delete_session (clq_client data) st)
     else (Ok (respond False ''Failed to delete selected session.'' ()), st))"

end
