(* ===== verification/Signer_Lemmas.thy ===== *)
theory Signer_Lemmas
  imports Signer_Handlers
begin

text \<open>
  What each helper and each handler of the signer does to the state, as case rules: the state is
  unchanged, or the guards of the code hold and the state is a named update of it.  The
  invariants and properties of the later theories rest on these rules only.
\<close>

lemma ct_str_eq_iff: "ct_str_eq a b \<longleftrightarrow> a = b"
proof -
  have "list_all2 (=) (str_bytes a) (str_bytes b) \<longleftrightarrow> str_bytes a = str_bytes b"
    by (simp add: list_all2_eq)
  moreover have "str_bytes a = str_bytes b \<longleftrightarrow> a = b"
  proof
    assume "str_bytes a = str_bytes b"
    then have "map unat (str_bytes a) = map unat (str_bytes b)" by simp
    then have "map of_char a = (map of_char b :: nat list)"
      by (simp add: str_bytes_def comp_def unat_of_nat)
    then show "a = b" by (simp add: map_injective inj_on_def)
  qed simp
  ultimately show ?thesis by (auto simp: ct_str_eq_def)
qed

subsection \<open>Vectors\<close>

lemma position_Some:
  "position P xs = Some i \<Longrightarrow> i < length xs \<and> P (xs ! i) \<and> (\<forall>j < i. \<not> P (xs ! j))"
proof (induction xs arbitrary: i)
  case Nil
  then show ?case by simp
next
  case (Cons x xs)
  show ?case
  proof (cases "P x")
    case True
    then show ?thesis using Cons.prems by simp
  next
    case False
    then obtain k where k: "position P xs = Some k" "i = Suc k" using Cons.prems by auto
    then show ?thesis using Cons.IH [OF k(1)] False by (auto simp: nth_Cons split: nat.splits)
  qed
qed

lemma position_None: "position P xs = None \<longleftrightarrow> (\<forall>x \<in> set xs. \<not> P x)"
  by (induction xs) auto

lemma swap_remove_mset:
  assumes "i < length xs" and "swap_remove i xs = (x, ys)"
  shows "x = xs ! i" and "mset xs = add_mset x (mset ys)"
proof -
  have ne: "xs \<noteq> []" using assms(1) by auto
  show x: "x = xs ! i" using assms(2) by (simp add: swap_remove_def)
  let ?zs = "xs[i := last xs]"
  have zs: "?zs \<noteq> []" "last ?zs = last xs"
    using ne assms(1) by (auto simp: last_conv_nth nth_list_update)
  have "mset ?zs = add_mset (last xs) (mset xs - {#xs ! i#})"
    using assms(1) by (simp add: mset_update)
  moreover have "mset ?zs = add_mset (last xs) (mset (butlast ?zs))"
    using zs by (metis append_butlast_last_id mset_append mset_single_iff add_mset_add_single mset.simps)
  ultimately have "mset (butlast ?zs) = mset xs - {#xs ! i#}" by simp
  moreover have "ys = butlast ?zs" using assms(2) by (simp add: swap_remove_def)
  ultimately show "mset xs = add_mset x (mset ys)" using assms(1) x by simp
qed

subsection \<open>Pending commitments\<close>

text \<open>All pending entries of a client, as a list.\<close>

definition pending_of :: "string \<Rightarrow> signer \<Rightarrow> commit_entry list" where
  "pending_of client st = (case sv_commits_by_client st client of None \<Rightarrow> [] | Some p \<Rightarrow> p)"

lemma take_commit_cases:
  assumes "take_commit commit_id client st = (r, st')"
  obtains (missing) "r = None" "st' = st" "\<forall>e \<in> set (pending_of client st). ce_commit_id e \<noteq> commit_id"
  | (taken) entry commits where "r = Some entry" "ce_commit_id entry = commit_id"
      "st' = st\<lparr>sv_commits_by_client := commits\<rparr>"
      "mset (pending_of client st) = add_mset entry (mset (pending_of client st'))"
      "\<And>c. c \<noteq> client \<Longrightarrow> sv_commits_by_client st' c = sv_commits_by_client st c"
      "sv_commits_by_client st' client \<noteq> Some []"
proof (cases "sv_commits_by_client st client")
  case None
  then show thesis using assms missing by (simp add: take_commit_def pending_of_def)
next
  case (Some pending)
  show thesis
  proof (cases "position (\<lambda>e. ct_str_eq (ce_commit_id e) commit_id) pending")
    case None
    then have "\<forall>e \<in> set pending. ce_commit_id e \<noteq> commit_id"
      by (simp add: position_None ct_str_eq_iff)
    then show thesis
      using assms missing Some None by (simp add: take_commit_def pending_of_def)
  next
    case (Some pos)
    obtain entry rest where sw: "swap_remove pos pending = (entry, rest)" by fastforce
    note pos = position_Some [OF Some]
    have e: "entry = pending ! pos" "mset pending = add_mset entry (mset rest)"
      using swap_remove_mset [OF _ sw] pos by simp_all
    then have id: "ce_commit_id entry = commit_id" using pos by (simp add: ct_str_eq_iff)
    let ?c = "if rest = [] then (sv_commits_by_client st)(client := None)
               else (sv_commits_by_client st)(client \<mapsto> rest)"
    have st': "r = Some entry" "st' = st\<lparr>sv_commits_by_client := ?c\<rparr>"
      using assms Some \<open>sv_commits_by_client st client = Some pending\<close> sw
      by (simp_all add: take_commit_def)
    show thesis
      using taken [OF st'(1) id st'(2)] e \<open>sv_commits_by_client st client = Some pending\<close>
      by (simp add: st'(2) pending_of_def)
  qed
qed

subsection \<open>Rate limits and authentication\<close>

lemma check_and_record_cases:
  assumes "check_and_record_rate_limit clk client st = (allowed, st')"
  obtains (limited) "\<not> allowed" "st' = st"
      "is_rate_limited (clk 0) (col_get (sv_rate_limit_by_client st) client) CLIENT_RATE_LIMITS"
  | (recorded) "allowed"
      "\<not> is_rate_limited (clk 0) (col_get (sv_rate_limit_by_client st) client) CLIENT_RATE_LIMITS"
      "st' = st\<lparr>sv_rate_limit_by_client := col_set (sv_rate_limit_by_client st) client
          (record_attempt (clk 1) (col_get (sv_rate_limit_by_client st) client) CLIENT_RATE_LIMITS)\<rparr>"
  using assms by (auto simp: check_and_record_rate_limit_def Let_def split: if_splits)

text \<open>The credentials of a request match a session that the email's index lists.\<close>

definition credentials_match :: "auth \<Rightarrow> signer \<Rightarrow> signer_session \<Rightarrow> bool" where
  "credentials_match auth st s \<longleftrightarrow>
     (\<exists>ix c. col_get (sv_sessions_by_email_hash st) (auth_email_hash auth) = Some ix \<and>
        c \<in> set (ix_clients ix) \<and> col_get (sv_sessions st) c = Some s) \<and>
     (case auth of
        Password pa \<Rightarrow> sess_password_hash s = Some (pa_password_hash pa)
      | Otp oa \<Rightarrow>
          (\<exists>ch. col_get (sv_challenges st) (oa_email_hash oa) = Some ch \<and> ch_otp ch = oa_otp oa))"

lemma in_map_filter: "y \<in> set (List.map_filter f xs) \<longleftrightarrow> (\<exists>x \<in> set xs. f x = Some y)"
  by (induction xs) (auto simp: map_filter_simps split: option.splits)

text \<open>What the two kinds of credentials match, and what is recorded when they match nothing.\<close>

definition guess_recorded :: "(nat \<Rightarrow> u64) \<Rightarrow> string \<Rightarrow> signer \<Rightarrow> signer \<Rightarrow> signer" where
  "guess_recorded clk h st st1 =
     st1\<lparr>sv_rate_limit_by_email_hash := col_set (sv_rate_limit_by_email_hash st) h
       (record_attempt (clk 1) (col_get (sv_rate_limit_by_email_hash st) h) EMAIL_RATE_LIMITS)\<rparr>"

lemma authenticated_password:
  assumes "\<not> is_rate_limited (clk 0) (col_get (sv_rate_limit_by_email_hash st) (pa_email_hash pa)) EMAIL_RATE_LIMITS"
    and ix: "col_get (sv_sessions_by_email_hash st) (pa_email_hash pa) = Some ix"
  obtains ss where "\<forall>s \<in> set ss. credentials_match (Password pa) st s"
    "get_authenticated_sessions E clk (Password pa) st =
      (Ok ss, if ss = [] then guess_recorded clk (pa_email_hash pa) st st else st)"
proof
  let ?ss = "filter (\<lambda>s. case sess_password_hash s of None \<Rightarrow> False
      | Some h \<Rightarrow> ct_str_eq h (pa_password_hash pa)) (List.map_filter (col_get (sv_sessions st)) (ix_clients ix))"
  show "\<forall>s \<in> set ?ss. credentials_match (Password pa) st s"
    using ix by (auto simp: credentials_match_def in_map_filter ct_str_eq_iff split: option.splits)
  show "get_authenticated_sessions E clk (Password pa) st =
      (Ok ?ss, if ?ss = [] then guess_recorded clk (pa_email_hash pa) st st else st)"
    using assms by (simp add: get_authenticated_sessions_def guess_recorded_def Let_def)
qed

lemma authenticated_otp:
  assumes "\<not> is_rate_limited (clk 0) (col_get (sv_rate_limit_by_email_hash st) (oa_email_hash oa)) EMAIL_RATE_LIMITS"
    and ix: "col_get (sv_sessions_by_email_hash st) (oa_email_hash oa) = Some ix"
    and ch: "col_get (sv_challenges st) (oa_email_hash oa) = Some ch"
  obtains ss where "\<forall>s \<in> set ss. credentials_match (Otp oa) st s"
    "get_authenticated_sessions E clk (Otp oa) st =
      (let st1 = st\<lparr>sv_challenges := col_delete (sv_challenges st) (oa_email_hash oa)\<rparr>
       in (Ok ss, if ss = [] then guess_recorded clk (oa_email_hash oa) st st1 else st1))"
proof
  let ?ss = "if oa_otp oa = ch_otp ch then List.map_filter (col_get (sv_sessions st)) (ix_clients ix) else []"
  show "\<forall>s \<in> set ?ss. credentials_match (Otp oa) st s"
    using ix ch by (auto simp: credentials_match_def in_map_filter)
  show "get_authenticated_sessions E clk (Otp oa) st =
      (let st1 = st\<lparr>sv_challenges := col_delete (sv_challenges st) (oa_email_hash oa)\<rparr>
       in (Ok ?ss, if ?ss = [] then guess_recorded clk (oa_email_hash oa) st st1 else st1))"
    using assms
    by (cases "oa_otp oa = ch_otp ch")
      (simp_all add: get_authenticated_sessions_def guess_recorded_def Let_def ct_str_eq_iff)
qed

lemma get_authenticated_cases:
  assumes "get_authenticated_sessions E clk auth st = (r, st')"
  obtains (limited) "is_rate_limited (clk 0)
        (col_get (sv_rate_limit_by_email_hash st) (auth_email_hash auth)) EMAIL_RATE_LIMITS"
      "r = Panic \<or> r = Ok []" "st' = st"
  | (refused) challenges where
      "\<not> is_rate_limited (clk 0)
        (col_get (sv_rate_limit_by_email_hash st) (auth_email_hash auth)) EMAIL_RATE_LIMITS"
      "r = Ok []"
      "challenges = (if is_otp auth \<and> col_get (sv_sessions_by_email_hash st) (auth_email_hash auth) \<noteq> None
                     then col_delete (sv_challenges st) (auth_email_hash auth) else sv_challenges st) \<or>
       challenges = sv_challenges st \<and> col_get (sv_challenges st) (auth_email_hash auth) = None"
      "st' = st\<lparr>sv_challenges := challenges,
         sv_rate_limit_by_email_hash := col_set (sv_rate_limit_by_email_hash st) (auth_email_hash auth)
           (record_attempt (clk 1) (col_get (sv_rate_limit_by_email_hash st) (auth_email_hash auth))
              EMAIL_RATE_LIMITS)\<rparr>"
  | (granted) sessions where
      "\<not> is_rate_limited (clk 0)
        (col_get (sv_rate_limit_by_email_hash st) (auth_email_hash auth)) EMAIL_RATE_LIMITS"
      "r = Ok sessions" "sessions \<noteq> []"
      "\<forall>s \<in> set sessions. credentials_match auth st s"
      "st' = (if is_otp auth
              then st\<lparr>sv_challenges := col_delete (sv_challenges st) (auth_email_hash auth)\<rparr> else st)"
proof (cases "is_rate_limited (clk 0)
    (col_get (sv_rate_limit_by_email_hash st) (auth_email_hash auth)) EMAIL_RATE_LIMITS")
  case True
  then have "r = bindR (debug_slice E (auth_email_hash auth)) (\<lambda>_. Ok [])" "st' = st"
    using assms by (simp_all add: get_authenticated_sessions_def Let_def)
  moreover have "debug_slice E (auth_email_hash auth) = Panic \<or> debug_slice E (auth_email_hash auth) = Ok ()"
    by (simp add: debug_slice_def str_upto_def)
  ultimately show thesis using True limited by auto
next
  case free: False
  let ?h = "auth_email_hash auth"
  show thesis
  proof (cases "col_get (sv_sessions_by_email_hash st) ?h")
    case None
    then show thesis
      using assms free refused [of "sv_challenges st"] by (simp add: get_authenticated_sessions_def Let_def)
  next
    case (Some ix)
    show thesis
    proof (cases auth)
      case (Password pa)
      obtain ss where ss: "\<forall>s \<in> set ss. credentials_match auth st s"
        "get_authenticated_sessions E clk auth st = (Ok ss, if ss = [] then guess_recorded clk ?h st st else st)"
        by (rule authenticated_password [of clk st pa ix E]) (use free Some Password in simp_all)
      show thesis
      proof (cases "ss = []")
        case True
        then show thesis
          using assms ss(2) by (intro refused [OF free, of "sv_challenges st"]) (simp_all add: Password guess_recorded_def)
      next
        case False
        then show thesis using assms ss by (intro granted [OF free, of ss]) (simp_all add: Password)
      qed
    next
      case (Otp oa)
      show thesis
      proof (cases "col_get (sv_challenges st) ?h")
        case None
        then show thesis
          using assms free Some Otp refused [of "sv_challenges st"]
          by (simp add: get_authenticated_sessions_def Let_def)
      next
        case ch: (Some ch)
        let ?st = "st\<lparr>sv_challenges := col_delete (sv_challenges st) ?h\<rparr>"
        obtain ss where ss: "\<forall>s \<in> set ss. credentials_match auth st s"
          "get_authenticated_sessions E clk auth st = (Ok ss, if ss = [] then guess_recorded clk ?h st ?st else ?st)"
          by (rule authenticated_otp [of clk st oa ix ch E]) (use free Some Otp ch in \<open>simp_all add: Let_def\<close>)
        show thesis
        proof (cases "ss = []")
          case True
          then show thesis
            using assms ss(2) Some
            by (intro refused [OF free, of "col_delete (sv_challenges st) ?h"]) (simp_all add: Otp guess_recorded_def)
        next
          case False
          then show thesis using assms ss by (intro granted [OF free, of ss]) (simp_all add: Otp)
        qed
      qed
    qed
  qed
qed

end
