(* ===== verification/Signer_Cases.thy ===== *)
theory Signer_Cases
  imports Signer_Lemmas
begin

text \<open>
  Case rules for the handlers: each outcome with the guards that lead to it and the state it
  leaves.
\<close>

definition declined :: "'r response res \<Rightarrow> bool" where
  "declined r \<longleftrightarrow> (\<forall>resp. r = Ok resp \<longrightarrow> \<not> resp_ok resp)"

lemma declined_simps [simp]:
  "declined (Ok resp) \<longleftrightarrow> \<not> resp_ok resp" "declined (Err e)" "declined Panic"
  by (auto simp: declined_def)

lemma bindA_eq:
  assumes "bindA m st f = (r, st')"
  obtains (ok) x where "m = Ok x" "f x = (r, st')"
  | (err) e where "m = Err e" "r = Err e" "st' = st"
  | (panic) "m = Panic" "r = Panic" "st' = st"
  using assms by (cases m) auto

lemma register_cases:
  assumes "handle_register E clk auth data st = (r, st')"
  obtains (declined) "declined r" "st' = st"
  | (registered) "r = Ok (respond True ''Your key has been registered'' ())"
      "st' = add_session (na_pubkey auth) (new_session (na_pubkey auth) (rq_share data) (rq_group data)
         (rq_recovery data) (clk 2) (clk 3)) st"
      "\<not> check_key_reuse (na_pubkey auth) st"
      "opt_register_pow (sv_options st) \<le> get_pow (na_event_id auth)"
      "0 < unat (g_threshold (rq_group data))"
      "unat (g_threshold (rq_group data)) \<le> length (g_commits (rq_group data))"
      "s_is_group_member E (rq_group data) (rq_share data) = Ok True"
      "length (remdups_adj (map c_idx (g_commits (rq_group data)))) = length (g_commits (rq_group data))"
proof -
  let ?m = "s_is_group_member E (rq_group data) (rq_share data)"
  let ?early = "check_key_reuse (na_pubkey auth) st \<or>
    get_pow (na_event_id auth) < opt_register_pow (sv_options st) \<or>
    unat (g_threshold (rq_group data)) = 0 \<or>
    unat (g_threshold (rq_group data)) > length (g_commits (rq_group data))"
  show thesis
  proof (cases ?early)
    case True
    then show thesis using assms declined unfolding handle_register_def Let_def by (auto split: if_splits)
  next
    case False
    then have eq: "bindA ?m st (\<lambda>member.
        if \<not> member
        then (Ok (respond False ''Share does not belong to the provided group.'' ()), st)
        else
          (let idxs = map c_idx (g_commits (rq_group data))
           in if length (remdups_adj idxs) \<noteq> length idxs
              then (Ok (respond False ''Group contains duplicate member indices.'' ()), st)
              else if \<not> list_ex (\<lambda>c. c_idx c = sh_idx (rq_share data)) (g_commits (rq_group data))
              then (Ok (respond False ''Share index not found in group commits.'' ()), st)
              else if col_get (sv_sessions st) (na_pubkey auth) \<noteq> None
              then (Ok (respond False ''Client is already registered.'' ()), st)
              else (Ok (respond True ''Your key has been registered'' ()),
                    add_session (na_pubkey auth)
                      (new_session (na_pubkey auth) (rq_share data) (rq_group data)
                        (rq_recovery data) (clk 2) (clk 3)) st))) = (r, st')"
      using assms by (simp add: handle_register_def Let_def)
    from this show thesis
    proof (cases rule: bindA_eq)
      case (ok member)
      show thesis
      proof (cases "declined r")
        case True
        then show thesis using ok declined by (auto simp: Let_def split: if_splits)
      next
        case not_declined: False
        with ok(2) have "member" "length (remdups_adj (map c_idx (g_commits (rq_group data)))) =
            length (g_commits (rq_group data))"
          "r = Ok (respond True ''Your key has been registered'' ())"
          "st' = add_session (na_pubkey auth) (new_session (na_pubkey auth) (rq_share data) (rq_group data)
            (rq_recovery data) (clk 2) (clk 3)) st"
          by (auto simp: Let_def split: if_splits)
        then show thesis using registered False ok(1) by auto
      qed
    qed (use declined in simp_all)
  qed
qed

lemma recovery_setup_cases:
  assumes "handle_recovery_setup E clk auth data st = (r, st')"
  obtains (declined) "declined r" "st' = st"
  | (initialized) session email_hash where
      "r = Ok (respond True ''Recovery method successfully initialized.'' ())"
      "col_get (sv_sessions st) (na_pubkey auth) = Some session"
      "sess_recovery session" "saturating_sub (clk 2) (15 * MINUTE_SECS) \<le> sess_created_at session"
      "sess_email session = None" "regex_is_hex64 (rsq_password_hash data)"
      "hash_email E (rsq_email data) (opt_url (sv_options st)) (opt_argon_m (sv_options st)) = Ok email_hash"
      "st' = add_session (na_pubkey auth)
        (session\<lparr>sess_last_activity := clk 3, sess_email := Some (rsq_email data),
           sess_email_hash := Some email_hash, sess_password_hash := Some (rsq_password_hash data)\<rparr>) st"
proof (cases "col_get (sv_sessions st) (na_pubkey auth)")
  case None
  then show thesis using assms declined by (auto simp: handle_recovery_setup_def)
next
  case (Some session)
  show thesis
  proof (cases "sess_recovery session \<and>
      \<not> sess_created_at session < saturating_sub (clk 2) (15 * MINUTE_SECS) \<and>
      sess_email session = None \<and> regex_is_hex64 (rsq_password_hash data)")
    case False
    then show thesis
      using assms Some declined unfolding handle_recovery_setup_def Let_def by (auto split: if_splits)
  next
    case True
    then have "bindA (hash_email E (rsq_email data) (opt_url (sv_options st)) (opt_argon_m (sv_options st))) st
        (\<lambda>email_hash. (Ok (respond True ''Recovery method successfully initialized.'' ()),
           add_session (na_pubkey auth)
             (session\<lparr>sess_last_activity := clk 3, sess_email := Some (rsq_email data),
                sess_email_hash := Some email_hash,
                sess_password_hash := Some (rsq_password_hash data)\<rparr>) st)) = (r, st')"
      using assms Some by (simp add: handle_recovery_setup_def Let_def)
    then show thesis
      by (cases rule: bindA_eq)
        (use declined initialized [OF _ Some] True in \<open>auto simp: not_less\<close>)
  qed
qed

lemma challenge_cases:
  assumes "handle_challenge E clk buf auth data st = (r, st')"
  obtains (silent) "st' = st" "r = Ok challenge_reply \<or> r = Panic"
      "is_rate_limited (clk 0) (col_get (sv_rate_limit_by_email_hash st) (cq_email_hash data)) EMAIL_RATE_LIMITS \<or>
       challenge_target (cq_email_hash data) st = None"
  | (issued) email n st1 where
      "\<not> is_rate_limited (clk 0)
         (col_get (sv_rate_limit_by_email_hash st) (cq_email_hash data)) EMAIL_RATE_LIMITS"
      "challenge_target (cq_email_hash data) st = Some email"
      "random_int buf 100000 1000000 = Ok n"
      "st1 = st\<lparr>sv_rate_limit_by_email_hash := col_set (sv_rate_limit_by_email_hash st) (cq_email_hash data)
           (record_attempt (clk 1) (col_get (sv_rate_limit_by_email_hash st) (cq_email_hash data)) EMAIL_RATE_LIMITS),
         sv_challenges := col_set (sv_challenges st) (cq_email_hash data)
           \<lparr>ch_created_at = clk 2, ch_otp = cq_prefix data @ dec_digits (unat n)\<rparr>\<rparr>"
      "(opt_test_mode (sv_options st) \<and> r = Ok challenge_reply \<and> st' = st1) \<or>
       (\<not> opt_test_mode (sv_options st) \<and> opt_mailer (sv_options st) \<noteq> None \<and> r = Ok challenge_reply \<and>
        st' = st1\<lparr>sv_outbox := sv_outbox st @ [(opt_from_email (sv_options st), opt_from_name (sv_options st),
          (challenge_email E (cq_prefix data @ dec_digits (unat n)))\<lparr>ml_to := email\<rparr>)]\<rparr>) \<or>
       (\<not> opt_test_mode (sv_options st) \<and> opt_mailer (sv_options st) = None \<and> r = Panic \<and> st' = st1)"
proof (cases "is_rate_limited (clk 0)
    (col_get (sv_rate_limit_by_email_hash st) (cq_email_hash data)) EMAIL_RATE_LIMITS")
  case True
  then show thesis using assms silent by (auto simp: handle_challenge_def Let_def)
next
  case free: False
  show thesis
  proof (cases "challenge_target (cq_email_hash data) st")
    case None
    have "debug_slice E (cq_email_hash data) = Panic \<or> debug_slice E (cq_email_hash data) = Ok ()"
      by (simp add: debug_slice_def str_upto_def)
    then show thesis using assms free None silent by (auto simp: handle_challenge_def Let_def)
  next
    case (Some email)
    obtain n where n: "random_int buf 100000 1000000 = Ok n"
      by (simp add: random_int_def Let_def)
    show thesis
      by (rule issued [OF free Some n refl])
        (use assms free Some n in \<open>auto simp: handle_challenge_def Let_def split: if_splits\<close>)
  qed
qed

lemma recovery_start_cases:
  assumes "handle_recovery_start E clk auth data st = (r, st')"
  obtains (declined) "declined r"
      "st' = st \<or> (\<exists>r1. get_authenticated_sessions E clk (rtq_auth data) st = (r1, st'))"
  | (started) sessions items st1 where
      "\<not> check_key_reuse (na_pubkey auth) st"
      "get_authenticated_sessions E clk (rtq_auth data) st = (Ok sessions, st1)" "sessions \<noteq> []"
      "mapR make_session_item sessions = Ok items"
      "r = Ok (respond True ''Successfully retrieved recovery options.'' (Some items))"
      "st' = st1\<lparr>sv_recoveries := col_set (sv_recoveries st1) (na_pubkey auth)
         \<lparr>srec_created_at = clk 2, srec_clients = map sess_client sessions\<rparr>\<rparr>"
proof (cases "check_key_reuse (na_pubkey auth) st")
  case True
  then show thesis using assms declined by (auto simp: handle_recovery_start_def)
next
  case fresh: False
  obtain r1 st1 where auth: "get_authenticated_sessions E clk (rtq_auth data) st = (r1, st1)" by fastforce
  show thesis
  proof (cases r1)
    case (Ok sessions)
    show thesis
    proof (cases "sessions = []")
      case True
      then show thesis
        using assms fresh auth Ok declined by (auto simp: handle_recovery_start_def)
    next
      case False
      then have "bindA (mapR make_session_item sessions) st1 (\<lambda>items.
          (Ok (respond True ''Successfully retrieved recovery options.'' (Some items)),
           st1\<lparr>sv_recoveries := col_set (sv_recoveries st1) (na_pubkey auth)
             \<lparr>srec_created_at = clk 2, srec_clients = map sess_client sessions\<rparr>\<rparr>)) = (r, st')"
        using assms fresh auth Ok by (simp add: handle_recovery_start_def Let_def)
      then show thesis
        by (cases rule: bindA_eq)
          (use declined started [OF fresh auth [unfolded Ok] False] auth in auto)
    qed
  qed (use assms fresh auth declined in \<open>auto simp: handle_recovery_start_def\<close>)
qed

lemma login_start_cases:
  assumes "handle_login_start E clk auth data st = (r, st')"
  obtains (declined) "declined r"
      "st' = st \<or> (\<exists>r1. get_authenticated_sessions E clk (lsq_auth data) st = (r1, st'))"
  | (started) sessions items st1 where
      "\<not> check_key_reuse (na_pubkey auth) st"
      "get_authenticated_sessions E clk (lsq_auth data) st = (Ok sessions, st1)" "sessions \<noteq> []"
      "mapR make_session_item sessions = Ok items"
      "r = Ok (respond True ''Successfully retrieved login options.'' (Some items))"
      "st' = st1\<lparr>sv_logins := col_set (sv_logins st1) (na_pubkey auth)
         \<lparr>slog_created_at = clk 2, slog_clients = map sess_client sessions\<rparr>\<rparr>"
proof (cases "check_key_reuse (na_pubkey auth) st")
  case True
  then show thesis using assms declined by (auto simp: handle_login_start_def)
next
  case fresh: False
  obtain r1 st1 where auth: "get_authenticated_sessions E clk (lsq_auth data) st = (r1, st1)" by fastforce
  show thesis
  proof (cases r1)
    case (Ok sessions)
    show thesis
    proof (cases "sessions = []")
      case True
      then show thesis
        using assms fresh auth Ok declined by (auto simp: handle_login_start_def)
    next
      case False
      then have "bindA (mapR make_session_item sessions) st1 (\<lambda>items.
          (Ok (respond True ''Successfully retrieved login options.'' (Some items)),
           st1\<lparr>sv_logins := col_set (sv_logins st1) (na_pubkey auth)
             \<lparr>slog_created_at = clk 2, slog_clients = map sess_client sessions\<rparr>\<rparr>)) = (r, st')"
        using assms fresh auth Ok by (simp add: handle_login_start_def Let_def)
      then show thesis
        by (cases rule: bindA_eq)
          (use declined started [OF fresh auth [unfolded Ok] False] auth in auto)
    qed
  qed (use assms fresh auth declined in \<open>auto simp: handle_login_start_def\<close>)
qed

lemma recovery_select_cases:
  assumes "handle_recovery_select auth data st = (r, st')"
  obtains (absent) "declined r" "st' = st" "col_get (sv_recoveries st) (na_pubkey auth) = None"
  | (declined) "declined r" "st' = st\<lparr>sv_recoveries := col_delete (sv_recoveries st) (na_pubkey auth)\<rparr>"
  | (released) recovery session where
      "col_get (sv_recoveries st) (na_pubkey auth) = Some recovery"
      "clq_client data \<in> set (srec_clients recovery)"
      "col_get (sv_sessions st) (clq_client data) = Some session"
      "r = Ok (respond True ''Recovery successfully completed.''
         (Some (sess_share session), Some (sess_group session)))"
      "st' = st\<lparr>sv_recoveries := col_delete (sv_recoveries st) (na_pubkey auth)\<rparr>"
  using assms unfolding handle_recovery_select_def Let_def
  by (cases "col_get (sv_recoveries st) (na_pubkey auth)")
    (auto split: if_splits option.splits)

lemma login_select_cases:
  assumes "handle_login_select clk auth data st = (r, st')"
  obtains (absent) "declined r" "st' = st" "col_get (sv_logins st) (na_pubkey auth) = None"
  | (declined) "declined r" "st' = st\<lparr>sv_logins := col_delete (sv_logins st) (na_pubkey auth)\<rparr>"
  | (selected) login session where
      "col_get (sv_logins st) (na_pubkey auth) = Some login"
      "clq_client data \<in> set (slog_clients login)"
      "col_get (sv_sessions st) (clq_client data) = Some session"
      "r = Ok (respond True ''Login successfully completed.'' (Some (sess_group session)))"
      "st' = add_session (na_pubkey auth)
         \<lparr>sess_client = na_pubkey auth, sess_share = sess_share session,
          sess_group = sess_group session, sess_recovery = True,
          sess_created_at = clk 2, sess_deactivated_at = None,
          sess_last_activity = clk 3, sess_email = sess_email session,
          sess_email_hash = sess_email_hash session,
          sess_password_hash = sess_password_hash session\<rparr>
         (st\<lparr>sv_logins := col_delete (sv_logins st) (na_pubkey auth)\<rparr>)"
  using assms unfolding handle_login_select_def Let_def
  by (cases "col_get (sv_logins st) (na_pubkey auth)")
    (auto split: if_splits option.splits)

subsection \<open>Signing and key derivation\<close>

text \<open>The guards the three rate-limited handlers share: an active session and a free bucket.\<close>

definition admitted ::
  "(nat \<Rightarrow> u64) \<Rightarrow> string \<Rightarrow> signer \<Rightarrow> signer_session \<Rightarrow> signer \<Rightarrow> bool" where
  "admitted clk client st session st1 \<longleftrightarrow>
     col_get (sv_sessions st) client = Some session \<and> sess_deactivated_at session = None \<and>
     check_and_record_rate_limit clk client st = (True, st1)"

definition admits :: "(nat \<Rightarrow> u64) \<Rightarrow> string \<Rightarrow> signer \<Rightarrow> bool" where
  "admits clk client st \<longleftrightarrow>
     (case col_get (sv_sessions st) client of
        None \<Rightarrow> False
      | Some session \<Rightarrow>
          sess_deactivated_at session = None \<and>
          \<not> is_rate_limited (clk 0) (col_get (sv_rate_limit_by_client st) client) CLIENT_RATE_LIMITS)"

lemma admits_iff: "admits clk client st \<longleftrightarrow> (\<exists>session st1. admitted clk client st session st1)"
  by (auto simp: admits_def admitted_def check_and_record_rate_limit_def Let_def split: option.splits)

lemma sign_commit_cases:
  assumes "handle_sign_commit E clk rnd auth data st = (r, st')"
  obtains (declined) "declined r"
      "st' = st \<and> \<not> admits clk (na_pubkey auth) st \<or> (\<exists>session. admitted clk (na_pubkey auth) st session st')"
  | (created) session seckey pkg entry st1 where
      "admitted clk (na_pubkey auth) st session st1"
      "sh_idx (sess_share session) \<in> set (scq_members data)"
      "decode32 E (sh_seckey (sess_share session)) = Some seckey"
      "create_commit_pkg E \<lparr>ss_idx = sh_idx (sess_share session), ss_seckey = seckey\<rparr> None None
         (rnd 1) (rnd 0) = Ok pkg"
      "entry = \<lparr>ce_commit_id = random_commit_id E (rnd 2), ce_members = scq_members data,
         ce_secret = cp_secret_nonce pkg, ce_created_at = clk 2\<rparr>"
      "st' = st1\<lparr>sv_commits_by_client := (sv_commits_by_client st1)
         (na_pubkey auth \<mapsto> pending_of (na_pubkey auth) st1 @ [entry])\<rparr>"
      "r = mapR_val (\<lambda>pubkey. respond True ''Commitment created''
           (Some \<lparr>scr_commit_id = ce_commit_id entry, scr_idx = sh_idx (sess_share session),
              scr_pubkey = hex_encode E pubkey, scr_hidden_pn = hex_encode E (cp_hidden_pn pkg),
              scr_binder_pn = hex_encode E (cp_binder_pn pkg)\<rparr>)) (get_pubkey E seckey)"
proof (cases "col_get (sv_sessions st) (na_pubkey auth)")
  case None
  then show thesis using assms declined by (auto simp: handle_sign_commit_def admits_def)
next
  case (Some session)
  obtain allowed st1 where rl: "check_and_record_rate_limit clk (na_pubkey auth) st = (allowed, st1)"
    by fastforce
  show thesis
  proof (cases "sess_deactivated_at session = None \<and> allowed")
    case False
    have "\<not> allowed \<Longrightarrow> st1 = st" using rl by (auto elim: check_and_record_cases)
    moreover have "\<not> admits clk (na_pubkey auth) st"
      using False Some rl by (auto simp: admits_iff admitted_def)
    ultimately show thesis using assms Some rl False declined
      by (auto simp: handle_sign_commit_def Let_def split: if_splits)
  next
    case True
    then have adm: "admitted clk (na_pubkey auth) st session st1"
      using Some rl by (simp add: admitted_def)
    have stop: thesis if "declined r" "st' = st1"
      using declined that adm by blast
    show thesis
    proof (cases "sh_idx (sess_share session) \<in> set (scq_members data) \<and>
        decode32 E (sh_seckey (sess_share session)) \<noteq> None")
      case False
      then show thesis using assms Some rl True stop
        by (auto simp: handle_sign_commit_def Let_def split: if_splits)
    next
      case idx: True
      then obtain seckey where k: "decode32 E (sh_seckey (sess_share session)) = Some seckey" by auto
      let ?pkg = "create_commit_pkg E \<lparr>ss_idx = sh_idx (sess_share session), ss_seckey = seckey\<rparr>
        None None (rnd 1) (rnd 0)"
      show thesis
      proof (cases ?pkg)
        case (Ok pkg)
        show thesis
          by (rule created [OF adm conjunct1 [OF idx] k Ok refl])
            (use assms Some rl True idx k Ok in
              \<open>(cases "get_pubkey E seckey"; auto simp: handle_sign_commit_def Let_def
                get_pubkey_compressed_def pending_of_def mapR_val_def)+\<close>)
      qed (use assms Some rl True stop idx k in
            \<open>auto simp: handle_sign_commit_def Let_def split: if_splits\<close>)
    qed
  qed
qed

text \<open>After the commitment is taken: the checks of the request, then the signature.\<close>

lemma sign_complete_taken:
  assumes call: "handle_sign_complete E clk auth data st = (r, st')"
    and adm: "admitted clk (na_pubkey auth) st session st1"
    and tk: "take_commit (sq_commit_id data) (na_pubkey auth) st1 = (Some entry, st2)"
  obtains (stopped) "declined r" "st' = st2"
  | (signed) hp bp result where
      "sci_members (sq_request data) = ce_members entry"
      "pnonces_cover (sess_group session) (sci_members (sq_request data)) (sq_pnonces data)"
      "get_pubkey E (hidden_sn (ce_secret entry)) = Ok hp"
      "get_pubkey E (binder_sn (ce_secret entry)) = Ok bp"
      "\<lparr>pni_idx = sn_idx (ce_secret entry), pni_hidden_pn = hex_encode E hp,
        pni_binder_pn = hex_encode E bp\<rparr> \<in> set (sq_pnonces data)"
      "verify_session_pkg E (sess_group session) (sq_request data)"
      "create_psig_pkg_with_nonce E (sess_group session) (sq_request data) (sess_share session)
         (ce_secret entry) (sq_pnonces data) = Ok result"
      "r = Ok (respond True ''Successfully signed event'' (Some result))"
      "st' = touch_session (clk 2) (na_pubkey auth) session st2"
proof -
  note st = adm [unfolded admitted_def]
  let ?req = "sq_request data" and ?pns = "sq_pnonces data" and ?g = "sess_group session"
  show thesis
  proof (cases "sci_members ?req = ce_members entry \<and> pnonces_cover ?g (sci_members ?req) ?pns")
    case False
    then show thesis using call st tk stopped
      by (auto simp: handle_sign_complete_def Let_def split: if_splits)
  next
    case cover: True
    let ?own = "\<lambda>hp bp. list_ex (\<lambda>pn. pni_idx pn = sn_idx (ce_secret entry) \<and>
        pni_hidden_pn pn = hex_encode E hp \<and> pni_binder_pn pn = hex_encode E bp) ?pns"
    have "handle_sign_complete E clk auth data st =
        bindA (get_pubkey_compressed E (hidden_sn (ce_secret entry))) st2 (\<lambda>own_hidden.
        bindA (get_pubkey_compressed E (binder_sn (ce_secret entry))) st2 (\<lambda>own_binder.
        if \<not> ?own own_hidden own_binder
        then (Ok (respond False ''Public nonce does not match commitment'' None), st2)
        else if \<not> verify_session_pkg E ?g ?req
        then (Ok (respond False ''Failed to verify session package'' None), st2)
        else
          (case create_psig_pkg_with_nonce E ?g ?req (sess_share session) (ce_secret entry) ?pns of
             Ok result \<Rightarrow>
               (Ok (respond True ''Successfully signed event'' (Some result)),
                touch_session (clk 2) (na_pubkey auth) session st2)
           | Err e \<Rightarrow> (Ok (respond False ''Failed to sign event'' None), st2)
           | Panic \<Rightarrow> (Panic, st2))))"
      using st tk conjunct1 [OF cover] conjunct2 [OF cover, unfolded conjunct1 [OF cover]]
      by (simp add: handle_sign_complete_def Let_def)
    from this [symmetric, unfolded call] show thesis
    proof (cases rule: bindA_eq)
      case (ok hp)
      note hp = ok(1) [unfolded get_pubkey_compressed_def]
      from ok(2) show thesis
      proof (cases rule: bindA_eq)
        case (ok bp)
        note bp = ok(1) [unfolded get_pubkey_compressed_def]
        show thesis
        proof (cases "?own hp bp \<and> verify_session_pkg E ?g ?req")
          case False
          then show thesis using ok(2) stopped by (auto split: if_splits)
        next
          case checks: True
          then have own: "\<lparr>pni_idx = sn_idx (ce_secret entry), pni_hidden_pn = hex_encode E hp,
              pni_binder_pn = hex_encode E bp\<rparr> \<in> set ?pns"
            by (auto simp: list_ex_iff) (metis (full_types) old.unit.exhaust public_nonce_item.surjective)
          show thesis
          proof (cases "create_psig_pkg_with_nonce E ?g ?req (sess_share session) (ce_secret entry) ?pns")
            case (Ok result)
            show thesis
              by (rule signed [OF conjunct1 [OF cover] conjunct2 [OF cover] hp bp own conjunct2 [OF checks] Ok])
                (use ok(2) checks Ok in simp_all)
          qed (use ok(2) checks stopped in auto)
        qed
      qed (use stopped in simp_all)
    qed (use stopped in simp_all)
  qed
qed

lemma sign_complete_cases:
  assumes "handle_sign_complete E clk auth data st = (r, st')"
  obtains (declined) "declined r"
      "st' = st \<and> \<not> admits clk (na_pubkey auth) st \<or> (\<exists>session. admitted clk (na_pubkey auth) st session st')"
  | (consumed) session entry st1 where "declined r"
      "admitted clk (na_pubkey auth) st session st1"
      "take_commit (sq_commit_id data) (na_pubkey auth) st1 = (Some entry, st')"
  | (signed) session entry st1 st2 hp bp result where
      "admitted clk (na_pubkey auth) st session st1"
      "take_commit (sq_commit_id data) (na_pubkey auth) st1 = (Some entry, st2)"
      "sci_members (sq_request data) = ce_members entry"
      "pnonces_cover (sess_group session) (sci_members (sq_request data)) (sq_pnonces data)"
      "get_pubkey E (hidden_sn (ce_secret entry)) = Ok hp"
      "get_pubkey E (binder_sn (ce_secret entry)) = Ok bp"
      "\<lparr>pni_idx = sn_idx (ce_secret entry), pni_hidden_pn = hex_encode E hp,
        pni_binder_pn = hex_encode E bp\<rparr> \<in> set (sq_pnonces data)"
      "verify_session_pkg E (sess_group session) (sq_request data)"
      "create_psig_pkg_with_nonce E (sess_group session) (sq_request data) (sess_share session)
         (ce_secret entry) (sq_pnonces data) = Ok result"
      "r = Ok (respond True ''Successfully signed event'' (Some result))"
      "st' = touch_session (clk 2) (na_pubkey auth) session st2"
proof (cases "col_get (sv_sessions st) (na_pubkey auth)")
  case None
  then show thesis using assms declined by (auto simp: handle_sign_complete_def admits_def)
next
  case (Some session)
  obtain allowed st1 where rl: "check_and_record_rate_limit clk (na_pubkey auth) st = (allowed, st1)"
    by fastforce
  show thesis
  proof (cases "sess_deactivated_at session = None \<and> allowed")
    case False
    have "\<not> allowed \<Longrightarrow> st1 = st" using rl by (auto elim: check_and_record_cases)
    moreover have "\<not> admits clk (na_pubkey auth) st"
      using False Some rl by (auto simp: admits_iff admitted_def)
    ultimately show thesis using assms Some rl False declined
      by (auto simp: handle_sign_complete_def Let_def split: if_splits)
  next
    case True
    then have adm: "admitted clk (na_pubkey auth) st session st1"
      using Some rl by (simp add: admitted_def)
    have stop: thesis if "declined r" "st' = st1"
      using declined that adm by blast
    obtain e st2 where tk: "take_commit (sq_commit_id data) (na_pubkey auth) st1 = (e, st2)" by fastforce
    show thesis
    proof (cases e)
      case None
      then have "st2 = st1" using tk by (auto elim: take_commit_cases)
      then show thesis using assms Some rl True tk None stop
        by (auto simp: handle_sign_complete_def Let_def)
    next
      case (Some entry)
      from assms adm tk [unfolded Some] show thesis
      proof (cases rule: sign_complete_taken)
        case stopped
        then show thesis using consumed [OF stopped(1) adm] tk Some by simp
      next
        case (signed hp bp result)
        then show thesis using that(3) [OF adm tk [unfolded Some]] by blast
      qed
    qed
  qed
qed

lemma ecdh_cases:
  assumes "handle_ecdh E clk auth data st = (r, st')"
  obtains (declined) "declined r"
      "st' = st \<and> \<not> admits clk (na_pubkey auth) st \<or> (\<exists>session. admitted clk (na_pubkey auth) st session st')"
  | (derived) session st1 result where
      "admitted clk (na_pubkey auth) st session st1" "eq_ecdh_pk data \<noteq> GENERATOR_X"
      "s_create_ecdh_pkg E data (sess_share session) = Ok result"
      "r = Ok (respond True ''Successfully derived shared secret'' (Some result))"
      "st' = touch_session (clk 2) (na_pubkey auth) session st1"
proof (cases "col_get (sv_sessions st) (na_pubkey auth)")
  case None
  then show thesis using assms declined by (auto simp: handle_ecdh_def admits_def)
next
  case (Some session)
  obtain allowed st1 where rl: "check_and_record_rate_limit clk (na_pubkey auth) st = (allowed, st1)"
    by fastforce
  show thesis
  proof (cases "sess_deactivated_at session = None \<and> allowed")
    case False
    have "\<not> allowed \<Longrightarrow> st1 = st" using rl by (auto elim: check_and_record_cases)
    moreover have "\<not> admits clk (na_pubkey auth) st"
      using False Some rl by (auto simp: admits_iff admitted_def)
    ultimately show thesis using assms Some rl False declined
      by (auto simp: handle_ecdh_def Let_def split: if_splits)
  next
    case True
    then have adm: "admitted clk (na_pubkey auth) st session st1"
      using Some rl by (simp add: admitted_def)
    have stop: thesis if "declined r" "st' = st1"
      using declined that adm by blast
    show thesis
    proof (cases "eq_ecdh_pk data = GENERATOR_X")
      case True
      then show thesis using assms Some rl \<open>sess_deactivated_at session = None \<and> allowed\<close> stop
        by (auto simp: handle_ecdh_def Let_def)
    next
      case False
      show thesis
      proof (cases "s_create_ecdh_pkg E data (sess_share session)")
        case (Ok result)
        show thesis
          by (rule derived [OF adm False Ok]) (use assms Some rl True False Ok in
            \<open>auto simp: handle_ecdh_def Let_def\<close>)
      qed (use assms Some rl True False stop in \<open>auto simp: handle_ecdh_def Let_def\<close>)
    qed
  qed
qed

subsection \<open>Sessions\<close>

lemma owns_session_Ok_True:
  "owns_session pubkey client st = Ok True \<longleftrightarrow>
    (\<exists>session. col_get (sv_sessions st) client = Some session \<and>
       str_from (g_group_pk (sess_group session)) 2 = Ok pubkey)"
  by (auto simp: owns_session_def res_simps split: option.splits)

lemma session_deactivate_cases:
  assumes "handle_session_deactivate clk auth data st = (r, st')"
  obtains (declined) "declined r" "st' = st" "owns_session (na_pubkey auth) (clq_client data) st \<noteq> Ok True"
  | (deactivated) "owns_session (na_pubkey auth) (clq_client data) st = Ok True"
      "r = Ok (respond True ''Successfully deactivated selected session.'' ())"
      "st' = deactivate_session (clk 2) (clq_client data) st"
  using assms unfolding handle_session_deactivate_def
  by (elim bindA_eq) (auto split: if_splits)

lemma session_delete_cases:
  assumes "handle_session_delete auth data st = (r, st')"
  obtains (declined) "declined r" "st' = st" "owns_session (na_pubkey auth) (clq_client data) st \<noteq> Ok True"
  | (deleted) "owns_session (na_pubkey auth) (clq_client data) st = Ok True"
      "r = Ok (respond True ''Successfully deleted selected session.'' ())"
      "st' = delete_session (clq_client data) st"
  using assms unfolding handle_session_delete_def
  by (elim bindA_eq) (auto split: if_splits)

lemma session_list_state: "handle_session_list auth st = (r, st') \<Longrightarrow> st' = st"
  unfolding handle_session_list_def by (auto simp: Let_def elim: bindA_eq)

end
