(* ===== verification/Session_Correct.thy ===== *)
theory Session_Correct
  imports Session Signing
begin

text \<open>
  Correctness of the session bridge: the nonces the signers tweak match the public nonces the
  contexts are built from, so the partial signatures of a session's members combine to a valid
  BIP-340 signature; and the ECDH shares combine to the shared secret.
\<close>

subsection \<open>Inversions\<close>

lemma decode33_encode: "hex_laws E \<Longrightarrow> length b = 33 \<Longrightarrow> decode33 E (hex_encode E b) = Some b"
  by (simp add: decode33_def hex_decode_encode)

lemma decode32_encode: "hex_laws E \<Longrightarrow> length b = 32 \<Longrightarrow> decode32 E (hex_encode E b) = Some b"
  by (simp add: decode32_def hex_decode_encode)

lemma build_contexts_eq_Ok:
  "build_sighash_contexts_from_pnonces E grp request sid base = Ok ctxs \<longleftrightarrow>
     (\<exists>pk h0 hs sighash pnonces ctx.
        decode33 E (g_group_pk grp) = Some pk \<and> sci_hash request = h0 # hs \<and>
        decode32 E h0 = Some sighash \<and>
        filter_mapR (\<lambda>pn. tweak_pnonce E (bp_idx pn) (bp_hidden_pn pn) (bp_binder_pn pn) sid
          (sci_hash request)) base = Ok pnonces \<and>
        get_group_signing_ctx E pk pnonces sighash (List.map_filter (decode32 E) hs) = Ok ctx \<and>
        ctxs = [\<lparr>sx_sighash = sighash, sx_ctx = ctx\<rparr>])"
  by (cases "sci_hash request")
    (auto simp: build_sighash_contexts_from_pnonces_def res_simps Let_def)

text \<open>A package carries the partial signature of its one context.\<close>

lemma create_psig_eq_Ok:
  "create_psig_pkg_with_nonce E grp request share secret pnonces = Ok r \<longleftrightarrow>
     (\<exists>sx seckey pubkey sig.
        build_sighash_contexts_from_pnonces E grp request (s_compute_session_id E grp request)
          (map base_of_item pnonces) = Ok [sx] \<and>
        decode32 E (sh_seckey share) = Some seckey \<and> get_pubkey E seckey = Ok pubkey \<and>
        sign_msg E (sx_ctx sx) \<lparr>ss_idx = sh_idx share, ss_seckey = seckey\<rparr>
          (tweak_secret_nonce E secret (s_compute_session_id E grp request) (sci_hash request)) = Ok sig \<and>
        r = \<lparr>sr_idx = sh_idx share, sr_psig = (hex_encode E (sx_sighash sx), hex_encode E (sg_psig sig)),
             sr_pubkey = encode33 E pubkey,
             sr_sid = hex_encode E (s_compute_session_id E grp request)\<rparr>)"
  unfolding create_psig_pkg_with_nonce_def Let_def
  by (auto simp: res_simps build_contexts_eq_Ok)

lemma filter_mapR_no_err:
  "(\<And>x e. x \<in> set xs \<Longrightarrow> f x \<noteq> Err e) \<Longrightarrow> filter_mapR f xs = mapR f xs"
proof (induction xs)
  case Nil
  then show ?case by simp
next
  case (Cons x xs)
  then have "filter_mapR f xs = mapR f xs" by simp
  moreover have "\<And>e. f x \<noteq> Err e" using Cons.prems by simp
  ultimately show ?case by (cases "f x") auto
qed

lemma filter_mapR_map: "filter_mapR f (map g xs) = filter_mapR (f \<circ> g) xs"
  by (induction xs) (auto split: res.splits)

lemma sign_msg_length: "sign_msg E ctx share sn = Ok s \<Longrightarrow> length (sg_psig s) = 32"
  by (auto simp: sign_msg_def res_simps Let_def split: if_splits prod.splits)

subsection \<open>Members of a session\<close>

text \<open>
  A signer that follows the protocol: the nonce item it sent is the public half of the secret
  it keeps, and its share lies on the group's polynomial.
\<close>

definition item_of_secret ::
  "('s::field, 'p::ab_group_add, 'z) s_externals_scheme \<Rightarrow> secret_nonce \<Rightarrow> public_nonce_item \<Rightarrow> bool"
where
  "item_of_secret E secret item \<longleftrightarrow>
     pni_idx item = sn_idx secret \<and>
     (\<exists>hp bp. get_pubkey E (hidden_sn secret) = Ok hp \<and> get_pubkey E (binder_sn secret) = Ok bp \<and>
        pni_hidden_pn item = hex_encode E hp \<and> pni_binder_pn item = hex_encode E bp)"

definition share_secret ::
  "('s, 'p, 'z) s_externals_scheme \<Rightarrow> sshare \<Rightarrow> secret_share" where
  "share_secret E share = \<lparr>ss_idx = sh_idx share, ss_seckey = the (decode32 E (sh_seckey share))\<rparr>"

definition honest_signer ::
  "('s::field, 'p::ab_group_add, 'z) s_externals_scheme \<Rightarrow> 's list \<Rightarrow> sshare \<times> secret_nonce \<Rightarrow>
   public_nonce_item \<Rightarrow> bool" where
  "honest_signer E cs m item \<longleftrightarrow>
     item_of_secret E (snd m) item \<and> sn_idx (snd m) = sh_idx (fst m) \<and>
     on_poly E cs (share_secret E (fst m))"

lemma length_get_pubkey:
  "k256_laws E \<Longrightarrow> get_pubkey E sk = Ok pk \<Longrightarrow> length pk = 33"
  by (auto simp: get_pubkey_eq_Ok point_mul_gen_zero_iff point_encode_length)

lemma tweak_pnonce_item:
  fixes E :: "('s::field, 'p::ab_group_add, 'z) s_externals_scheme"
  assumes k256: "k256_laws E" and hex: "hex_laws E" and item: "item_of_secret E secret item"
  shows "tweak_pnonce E (pni_idx item) (pni_hidden_pn item) (pni_binder_pn item) sid sv =
    (let sn = tweak_secret_nonce E secret sid sv
     in bindR (get_pubkey E (hidden_sn sn)) (\<lambda>hp.
        bindR (get_pubkey E (binder_sn sn)) (\<lambda>bp.
        Ok \<lparr>pn_idx = sn_idx secret, binder_pn = bp, hidden_pn = hp\<rparr>)))"
proof -
  obtain hp bp where p: "get_pubkey E (hidden_sn secret) = Ok hp" "get_pubkey E (binder_sn secret) = Ok bp"
    and i: "pni_idx item = sn_idx secret" "pni_hidden_pn item = hex_encode E hp"
    "pni_binder_pn item = hex_encode E bp"
    using item by (auto simp: item_of_secret_def)
  note len = length_get_pubkey [OF k256 p(1)] length_get_pubkey [OF k256 p(2)]
  show ?thesis
    by (simp add: tweak_pnonce_def tweak_secret_nonce_def Let_def i decode33_encode [OF hex] len ok_or_def
        tweak_pubkey_get_pubkey [OF k256 p(1)] tweak_pubkey_get_pubkey [OF k256 p(2)])
qed

lemma get_pubkey_not_Err: "get_pubkey E sk \<noteq> Err e"
  by (simp add: get_pubkey_def serialize_element_def serialize_point_def Let_def)

lemma bindR_eq_Err [res_simps]: "bindR m f = Err e \<longleftrightarrow> m = Err e \<or> (\<exists>x. m = Ok x \<and> f x = Err e)"
  by (cases m) auto

lemma tweak_pnonce_pair:
  fixes E :: "('s::field, 'p::ab_group_add, 'z) s_externals_scheme"
  assumes "k256_laws E" and "hex_laws E" and "item_of_secret E secret item"
  shows "tweak_pnonce E (pni_idx item) (pni_hidden_pn item) (pni_binder_pn item) sid sv \<noteq> Err e"
    and "tweak_pnonce E (pni_idx item) (pni_hidden_pn item) (pni_binder_pn item) sid sv = Ok pn \<Longrightarrow>
      nonce_pair E pn (tweak_secret_nonce E secret sid sv)"
  unfolding tweak_pnonce_item [OF assms] Let_def
  by (simp_all add: res_simps get_pubkey_not_Err nonce_pair_def)
    (auto simp: tweak_secret_nonce_def Let_def)

subsection \<open>Aggregation\<close>

text \<open>A member's contribution as \<open>frost-taproot\<close> sees it, and the aggregator's reading of a
  package.\<close>

definition member_parts ::
  "('s::field, 'p::ab_group_add, 'z) s_externals_scheme \<Rightarrow> bytes \<Rightarrow> hex32 list \<Rightarrow>
   sshare \<times> secret_nonce \<Rightarrow> secret_share \<times> secret_nonce" where
  "member_parts E sid sv m = (share_secret E (fst m), tweak_secret_nonce E (snd m) sid sv)"

definition package_sig ::
  "('s, 'p, 'z) s_externals_scheme \<Rightarrow> sign_complete_result \<Rightarrow> share_signature" where
  "package_sig E r =
     \<lparr>sg_idx = sr_idx r, sg_pubkey = the (decode33 E (sr_pubkey r)),
      sg_psig = the (decode32 E (snd (sr_psig r)))\<rparr>"

lemma tweaked_session:
  fixes E :: "('s::field, 'p::ab_group_add, 'z) s_externals_scheme"
  assumes k256: "k256_laws E" and hex: "hex_laws E"
    and honest: "list_all2 (honest_signer E cs) ms items"
    and tweaked: "filter_mapR (\<lambda>pn. tweak_pnonce E (bp_idx pn) (bp_hidden_pn pn) (bp_binder_pn pn) sid sv)
      (map base_of_item items) = Ok pnonces"
  shows "list_all2 (session_member E cs) pnonces (map (member_parts E sid sv) ms)"
    and "map pn_idx pnonces = map pni_idx items"
proof -
  let ?f = "\<lambda>i. tweak_pnonce E (pni_idx i) (pni_hidden_pn i) (pni_binder_pn i) sid sv"
  have no_err: "?f i \<noteq> Err e" if "i \<in> set items" for i e
    using list_all2_setR [OF honest that] tweak_pnonce_pair(1) [OF k256 hex]
    by (auto simp: honest_signer_def)
  have "mapR ?f items = Ok pnonces"
    using tweaked filter_mapR_no_err [of items ?f] no_err
    by (simp add: filter_mapR_map base_of_item_def comp_def)
  then have all: "list_all2 (\<lambda>i pn. ?f i = Ok pn) items pnonces" by (simp add: mapR_eq_Ok)
  have idx: "pn_idx pn = pni_idx i" if "?f i = Ok pn" for i pn
    using that by (auto simp: tweak_pnonce_def res_simps Let_def)
  show "map pn_idx pnonces = map pni_idx items"
    using all by (intro nth_equalityI) (auto simp: list_all2_conv_all_nth intro!: idx)
  have mem: "session_member E cs pn (member_parts E sid sv m)"
    if "honest_signer E cs m i" and "?f i = Ok pn" for m i pn
  proof -
    have h: "item_of_secret E (snd m) i" "sn_idx (snd m) = sh_idx (fst m)" "on_poly E cs (share_secret E (fst m))"
      using that(1) by (simp_all add: honest_signer_def)
    have "sn_idx (tweak_secret_nonce E (snd m) sid sv) = sn_idx (snd m)"
      by (simp add: tweak_secret_nonce_def Let_def)
    then show ?thesis
      using h tweak_pnonce_pair(2) [OF k256 hex h(1) that(2)]
      by (simp add: session_member_def member_parts_def share_secret_def)
  qed
  show "list_all2 (session_member E cs) pnonces (map (member_parts E sid sv) ms)"
    unfolding list_all2_conv_all_nth
  proof (intro conjI allI impI)
    show "length pnonces = length (map (member_parts E sid sv) ms)"
      using list_all2_lengthD [OF honest] list_all2_lengthD [OF all] by simp
  next
    fix i
    assume "i < length pnonces"
    then show "session_member E cs (pnonces ! i) (map (member_parts E sid sv) ms ! i)"
      using mem [of "ms ! i" "items ! i" "pnonces ! i"] honest all
      by (simp add: list_all2_conv_all_nth)
  qed
qed

text \<open>The context a session's members build is one of an honest session.\<close>

lemma session_context:
  fixes E :: "('s::field, 'p::ab_group_add, 'z) s_externals_scheme"
  assumes k256: "k256_laws E" and hex: "hex_laws E"
    and pk: "decode33 E (g_group_pk grp) = Some pk" "lift_x E pk = Ok (point_mul E (point_gen E) (poly_val cs 0))"
    and honest: "list_all2 (honest_signer E cs) ms items"
    and dist: "distinct (map (index_to_scalar \<circ> pni_idx) items :: 's list)"
    and ne: "ms \<noteq> []" and deg: "length cs \<le> length ms"
    and sx: "build_sighash_contexts_from_pnonces E grp request sid (map base_of_item items) = Ok [sx]"
  obtains pnonces hs where "decode32 E (hd (sci_hash request)) = Some (sx_sighash sx)"
    "get_group_signing_ctx E pk pnonces (sx_sighash sx) (List.map_filter (decode32 E) hs) = Ok (sx_ctx sx)"
    "honest_session E cs pk pnonces (map (member_parts E sid (sci_hash request)) ms)"
proof -
  let ?sv = "sci_hash request"
  obtain h0 hs sighash pnonces ctx where h: "?sv = h0 # hs" "decode32 E h0 = Some sighash"
    and pns: "filter_mapR (\<lambda>pn. tweak_pnonce E (bp_idx pn) (bp_hidden_pn pn) (bp_binder_pn pn) sid ?sv)
      (map base_of_item items) = Ok pnonces"
    and ctx: "get_group_signing_ctx E pk pnonces sighash (List.map_filter (decode32 E) hs) = Ok ctx"
    and sx_eq: "sx = \<lparr>sx_sighash = sighash, sx_ctx = ctx\<rparr>"
    using sx pk(1) unfolding build_contexts_eq_Ok by auto
  note tw = tweaked_session [OF k256 hex honest pns]
  have "map (index_to_scalar \<circ> pn_idx) pnonces = (map (index_to_scalar \<circ> pni_idx) items :: 's list)"
    using tw(2) by (metis map_map)
  then have "honest_session E cs pk pnonces (map (member_parts E sid ?sv) ms)"
    unfolding honest_session_def
    using pk(2) tw dist ne deg list_all2_lengthD [OF tw(1)] by auto
  then show thesis using that [of pnonces hs] h ctx sx_eq by simp
qed

text \<open>Once the context is there, every member can make its package.\<close>

lemma package_exists:
  fixes E :: "('s::field, 'p::ab_group_add, 'z) s_externals_scheme"
  assumes k256: "k256_laws E" and hex: "hex_laws E"
    and pk: "decode33 E (g_group_pk grp) = Some pk" "lift_x E pk = Ok (point_mul E (point_gen E) (poly_val cs 0))"
    and honest: "list_all2 (honest_signer E cs) ms items"
    and dist: "distinct (map (index_to_scalar \<circ> pni_idx) items :: 's list)"
    and ne: "ms \<noteq> []" and deg: "length cs \<le> length ms"
    and sx: "build_sighash_contexts_from_pnonces E grp request (s_compute_session_id E grp request)
      (map base_of_item items) = Ok [sx]"
    and m: "m \<in> set ms" and key: "decode32 E (sh_seckey (fst m)) = Some seckey" "get_pubkey E seckey = Ok pubkey"
  shows "\<exists>r. create_psig_pkg_with_nonce E grp request (fst m) (snd m) items = Ok r \<and> sr_idx r = sh_idx (fst m)"
proof -
  let ?sid = "s_compute_session_id E grp request" and ?sv = "sci_hash request"
  obtain pnonces hs where
    ctx: "get_group_signing_ctx E pk pnonces (sx_sighash sx) (List.map_filter (decode32 E) hs) = Ok (sx_ctx sx)"
    and sess: "honest_session E cs pk pnonces (map (member_parts E ?sid ?sv) ms)"
    by (rule session_context [OF k256 hex pk honest dist ne deg sx])
  have "(share_secret E (fst m), tweak_secret_nonce E (snd m) ?sid ?sv) \<in> set (map (member_parts E ?sid ?sv) ms)"
    using m by (auto simp: member_parts_def)
  from sign_msg_member [OF k256 ctx sess this] show ?thesis
    using key unfolding create_psig_eq_Ok sx by (auto simp: share_secret_def)
qed

text \<open>The packages of a session's members combine to a signature that verifies.\<close>

lemma packages_combine:
  fixes E :: "('s::field, 'p::ab_group_add, 'z) s_externals_scheme"
  assumes k256: "k256_laws E" and schnorr: "schnorr_laws E" and hex: "hex_laws E"
    and pk: "decode33 E (g_group_pk grp) = Some pk" "lift_x E pk = Ok (point_mul E (point_gen E) (poly_val cs 0))"
    and honest: "list_all2 (honest_signer E cs) ms items"
    and dist: "distinct (map (index_to_scalar \<circ> pni_idx) items :: 's list)"
    and ne: "ms \<noteq> []" and deg: "length cs \<le> length ms"
    and pkgs: "list_all2 (\<lambda>m r. create_psig_pkg_with_nonce E grp request (fst m) (snd m) items = Ok r) ms pkgs"
  shows "\<exists>ctx sighash sig.
    decode32 E (hd (sci_hash request)) = Some sighash \<and>
    build_sighash_contexts_from_pnonces E grp request (s_compute_session_id E grp request)
      (map base_of_item items) = Ok [\<lparr>sx_sighash = sighash, sx_ctx = ctx\<rparr>] \<and>
    combine_partial_sigs E ctx (map (package_sig E) pkgs) = Ok sig \<and> length sig = 64 \<and>
    (scalar_from_bytes (drop 32 sig) \<noteq> (0 :: 's) \<longrightarrow>
     verify_final_sig E (key_context ctx) sighash sig = Ok True)"
proof -
  let ?sid = "s_compute_session_id E grp request" and ?sv = "sci_hash request"
  have len: "length pkgs = length ms" "length items = length ms"
    using list_all2_lengthD [OF pkgs] list_all2_lengthD [OF honest] by simp_all
  obtain m r where "create_psig_pkg_with_nonce E grp request (fst m) (snd m) items = Ok r"
    using pkgs ne by (cases ms) (auto simp: list_all2_Cons1)
  then obtain sx where sx: "build_sighash_contexts_from_pnonces E grp request ?sid (map base_of_item items) = Ok [sx]"
    unfolding create_psig_eq_Ok by blast
  then obtain sighash ctx where sx_eq: "sx = \<lparr>sx_sighash = sighash, sx_ctx = ctx\<rparr>" by (cases sx) auto
  obtain pnonces hs where h: "decode32 E (hd ?sv) = Some sighash"
    and ctx: "get_group_signing_ctx E pk pnonces sighash (List.map_filter (decode32 E) hs) = Ok ctx"
    and sess: "honest_session E cs pk pnonces (map (member_parts E ?sid ?sv) ms)"
    using session_context [OF k256 hex pk honest dist ne deg sx] by (auto simp: sx_eq)
  define good where "good m r s \<longleftrightarrow>
      sign_msg E ctx (fst (member_parts E ?sid ?sv m)) (snd (member_parts E ?sid ?sv m)) = Ok s \<and>
      sg_psig (package_sig E r) = sg_psig s" for m r s
  have one: "\<exists>s. good m r s"
    if pkg: "create_psig_pkg_with_nonce E grp request (fst m) (snd m) items = Ok r" for m r
  proof -
    obtain seckey sig where k: "decode32 E (sh_seckey (fst m)) = Some seckey"
      and sig: "sign_msg E ctx \<lparr>ss_idx = sh_idx (fst m), ss_seckey = seckey\<rparr>
        (tweak_secret_nonce E (snd m) ?sid ?sv) = Ok sig"
      and r: "snd (sr_psig r) = hex_encode E (sg_psig sig)"
    proof -
      from pkg obtain sx' seckey sig where
        "Ok [sx] = Ok [sx']" "decode32 E (sh_seckey (fst m)) = Some seckey"
        "sign_msg E (sx_ctx sx') \<lparr>ss_idx = sh_idx (fst m), ss_seckey = seckey\<rparr>
          (tweak_secret_nonce E (snd m) ?sid ?sv) = Ok sig"
        "snd (sr_psig r) = hex_encode E (sg_psig sig)"
        unfolding create_psig_eq_Ok sx by auto
      then show thesis using sx_eq by (intro that [of seckey sig]) auto
    qed
    have "length (sg_psig sig) = 32" using sign_msg_length [OF sig] .
    then show ?thesis
      using sig k r by (intro exI [of _ sig])
        (simp add: good_def member_parts_def share_secret_def package_sig_def decode32_encode [OF hex])
  qed
  obtain sigs where sigs: "length sigs = length ms" "\<forall>i < length ms. good (ms ! i) (pkgs ! i) (sigs ! i)"
    using Skolem_list_nth [of "length ms" "\<lambda>i s. good (ms ! i) (pkgs ! i) s"] one pkgs
    by (auto simp: list_all2_conv_all_nth)
  have all: "list_all2 (\<lambda>m s. sign_msg E ctx (fst m) (snd m) = Ok s) (map (member_parts E ?sid ?sv) ms) sigs"
    using sigs by (auto simp: list_all2_conv_all_nth good_def)
  have "map sg_psig (map (package_sig E) pkgs) = map sg_psig sigs"
    using sigs len by (auto simp: list_eq_iff_nth_eq good_def)
  then have "combine_partial_sigs E ctx (map (package_sig E) pkgs) = combine_partial_sigs E ctx sigs"
    by (intro combine_partial_sigs_cong) simp
  then show ?thesis
    using combine_verifies [OF k256 schnorr ctx sess all] sx sx_eq h by auto
qed

end
