(* ===== verification/Signer_Compose.thy ===== *)
theory Signer_Compose
  imports Signer_Cases Session_Correct
begin

text \<open>
  Several signers together.  Each runs on its own state; what their successful answers to
  \<open>/sign/complete\<close> and \<open>/ecdh\<close> carry is what \<open>frost-taproot\<close> combines.
\<close>

text \<open>A successful answer and what it carries.\<close>

definition answers :: "'r option response action \<Rightarrow> 'r \<Rightarrow> bool" where
  "answers a r \<longleftrightarrow> (case fst a of Ok resp \<Rightarrow> resp_ok resp \<and> resp_result resp = Some r | _ \<Rightarrow> False)"

lemma answersE:
  assumes "answers a r"
  obtains resp st' where "a = (Ok resp, st')" "resp_ok resp" "resp_result resp = Some r"
  using assms by (cases a) (auto simp: answers_def split: res.splits)

subsection \<open>Commitments\<close>

text \<open>The nonces a signer publishes belong to the secrets it keeps.\<close>

definition commit_item_of :: "sign_commit_result \<Rightarrow> public_nonce_item" where
  "commit_item_of res =
     \<lparr>pni_idx = scr_idx res, pni_hidden_pn = scr_hidden_pn res, pni_binder_pn = scr_binder_pn res\<rparr>"

lemma hex33_encode: "hex_laws E \<Longrightarrow> length b = 33 \<Longrightarrow> hex33_valid (hex_encode E b)"
  by (simp add: hex33_valid_iff length_hex_encode hex_encode_digits)

lemma hex32_encode: "hex_laws E \<Longrightarrow> length b = 32 \<Longrightarrow> hex32_valid (hex_encode E b)"
  by (simp add: hex32_valid_iff length_hex_encode hex_encode_digits)

lemma item_of_secret_valid:
  assumes "k256_laws E" and "hex_laws E" and "item_of_secret E secret item"
  shows "public_nonce_item_valid item"
  using assms length_get_pubkey [OF assms(1)]
  by (auto simp: item_of_secret_def public_nonce_item_valid_def hex33_encode)

lemma commit_published:
  assumes "handle_sign_commit E clk rnd auth data st = (Ok resp, st')" and "resp_ok resp"
  obtains res session entry where "resp_result resp = Some res"
    "col_get (sv_sessions st) (na_pubkey auth) = Some session"
    "pending_of (na_pubkey auth) st' = pending_of (na_pubkey auth) st @ [entry]"
    "ce_commit_id entry = scr_commit_id res" "scr_commit_id res = random_commit_id E (rnd 2)"
    "ce_members entry = scq_members data"
    "item_of_secret E (ce_secret entry) (commit_item_of res)"
    "scr_idx res = sh_idx (sess_share session)" "sh_idx (sess_share session) \<in> set (scq_members data)"
  using assms(1)
proof (cases rule: sign_commit_cases)
  case declined
  then show thesis using assms(2) by simp
next
  case (created session seckey pkg entry st1)
  obtain pk where pk: "get_pubkey E seckey = Ok pk"
    and resp: "resp = respond True ''Commitment created''
      (Some \<lparr>scr_commit_id = ce_commit_id entry, scr_idx = sh_idx (sess_share session),
         scr_pubkey = hex_encode E pk, scr_hidden_pn = hex_encode E (cp_hidden_pn pkg),
         scr_binder_pn = hex_encode E (cp_binder_pn pkg)\<rparr>)"
    using created(7) [symmetric] by (cases "get_pubkey E seckey") (auto simp: mapR_val_def)
  have st1: "sv_commits_by_client st1 = sv_commits_by_client st"
    "col_get (sv_sessions st) (na_pubkey auth) = Some session"
    using created(1) by (auto simp: admitted_def elim: check_and_record_cases)
  have "nonce_pair E (cp_public_nonce pkg) (cp_secret_nonce pkg)" "cp_idx pkg = sh_idx (sess_share session)"
    using create_commit_pkg_pair [OF created(4)] by simp_all
  then have "item_of_secret E (ce_secret entry)
      \<lparr>pni_idx = sh_idx (sess_share session), pni_hidden_pn = hex_encode E (cp_hidden_pn pkg),
       pni_binder_pn = hex_encode E (cp_binder_pn pkg)\<rparr>"
    by (auto simp: created(5) item_of_secret_def nonce_pair_def cp_public_nonce_def cp_secret_nonce_def)
  then show thesis
    using that [OF _ st1(2), of _ entry] created(2,5,6) st1(1) resp
    by (simp add: pending_of_def commit_item_of_def)
qed

subsection \<open>Signing\<close>

text \<open>
  A signer of the group \<open>grp\<close> whose share lies on the group's polynomial, and its successful
  answer \<open>r\<close> to a request for \<open>request\<close> with the public nonces \<open>pns\<close>.
\<close>

definition completes ::
  "('s::field, 'p::ab_group_add, 'z) s_externals_scheme \<Rightarrow> 's list \<Rightarrow> sgroup \<Rightarrow> sign_complete_inner \<Rightarrow>
   public_nonce_item list \<Rightarrow>
   signer \<times> nostr_auth \<times> (nat \<Rightarrow> u64) \<times> string \<Rightarrow> sign_complete_result \<Rightarrow> bool" where
  "completes E cs grp request pns party r \<longleftrightarrow>
     (case party of (st, auth, clk, cid) \<Rightarrow>
        (case col_get (sv_sessions st) (na_pubkey auth) of
           None \<Rightarrow> False
         | Some s \<Rightarrow>
             sess_group s = grp \<and> on_poly E cs (share_secret E (sess_share s)) \<and>
             answers (handle_sign_complete E clk auth
               \<lparr>sq_commit_id = cid, sq_request = request, sq_pnonces = pns\<rparr> st) r))"

lemma completes_honest:
  assumes "completes E cs grp request pns party r"
  obtains m item where "honest_signer E cs m item" "item \<in> set pns" "pni_idx item = sr_idx r"
    "create_psig_pkg_with_nonce E grp request (fst m) (snd m) pns = Ok r"
    "length pns = length (sci_members request)"
proof -
  obtain st auth clk cid where party: "party = (st, auth, clk, cid)" by (cases party)
  let ?d = "\<lparr>sq_commit_id = cid, sq_request = request, sq_pnonces = pns\<rparr>"
  obtain s where s: "col_get (sv_sessions st) (na_pubkey auth) = Some s"
    and grp: "sess_group s = grp" and poly: "on_poly E cs (share_secret E (sess_share s))"
    and ans: "answers (handle_sign_complete E clk auth ?d st) r"
    using assms by (auto simp: completes_def party split: option.splits)
  obtain resp st' where h: "handle_sign_complete E clk auth ?d st = (Ok resp, st')"
    and resp: "resp_ok resp" "resp_result resp = Some r"
    using ans by (rule answersE)
  from h show thesis
  proof (cases rule: sign_complete_cases)
    case (signed session entry st1 st2 hp bp result)
    have eq: "session = s" using signed(1) s by (simp add: admitted_def)
    have r: "result = r" using resp signed(10) by simp
    let ?item = "\<lparr>pni_idx = sn_idx (ce_secret entry), pni_hidden_pn = hex_encode E hp,
      pni_binder_pn = hex_encode E bp\<rparr>"
    have pkg: "create_psig_pkg_with_nonce E grp request (sess_share s) (ce_secret entry) pns = Ok r"
      using signed(9) grp by (simp add: eq r)
    then have idx: "sn_idx (ce_secret entry) = sh_idx (sess_share s)" "sr_idx r = sh_idx (sess_share s)"
      by (auto simp: create_psig_eq_Ok sign_msg_def tweak_secret_nonce_def Let_def split: if_splits)
    have "item_of_secret E (ce_secret entry) ?item"
      using signed(5,6) by (auto simp: item_of_secret_def)
    then have "honest_signer E cs (sess_share s, ce_secret entry) ?item"
      using poly idx by (simp add: honest_signer_def)
    moreover have "?item \<in> set pns" "length pns = length (sci_members request)"
      using signed(4,7) by (simp_all add: pnonces_cover_def)
    ultimately show thesis using that [of "(sess_share s, ce_secret entry)" ?item] pkg idx by simp
  qed (use resp in simp_all)
qed

text \<open>The answers of enough signers combine to a signature that verifies under the group key.\<close>

lemma completed_combine:
  fixes E :: "('s::field, 'p::ab_group_add, 'z) s_externals_scheme"
  assumes k256: "k256_laws E" and schnorr: "schnorr_laws E" and hex: "hex_laws E"
    and pk: "decode33 E (g_group_pk grp) = Some pk" "lift_x E pk = Ok (point_mul E (point_gen E) (poly_val cs 0))"
    and calls: "list_all2 (completes E cs grp request pns) parties results"
    and order: "map sr_idx results = map pni_idx pns"
    and dist: "distinct (map (index_to_scalar \<circ> pni_idx) pns :: 's list)"
    and ne: "parties \<noteq> []" and deg: "length cs \<le> length parties"
  shows "\<exists>ctx sighash sig.
    decode32 E (hd (sci_hash request)) = Some sighash \<and>
    build_sighash_contexts_from_pnonces E grp request (s_compute_session_id E grp request)
      (map base_of_item pns) = Ok [\<lparr>sx_sighash = sighash, sx_ctx = ctx\<rparr>] \<and>
    combine_partial_sigs E ctx (map (package_sig E) results) = Ok sig \<and> length sig = 64 \<and>
    (scalar_from_bytes (drop 32 sig) \<noteq> (0 :: 's) \<longrightarrow>
     verify_final_sig E (key_context ctx) sighash sig = Ok True)"
proof -
  have len: "length parties = length results" "length results = length pns"
    using list_all2_lengthD [OF calls] arg_cong [OF order, of length] by simp_all
  have idx: "distinct (map pni_idx pns)"
    using dist by (auto simp: distinct_map inj_on_def)
  define good where "good m i r \<longleftrightarrow> honest_signer E cs m i \<and>
      create_psig_pkg_with_nonce E grp request (fst m) (snd m) pns = Ok r" for m i r
  have "\<exists>m. good m (pns ! n) (results ! n)" if n: "n < length pns" for n
  proof -
    have "completes E cs grp request pns (parties ! n) (results ! n)"
      using calls n len by (simp add: list_all2_conv_all_nth)
    then obtain m item where m: "honest_signer E cs m item" "item \<in> set pns"
      "pni_idx item = sr_idx (results ! n)"
      "create_psig_pkg_with_nonce E grp request (fst m) (snd m) pns = Ok (results ! n)"
      by (rule completes_honest)
    have "pni_idx item = pni_idx (pns ! n)"
      using m(3) order n len by (metis nth_map)
    then have "item = pns ! n"
      using idx m(2) nth_mem [OF n] by (simp add: distinct_map inj_on_def)
    then show ?thesis using m(1,4) unfolding good_def by blast
  qed
  then obtain ms where ms: "length ms = length pns" "\<forall>n < length pns. good (ms ! n) (pns ! n) (results ! n)"
    using Skolem_list_nth [of "length pns" "\<lambda>n m. good m (pns ! n) (results ! n)"] by auto
  have honest: "list_all2 (honest_signer E cs) ms pns"
    and pkgs: "list_all2 (\<lambda>m r. create_psig_pkg_with_nonce E grp request (fst m) (snd m) pns = Ok r) ms results"
    using ms len by (simp_all add: list_all2_conv_all_nth good_def)
  have "ms \<noteq> []" "length cs \<le> length ms" using ne deg ms(1) len by auto
  then show ?thesis by (rule packages_combine [OF k256 schnorr hex pk honest dist _ _ pkgs])
qed

subsection \<open>Key agreement\<close>

text \<open>A signer's successful answer \<open>r\<close> to \<open>/ecdh\<close>, read back as a public share.\<close>

definition ecdh_answers ::
  "('s::field, 'p::ab_group_add, 'z) s_externals_scheme \<Rightarrow> 's list \<Rightarrow> u32 list \<Rightarrow> hex32 \<Rightarrow>
   signer \<times> nostr_auth \<times> (nat \<Rightarrow> u64) \<times> u32 \<Rightarrow> ecdh_result \<Rightarrow> bool" where
  "ecdh_answers E cs members peer party r \<longleftrightarrow>
     (case party of (st, auth, clk, i) \<Rightarrow>
        (case col_get (sv_sessions st) (na_pubkey auth) of
           None \<Rightarrow> False
         | Some s \<Rightarrow>
             on_poly E cs (share_secret E (sess_share s)) \<and>
             answers (handle_ecdh E clk auth
               \<lparr>eq_idx = i, eq_members = members, eq_ecdh_pk = peer\<rparr> st) r))"

definition keyshare_of ::
  "('s, 'p, 'z) s_externals_scheme \<Rightarrow> ecdh_result \<Rightarrow> public_share" where
  "keyshare_of E r = \<lparr>ps_idx = er_idx r, ps_pubkey = the (decode33 E (er_keyshare r))\<rparr>"

lemma ecdh_answers_share:
  fixes E :: "('s::field, 'p::ab_group_add, 'z) s_externals_scheme"
  assumes k256: "k256_laws E" and hex: "hex_laws E"
    and peer: "decode32 E peer = Some pk" and ans: "ecdh_answers E cs members peer party r"
  obtains s where "on_poly E cs s" "ss_idx s = er_idx r" "create_ecdh_share E members s pk = Ok (keyshare_of E r)"
proof -
  obtain st auth clk i where party: "party = (st, auth, clk, i)" by (cases party)
  let ?d = "\<lparr>eq_idx = i, eq_members = members, eq_ecdh_pk = peer\<rparr>"
  obtain s where s: "col_get (sv_sessions st) (na_pubkey auth) = Some s"
    and poly: "on_poly E cs (share_secret E (sess_share s))" and a: "answers (handle_ecdh E clk auth ?d st) r"
    using ans by (auto simp: ecdh_answers_def party split: option.splits)
  obtain resp st' where h: "handle_ecdh E clk auth ?d st = (Ok resp, st')"
    and resp: "resp_ok resp" "resp_result resp = Some r"
    using a by (rule answersE)
  from h show thesis
  proof (cases rule: ecdh_cases)
    case declined
    then show ?thesis using resp by simp
  next
    case (derived session st1 result)
    have eq: "session = s" "result = r" using derived(1,4) s resp by (simp_all add: admitted_def)
    obtain seckey where k: "decode32 E (sh_seckey (sess_share s)) = Some seckey"
      using derived(3) by (auto simp: eq s_create_ecdh_pkg_def res_simps Let_def split: if_splits)
    have sec: "share_secret E (sess_share s) = \<lparr>ss_idx = sh_idx (sess_share s), ss_seckey = seckey\<rparr>"
      by (simp add: share_secret_def k)
    obtain ks where ks: "create_ecdh_share E members (share_secret E (sess_share s)) pk = Ok ks"
      and r: "er_idx r = ps_idx ks" "er_keyshare r = hex_encode E (ps_pubkey ks)"
      using derived(3) k peer
      by (auto simp: eq sec s_create_ecdh_pkg_def res_simps Let_def encode33_def split: if_splits)
    obtain P where "serialize_element E P = Ok (ps_pubkey ks)"
      and "ps_idx ks = ss_idx (share_secret E (sess_share s))"
      using ks by (auto simp: create_ecdh_share_def res_simps Let_def)
    then have "length (ps_pubkey ks) = 33" "ps_idx ks = ss_idx (share_secret E (sess_share s))"
      by (auto simp: serialize_element_eq_Ok [OF k256] point_encode_length [OF k256])
    then have "keyshare_of E r = ks" by (simp add: keyshare_of_def r decode33_encode [OF hex])
    then show ?thesis
      using that [OF poly] ks r \<open>ps_idx ks = _\<close> by simp
  qed
qed

lemma ecdh_combine:
  fixes E :: "('s::field, 'p::ab_group_add, 'z) s_externals_scheme"
  assumes k256: "k256_laws E" and hex: "hex_laws E"
    and peer: "decode32 E peer = Some pk" "lift_x E pk = Ok P"
    and calls: "list_all2 (ecdh_answers E cs members peer) parties results"
    and order: "map er_idx results = members"
    and dist: "distinct (map index_to_scalar members :: 's list)"
    and ne: "parties \<noteq> []" and deg: "length cs \<le> length parties"
  shows "derive_ecdh_secret E (map (keyshare_of E) results) =
    serialize_element E (point_mul E P (poly_val cs 0))"
proof -
  have len: "length parties = length results" using list_all2_lengthD [OF calls] .
  define good where "good s r \<longleftrightarrow> on_poly E cs s \<and> ss_idx s = er_idx r \<and>
      create_ecdh_share E members s pk = Ok (keyshare_of E r)" for s r
  have "\<exists>s. good s (results ! n)" if n: "n < length results" for n
  proof -
    have "ecdh_answers E cs members peer (parties ! n) (results ! n)"
      using calls n len by (simp add: list_all2_conv_all_nth)
    from ecdh_answers_share [OF k256 hex peer(1) this] show ?thesis by (auto simp: good_def)
  qed
  then obtain ss where ss: "length ss = length results" "\<forall>n < length results. good (ss ! n) (results ! n)"
    using Skolem_list_nth [of "length results" "\<lambda>n s. good s (results ! n)"] by auto
  have idx: "map ss_idx ss = members"
    unfolding order [symmetric] using ss by (simp add: list_eq_iff_nth_eq good_def)
  have "list_all2 (\<lambda>s k. create_ecdh_share E (map ss_idx ss) s pk = Ok k) ss (map (keyshare_of E) results)"
    using ss idx by (simp add: list_all2_conv_all_nth good_def)
  then have "mapR (\<lambda>s. create_ecdh_share E (map ss_idx ss) s pk) ss = Ok (map (keyshare_of E) results)"
    by (simp add: mapR_eq_Ok)
  moreover have "\<forall>s \<in> set ss. on_poly E cs s"
    using ss by (auto simp: in_set_conv_nth good_def)
  moreover have "distinct (map index_to_scalar (map ss_idx ss) :: 's list)" using dist idx by simp
  ultimately show ?thesis
    using ecdh_total [OF k256 peer(2), of ss cs] ne deg ss(1) len by (cases ss) (auto simp del: poly_val_zero)
qed

end
