(* ===== verification/Signer_Route.thy ===== *)
theory Signer_Route
  imports Signer_Handlers
begin

text \<open>
  \<open>Signer::handle\<close> of \<open>pomade-signer-rust/src/signer.rs\<close>, lines 1179 to 1219: authentication,
  decoding of the body and routing.  A \<open>serde_json::Value\<close> is of a type \<open>'j\<close>; the record
  \<open>decoders\<close> holds the derived field decoding of each request type, and the checks of
  \<open>schema.rs\<close> follow it.
\<close>

record 'j decoders =
  jd_challenge :: "'j \<Rightarrow> challenge_request option"
  jd_ecdh :: "'j \<Rightarrow> ecdh_request option"
  jd_login_select :: "'j \<Rightarrow> login_select_request option"
  jd_login_start :: "'j \<Rightarrow> login_start_request option"
  jd_recovery_select :: "'j \<Rightarrow> recovery_select_request option"
  jd_recovery_setup :: "'j \<Rightarrow> recovery_setup_request option"
  jd_recovery_start :: "'j \<Rightarrow> recovery_start_request option"
  jd_register :: "'j \<Rightarrow> register_request option"
  jd_session_deactivate :: "'j \<Rightarrow> session_deactivate_request option"
  jd_session_delete :: "'j \<Rightarrow> session_delete_request option"
  jd_sign_commit :: "'j \<Rightarrow> sign_commit_request option"
  jd_sign_complete :: "'j \<Rightarrow> sign_complete_request option"
  jd_is_object :: "'j \<Rightarrow> bool"

text \<open>The response before it is written as JSON.\<close>

datatype reply =
    PlainReply "unit response"
  | EcdhReply ecdh_response
  | LoginSelectReply login_select_response
  | ItemsReply "session_item list option response"
  | RecoverySelectReply recovery_select_response
  | SessionListReply session_list_response
  | SignCommitReply sign_commit_response
  | SignCompleteReply sign_complete_response

definition fail_reply :: "string \<Rightarrow> reply" where
  "fail_reply msg = PlainReply (respond False msg ())"

definition map_action :: "('a \<Rightarrow> 'b) \<Rightarrow> 'a action \<Rightarrow> 'b action" where
  "map_action f a = (mapR_val f (fst a), snd a)"

text \<open>The \<open>route!\<close> macro.\<close>

definition route ::
  "('j \<Rightarrow> 'd option) \<Rightarrow> ('d \<Rightarrow> bool) \<Rightarrow> 'j \<Rightarrow> ('r \<Rightarrow> reply) \<Rightarrow> ('d \<Rightarrow> signer \<Rightarrow> 'r action) \<Rightarrow>
   signer \<Rightarrow> reply action" where
  "route decode valid body wrap handler st =
     (case decode body of
        Some data \<Rightarrow>
          if valid data then map_action wrap (handler data st)
          else (Ok (fail_reply ''Failed to validate request data.''), st)
      | None \<Rightarrow> (Ok (fail_reply ''Failed to validate request data.''), st))"

definition handle ::
  "('s::field, 'p::ab_group_add, 'z) s_externals_scheme \<Rightarrow> 'j decoders \<Rightarrow> u64 \<Rightarrow> (nat \<Rightarrow> u64) \<Rightarrow>
   (nat \<Rightarrow> bytes) \<Rightarrow> string \<Rightarrow> string \<Rightarrow> 'j \<Rightarrow> signer \<Rightarrow> reply action" where
  "handle E D now clk rnd path auth_header body st =
     (case parse_auth E now auth_header (opt_url (sv_options st)) path of
        None \<Rightarrow> (Ok (fail_reply ''Failed to validate authentication.''), st)
      | Some auth \<Rightarrow>
          if path = ''/challenge'' then
            route (jd_challenge D) (\<lambda>_. True) body PlainReply (handle_challenge E clk (rnd 0) auth) st
          else if path = ''/ecdh'' then
            route (jd_ecdh D) ecdh_request_valid body EcdhReply (handle_ecdh E clk auth) st
          else if path = ''/login/select'' then
            route (jd_login_select D) client_request_valid body LoginSelectReply
              (handle_login_select clk auth) st
          else if path = ''/login/start'' then
            route (jd_login_start D) (\<lambda>_. True) body ItemsReply (handle_login_start E clk auth) st
          else if path = ''/recovery/select'' then
            route (jd_recovery_select D) client_request_valid body RecoverySelectReply
              (handle_recovery_select auth) st
          else if path = ''/recovery/setup'' then
            route (jd_recovery_setup D) (\<lambda>_. True) body PlainReply (handle_recovery_setup E clk auth) st
          else if path = ''/recovery/start'' then
            route (jd_recovery_start D) (\<lambda>_. True) body ItemsReply (handle_recovery_start E clk auth) st
          else if path = ''/register'' then
            route (jd_register D) register_request_valid body PlainReply (handle_register E clk auth) st
          else if path = ''/session/deactivate'' then
            route (jd_session_deactivate D) client_request_valid body PlainReply
              (handle_session_deactivate clk auth) st
          else if path = ''/session/delete'' then
            route (jd_session_delete D) client_request_valid body PlainReply
              (handle_session_delete auth) st
          else if path = ''/session/list'' then
            (if \<not> jd_is_object D body
             then (Ok (fail_reply ''Failed to validate request data.''), st)
             else map_action SessionListReply (handle_session_list auth st))
          else if path = ''/sign/commit'' then
            route (jd_sign_commit D) sign_commit_request_valid body SignCommitReply
              (handle_sign_commit E clk rnd auth) st
          else if path = ''/sign/complete'' then
            route (jd_sign_complete D) sign_complete_request_valid body SignCompleteReply
              (handle_sign_complete E clk auth) st
          else (Ok (fail_reply ''Not found''), st))"

end
