(* ===== verification/Signer_Steps.thy ===== *)
theory Signer_Steps
  imports Signer_Cases Signer_Route
begin

text \<open>
  The signer as a state machine.  A \<open>call\<close> is one validated request; \<open>perform\<close> runs its handler;
  \<open>run\<close> relates the calls made since the signer was opened on an empty database, with the replies
  and the states they started from, to the state reached.  The periodic clean-up is a step of its
  own.  The clock of a call does not go backwards within the call.
\<close>

datatype call =
    CChallenge challenge_request
  | CEcdh ecdh_request
  | CLoginSelect login_select_request
  | CLoginStart login_start_request
  | CRecoverySelect recovery_select_request
  | CRecoverySetup recovery_setup_request
  | CRecoveryStart recovery_start_request
  | CRegister register_request
  | CSessionDeactivate session_deactivate_request
  | CSessionDelete session_delete_request
  | CSessionList
  | CSignCommit sign_commit_request
  | CSignComplete sign_complete_request

fun call_valid :: "call \<Rightarrow> bool" where
  "call_valid (CEcdh d) = ecdh_request_valid d"
| "call_valid (CLoginSelect d) = client_request_valid d"
| "call_valid (CRecoverySelect d) = client_request_valid d"
| "call_valid (CRegister d) = register_request_valid d"
| "call_valid (CSessionDeactivate d) = client_request_valid d"
| "call_valid (CSessionDelete d) = client_request_valid d"
| "call_valid (CSignCommit d) = sign_commit_request_valid d"
| "call_valid (CSignComplete d) = sign_complete_request_valid d"
| "call_valid _ = True"

fun perform ::
  "('s::field, 'p::ab_group_add, 'z) s_externals_scheme \<Rightarrow> (nat \<Rightarrow> u64) \<Rightarrow> (nat \<Rightarrow> bytes) \<Rightarrow>
   nostr_auth \<Rightarrow> call \<Rightarrow> signer \<Rightarrow> reply action" where
  "perform E clk rnd auth (CChallenge d) st = map_action PlainReply (handle_challenge E clk (rnd 0) auth d st)"
| "perform E clk rnd auth (CEcdh d) st = map_action EcdhReply (handle_ecdh E clk auth d st)"
| "perform E clk rnd auth (CLoginSelect d) st = map_action LoginSelectReply (handle_login_select clk auth d st)"
| "perform E clk rnd auth (CLoginStart d) st = map_action ItemsReply (handle_login_start E clk auth d st)"
| "perform E clk rnd auth (CRecoverySelect d) st = map_action RecoverySelectReply (handle_recovery_select auth d st)"
| "perform E clk rnd auth (CRecoverySetup d) st = map_action PlainReply (handle_recovery_setup E clk auth d st)"
| "perform E clk rnd auth (CRecoveryStart d) st = map_action ItemsReply (handle_recovery_start E clk auth d st)"
| "perform E clk rnd auth (CRegister d) st = map_action PlainReply (handle_register E clk auth d st)"
| "perform E clk rnd auth (CSessionDeactivate d) st = map_action PlainReply (handle_session_deactivate clk auth d st)"
| "perform E clk rnd auth (CSessionDelete d) st = map_action PlainReply (handle_session_delete auth d st)"
| "perform E clk rnd auth CSessionList st = map_action SessionListReply (handle_session_list auth st)"
| "perform E clk rnd auth (CSignCommit d) st = map_action SignCommitReply (handle_sign_commit E clk rnd auth d st)"
| "perform E clk rnd auth (CSignComplete d) st = map_action SignCompleteReply (handle_sign_complete E clk auth d st)"

lemma map_action_eq: "map_action f a = (r, st') \<longleftrightarrow> (\<exists>r0. a = (r0, st') \<and> r = mapR_val f r0)"
  by (cases a) (auto simp: map_action_def)

subsection \<open>Routing\<close>

text \<open>
  The request of each path, as its body decodes; \<open>None\<close> for a body that does not.  A request either
  is refused by the router, which leaves the state alone, or is the handler call of its path, for an
  authenticated key and a body that decodes and passes the checks.
\<close>

definition routes :: "'j decoders \<Rightarrow> 'j \<Rightarrow> (string \<times> call option) list" where
  "routes D body =
     [(''/challenge'', map_option CChallenge (jd_challenge D body)),
      (''/ecdh'', map_option CEcdh (jd_ecdh D body)),
      (''/login/select'', map_option CLoginSelect (jd_login_select D body)),
      (''/login/start'', map_option CLoginStart (jd_login_start D body)),
      (''/recovery/select'', map_option CRecoverySelect (jd_recovery_select D body)),
      (''/recovery/setup'', map_option CRecoverySetup (jd_recovery_setup D body)),
      (''/recovery/start'', map_option CRecoveryStart (jd_recovery_start D body)),
      (''/register'', map_option CRegister (jd_register D body)),
      (''/session/deactivate'', map_option CSessionDeactivate (jd_session_deactivate D body)),
      (''/session/delete'', map_option CSessionDelete (jd_session_delete D body)),
      (''/session/list'', if jd_is_object D body then Some CSessionList else None),
      (''/sign/commit'', map_option CSignCommit (jd_sign_commit D body)),
      (''/sign/complete'', map_option CSignComplete (jd_sign_complete D body))]"

definition requested :: "'j decoders \<Rightarrow> string \<Rightarrow> 'j \<Rightarrow> call option" where
  "requested D path body =
     (case map_of (routes D body) path of Some (Some c) \<Rightarrow> if call_valid c then Some c else None | _ \<Rightarrow> None)"

text \<open>What the router does with a decoded body.\<close>

definition serve ::
  "('s::field, 'p::ab_group_add, 'z) s_externals_scheme \<Rightarrow> (nat \<Rightarrow> u64) \<Rightarrow> (nat \<Rightarrow> bytes) \<Rightarrow>
   nostr_auth \<Rightarrow> signer \<Rightarrow> call option \<Rightarrow> reply action" where
  "serve E clk rnd auth st r =
     (case r of
        Some c \<Rightarrow>
          if call_valid c then perform E clk rnd auth c st
          else (Ok (fail_reply ''Failed to validate request data.''), st)
      | None \<Rightarrow> (Ok (fail_reply ''Failed to validate request data.''), st))"

lemma route_serve:
  assumes "\<And>d. call_valid (C d) = valid d"
    and "\<And>d. perform E clk rnd auth (C d) st = map_action wrap (handler d st)"
  shows "route decode valid body wrap handler st = serve E clk rnd auth st (map_option C (decode body))"
  by (simp add: route_def serve_def assms split: option.split)

lemma list_serve:
  "(if \<not> jd_is_object D body then (Ok (fail_reply ''Failed to validate request data.''), st)
    else map_action SessionListReply (handle_session_list auth st)) =
   serve E clk rnd auth st (if jd_is_object D body then Some CSessionList else None)"
  by (simp add: serve_def)

lemma case_map_of:
  "(case map_of ((p, r) # ps) path of None \<Rightarrow> x | Some r \<Rightarrow> f r) =
     (if path = p then f r else case map_of ps path of None \<Rightarrow> x | Some r \<Rightarrow> f r)"
  "(case map_of [] path of None \<Rightarrow> x | Some r \<Rightarrow> f r) = x"
  by simp_all

lemma if_both: "x = x' \<Longrightarrow> y = y' \<Longrightarrow> (if b then x else y) = (if b then x' else y')"
  by simp

lemma handle_serve:
  assumes "parse_auth E now hdr (opt_url (sv_options st)) path = Some auth"
  shows "handle E D now clk rnd path hdr body st =
    (case map_of (routes D body) path of
       None \<Rightarrow> (Ok (fail_reply ''Not found''), st)
     | Some r \<Rightarrow> serve E clk rnd auth st r)"
  unfolding handle_def assms option.case routes_def case_map_of
  by (intro if_both route_serve list_serve refl; simp)

lemma handle_cases:
  assumes "handle E D now clk rnd path hdr body st = (r, st')"
  obtains (refused) msg where "r = Ok (fail_reply msg)" "st' = st"
  | (performed) auth c where "parse_auth E now hdr (opt_url (sv_options st)) path = Some auth"
      "call_valid c" "perform E clk rnd auth c st = (r, st')" "requested D path body = Some c"
proof (cases "parse_auth E now hdr (opt_url (sv_options st)) path")
  case None
  then show thesis using assms refused by (auto simp: handle_def)
next
  case (Some auth)
  show thesis
    using assms refused performed [OF Some]
    unfolding handle_serve [OF Some] serve_def requested_def
    by (auto split: option.splits if_splits)
qed

end
