(* ===== verification/Signer_Invariants.thy ===== *)
theory Signer_Invariants
  imports Signer_Steps
begin

text \<open>
  The invariant of the signer's state and its preservation by every step: sessions hold a member's
  share of a valid group, the email index finds every session of an email, a key has one role,
  and the attempt counters stay within their policies.
\<close>

subsection \<open>The invariant\<close>

definition session_ok ::
  "('s::field, 'p::ab_group_add, 'z) s_externals_scheme \<Rightarrow> string \<Rightarrow> signer_session \<Rightarrow> bool" where
  "session_ok E k s \<longleftrightarrow>
     sess_client s = k \<and> sgroup_valid (sess_group s) \<and> sshare_valid (sess_share s) \<and>
     s_is_group_member E (sess_group s) (sess_share s) = Ok True \<and>
     0 < unat (g_threshold (sess_group s)) \<and>
     unat (g_threshold (sess_group s)) \<le> length (g_commits (sess_group s)) \<and>
     (sess_email s = None \<longleftrightarrow> sess_email_hash s = None) \<and>
     (sess_email_hash s = None \<longleftrightarrow> sess_password_hash s = None)"

definition sessions_ok ::
  "('s::field, 'p::ab_group_add, 'z) s_externals_scheme \<Rightarrow> signer \<Rightarrow> bool" where
  "sessions_ok E st \<longleftrightarrow> (\<forall>k s. col_get (sv_sessions st) k = Some s \<longrightarrow> session_ok E k s)"

definition index_complete :: "signer \<Rightarrow> bool" where
  "index_complete st \<longleftrightarrow>
     (\<forall>c s h. col_get (sv_sessions st) c = Some s \<longrightarrow> sess_email_hash s = Some h \<longrightarrow>
        (\<exists>ix. col_get (sv_sessions_by_email_hash st) h = Some ix \<and> c \<in> set (ix_clients ix)))"

definition index_wf :: "signer \<Rightarrow> bool" where
  "index_wf st \<longleftrightarrow>
     (\<forall>h ix. col_get (sv_sessions_by_email_hash st) h = Some ix \<longrightarrow>
        ix_clients ix \<noteq> [] \<and> distinct (ix_clients ix))"

text \<open>A key is the key of a session, of a recovery or of a login, never of two of them.\<close>

definition keys_disjoint :: "signer \<Rightarrow> bool" where
  "keys_disjoint st \<longleftrightarrow>
     (\<forall>k. (col_get (sv_sessions st) k \<noteq> None \<longrightarrow>
             col_get (sv_recoveries st) k = None \<and> col_get (sv_logins st) k = None) \<and>
          (col_get (sv_recoveries st) k \<noteq> None \<longrightarrow> col_get (sv_logins st) k = None))"

definition buckets_ok :: "signer \<Rightarrow> bool" where
  "buckets_ok st \<longleftrightarrow>
     (\<forall>k. bucket_ok CLIENT_RATE_LIMITS (col_get (sv_rate_limit_by_client st) k) \<and>
          bucket_ok EMAIL_RATE_LIMITS (col_get (sv_rate_limit_by_email_hash st) k))"

definition commits_wf :: "signer \<Rightarrow> bool" where
  "commits_wf st \<longleftrightarrow> (\<forall>c. sv_commits_by_client st c \<noteq> Some [])"

text \<open>Sorted collections make the model's collection operations those of a map.\<close>

definition cols_sorted :: "signer \<Rightarrow> bool" where
  "cols_sorted st \<longleftrightarrow>
     col_sorted (sv_sessions st) \<and> col_sorted (sv_recoveries st) \<and> col_sorted (sv_logins st) \<and>
     col_sorted (sv_challenges st) \<and> col_sorted (sv_sessions_by_email_hash st) \<and>
     col_sorted (sv_rate_limit_by_client st) \<and> col_sorted (sv_rate_limit_by_email_hash st)"

definition signer_inv ::
  "('s::field, 'p::ab_group_add, 'z) s_externals_scheme \<Rightarrow> signer \<Rightarrow> bool" where
  "signer_inv E st \<longleftrightarrow>
     sessions_ok E st \<and> index_complete st \<and> index_wf st \<and> keys_disjoint st \<and> buckets_ok st \<and>
     commits_wf st \<and> cols_sorted st"

lemmas signer_inv_defs =
  signer_inv_def sessions_ok_def index_complete_def index_wf_def keys_disjoint_def buckets_ok_def
  commits_wf_def cols_sorted_def

lemma signer_inv_open: "signer_inv E (signer_open opts)"
  by (simp add: signer_inv_defs signer_open_def bucket_ok_def col_sorted_def)

lemma signer_invD:
  assumes "signer_inv E st"
  shows "sessions_ok E st" and "index_complete st" and "index_wf st" and "keys_disjoint st"
    and "buckets_ok st" and "commits_wf st" and "cols_sorted st"
  using assms by (simp_all add: signer_inv_def)

subsection \<open>Primitive updates\<close>

lemma add_session_sessions:
  "sv_sessions (add_session k s st) = col_set (sv_sessions st) k s"
  by (simp add: add_session_def Let_def split: option.splits)

lemma add_session_frame [simp]:
  "sv_options (add_session k s st) = sv_options st"
  "sv_logins (add_session k s st) = sv_logins st"
  "sv_recoveries (add_session k s st) = sv_recoveries st"
  "sv_challenges (add_session k s st) = sv_challenges st"
  "sv_rate_limit_by_email_hash (add_session k s st) = sv_rate_limit_by_email_hash st"
  "sv_rate_limit_by_client (add_session k s st) = sv_rate_limit_by_client st"
  "sv_commits_by_client (add_session k s st) = sv_commits_by_client st"
  "sv_outbox (add_session k s st) = sv_outbox st"
  by (simp_all add: add_session_def Let_def split: option.splits)

definition indexed :: "string \<Rightarrow> session_index option \<Rightarrow> session_index" where
  "indexed k ix =
     (let i = (case ix of Some i \<Rightarrow> i | None \<Rightarrow> \<lparr>ix_clients = []\<rparr>)
      in if k \<notin> set (ix_clients i) then i\<lparr>ix_clients := ix_clients i @ [k]\<rparr> else i)"

lemma add_session_index:
  "sv_sessions_by_email_hash (add_session k s st) =
    (case sess_email_hash s of None \<Rightarrow> sv_sessions_by_email_hash st
     | Some h \<Rightarrow> col_set (sv_sessions_by_email_hash st) h
         (indexed k (col_get (sv_sessions_by_email_hash st) h)))"
  by (auto simp: add_session_def indexed_def Let_def split: option.splits)

lemma indexed_clients [simp]: "set (ix_clients (indexed k ix)) =
    insert k (case ix of None \<Rightarrow> {} | Some i \<Rightarrow> set (ix_clients i))"
  by (auto simp: indexed_def Let_def split: option.splits)

lemma indexed_wf:
  "(\<And>i. ix = Some i \<Longrightarrow> distinct (ix_clients i)) \<Longrightarrow>
   distinct (ix_clients (indexed k ix)) \<and> ix_clients (indexed k ix) \<noteq> []"
  by (auto simp: indexed_def Let_def split: option.splits)

lemma inv_add_session:
  assumes inv: "signer_inv E st" and s: "session_ok E k s"
    and fresh: "col_get (sv_recoveries st) k = None" "col_get (sv_logins st) k = None"
  shows "signer_inv E (add_session k s st)"
proof -
  note inv = signer_invD [OF inv]
  let ?st = "add_session k s st"
  have "sessions_ok E ?st"
    using inv(1) s by (simp add: sessions_ok_def add_session_sessions)
  moreover have "index_complete ?st"
    unfolding index_complete_def
  proof (intro allI impI)
    fix c s' h
    assume c: "col_get (sv_sessions ?st) c = Some s'" and h: "sess_email_hash s' = Some h"
    show "\<exists>ix. col_get (sv_sessions_by_email_hash ?st) h = Some ix \<and> c \<in> set (ix_clients ix)"
    proof (cases "c = k")
      case True
      then show ?thesis using c h by (simp add: add_session_sessions add_session_index)
    next
      case False
      then have "\<exists>ix. col_get (sv_sessions_by_email_hash st) h = Some ix \<and> c \<in> set (ix_clients ix)"
        using inv(2) c h by (simp add: index_complete_def add_session_sessions)
      then show ?thesis by (auto simp: add_session_index split: option.splits)
    qed
  qed
  moreover have "index_wf ?st"
    unfolding index_wf_def
  proof (intro allI impI)
    fix h ix
    assume "col_get (sv_sessions_by_email_hash ?st) h = Some ix"
    then have "col_get (sv_sessions_by_email_hash st) h = Some ix \<or>
        ix = indexed k (col_get (sv_sessions_by_email_hash st) h)"
      by (auto simp: add_session_index split: option.splits if_splits)
    then show "ix_clients ix \<noteq> [] \<and> distinct (ix_clients ix)"
      using inv(3) indexed_wf [of "col_get (sv_sessions_by_email_hash st) h" k]
      by (auto simp: index_wf_def)
  qed
  moreover have "keys_disjoint ?st"
    using inv(4) fresh by (simp add: keys_disjoint_def add_session_sessions)
  moreover have "buckets_ok ?st" "commits_wf ?st"
    using inv(5,6) by (simp_all add: buckets_ok_def commits_wf_def)
  moreover have "cols_sorted ?st"
    using inv(7) by (simp add: cols_sorted_def add_session_sessions add_session_index col_sorted_set
        split: option.splits)
  ultimately show ?thesis by (simp add: signer_inv_def)
qed

text \<open>Rewriting a session's activity or deactivation time.\<close>

lemma inv_replace_session:
  assumes inv: "signer_inv E st" and old: "col_get (sv_sessions st) k = Some s0"
    and s: "session_ok E k s" and same: "sess_email_hash s = sess_email_hash s0"
  shows "signer_inv E (st\<lparr>sv_sessions := col_set (sv_sessions st) k s\<rparr>)"
proof -
  note inv = signer_invD [OF inv]
  have "sessions_ok E (st\<lparr>sv_sessions := col_set (sv_sessions st) k s\<rparr>)"
    using inv(1) s by (simp add: sessions_ok_def)
  moreover have "index_complete (st\<lparr>sv_sessions := col_set (sv_sessions st) k s\<rparr>)"
    using inv(2) old same unfolding index_complete_def by (simp split: if_splits)
  moreover have "keys_disjoint (st\<lparr>sv_sessions := col_set (sv_sessions st) k s\<rparr>)"
    using inv(4) old by (simp add: keys_disjoint_def)
  ultimately show ?thesis
    using inv by (simp add: signer_inv_def index_wf_def buckets_ok_def commits_wf_def cols_sorted_def
        col_sorted_set)
qed

lemma inv_session: "signer_inv E st \<Longrightarrow> col_get (sv_sessions st) k = Some s \<Longrightarrow> session_ok E k s"
  by (simp add: signer_inv_def sessions_ok_def)

lemma session_ok_times [simp]:
  "session_ok E k (s\<lparr>sess_last_activity := t\<rparr>) = session_ok E k s"
  "session_ok E k (s\<lparr>sess_deactivated_at := d\<rparr>) = session_ok E k s"
  by (simp_all add: session_ok_def)

lemma inv_touch:
  assumes "signer_inv E st" and "col_get (sv_sessions st) k = Some s"
  shows "signer_inv E (touch_session t k s st)"
  unfolding touch_session_def
  by (rule inv_replace_session [OF assms]) (use inv_session [OF assms] in simp_all)

lemma inv_deactivate:
  assumes "signer_inv E st"
  shows "signer_inv E (deactivate_session t k st)"
proof (cases "col_get (sv_sessions st) k")
  case None
  then show ?thesis using assms by (simp add: deactivate_session_def)
next
  case (Some s)
  have "signer_inv E (st\<lparr>sv_sessions := col_set (sv_sessions st) k (s\<lparr>sess_deactivated_at := Some t\<rparr>)\<rparr>)"
    by (rule inv_replace_session [OF assms Some]) (use inv_session [OF assms Some] in simp_all)
  then show ?thesis using Some by (simp add: deactivate_session_def)
qed

lemma delete_session_sessions:
  "col_get (sv_sessions (delete_session k st)) c = (if c = k then None else col_get (sv_sessions st) c)"
  by (auto simp: delete_session_def Let_def split: option.splits)

lemma delete_session_frame [simp]:
  "sv_options (delete_session k st) = sv_options st"
  "sv_logins (delete_session k st) = sv_logins st"
  "sv_recoveries (delete_session k st) = sv_recoveries st"
  "sv_challenges (delete_session k st) = sv_challenges st"
  "sv_rate_limit_by_email_hash (delete_session k st) = sv_rate_limit_by_email_hash st"
  "sv_rate_limit_by_client (delete_session k st) = sv_rate_limit_by_client st"
  "sv_commits_by_client (delete_session k st) = sv_commits_by_client st"
  "sv_outbox (delete_session k st) = sv_outbox st"
  by (simp_all add: delete_session_def Let_def split: option.splits)

text \<open>The index of an email after one of its sessions is deleted.\<close>

lemma delete_session_index:
  assumes "col_get (sv_sessions st) k = Some s"
  shows "col_get (sv_sessions_by_email_hash (delete_session k st)) h =
    (case col_get (sv_sessions_by_email_hash st) h of
       None \<Rightarrow> None
     | Some ix \<Rightarrow>
         if sess_email_hash s \<noteq> Some h then Some ix
         else if filter (\<lambda>c. c \<noteq> k) (ix_clients ix) = [] then None
         else Some (ix\<lparr>ix_clients := filter (\<lambda>c. c \<noteq> k) (ix_clients ix)\<rparr>))"
  using assms by (auto simp: delete_session_def Let_def split: option.splits)

lemma inv_delete_session:
  assumes inv: "signer_inv E st"
  shows "signer_inv E (delete_session k st)"
proof (cases "col_get (sv_sessions st) k")
  case None
  then show ?thesis using inv by (simp add: delete_session_def)
next
  case (Some s)
  note inv = signer_invD [OF inv]
  let ?st = "delete_session k st"
  note index = delete_session_index [OF Some]
  have "sessions_ok E ?st"
    using inv(1) by (simp add: sessions_ok_def delete_session_sessions)
  moreover have "index_complete ?st"
    unfolding index_complete_def
  proof (intro allI impI)
    fix c s' h
    assume "col_get (sv_sessions ?st) c = Some s'" and h: "sess_email_hash s' = Some h"
    then have c: "c \<noteq> k" "col_get (sv_sessions st) c = Some s'"
      by (simp_all add: delete_session_sessions split: if_splits)
    then obtain ix where ix: "col_get (sv_sessions_by_email_hash st) h = Some ix" "c \<in> set (ix_clients ix)"
      using inv(2) h unfolding index_complete_def by blast
    then have "filter (\<lambda>c. c \<noteq> k) (ix_clients ix) \<noteq> []"
      using c(1) by (auto simp: filter_empty_conv)
    then show "\<exists>ix. col_get (sv_sessions_by_email_hash ?st) h = Some ix \<and> c \<in> set (ix_clients ix)"
      using ix c(1) by (simp add: index)
  qed
  moreover have "index_wf ?st"
    using inv(3) by (auto simp: index_wf_def index split: option.splits if_splits)
  moreover have "keys_disjoint ?st"
    using inv(4) by (simp add: keys_disjoint_def delete_session_sessions)
  moreover have "cols_sorted ?st"
    using inv(7) by (simp add: cols_sorted_def delete_session_def Let_def col_sorted_set col_sorted_delete
        split: option.splits)
  ultimately show ?thesis
    using inv by (simp add: signer_inv_def buckets_ok_def commits_wf_def)
qed

text \<open>Updates of the other collections.\<close>

lemma inv_recovery:
  "signer_inv E st \<Longrightarrow> \<not> check_key_reuse k st \<Longrightarrow>
   signer_inv E (st\<lparr>sv_recoveries := col_set (sv_recoveries st) k x\<rparr>)"
  by (auto simp: signer_inv_defs check_key_reuse_def col_sorted_set split: if_splits)

lemma inv_login:
  "signer_inv E st \<Longrightarrow> \<not> check_key_reuse k st \<Longrightarrow>
   signer_inv E (st\<lparr>sv_logins := col_set (sv_logins st) k x\<rparr>)"
  by (auto simp: signer_inv_defs check_key_reuse_def col_sorted_set split: if_splits)

lemma inv_drop_recovery:
  "signer_inv E st \<Longrightarrow> signer_inv E (st\<lparr>sv_recoveries := col_delete (sv_recoveries st) k\<rparr>)"
  by (simp add: signer_inv_defs col_sorted_delete)

lemma inv_drop_login:
  "signer_inv E st \<Longrightarrow> signer_inv E (st\<lparr>sv_logins := col_delete (sv_logins st) k\<rparr>)"
  by (simp add: signer_inv_defs col_sorted_delete)

lemma inv_challenges:
  "signer_inv E st \<Longrightarrow> col_sorted cs \<Longrightarrow> signer_inv E (st\<lparr>sv_challenges := cs\<rparr>)"
  by (simp add: signer_inv_defs)

lemma inv_outbox: "signer_inv E st \<Longrightarrow> signer_inv E (st\<lparr>sv_outbox := ms\<rparr>)"
  by (simp add: signer_inv_defs)

lemma inv_commits:
  "signer_inv E st \<Longrightarrow> (\<forall>c. m c \<noteq> Some []) \<Longrightarrow> signer_inv E (st\<lparr>sv_commits_by_client := m\<rparr>)"
  by (simp add: signer_inv_defs)

lemma recorded_bucket_ok:
  assumes "bucket_ok config bucket" and "\<not> is_rate_limited t1 bucket config" and "t1 \<le> t2"
    and "rate_policy config"
  shows "bucket_ok config (Some (record_attempt t2 bucket config))"
  using rate_policy.bucket_ok_attempt [OF assms(4,1,3)] assms(2) by (simp add: attempt_def)

lemma inv_email_bucket:
  assumes "signer_inv E st" and "t1 \<le> t2"
    and "\<not> is_rate_limited t1 (col_get (sv_rate_limit_by_email_hash st) k) EMAIL_RATE_LIMITS"
  shows "signer_inv E (st\<lparr>sv_rate_limit_by_email_hash := col_set (sv_rate_limit_by_email_hash st) k
    (record_attempt t2 (col_get (sv_rate_limit_by_email_hash st) k) EMAIL_RATE_LIMITS)\<rparr>)"
  using assms(1) recorded_bucket_ok [OF _ assms(3,2) email_policy.rate_policy_axioms]
  by (simp add: signer_inv_defs col_sorted_set)

lemma inv_client_bucket:
  assumes "signer_inv E st" and "t1 \<le> t2"
    and "\<not> is_rate_limited t1 (col_get (sv_rate_limit_by_client st) k) CLIENT_RATE_LIMITS"
  shows "signer_inv E (st\<lparr>sv_rate_limit_by_client := col_set (sv_rate_limit_by_client st) k
    (record_attempt t2 (col_get (sv_rate_limit_by_client st) k) CLIENT_RATE_LIMITS)\<rparr>)"
  using assms(1) recorded_bucket_ok [OF _ assms(3,2) client_policy.rate_policy_axioms]
  by (simp add: signer_inv_defs col_sorted_set)

subsection \<open>Helpers\<close>

definition clock_ok :: "(nat \<Rightarrow> u64) \<Rightarrow> bool" where
  "clock_ok clk \<longleftrightarrow> (\<forall>i j. i \<le> j \<longrightarrow> clk i \<le> clk j)"

lemma clock_okD: "clock_ok clk \<Longrightarrow> clk 0 \<le> clk 1"
  unfolding clock_ok_def by (drule spec2 [of _ 0 1]) simp

lemma admittedD:
  assumes "admitted clk k st s st1"
  shows "col_get (sv_sessions st) k = Some s" "sess_deactivated_at s = None"
    "st1 = st\<lparr>sv_rate_limit_by_client := col_set (sv_rate_limit_by_client st) k
       (record_attempt (clk 1) (col_get (sv_rate_limit_by_client st) k) CLIENT_RATE_LIMITS)\<rparr>"
    "\<not> is_rate_limited (clk 0) (col_get (sv_rate_limit_by_client st) k) CLIENT_RATE_LIMITS"
  using assms by (auto simp: admitted_def elim: check_and_record_cases)

lemma inv_admitted:
  assumes "signer_inv E st" and "admitted clk k st s st1" and "clock_ok clk"
  shows "signer_inv E st1" and "col_get (sv_sessions st1) k = Some s"
  using inv_client_bucket [OF assms(1) clock_okD [OF assms(3)] admittedD(4) [OF assms(2)]]
    admittedD [OF assms(2)] by simp_all

text \<open>Authentication touches only the challenges and the email's bucket.\<close>

lemma authenticated_frame:
  assumes "get_authenticated_sessions E clk auth st = (r, st1)"
  shows "\<exists>cs rl. st1 = st\<lparr>sv_challenges := cs, sv_rate_limit_by_email_hash := rl\<rparr> \<and>
    (col_sorted (sv_challenges st) \<longrightarrow> col_sorted cs) \<and>
    (rl = sv_rate_limit_by_email_hash st \<or>
     \<not> is_rate_limited (clk 0) (col_get (sv_rate_limit_by_email_hash st) (auth_email_hash auth))
        EMAIL_RATE_LIMITS \<and>
     rl = col_set (sv_rate_limit_by_email_hash st) (auth_email_hash auth)
       (record_attempt (clk 1) (col_get (sv_rate_limit_by_email_hash st) (auth_email_hash auth))
          EMAIL_RATE_LIMITS))"
  using assms
proof (cases rule: get_authenticated_cases)
  case limited
  then show ?thesis by (intro exI [of _ "sv_challenges st"] exI [of _ "sv_rate_limit_by_email_hash st"]) simp
next
  case (refused challenges)
  then show ?thesis
    by (intro exI [of _ challenges] exI) (auto simp: col_sorted_delete)
next
  case (granted sessions)
  then show ?thesis
    by (intro exI [of _ "sv_challenges st1"] exI [of _ "sv_rate_limit_by_email_hash st"])
      (simp add: col_sorted_delete)
qed

lemma inv_authenticated:
  assumes inv: "signer_inv E st" and clk: "clock_ok clk"
    and auth: "get_authenticated_sessions E clk auth st = (r, st1)"
  shows "signer_inv E st1"
proof -
  obtain cs rl where st1: "st1 = st\<lparr>sv_challenges := cs, sv_rate_limit_by_email_hash := rl\<rparr>"
    and cs: "col_sorted cs"
    and rl: "rl = sv_rate_limit_by_email_hash st \<or>
     \<not> is_rate_limited (clk 0) (col_get (sv_rate_limit_by_email_hash st) (auth_email_hash auth))
        EMAIL_RATE_LIMITS \<and>
     rl = col_set (sv_rate_limit_by_email_hash st) (auth_email_hash auth)
       (record_attempt (clk 1) (col_get (sv_rate_limit_by_email_hash st) (auth_email_hash auth))
          EMAIL_RATE_LIMITS)"
    using authenticated_frame [OF auth] signer_invD(7) [OF inv] by (auto simp: cols_sorted_def)
  from rl show ?thesis
  proof
    assume "rl = sv_rate_limit_by_email_hash st"
    then show ?thesis using inv_challenges [OF inv cs] by (simp add: st1)
  next
    assume "\<not> is_rate_limited (clk 0) (col_get (sv_rate_limit_by_email_hash st) (auth_email_hash auth))
        EMAIL_RATE_LIMITS \<and>
     rl = col_set (sv_rate_limit_by_email_hash st) (auth_email_hash auth)
       (record_attempt (clk 1) (col_get (sv_rate_limit_by_email_hash st) (auth_email_hash auth))
          EMAIL_RATE_LIMITS)"
    then show ?thesis
      using inv_email_bucket [OF inv_challenges [OF inv cs] clock_okD [OF clk]] by (simp add: st1)
  qed
qed

lemma authenticated_fields:
  assumes "get_authenticated_sessions E clk auth st = (r, st1)"
  shows "sv_sessions st1 = sv_sessions st" "sv_recoveries st1 = sv_recoveries st"
    "sv_logins st1 = sv_logins st" "sv_commits_by_client st1 = sv_commits_by_client st"
    "sv_sessions_by_email_hash st1 = sv_sessions_by_email_hash st" "sv_options st1 = sv_options st"
    "check_key_reuse k st1 = check_key_reuse k st" "sv_outbox st1 = sv_outbox st"
  using authenticated_frame [OF assms] by (auto simp: check_key_reuse_def)

lemma inv_take_commit:
  assumes "signer_inv E st" and "take_commit i k st = (e, st1)"
  shows "signer_inv E st1" and "sv_sessions st1 = sv_sessions st"
proof -
  from assms(2) have "\<exists>m. st1 = st\<lparr>sv_commits_by_client := m\<rparr> \<and> (\<forall>c. m c \<noteq> Some [])"
  proof (cases rule: take_commit_cases)
    case missing
    then show ?thesis
      using assms(1) by (intro exI [of _ "sv_commits_by_client st"]) (simp add: signer_inv_def commits_wf_def)
  next
    case (taken entry m)
    have "m c \<noteq> Some []" for c
    proof (cases "c = k")
      case True
      then show ?thesis using taken(3,6) by simp
    next
      case False
      then show ?thesis
        using taken(3) taken(5) [OF False] assms(1) by (simp add: signer_inv_def commits_wf_def)
    qed
    then show ?thesis using taken(3) by blast
  qed
  then show "signer_inv E st1" "sv_sessions st1 = sv_sessions st"
    using inv_commits [OF assms(1)] by auto
qed

subsection \<open>Clean-up\<close>

lemma purge_get:
  assumes "col_sorted c" and "col_get (purge_loop p n (col_entries c) c) k = Some v"
  shows "col_get c k = Some v"
  using assms by (auto simp: purge_loop_eq col.look_purge split: if_splits)

lemma purge_sorted: "col_sorted c \<Longrightarrow> col_sorted (purge_loop p n kvs c)"
  by (simp add: purge_loop_eq col.inv_purge)

lemma purge_bucket:
  assumes "col_sorted c" and "bucket_ok config (col_get c k)"
  shows "bucket_ok config (col_get (purge_loop p n (col_entries c) c) k)"
proof (cases "col_get (purge_loop p n (col_entries c) c) k")
  case None
  then show ?thesis by (simp add: bucket_ok_def)
next
  case (Some b)
  then show ?thesis using purge_get [OF assms(1) Some] assms(2) by simp
qed

lemma inv_reopen: "signer_inv E st \<Longrightarrow> signer_inv E (signer_reopen opts st)"
  by (auto simp: signer_inv_defs signer_reopen_def signer_open_def)

lemma inv_cleanup:
  assumes inv: "signer_inv E st"
  shows "signer_inv E (cleanup clk st)"
proof -
  note inv = signer_invD [OF inv]
  have sorted: "col_sorted (sv_sessions st)" "col_sorted (sv_recoveries st)" "col_sorted (sv_logins st)"
    "col_sorted (sv_rate_limit_by_client st)" "col_sorted (sv_rate_limit_by_email_hash st)"
    using inv(7) by (simp_all add: cols_sorted_def)
  let ?st = "cleanup clk st"
  have sess: "col_get (sv_sessions ?st) k = Some s \<Longrightarrow> col_get (sv_sessions st) k = Some s" for k s
    using purge_get [OF sorted(1)] by (simp add: cleanup_def Let_def)
  have recs: "col_get (sv_recoveries ?st) k = Some r \<Longrightarrow> col_get (sv_recoveries st) k = Some r" for k r
    using purge_get [OF sorted(2)] by (simp add: cleanup_def Let_def)
  have logs: "col_get (sv_logins ?st) k = Some l \<Longrightarrow> col_get (sv_logins st) k = Some l" for k l
    using purge_get [OF sorted(3)] by (simp add: cleanup_def Let_def)
  have index: "sv_sessions_by_email_hash ?st = sv_sessions_by_email_hash st"
    by (simp add: cleanup_def Let_def)
  have "sessions_ok E ?st" using inv(1) sess by (simp add: sessions_ok_def)
  moreover have "index_complete ?st" using inv(2) sess unfolding index_complete_def index by blast
  moreover have "index_wf ?st" using inv(3) by (simp add: index_wf_def index)
  moreover have "keys_disjoint ?st"
    using inv(4) sess recs logs unfolding keys_disjoint_def by (metis not_Some_eq)
  moreover have "buckets_ok ?st"
    using inv(5) purge_bucket [OF sorted(4)] purge_bucket [OF sorted(5)]
    by (simp add: buckets_ok_def cleanup_def Let_def)
  moreover have "commits_wf ?st"
    by (simp add: commits_wf_def cleanup_def retain_commits_def Let_def split: option.splits)
  moreover have "cols_sorted ?st"
    using inv(7) by (simp add: cols_sorted_def cleanup_def Let_def purge_sorted)
  ultimately show ?thesis by (simp add: signer_inv_def)
qed

subsection \<open>Every step keeps the invariant\<close>

lemma new_session_ok:
  assumes "register_request_valid data" and "0 < unat (g_threshold (rq_group data))"
    and "unat (g_threshold (rq_group data)) \<le> length (g_commits (rq_group data))"
    and "s_is_group_member E (rq_group data) (rq_share data) = Ok True"
  shows "session_ok E k (new_session k (rq_share data) (rq_group data) b t1 t2)"
  using assms by (simp add: session_ok_def new_session_def register_request_valid_def)

lemma inv_disjoint:
  assumes "signer_inv E st" and "col_get (sv_sessions st) k = Some s"
  shows "col_get (sv_recoveries st) k = None" and "col_get (sv_logins st) k = None"
  using assms by (simp_all add: signer_inv_def keys_disjoint_def)

lemma inv_login_key:
  assumes "signer_inv E st" and "col_get (sv_logins st) k = Some l"
  shows "col_get (sv_recoveries st) k = None"
  using assms by (auto simp: signer_inv_def keys_disjoint_def)

lemma inv_register:
  assumes "signer_inv E st" and "register_request_valid data"
    and "handle_register E clk auth data st = (r, st')"
  shows "signer_inv E st'"
  using assms(3)
proof (cases rule: register_cases)
  case declined
  then show ?thesis using assms(1) by simp
next
  case registered
  have "col_get (sv_recoveries st) (na_pubkey auth) = None" "col_get (sv_logins st) (na_pubkey auth) = None"
    using registered(3) by (auto simp: check_key_reuse_def split: if_splits)
  then show ?thesis
    using inv_add_session [OF assms(1) new_session_ok [OF assms(2) registered(5,6,7)]]
    by (simp add: registered(2))
qed

lemma inv_recovery_setup:
  assumes "signer_inv E st" and "handle_recovery_setup E clk auth data st = (r, st')"
  shows "signer_inv E st'"
  using assms(2)
proof (cases rule: recovery_setup_cases)
  case declined
  then show ?thesis using assms(1) by simp
next
  case (initialized session email_hash)
  note old = inv_session [OF assms(1) initialized(2)]
  let ?s = "session\<lparr>sess_last_activity := clk 3, sess_email := Some (rsq_email data),
    sess_email_hash := Some email_hash, sess_password_hash := Some (rsq_password_hash data)\<rparr>"
  have "session_ok E (na_pubkey auth) ?s" using old by (simp add: session_ok_def)
  then show ?thesis
    using inv_add_session [OF assms(1) _ inv_disjoint [OF assms(1) initialized(2)], of ?s]
    by (simp add: initialized(8))
qed

lemma inv_challenge:
  assumes "signer_inv E st" and "clock_ok clk" and "handle_challenge E clk buf auth data st = (r, st')"
  shows "signer_inv E st'"
  using assms(3)
proof (cases rule: challenge_cases)
  case silent
  then show ?thesis using assms(1) by simp
next
  case (issued email n st1)
  have "signer_inv E st1"
    unfolding issued(4)
    using inv_challenges [OF inv_email_bucket [OF assms(1) clock_okD [OF assms(2)] issued(1)],
        of "col_set (sv_challenges st) (cq_email_hash data)
          \<lparr>ch_created_at = clk 2, ch_otp = cq_prefix data @ dec_digits (unat n)\<rparr>"]
      signer_invD(7) [OF assms(1)]
    by (simp add: cols_sorted_def col_sorted_set)
  then show ?thesis using issued(5) inv_outbox by auto
qed

lemma inv_recovery_start:
  assumes "signer_inv E st" and "clock_ok clk" and "handle_recovery_start E clk auth data st = (r, st')"
  shows "signer_inv E st'"
  using assms(3)
proof (cases rule: recovery_start_cases)
  case declined
  then show ?thesis using inv_authenticated [OF assms(1,2)] assms(1) by blast
next
  case (started sessions items st1)
  then show ?thesis
    using inv_recovery [OF inv_authenticated [OF assms(1,2) started(2)]]
      authenticated_fields(7) [OF started(2)] by simp
qed

lemma inv_login_start:
  assumes "signer_inv E st" and "clock_ok clk" and "handle_login_start E clk auth data st = (r, st')"
  shows "signer_inv E st'"
  using assms(3)
proof (cases rule: login_start_cases)
  case declined
  then show ?thesis using inv_authenticated [OF assms(1,2)] assms(1) by blast
next
  case (started sessions items st1)
  then show ?thesis
    using inv_login [OF inv_authenticated [OF assms(1,2) started(2)]]
      authenticated_fields(7) [OF started(2)] by simp
qed

lemma inv_recovery_select:
  assumes "signer_inv E st" and "handle_recovery_select auth data st = (r, st')"
  shows "signer_inv E st'"
  using assms(2) by (cases rule: recovery_select_cases) (use assms(1) inv_drop_recovery in auto)

lemma inv_login_select:
  assumes "signer_inv E st" and "handle_login_select clk auth data st = (r, st')"
  shows "signer_inv E st'"
  using assms(2)
proof (cases rule: login_select_cases)
  case absent
  then show ?thesis using assms(1) by simp
next
  case declined
  then show ?thesis using inv_drop_login [OF assms(1)] by simp
next
  case (selected login session)
  let ?k = "na_pubkey auth"
  let ?s = "\<lparr>sess_client = ?k, sess_share = sess_share session, sess_group = sess_group session,
    sess_recovery = True, sess_created_at = clk 2, sess_deactivated_at = None,
    sess_last_activity = clk 3, sess_email = sess_email session,
    sess_email_hash = sess_email_hash session, sess_password_hash = sess_password_hash session\<rparr>"
  have "session_ok E ?k ?s"
    using inv_session [OF assms(1) selected(3)] by (simp add: session_ok_def)
  then show ?thesis
    unfolding selected(5) using inv_add_session [OF inv_drop_login [OF assms(1)], of ?k ?s]
      inv_login_key [OF assms(1) selected(1)] by simp
qed

lemma inv_sign_commit:
  assumes "signer_inv E st" and "clock_ok clk" and "handle_sign_commit E clk rnd auth data st = (r, st')"
  shows "signer_inv E st'"
  using assms(3)
proof (cases rule: sign_commit_cases)
  case declined
  then show ?thesis using assms(1) inv_admitted(1) [OF assms(1) _ assms(2)] by blast
next
  case (created session seckey pkg entry st1)
  have inv: "signer_inv E st1" by (rule inv_admitted(1) [OF assms(1) created(1) assms(2)])
  show ?thesis
    unfolding created(6)
    by (rule inv_commits [OF inv]) (use signer_invD(6) [OF inv] in \<open>simp add: commits_wf_def\<close>)
qed

lemma inv_sign_complete:
  assumes "signer_inv E st" and "clock_ok clk" and "handle_sign_complete E clk auth data st = (r, st')"
  shows "signer_inv E st'"
  using assms(3)
proof (cases rule: sign_complete_cases)
  case declined
  then show ?thesis using assms(1) inv_admitted(1) [OF assms(1) _ assms(2)] by blast
next
  case (consumed session entry st1)
  show ?thesis
    by (rule inv_take_commit(1) [OF inv_admitted(1) [OF assms(1) consumed(2) assms(2)] consumed(3)])
next
  case (signed session entry st1 st2 hp bp result)
  note adm = inv_admitted [OF assms(1) signed(1) assms(2)]
  note tk = inv_take_commit [OF adm(1) signed(2)]
  show ?thesis
    unfolding signed(11) by (rule inv_touch [OF tk(1)]) (simp add: tk(2) adm(2))
qed

lemma inv_ecdh:
  assumes "signer_inv E st" and "clock_ok clk" and "handle_ecdh E clk auth data st = (r, st')"
  shows "signer_inv E st'"
  using assms(3)
proof (cases rule: ecdh_cases)
  case declined
  then show ?thesis using assms(1) inv_admitted(1) [OF assms(1) _ assms(2)] by blast
next
  case (derived session st1 result)
  note adm = inv_admitted [OF assms(1) derived(1) assms(2)]
  show ?thesis unfolding derived(5) by (rule inv_touch [OF adm])
qed

lemma inv_perform:
  assumes "signer_inv E st" and "clock_ok clk" and "call_valid c"
    and "perform E clk rnd auth c st = (r, st')"
  shows "signer_inv E st'"
proof (cases c)
  case (CSessionDeactivate d)
  then show ?thesis
    using assms by (auto simp: map_action_eq elim!: session_deactivate_cases intro: inv_deactivate)
next
  case (CSessionDelete d)
  then show ?thesis
    using assms by (auto simp: map_action_eq elim!: session_delete_cases intro: inv_delete_session)
next
  case CSessionList
  then show ?thesis using assms by (auto simp: map_action_eq dest: session_list_state)
qed (use assms in \<open>auto simp: map_action_eq intro: inv_register inv_recovery_setup inv_challenge
      inv_recovery_start inv_login_start inv_recovery_select inv_login_select inv_sign_commit
      inv_sign_complete inv_ecdh\<close>)

subsection \<open>Runs\<close>

text \<open>A call with what was answered and the state it was made in.\<close>

record event =
  ev_key :: string
  ev_call :: call
  ev_reply :: "reply res"
  ev_pre :: signer

inductive run ::
  "('s::field, 'p::ab_group_add, 'z) s_externals_scheme \<Rightarrow> signer_options \<Rightarrow> event list \<Rightarrow> signer \<Rightarrow> bool"
  for E opts where
  run_open: "run E opts [] (signer_open opts)"
| run_call: "run E opts tr st \<Longrightarrow> call_valid c \<Longrightarrow> clock_ok clk \<Longrightarrow>
    perform E clk rnd auth c st = (r, st') \<Longrightarrow>
    run E opts (tr @ [\<lparr>ev_key = na_pubkey auth, ev_call = c, ev_reply = r, ev_pre = st\<rparr>]) st'"
| run_cleanup: "run E opts tr st \<Longrightarrow> run E opts tr (cleanup clk st)"
| run_restart: "run E opts tr st \<Longrightarrow> run E opts tr (signer_reopen opts st)"

inductive_cases run_NilE: "run E opts [] st"
inductive_cases run_snocE: "run E opts (tr @ [ev]) st"

lemma run_inv: "run E opts tr st \<Longrightarrow> signer_inv E st"
proof (induction rule: run.induct)
  case run_open
  show ?case by (rule signer_inv_open)
next
  case (run_call tr st c clk rnd auth r st')
  then show ?case by (blast intro: inv_perform)
next
  case (run_cleanup tr st clk)
  show ?case by (rule inv_cleanup [OF run_cleanup.IH])
next
  case (run_restart tr st)
  show ?case by (rule inv_reopen [OF run_restart.IH])
qed

text \<open>\<open>Signer::handle\<close> moves along runs.\<close>

lemma handle_run:
  assumes "run E opts tr st" and "clock_ok clk" and "handle E D now clk rnd path hdr body st = (r, st')"
  shows "run E opts tr st' \<or> (\<exists>ev. run E opts (tr @ [ev]) st')"
  using assms(3)
proof (cases rule: handle_cases)
  case (refused msg)
  then show ?thesis using assms(1) by simp
next
  case (performed auth c)
  then show ?thesis using run_call [OF assms(1) performed(2) assms(2) performed(3)] by blast
qed

end
