(* ===== verification/Signer_Trace.thy ===== *)
theory Signer_Trace
  imports Signer_Invariants
begin

text \<open>
  Facts about whole runs: how often a commitment is issued and used, and that a share or a login
  is only handed out to a key that authenticated before.
\<close>

subsection \<open>Commitments\<close>

text \<open>The answer of \<open>/sign/commit\<close> issues an id to a key; \<open>/sign/complete\<close> signs with one.\<close>

definition issues :: "string \<Rightarrow> string \<Rightarrow> event \<Rightarrow> bool" where
  "issues k i ev \<longleftrightarrow> ev_key ev = k \<and>
     (\<exists>d r res. ev_call ev = CSignCommit d \<and> ev_reply ev = Ok (SignCommitReply r) \<and>
        resp_result r = Some res \<and> scr_commit_id res = i)"

definition signs :: "string \<Rightarrow> string \<Rightarrow> event \<Rightarrow> bool" where
  "signs k i ev \<longleftrightarrow> ev_key ev = k \<and>
     (\<exists>d r. ev_call ev = CSignComplete d \<and> sq_commit_id d = i \<and>
        ev_reply ev = Ok (SignCompleteReply r) \<and> resp_ok r)"

definition pend :: "string \<Rightarrow> string \<Rightarrow> signer \<Rightarrow> nat" where
  "pend k i st = length (filter (\<lambda>e. ce_commit_id e = i) (pending_of k st))"

lemma pend_cong: "sv_commits_by_client st' = sv_commits_by_client st \<Longrightarrow> pend k i st' = pend k i st"
  by (simp add: pend_def pending_of_def)

lemma pend_mset: "pend k i st = size (filter_mset (\<lambda>e. ce_commit_id e = i) (mset (pending_of k st)))"
  by (simp add: pend_def flip: mset_filter)

lemma admitted_commits: "admitted clk k st s st1 \<Longrightarrow> sv_commits_by_client st1 = sv_commits_by_client st"
  by (drule admittedD(3)) simp

lemma touch_commits [simp]: "sv_commits_by_client (touch_session t k s st) = sv_commits_by_client st"
  by (simp add: touch_session_def)

lemma deactivate_frame [simp]:
  "sv_commits_by_client (deactivate_session t k st) = sv_commits_by_client st"
  "sv_recoveries (deactivate_session t k st) = sv_recoveries st"
  "sv_logins (deactivate_session t k st) = sv_logins st"
  by (simp_all add: deactivate_session_def split: option.splits)

lemma pend_take:
  assumes "take_commit j k st = (Some entry, st')"
  shows "pend k' i st = pend k' i st' + (if k' = k \<and> i = j then 1 else 0)"
  using assms
proof (cases rule: take_commit_cases)
  case (taken e m)
  show ?thesis
  proof (cases "k' = k")
    case True
    then show ?thesis using taken by (auto simp: pend_mset)
  next
    case False
    then show ?thesis using taken(5) [OF False] by (simp add: pend_def pending_of_def)
  qed
qed simp

text \<open>Handlers other than the two of signing leave the commitments alone.\<close>

lemma perform_commits:
  assumes "perform E clk rnd auth c st = (r, st')"
    and "\<And>d. c \<noteq> CSignCommit d" and "\<And>d. c \<noteq> CSignComplete d"
  shows "sv_commits_by_client st' = sv_commits_by_client st"
proof (cases c)
  case (CChallenge d)
  then show ?thesis using assms(1) by (auto simp: map_action_eq elim!: challenge_cases)
next
  case (CEcdh d)
  then show ?thesis using assms(1)
    by (auto simp: map_action_eq dest: admitted_commits elim!: ecdh_cases)
next
  case (CLoginSelect d)
  then show ?thesis using assms(1) by (auto simp: map_action_eq elim!: login_select_cases)
next
  case (CLoginStart d)
  then show ?thesis using assms(1)
    by (auto simp: map_action_eq authenticated_fields elim!: login_start_cases)
next
  case (CRecoverySelect d)
  then show ?thesis using assms(1) by (auto simp: map_action_eq elim!: recovery_select_cases)
next
  case (CRecoverySetup d)
  then show ?thesis using assms(1) by (auto simp: map_action_eq elim!: recovery_setup_cases)
next
  case (CRecoveryStart d)
  then show ?thesis using assms(1)
    by (auto simp: map_action_eq authenticated_fields elim!: recovery_start_cases)
next
  case (CRegister d)
  then show ?thesis using assms(1) by (auto simp: map_action_eq elim!: register_cases)
next
  case (CSessionDeactivate d)
  then show ?thesis using assms(1) by (auto simp: map_action_eq elim!: session_deactivate_cases)
next
  case (CSessionDelete d)
  then show ?thesis using assms(1) by (auto simp: map_action_eq elim!: session_delete_cases)
next
  case CSessionList
  then show ?thesis using assms(1) by (auto simp: map_action_eq dest: session_list_state)
qed (use assms in auto)

text \<open>The share of a registered session has a public key, so a created commitment is answered.\<close>

lemma session_pubkey:
  assumes "session_ok E k s" and "decode32 E (sh_seckey (sess_share s)) = Some seckey"
  shows "\<exists>pk. get_pubkey E seckey = Ok pk"
  using assms by (auto simp: session_ok_def s_is_group_member_def res_simps split: option.splits)

lemma commit_step:
  assumes inv: "signer_inv E st" and perf: "perform E clk rnd auth c st = (r, st')"
  shows "pend k i st' + (if signs k i \<lparr>ev_key = na_pubkey auth, ev_call = c, ev_reply = r, ev_pre = st\<rparr> then 1 else 0)
    \<le> pend k i st + (if issues k i \<lparr>ev_key = na_pubkey auth, ev_call = c, ev_reply = r, ev_pre = st\<rparr> then 1 else 0)"
proof (cases c)
  case (CSignCommit d)
  then obtain r0 where h: "handle_sign_commit E clk rnd auth d st = (r0, st')"
    and r: "r = mapR_val SignCommitReply r0"
    using perf by (auto simp: map_action_eq)
  from h show ?thesis
  proof (cases rule: sign_commit_cases)
    case declined
    have "sv_commits_by_client st' = sv_commits_by_client st"
      using declined(2) by (auto dest: admitted_commits)
    then show ?thesis using pend_cong [of st' st k i] by (simp add: CSignCommit signs_def)
  next
    case (created session seckey pkg entry st1)
    have "session_ok E (na_pubkey auth) session"
      using inv_session [OF inv admittedD(1) [OF created(1)]] .
    then obtain pk where "get_pubkey E seckey = Ok pk" using session_pubkey created(3) by blast
    then obtain res where r0: "r0 = Ok (respond True ''Commitment created'' (Some res))"
        "scr_commit_id res = ce_commit_id entry"
      using created(7) by simp
    have "pend k i st' = pend k i st + (if k = na_pubkey auth \<and> ce_commit_id entry = i then 1 else 0)"
      using admitted_commits [OF created(1)] by (simp add: created(6) pend_def pending_of_def)
    then show ?thesis using r0 by (auto simp: CSignCommit r issues_def signs_def)
  qed
next
  case (CSignComplete d)
  then obtain r0 where h: "handle_sign_complete E clk auth d st = (r0, st')"
    and r: "r = mapR_val SignCompleteReply r0"
    using perf by (auto simp: map_action_eq)
  have declined_signs: "declined r0 \<Longrightarrow>
      \<not> signs k i \<lparr>ev_key = na_pubkey auth, ev_call = c, ev_reply = r, ev_pre = st\<rparr>"
    by (cases r0) (auto simp: signs_def r mapR_val_def)
  from h show ?thesis
  proof (cases rule: sign_complete_cases)
    case declined
    have "sv_commits_by_client st' = sv_commits_by_client st"
      using declined(2) by (auto dest: admitted_commits)
    then show ?thesis using pend_cong [of st' st k i] declined_signs declined(1) by simp
  next
    case (consumed session entry st1)
    then show ?thesis
      using pend_take [OF consumed(3), of k i] pend_cong [OF admitted_commits [OF consumed(2)], of k i]
        declined_signs [OF consumed(1)] by simp
  next
    case (signed session entry st1 st2 hp bp result)
    have "pend k i st' = pend k i st2" by (rule pend_cong) (simp add: signed(11))
    then show ?thesis
      using pend_take [OF signed(2), of k i] pend_cong [OF admitted_commits [OF signed(1)], of k i]
      by (simp add: CSignComplete signs_def)
  qed
qed (use pend_cong [OF perform_commits [OF perf]] in \<open>simp_all add: signs_def\<close>)

lemma retain_pend:
  "pend k i (cleanup clk st) \<le> pend k i st"
proof -
  have "length (filter P (filter Q xs)) \<le> length (filter P xs)" for P Q and xs :: "commit_entry list"
    by (induction xs) auto
  then show ?thesis
    by (auto simp: pend_def pending_of_def cleanup_def retain_commits_def Let_def split: option.splits)
qed

text \<open>What was signed with an id, plus what is still pending, was issued.\<close>

lemma run_commit_count:
  "run E opts tr st \<Longrightarrow>
    length (filter (signs k i) tr) + pend k i st \<le> length (filter (issues k i) tr)"
proof (induction rule: run.induct)
  case run_open
  then show ?case by (simp add: pend_def pending_of_def signer_open_def)
next
  case (run_call tr st c clk rnd auth r st')
  then show ?case
    using commit_step [OF run_inv [OF run_call.hyps(1)] run_call.hyps(4), of k i]
    by (auto split: if_splits)
next
  case (run_cleanup tr st clk)
  then show ?case using retain_pend [of k i clk st] by linarith
next
  case (run_restart tr st)
  then show ?case by (simp add: pend_def pending_of_def signer_reopen_def signer_open_def)
qed

subsection \<open>Hand-outs\<close>

text \<open>An earlier call of key \<open>k\<close> started a recovery (or a login) with credentials of client \<open>c\<close>.\<close>

definition recovery_proof :: "event list \<Rightarrow> string \<Rightarrow> string \<Rightarrow> bool" where
  "recovery_proof tr k c \<longleftrightarrow>
     (\<exists>ev d s. ev \<in> set tr \<and> ev_key ev = k \<and> ev_call ev = CRecoveryStart d \<and>
        credentials_match (rtq_auth d) (ev_pre ev) s \<and> sess_client s = c)"

definition login_proof :: "event list \<Rightarrow> string \<Rightarrow> string \<Rightarrow> bool" where
  "login_proof tr k c \<longleftrightarrow>
     (\<exists>ev d s. ev \<in> set tr \<and> ev_key ev = k \<and> ev_call ev = CLoginStart d \<and>
        credentials_match (lsq_auth d) (ev_pre ev) s \<and> sess_client s = c)"

lemma proof_mono [simp]:
  "recovery_proof tr k c \<Longrightarrow> recovery_proof (tr @ tr') k c"
  "login_proof tr k c \<Longrightarrow> login_proof (tr @ tr') k c"
  by (auto simp: recovery_proof_def login_proof_def)

lemma granted_match:
  assumes "get_authenticated_sessions E clk auth st = (Ok ss, st1)" and "s \<in> set ss"
  shows "credentials_match auth st s"
  using assms(1) by (cases rule: get_authenticated_cases) (use assms(2) in auto)

text \<open>How a call can change the two collections of hand-outs.\<close>

lemma perform_recoveries:
  assumes "perform E clk rnd auth c st = (r, st')" and "col_get (sv_recoveries st') k = Some rec"
  shows "col_get (sv_recoveries st) k = Some rec \<or>
    (\<exists>d ss. k = na_pubkey auth \<and> c = CRecoveryStart d \<and> srec_clients rec = map sess_client ss \<and>
       (\<forall>s \<in> set ss. credentials_match (rtq_auth d) st s))"
proof (cases c)
  case (CRecoveryStart d)
  then obtain r0 where "handle_recovery_start E clk auth d st = (r0, st')"
    using assms(1) by (auto simp: map_action_eq)
  then show ?thesis
  proof (cases rule: recovery_start_cases)
    case declined
    then show ?thesis using assms(2) by (auto dest: authenticated_fields(2))
  next
    case (started sessions items st1)
    then show ?thesis
      using assms(2) authenticated_fields(2) [OF started(2)] granted_match [OF started(2)] CRecoveryStart
      by (auto split: if_splits)
  qed
next
  case (CChallenge d)
  then show ?thesis using assms by (auto simp: map_action_eq elim!: challenge_cases)
next
  case (CEcdh d)
  then show ?thesis using assms
    by (auto simp: map_action_eq touch_session_def dest: admittedD(3) elim!: ecdh_cases)
next
  case (CLoginSelect d)
  then show ?thesis using assms by (auto simp: map_action_eq elim!: login_select_cases)
next
  case (CLoginStart d)
  then show ?thesis using assms
    by (auto simp: map_action_eq authenticated_fields elim!: login_start_cases)
next
  case (CRecoverySelect d)
  then show ?thesis using assms
    by (auto simp: map_action_eq split: if_splits elim!: recovery_select_cases)
next
  case (CRecoverySetup d)
  then show ?thesis using assms by (auto simp: map_action_eq elim!: recovery_setup_cases)
next
  case (CRegister d)
  then show ?thesis using assms by (auto simp: map_action_eq elim!: register_cases)
next
  case (CSessionDeactivate d)
  then show ?thesis using assms by (auto simp: map_action_eq elim!: session_deactivate_cases)
next
  case (CSessionDelete d)
  then show ?thesis using assms by (auto simp: map_action_eq elim!: session_delete_cases)
next
  case CSessionList
  then show ?thesis using assms by (auto simp: map_action_eq dest: session_list_state)
next
  case (CSignCommit d)
  then show ?thesis using assms
    by (auto simp: map_action_eq dest: admittedD(3) elim!: sign_commit_cases)
next
  case (CSignComplete d)
  then show ?thesis using assms
    by (auto simp: map_action_eq touch_session_def dest!: admittedD(3) elim!: sign_complete_cases take_commit_cases)
qed

lemma perform_logins:
  assumes "perform E clk rnd auth c st = (r, st')" and "col_get (sv_logins st') k = Some log"
  shows "col_get (sv_logins st) k = Some log \<or>
    (\<exists>d ss. k = na_pubkey auth \<and> c = CLoginStart d \<and> slog_clients log = map sess_client ss \<and>
       (\<forall>s \<in> set ss. credentials_match (lsq_auth d) st s))"
proof (cases c)
  case (CLoginStart d)
  then obtain r0 where "handle_login_start E clk auth d st = (r0, st')"
    using assms(1) by (auto simp: map_action_eq)
  then show ?thesis
  proof (cases rule: login_start_cases)
    case declined
    then show ?thesis using assms(2) by (auto dest: authenticated_fields(3))
  next
    case (started sessions items st1)
    then show ?thesis
      using assms(2) authenticated_fields(3) [OF started(2)] granted_match [OF started(2)] CLoginStart
      by (auto split: if_splits)
  qed
next
  case (CChallenge d)
  then show ?thesis using assms by (auto simp: map_action_eq elim!: challenge_cases)
next
  case (CEcdh d)
  then show ?thesis using assms
    by (auto simp: map_action_eq touch_session_def dest: admittedD(3) elim!: ecdh_cases)
next
  case (CLoginSelect d)
  then show ?thesis using assms
    by (auto simp: map_action_eq split: if_splits elim!: login_select_cases)
next
  case (CRecoveryStart d)
  then show ?thesis using assms
    by (auto simp: map_action_eq authenticated_fields elim!: recovery_start_cases)
next
  case (CRecoverySelect d)
  then show ?thesis using assms by (auto simp: map_action_eq elim!: recovery_select_cases)
next
  case (CRecoverySetup d)
  then show ?thesis using assms by (auto simp: map_action_eq elim!: recovery_setup_cases)
next
  case (CRegister d)
  then show ?thesis using assms by (auto simp: map_action_eq elim!: register_cases)
next
  case (CSessionDeactivate d)
  then show ?thesis using assms by (auto simp: map_action_eq elim!: session_deactivate_cases)
next
  case (CSessionDelete d)
  then show ?thesis using assms by (auto simp: map_action_eq elim!: session_delete_cases)
next
  case CSessionList
  then show ?thesis using assms by (auto simp: map_action_eq dest: session_list_state)
next
  case (CSignCommit d)
  then show ?thesis using assms
    by (auto simp: map_action_eq dest: admittedD(3) elim!: sign_commit_cases)
next
  case (CSignComplete d)
  then show ?thesis using assms
    by (auto simp: map_action_eq touch_session_def dest!: admittedD(3) elim!: sign_complete_cases take_commit_cases)
qed

text \<open>Every pending hand-out is backed by an earlier authentication of its key.\<close>

lemma run_proofs:
  assumes "run E opts tr st"
  shows "(\<forall>k rec c. col_get (sv_recoveries st) k = Some rec \<longrightarrow> c \<in> set (srec_clients rec) \<longrightarrow>
            recovery_proof tr k c) \<and>
         (\<forall>k log c. col_get (sv_logins st) k = Some log \<longrightarrow> c \<in> set (slog_clients log) \<longrightarrow>
            login_proof tr k c)"
  using assms
proof (induction rule: run.induct)
  case run_open
  then show ?case by (simp add: signer_open_def)
next
  case (run_call tr st c clk rnd auth r st')
  let ?ev = "\<lparr>ev_key = na_pubkey auth, ev_call = c, ev_reply = r, ev_pre = st\<rparr>"
  have "recovery_proof (tr @ [?ev]) k x"
    if rec: "col_get (sv_recoveries st') k = Some rec" and x: "x \<in> set (srec_clients rec)" for k rec x
    using perform_recoveries [OF run_call.hyps(4) rec]
  proof
    assume "col_get (sv_recoveries st) k = Some rec"
    then show ?thesis using run_call.IH x by simp
  next
    assume "\<exists>d ss. k = na_pubkey auth \<and> c = CRecoveryStart d \<and> srec_clients rec = map sess_client ss \<and>
       (\<forall>s \<in> set ss. credentials_match (rtq_auth d) st s)"
    then obtain d s where "k = na_pubkey auth" "c = CRecoveryStart d" "sess_client s = x"
      "credentials_match (rtq_auth d) st s" using x by auto
    then show ?thesis unfolding recovery_proof_def by (intro exI [of _ ?ev] exI [of _ d] exI [of _ s]) simp
  qed
  moreover have "login_proof (tr @ [?ev]) k x"
    if log: "col_get (sv_logins st') k = Some log" and x: "x \<in> set (slog_clients log)" for k log x
    using perform_logins [OF run_call.hyps(4) log]
  proof
    assume "col_get (sv_logins st) k = Some log"
    then show ?thesis using run_call.IH x by simp
  next
    assume "\<exists>d ss. k = na_pubkey auth \<and> c = CLoginStart d \<and> slog_clients log = map sess_client ss \<and>
       (\<forall>s \<in> set ss. credentials_match (lsq_auth d) st s)"
    then obtain d s where "k = na_pubkey auth" "c = CLoginStart d" "sess_client s = x"
      "credentials_match (lsq_auth d) st s" using x by auto
    then show ?thesis unfolding login_proof_def by (intro exI [of _ ?ev] exI [of _ d] exI [of _ s]) simp
  qed
  ultimately show ?case by blast
next
  case (run_cleanup tr st clk)
  have "cols_sorted st" using signer_invD(7) [OF run_inv [OF run_cleanup.hyps]] .
  then have recs: "col_get (sv_recoveries (cleanup clk st)) k = Some r \<Longrightarrow> col_get (sv_recoveries st) k = Some r"
    and logs: "col_get (sv_logins (cleanup clk st)) k = Some l \<Longrightarrow> col_get (sv_logins st) k = Some l" for k r l
    using purge_get by (auto simp: cleanup_def Let_def cols_sorted_def)
  then show ?case using run_cleanup.IH by blast
next
  case (run_restart tr st)
  then show ?case by (simp add: signer_reopen_def)
qed

end
