(* ===== verification/Signer_Rates.thy ===== *)
theory Signer_Rates
  imports Signer_Trace
begin

text \<open>
  Rate limits over whole runs.  \<open>timed_run\<close> is \<open>run\<close> with the latest reading of a clock that
  never goes backwards, the times at which a client's requests were let through and the times of
  the attempts counted against an email.  The bucket of each satisfies \<open>window_inv\<close> throughout.
\<close>

subsection \<open>What is counted\<close>

text \<open>A request of one of the three limited kinds that passes the client limiter.\<close>

fun limited_call :: "call \<Rightarrow> bool" where
  "limited_call (CSignCommit _) = True"
| "limited_call (CSignComplete _) = True"
| "limited_call (CEcdh _) = True"
| "limited_call _ = False"

definition client_pass :: "(nat \<Rightarrow> u64) \<Rightarrow> string \<Rightarrow> nostr_auth \<Rightarrow> call \<Rightarrow> signer \<Rightarrow> bool" where
  "client_pass clk k auth c st \<longleftrightarrow> limited_call c \<and> na_pubkey auth = k \<and> admits clk k st"

text \<open>A guess: credentials that were compared, under the limit, and matched no session.\<close>

definition wrong_guess ::
  "('s, 'p, 'z) s_externals_scheme \<Rightarrow> (nat \<Rightarrow> u64) \<Rightarrow> nostr_auth \<Rightarrow> auth \<Rightarrow> signer \<Rightarrow> bool" where
  "wrong_guess E clk auth a st \<longleftrightarrow>
     \<not> check_key_reuse (na_pubkey auth) st \<and>
     \<not> is_rate_limited (clk 0) (col_get (sv_rate_limit_by_email_hash st) (auth_email_hash a)) EMAIL_RATE_LIMITS \<and>
     fst (get_authenticated_sessions E clk a st) = Ok []"

text \<open>A challenge that is sent.\<close>

definition challenge_sent :: "(nat \<Rightarrow> u64) \<Rightarrow> string \<Rightarrow> signer \<Rightarrow> bool" where
  "challenge_sent clk h st \<longleftrightarrow>
     \<not> is_rate_limited (clk 0) (col_get (sv_rate_limit_by_email_hash st) h) EMAIL_RATE_LIMITS \<and>
     challenge_target h st \<noteq> None"

fun email_attempt ::
  "('s, 'p, 'z) s_externals_scheme \<Rightarrow> (nat \<Rightarrow> u64) \<Rightarrow> string \<Rightarrow> nostr_auth \<Rightarrow> call \<Rightarrow> signer \<Rightarrow> bool" where
  "email_attempt E clk h auth (CChallenge d) st = (cq_email_hash d = h \<and> challenge_sent clk h st)"
| "email_attempt E clk h auth (CLoginStart d) st =
     (auth_email_hash (lsq_auth d) = h \<and> wrong_guess E clk auth (lsq_auth d) st)"
| "email_attempt E clk h auth (CRecoveryStart d) st =
     (auth_email_hash (rtq_auth d) = h \<and> wrong_guess E clk auth (rtq_auth d) st)"
| "email_attempt E clk h auth _ st = False"

subsection \<open>Runs in time\<close>

text \<open>The clock of a step starts at \<open>l\<close> or later, does not go backwards and has reached \<open>l'\<close>.\<close>

definition ticks :: "u64 \<Rightarrow> (nat \<Rightarrow> u64) \<Rightarrow> u64 \<Rightarrow> bool" where
  "ticks l clk l' \<longleftrightarrow> l \<le> clk 0 \<and> mono clk \<and> (\<forall>i. clk i \<le> l')"

inductive timed_run ::
  "('s::field, 'p::ab_group_add, 'z) s_externals_scheme \<Rightarrow> signer_options \<Rightarrow> string \<Rightarrow> string \<Rightarrow>
   u64 \<Rightarrow> u64 list \<Rightarrow> u64 list \<Rightarrow> signer \<Rightarrow> bool"
  for E opts k h where
  timed_open: "timed_run E opts k h l [] [] (signer_open opts)"
| timed_call: "timed_run E opts k h l passes guesses st \<Longrightarrow> call_valid c \<Longrightarrow> ticks l clk l' \<Longrightarrow>
    perform E clk rnd auth c st = (r, st') \<Longrightarrow>
    timed_run E opts k h l'
      (if client_pass clk k auth c st then passes @ [clk 1] else passes)
      (if email_attempt E clk h auth c st then guesses @ [clk 1] else guesses) st'"
| timed_cleanup: "timed_run E opts k h l passes guesses st \<Longrightarrow> ticks l clk l' \<Longrightarrow>
    timed_run E opts k h l' passes guesses (cleanup clk st)"
| timed_restart: "timed_run E opts k h l passes guesses st \<Longrightarrow>
    timed_run E opts k h l passes guesses (signer_reopen opts st)"

lemma ticksD:
  assumes "ticks l clk l'"
  shows "l \<le> clk i" and "clk i \<le> l'" and "i \<le> j \<Longrightarrow> clk i \<le> clk j" and "l \<le> l'" and "clock_ok clk"
proof -
  have m: "mono clk" "l \<le> clk 0" "\<forall>i. clk i \<le> l'" using assms by (simp_all add: ticks_def)
  show "l \<le> clk i" using m(2) monoD [OF m(1), of 0 i] by simp
  show "clk i \<le> l'" using m(3) by simp
  show "i \<le> j \<Longrightarrow> clk i \<le> clk j" using monoD [OF m(1)] .
  show "l \<le> l'" using m(2,3) order_trans by blast
  show "clock_ok clk" using m(1) by (simp add: clock_ok_def mono_def)
qed

lemma timed_run_run: "timed_run E opts k h l passes guesses st \<Longrightarrow> \<exists>tr. run E opts tr st"
proof (induction rule: timed_run.induct)
  case (timed_open l)
  show ?case using run_open by blast
next
  case (timed_call l passes guesses st c clk l' rnd auth r st')
  then show ?case using run_call [OF _ timed_call.hyps(2) ticksD(5) [OF timed_call.hyps(3)]] by blast
next
  case (timed_cleanup l passes guesses st clk l')
  then show ?case using run_cleanup by blast
next
  case (timed_restart l passes guesses st)
  then show ?case using run_restart by blast
qed

subsection \<open>What a call does to the buckets\<close>

lemma admitted_bucket:
  assumes "admitted clk key st s st1"
  shows "admits clk key st" and "sv_rate_limit_by_client st1 = col_set (sv_rate_limit_by_client st) key
      (record_attempt (clk 1) (col_get (sv_rate_limit_by_client st) key) CLIENT_RATE_LIMITS)"
  using assms admittedD(3) [OF assms] by (auto simp: admits_iff)

lemma touch_bucket [simp]:
  "sv_rate_limit_by_client (touch_session t k s st) = sv_rate_limit_by_client st"
  "sv_rate_limit_by_email_hash (touch_session t k s st) = sv_rate_limit_by_email_hash st"
  by (simp_all add: touch_session_def)

lemma deactivate_bucket [simp]:
  "sv_rate_limit_by_client (deactivate_session t k st) = sv_rate_limit_by_client st"
  "sv_rate_limit_by_email_hash (deactivate_session t k st) = sv_rate_limit_by_email_hash st"
  by (simp_all add: deactivate_session_def split: option.splits)

lemma take_commit_bucket:
  assumes "take_commit i key st = (e, st1)"
  shows "sv_rate_limit_by_client st1 = sv_rate_limit_by_client st"
    and "sv_rate_limit_by_email_hash st1 = sv_rate_limit_by_email_hash st"
  using assms by (auto elim: take_commit_cases)

definition client_bucket_after :: "(nat \<Rightarrow> u64) \<Rightarrow> string \<Rightarrow> bool \<Rightarrow> signer \<Rightarrow> rate_limit_bucket col" where
  "client_bucket_after clk key pass st =
     (if pass then col_set (sv_rate_limit_by_client st) key
        (record_attempt (clk 1) (col_get (sv_rate_limit_by_client st) key) CLIENT_RATE_LIMITS)
      else sv_rate_limit_by_client st)"

lemma perform_client_bucket:
  assumes "perform E clk rnd auth c st = (r, st')"
  shows "sv_rate_limit_by_client st' =
    client_bucket_after clk (na_pubkey auth) (client_pass clk (na_pubkey auth) auth c st) st"
proof (cases c)
  case (CSignCommit d)
  then obtain r0 where "handle_sign_commit E clk rnd auth d st = (r0, st')" using assms by (auto simp: map_action_eq)
  then show ?thesis
    by (cases rule: sign_commit_cases)
      (auto simp: CSignCommit client_pass_def client_bucket_after_def admitted_bucket)
next
  case (CSignComplete d)
  then obtain r0 where "handle_sign_complete E clk auth d st = (r0, st')" using assms by (auto simp: map_action_eq)
  then show ?thesis
    by (cases rule: sign_complete_cases)
      (auto simp: CSignComplete client_pass_def client_bucket_after_def admitted_bucket take_commit_bucket)
next
  case (CEcdh d)
  then obtain r0 where "handle_ecdh E clk auth d st = (r0, st')" using assms by (auto simp: map_action_eq)
  then show ?thesis
    by (cases rule: ecdh_cases)
      (auto simp: CEcdh client_pass_def client_bucket_after_def admitted_bucket)
next
  case (CChallenge d)
  then show ?thesis using assms
    by (auto simp: map_action_eq client_pass_def client_bucket_after_def elim!: challenge_cases)
next
  case (CLoginSelect d)
  then show ?thesis using assms
    by (auto simp: map_action_eq client_pass_def client_bucket_after_def elim!: login_select_cases)
next
  case (CLoginStart d)
  then show ?thesis using assms
    by (auto simp: map_action_eq client_pass_def client_bucket_after_def dest!: authenticated_frame
        elim!: login_start_cases)
next
  case (CRecoverySelect d)
  then show ?thesis using assms
    by (auto simp: map_action_eq client_pass_def client_bucket_after_def elim!: recovery_select_cases)
next
  case (CRecoverySetup d)
  then show ?thesis using assms
    by (auto simp: map_action_eq client_pass_def client_bucket_after_def elim!: recovery_setup_cases)
next
  case (CRecoveryStart d)
  then show ?thesis using assms
    by (auto simp: map_action_eq client_pass_def client_bucket_after_def dest!: authenticated_frame
        elim!: recovery_start_cases)
next
  case (CRegister d)
  then show ?thesis using assms
    by (auto simp: map_action_eq client_pass_def client_bucket_after_def elim!: register_cases)
next
  case (CSessionDeactivate d)
  then show ?thesis using assms
    by (auto simp: map_action_eq client_pass_def client_bucket_after_def elim!: session_deactivate_cases)
next
  case (CSessionDelete d)
  then show ?thesis using assms
    by (auto simp: map_action_eq client_pass_def client_bucket_after_def elim!: session_delete_cases)
next
  case CSessionList
  then show ?thesis using assms
    by (auto simp: map_action_eq client_pass_def client_bucket_after_def dest: session_list_state)
qed

subsection \<open>The email bucket\<close>

definition email_bucket_after ::
  "(nat \<Rightarrow> u64) \<Rightarrow> string \<Rightarrow> bool \<Rightarrow> signer \<Rightarrow> rate_limit_bucket option" where
  "email_bucket_after clk h counted st =
     (if counted
      then Some (record_attempt (clk 1) (col_get (sv_rate_limit_by_email_hash st) h) EMAIL_RATE_LIMITS)
      else col_get (sv_rate_limit_by_email_hash st) h)"

lemma authenticated_bucket:
  assumes "get_authenticated_sessions E clk a st = (r, st1)"
  shows "col_get (sv_rate_limit_by_email_hash st1) h = email_bucket_after clk h
    (auth_email_hash a = h \<and> r = Ok [] \<and> \<not> is_rate_limited (clk 0)
       (col_get (sv_rate_limit_by_email_hash st) (auth_email_hash a)) EMAIL_RATE_LIMITS) st"
  using assms
  by (cases rule: get_authenticated_cases) (auto simp: email_bucket_after_def)

lemma recovery_start_bucket:
  assumes "handle_recovery_start E clk auth d st = (r, st')"
  shows "col_get (sv_rate_limit_by_email_hash st') h =
    email_bucket_after clk h (email_attempt E clk h auth (CRecoveryStart d) st) st"
proof (cases "check_key_reuse (na_pubkey auth) st")
  case True
  then show ?thesis
    using assms by (simp add: handle_recovery_start_def email_bucket_after_def wrong_guess_def)
next
  case False
  obtain r1 st1 where ga: "get_authenticated_sessions E clk (rtq_auth d) st = (r1, st1)" by fastforce
  have "sv_rate_limit_by_email_hash st' = sv_rate_limit_by_email_hash st1"
  proof (cases r1)
    case (Ok ss)
    then show ?thesis using assms False ga
      by (cases "mapR make_session_item ss") (auto simp: handle_recovery_start_def Let_def split: if_splits)
  qed (use assms False ga in \<open>auto simp: handle_recovery_start_def\<close>)
  then show ?thesis
    using authenticated_bucket [OF ga, of h] ga False by (auto simp: wrong_guess_def email_bucket_after_def)
qed

lemma login_start_bucket:
  assumes "handle_login_start E clk auth d st = (r, st')"
  shows "col_get (sv_rate_limit_by_email_hash st') h =
    email_bucket_after clk h (email_attempt E clk h auth (CLoginStart d) st) st"
proof (cases "check_key_reuse (na_pubkey auth) st")
  case True
  then show ?thesis
    using assms by (simp add: handle_login_start_def email_bucket_after_def wrong_guess_def)
next
  case False
  obtain r1 st1 where ga: "get_authenticated_sessions E clk (lsq_auth d) st = (r1, st1)" by fastforce
  have "sv_rate_limit_by_email_hash st' = sv_rate_limit_by_email_hash st1"
  proof (cases r1)
    case (Ok ss)
    then show ?thesis using assms False ga
      by (cases "mapR make_session_item ss") (auto simp: handle_login_start_def Let_def split: if_splits)
  qed (use assms False ga in \<open>auto simp: handle_login_start_def\<close>)
  then show ?thesis
    using authenticated_bucket [OF ga, of h] ga False by (auto simp: wrong_guess_def email_bucket_after_def)
qed

lemma challenge_bucket:
  assumes "handle_challenge E clk buf auth d st = (r, st')"
  shows "col_get (sv_rate_limit_by_email_hash st') h =
    email_bucket_after clk h (email_attempt E clk h auth (CChallenge d) st) st"
  using assms
  by (cases rule: challenge_cases) (auto simp: email_bucket_after_def challenge_sent_def)

lemma perform_email_bucket:
  assumes "perform E clk rnd auth c st = (r, st')"
  shows "col_get (sv_rate_limit_by_email_hash st') h =
    email_bucket_after clk h (email_attempt E clk h auth c st) st"
proof (cases c)
  case (CChallenge d)
  then show ?thesis using assms by (auto simp: map_action_eq dest: challenge_bucket)
next
  case (CLoginStart d)
  then show ?thesis using assms by (auto simp: map_action_eq dest: login_start_bucket)
next
  case (CRecoveryStart d)
  then show ?thesis using assms by (auto simp: map_action_eq dest: recovery_start_bucket)
next
  case (CEcdh d)
  then show ?thesis using assms
    by (auto simp: map_action_eq email_bucket_after_def dest!: admittedD(3) elim!: ecdh_cases)
next
  case (CLoginSelect d)
  then show ?thesis using assms
    by (auto simp: map_action_eq email_bucket_after_def elim!: login_select_cases)
next
  case (CRecoverySelect d)
  then show ?thesis using assms
    by (auto simp: map_action_eq email_bucket_after_def elim!: recovery_select_cases)
next
  case (CRecoverySetup d)
  then show ?thesis using assms
    by (auto simp: map_action_eq email_bucket_after_def elim!: recovery_setup_cases)
next
  case (CRegister d)
  then show ?thesis using assms by (auto simp: map_action_eq email_bucket_after_def elim!: register_cases)
next
  case (CSessionDeactivate d)
  then show ?thesis using assms
    by (auto simp: map_action_eq email_bucket_after_def elim!: session_deactivate_cases)
next
  case (CSessionDelete d)
  then show ?thesis using assms
    by (auto simp: map_action_eq email_bucket_after_def elim!: session_delete_cases)
next
  case CSessionList
  then show ?thesis using assms by (auto simp: map_action_eq email_bucket_after_def dest: session_list_state)
next
  case (CSignCommit d)
  then show ?thesis using assms
    by (auto simp: map_action_eq email_bucket_after_def dest!: admittedD(3) elim!: sign_commit_cases)
next
  case (CSignComplete d)
  then show ?thesis using assms
    by (auto simp: map_action_eq email_bucket_after_def take_commit_bucket dest!: admittedD(3)
        elim!: sign_complete_cases)
qed

subsection \<open>The clean-up\<close>

lemma purge_cases:
  assumes "col_sorted c"
  obtains "col_get (purge_loop p n (col_entries c) c) k = col_get c k"
  | i v where "col_get c k = Some v" "p i v" "col_get (purge_loop p n (col_entries c) c) k = None"
proof (cases "\<exists>i < length (col_entries c). fst (col_entries c ! i) = k \<and> p (n + i) (snd (col_entries c ! i))")
  case True
  then obtain i where i: "i < length (col_entries c)" "fst (col_entries c ! i) = k"
    "p (n + i) (snd (col_entries c ! i))" by blast
  then have "(k, snd (col_entries c ! i)) \<in> set (col_entries c)"
    by (metis nth_mem surjective_pairing)
  then have "col_get c k = Some (snd (col_entries c ! i))"
    using col.look_items [OF assms] by simp
  moreover have "col_get (purge_loop p n (col_entries c) c) k = None"
    using True by (simp add: purge_loop_eq col.look_purge [OF assms])
  ultimately show thesis using that(2) i(3) by blast
next
  case False
  then have "col_get (purge_loop p n (col_entries c) c) k = col_get c k"
    unfolding purge_loop_eq col.look_purge [OF assms] by (rule if_not_P)
  then show thesis by (rule that(1))
qed

lemma purge_window:
  assumes sorted: "col_sorted c" and inv: "window_inv config (col_get c k) log l" and t: "ticks l clk l'"
  shows "window_inv config
    (col_get (purge_loop (\<lambda>i b. b_last_attempt b < saturating_sub (clk (m + i)) (window_seconds config)) 0
       (col_entries c) c) k) log l'"
proof (cases rule: purge_cases [OF sorted, of "\<lambda>i b. b_last_attempt b < saturating_sub (clk (m + i))
      (window_seconds config)" 0 k])
  case 1
  then show ?thesis using window_inv_later [OF inv ticksD(4) [OF t]] by simp
next
  case (2 i b)
  have "window_inv config None log (clk (m + i))"
    using window_inv_purge [OF inv [unfolded 2(1)] ticksD(1) [OF t] 2(2)] .
  then show ?thesis using window_inv_later [OF _ ticksD(2) [OF t]] by (simp add: 2(3))
qed

subsection \<open>The bound\<close>

lemma after_window:
  assumes inv: "window_inv config bucket log l" and t: "ticks l clk l'"
    and pol: "rate_policy config"
    and counted: "counted \<Longrightarrow> \<not> is_rate_limited (clk 0) bucket config"
  shows "window_inv config (if counted then Some (record_attempt (clk 1) bucket config) else bucket)
    (if counted then log @ [clk 1] else log) l'"
proof (cases counted)
  case True
  have "window_inv config (Some (record_attempt (clk 1) bucket config)) (log @ [clk 1]) (clk 1)"
    using rate_policy.window_inv_record [OF pol inv counted [OF True] ticksD(1) [OF t] ticksD(3) [OF t]]
    by simp
  then show ?thesis using True window_inv_later [OF _ ticksD(2) [OF t]] by simp
next
  case False
  then show ?thesis using window_inv_later [OF inv ticksD(4) [OF t]] by simp
qed

lemma timed_windows:
  assumes "timed_run E opts k h l passes guesses st"
  shows "window_inv CLIENT_RATE_LIMITS (col_get (sv_rate_limit_by_client st) k) passes l \<and>
    window_inv EMAIL_RATE_LIMITS (col_get (sv_rate_limit_by_email_hash st) h) guesses l"
  using assms
proof (induction rule: timed_run.induct)
  case (timed_open l)
  show ?case by (simp add: signer_open_def window_inv_open)
next
  case (timed_call l passes guesses st c clk l' rnd auth r st')
  let ?p = "client_pass clk k auth c st" and ?g = "email_attempt E clk h auth c st"
  have "?p \<Longrightarrow> \<not> is_rate_limited (clk 0) (col_get (sv_rate_limit_by_client st) k) CLIENT_RATE_LIMITS"
    by (auto simp: client_pass_def admits_def split: option.splits)
  note cw = after_window [OF conjunct1 [OF timed_call.IH] timed_call.hyps(3)
      client_policy.rate_policy_axioms this]
  have c: "col_get (sv_rate_limit_by_client st') k =
      (if ?p then Some (record_attempt (clk 1) (col_get (sv_rate_limit_by_client st) k) CLIENT_RATE_LIMITS)
       else col_get (sv_rate_limit_by_client st) k)"
    using perform_client_bucket [OF timed_call.hyps(4)]
    by (auto simp: client_bucket_after_def client_pass_def)
  have "?g \<Longrightarrow> \<not> is_rate_limited (clk 0) (col_get (sv_rate_limit_by_email_hash st) h) EMAIL_RATE_LIMITS"
    by (cases c) (auto simp: wrong_guess_def challenge_sent_def)
  note ew = after_window [OF conjunct2 [OF timed_call.IH] timed_call.hyps(3)
      email_policy.rate_policy_axioms this]
  show ?case
    using cw ew unfolding c perform_email_bucket [OF timed_call.hyps(4)] email_bucket_after_def by blast
next
  case (timed_cleanup l passes guesses st clk l')
  obtain tr where "run E opts tr st" using timed_run_run [OF timed_cleanup.hyps(1)] by blast
  then have "cols_sorted st" using signer_invD(7) [OF run_inv] by blast
  then have s: "col_sorted (sv_rate_limit_by_client st)" "col_sorted (sv_rate_limit_by_email_hash st)"
    by (simp_all add: cols_sorted_def)
  show ?case
    using purge_window [OF s(1) conjunct1 [OF timed_cleanup.IH] timed_cleanup.hyps(2),
        of "2 + length (col_entries (sv_rate_limit_by_email_hash st))"]
      purge_window [OF s(2) conjunct2 [OF timed_cleanup.IH] timed_cleanup.hyps(2), of 2]
    by (simp add: cleanup_def Let_def add.assoc)
next
  case (timed_restart l passes guesses st)
  then show ?case by (simp add: signer_reopen_def)
qed

end
