(* ===== verification/Signer_Facts.thy ===== *)
theory Signer_Facts
  imports Signer_Trace
begin

text \<open>
  Facts about single operations of the signer that its properties rest on: deactivation, the
  one-time password, the rate windows, listing and deleting sessions, clean-up, and the calls that
  cannot panic.
\<close>

subsection \<open>Deactivation\<close>

definition deactivated :: "string \<Rightarrow> signer \<Rightarrow> bool" where
  "deactivated k st \<longleftrightarrow>
     (\<forall>s. col_get (sv_sessions st) k = Some s \<longrightarrow> sess_deactivated_at s \<noteq> None)"

lemma deactivated_cong: "sv_sessions st' = sv_sessions st \<Longrightarrow> deactivated k st' = deactivated k st"
  by (simp add: deactivated_def)

lemma admitted_sessions: "admitted clk k st s st1 \<Longrightarrow> sv_sessions st1 = sv_sessions st"
  by (drule admittedD(3)) simp

lemma ecdh_deactivated:
  assumes "handle_ecdh E clk auth d st = (r, st')" and deact: "deactivated k st"
  shows "deactivated k st'"
  using assms(1)
proof (cases rule: ecdh_cases)
  case declined
  then show ?thesis using deact deactivated_cong admitted_sessions by metis
next
  case (derived session st1 result)
  note adm = admittedD(1,2) [OF derived(1)]
  then have "k \<noteq> na_pubkey auth" using deact by (auto simp: deactivated_def)
  then show ?thesis
    using deact by (simp add: derived(5) touch_session_def deactivated_def admitted_sessions [OF derived(1)])
qed

lemma login_select_deactivated:
  assumes "signer_inv E st" and "handle_login_select clk auth d st = (r, st')"
    and old: "col_get (sv_sessions st) k \<noteq> None" and deact: "deactivated k st"
  shows "deactivated k st'"
  using assms(2)
proof (cases rule: login_select_cases)
  case absent
  then show ?thesis using deact by simp
next
  case declined
  then show ?thesis using deact by (simp add: deactivated_def)
next
  case (selected login session)
  have "k \<noteq> na_pubkey auth" using inv_disjoint(2) [OF assms(1)] selected(1) old by fastforce
  then show ?thesis using deact by (simp add: selected(5) deactivated_def add_session_sessions)
qed

lemma register_deactivated:
  assumes "handle_register E clk auth d st = (r, st')"
    and old: "col_get (sv_sessions st) k \<noteq> None" and deact: "deactivated k st"
  shows "deactivated k st'"
  using assms(1)
proof (cases rule: register_cases)
  case declined
  then show ?thesis using deact by simp
next
  case registered
  then have "k \<noteq> na_pubkey auth" using old by (auto simp: check_key_reuse_def split: if_splits)
  then show ?thesis using deact by (simp add: registered(2) deactivated_def add_session_sessions)
qed

lemma sign_commit_deactivated:
  assumes "handle_sign_commit E clk rnd auth d st = (r, st')" and deact: "deactivated k st"
  shows "deactivated k st'"
  using assms(1)
proof (cases rule: sign_commit_cases)
  case declined
  then show ?thesis using deact deactivated_cong admitted_sessions by metis
next
  case (created session seckey pkg entry st1)
  then show ?thesis
    using deact by (simp add: deactivated_def admitted_sessions [OF created(1)])
qed

lemma sign_complete_deactivated:
  assumes "handle_sign_complete E clk auth d st = (r, st')" and deact: "deactivated k st"
  shows "deactivated k st'"
  using assms(1)
proof (cases rule: sign_complete_cases)
  case declined
  then show ?thesis using deact deactivated_cong admitted_sessions by metis
next
  case (consumed session entry st1)
  have "sv_sessions st' = sv_sessions st1"
    using consumed(3) by (auto elim: take_commit_cases)
  then show ?thesis using deact by (simp add: deactivated_def admitted_sessions [OF consumed(2)])
next
  case (signed session entry st1 st2 hp bp result)
  have "sv_sessions st2 = sv_sessions st"
    using signed(2) admitted_sessions [OF signed(1)] by (auto elim: take_commit_cases)
  moreover have "k \<noteq> na_pubkey auth"
    using admittedD(1,2) [OF signed(1)] deact by (auto simp: deactivated_def)
  ultimately show ?thesis
    using deact by (simp add: signed(11) touch_session_def deactivated_def)
qed

text \<open>A key of a deactivated session stays so under every call; the exception is a key without a
  session, which may get a new one.\<close>

lemma deactivated_perform:
  assumes inv: "signer_inv E st" and perf: "perform E clk rnd auth c st = (r, st')"
    and old: "col_get (sv_sessions st) k \<noteq> None" and deact: "deactivated k st"
  shows "deactivated k st'"
  using perf
proof (cases c)
  case (CRecoverySetup d)
  then obtain r0 where "handle_recovery_setup E clk auth d st = (r0, st')" using perf by (auto simp: map_action_eq)
  then show ?thesis
    by (cases rule: recovery_setup_cases) (use deact in \<open>auto simp: deactivated_def add_session_sessions\<close>)
next
  case (CSessionDeactivate d)
  then obtain r0 where "handle_session_deactivate clk auth d st = (r0, st')" using perf by (auto simp: map_action_eq)
  then show ?thesis
    by (cases rule: session_deactivate_cases)
      (use deact in \<open>auto simp: deactivated_def deactivate_session_def split: option.splits\<close>)
next
  case (CSessionDelete d)
  then obtain r0 where "handle_session_delete auth d st = (r0, st')" using perf by (auto simp: map_action_eq)
  then show ?thesis
    by (cases rule: session_delete_cases)
      (use deact in \<open>auto simp: deactivated_def delete_session_sessions\<close>)
next
  case (CChallenge d)
  then show ?thesis using perf deact by (auto simp: map_action_eq deactivated_def elim!: challenge_cases)
next
  case (CLoginStart d)
  then show ?thesis using perf deact
    by (auto simp: map_action_eq deactivated_def authenticated_fields elim!: login_start_cases)
next
  case (CRecoveryStart d)
  then show ?thesis using perf deact
    by (auto simp: map_action_eq deactivated_def authenticated_fields elim!: recovery_start_cases)
next
  case (CRecoverySelect d)
  then show ?thesis using perf deact by (auto simp: map_action_eq deactivated_def elim!: recovery_select_cases)
qed (auto simp: map_action_eq deact dest: session_list_state
    elim: ecdh_deactivated [OF _ deact] login_select_deactivated [OF inv _ old deact]
      register_deactivated [OF _ old deact] sign_commit_deactivated [OF _ deact] sign_complete_deactivated [OF _ deact])

text \<open>The three rate-limited calls of a deactivated session are refused outright.\<close>

lemma deactivated_refused:
  assumes "col_get (sv_sessions st) (na_pubkey auth) = Some s" and "sess_deactivated_at s \<noteq> None"
  shows "handle_sign_commit E clk rnd auth d1 st = (Ok (respond False ''Session is deactivated'' None), st)"
    and "handle_sign_complete E clk auth d2 st = (Ok (respond False ''Session is deactivated'' None), st)"
    and "handle_ecdh E clk auth d3 st = (Ok (respond False ''Session is deactivated'' None), st)"
  using assms by (simp_all add: handle_sign_commit_def handle_sign_complete_def handle_ecdh_def Let_def)

subsection \<open>Passwords and one-time passwords\<close>

text \<open>An attempt with a one-time password that is not rate limited removes the challenge.\<close>

lemma otp_consumed:
  assumes "get_authenticated_sessions E clk (Otp oa) st = (r, st')"
    and "\<not> is_rate_limited (clk 0) (col_get (sv_rate_limit_by_email_hash st) (oa_email_hash oa)) EMAIL_RATE_LIMITS"
    and "col_get (sv_sessions_by_email_hash st) (oa_email_hash oa) \<noteq> None"
  shows "col_get (sv_challenges st') (oa_email_hash oa) = None"
  using assms(1)
proof (cases rule: get_authenticated_cases)
  case limited
  then show ?thesis using assms(2) by simp
next
  case (refused challenges)
  then show ?thesis using assms(3) by auto
next
  case (granted sessions)
  then show ?thesis by simp
qed

lemma otp_without_challenge:
  assumes "get_authenticated_sessions E clk (Otp oa) st = (Ok ss, st')"
    and "col_get (sv_challenges st) (oa_email_hash oa) = None"
  shows "ss = []"
  using assms(1)
proof (cases rule: get_authenticated_cases)
  case (granted sessions)
  then show ?thesis using assms(2) by (cases sessions) (auto simp: credentials_match_def)
qed auto

subsection \<open>Listing and owning sessions\<close>

text \<open>The x-only key of a session's group, and the item the listings show.\<close>

definition group_key :: "signer_session \<Rightarrow> string" where
  "group_key s = drop 2 (g_group_pk (sess_group s))"

definition session_item_of :: "signer_session \<Rightarrow> session_item" where
  "session_item_of s =
     \<lparr>si_pubkey = group_key s, si_client = sess_client s, si_created_at = sess_created_at s,
      si_deactivated_at = sess_deactivated_at s, si_last_activity = sess_last_activity s,
      si_threshold = g_threshold (sess_group s), si_total = of_nat (length (g_commits (sess_group s))),
      si_idx = sh_idx (sess_share s), si_email = sess_email s\<rparr>"

lemma session_group_key:
  assumes "session_ok E k s"
  shows "str_from (g_group_pk (sess_group s)) 2 = Ok (group_key s)"
proof -
  have "sgroup_valid (sess_group s)" using assms by (simp add: session_ok_def)
  from sgroup_validD(2,3) [OF this] show ?thesis by (simp add: str_from_hex group_key_def)
qed

lemma make_session_item_ok: "session_ok E k s \<Longrightarrow> make_session_item s = Ok (session_item_of s)"
  by (simp add: make_session_item_def session_group_key session_item_of_def)

lemma entry_session:
  assumes "sessions_ok E st" and "cols_sorted st" and "(k, s) \<in> set (col_entries (sv_sessions st))"
  shows "session_ok E k s"
proof -
  have "col_sorted (sv_sessions st)" using assms(2) by (simp add: cols_sorted_def)
  then have "col_get (sv_sessions st) k = Some s" using assms(3) by (simp only: col.look_items)
  then show ?thesis using assms(1) by (simp add: sessions_ok_def)
qed

text \<open>The filter of \<open>/session/list\<close>, on entries that are valid sessions.\<close>

lemma entries_items:
  assumes "\<And>k s. (k, s) \<in> set kvs \<Longrightarrow> session_ok E k s"
  shows "mapR (\<lambda>(k :: string, s). bindR (str_from (g_group_pk (sess_group s)) 2) (\<lambda>pk.
      if pk = key then bindR (make_session_item s) (\<lambda>item. Ok [item]) else Ok [])) kvs =
    Ok (map (\<lambda>(_, s). if group_key s = key then [session_item_of s] else []) kvs)"
proof (rule mapR_Ok_map)
  fix kv
  assume kv: "kv \<in> set kvs"
  obtain k s where eq: "kv = (k, s)" by fastforce
  have "session_ok E k s" using assms kv eq by simp
  then show "(case kv of (k, s) \<Rightarrow> bindR (str_from (g_group_pk (sess_group s)) 2) (\<lambda>pk.
      if pk = key then bindR (make_session_item s) (\<lambda>item. Ok [item]) else Ok [])) =
    Ok (case kv of (_, s) \<Rightarrow> if group_key s = key then [session_item_of s] else [])"
    by (simp add: eq session_group_key make_session_item_ok)
qed

lemma session_list_items:
  assumes inv: "signer_inv E st"
  shows "handle_session_list auth st =
    (Ok (respond True ''Successfully retrieved session list.''
       (map (session_item_of \<circ> snd)
         (filter (\<lambda>(_, s). group_key s = na_pubkey auth) (col_entries (sv_sessions st))))), st)"
proof -
  let ?g = "\<lambda>(_ :: string, s). if group_key s = na_pubkey auth then [session_item_of s] else []"
  have "concat (map ?g kvs) =
      map (session_item_of \<circ> snd) (filter (\<lambda>(_, s). group_key s = na_pubkey auth) kvs)" for kvs
    by (induction kvs) auto
  moreover note entries_items [of "col_entries (sv_sessions st)" E "na_pubkey auth",
      OF entry_session [OF signer_invD(1,7) [OF inv]]]
  ultimately show ?thesis by (simp add: handle_session_list_def Let_def)
qed

lemma owns_session_eq:
  assumes "sessions_ok E st"
  shows "owns_session key client st =
    Ok (case col_get (sv_sessions st) client of None \<Rightarrow> False | Some s \<Rightarrow> group_key s = key)"
proof (cases "col_get (sv_sessions st) client")
  case None
  then show ?thesis by (simp add: owns_session_def)
next
  case (Some s)
  then show ?thesis
    using session_group_key [of E client s] assms by (simp add: owns_session_def sessions_ok_def)
qed

subsection \<open>Challenges\<close>

lemma random_int_otp:
  assumes "random_int buf 100000 1000000 = Ok n"
  shows "100000 \<le> unat n" and "unat n \<le> 999999"
proof -
  let ?v = "(of_nat (be_nat buf) :: u32) mod 900000"
  have n: "n = 100000 + ?v" using assms by (simp add: random_int_def Let_def)
  have "unat ?v < 900000" by (simp add: unat_mod)
  moreover from this have "unat n = 100000 + unat ?v"
    unfolding n by (subst unat_add_lem [THEN iffD1]) simp_all
  ultimately show "100000 \<le> unat n" and "unat n \<le> 999999" by simp_all
qed

lemma dec_digits_length: "10 ^ k \<le> n \<Longrightarrow> n < 10 ^ Suc k \<Longrightarrow> length (dec_digits n) = Suc k"
proof (induction k arbitrary: n)
  case 0
  then show ?case by (simp add: dec_digits.simps)
next
  case (Suc k)
  have "10 ^ k \<le> n div 10" "n div 10 < 10 ^ Suc k"
    using Suc.prems by (auto simp: less_mult_imp_div_less)
  note ih = Suc.IH [OF this]
  have "(10::nat) \<le> 10 ^ Suc k" by simp
  then have "\<not> n < 10" using Suc.prems(1) by linarith
  then show ?case by (subst dec_digits.simps) (simp add: ih)
qed

text \<open>The replies to a challenge request, whatever the email.\<close>

lemma challenge_answer:
  assumes "\<not> log_debug E" and "opt_test_mode (sv_options st) \<or> opt_mailer (sv_options st) \<noteq> None"
  shows "fst (handle_challenge E clk buf auth d st) = Ok challenge_reply"
proof -
  obtain n where n: "random_int buf 100000 1000000 = Ok n" by (simp add: random_int_def Let_def)
  then show ?thesis
    using assms by (auto simp: handle_challenge_def debug_slice_def Let_def split: option.splits)
qed

subsection \<open>Calls that cannot panic\<close>

lemma authenticated_answer:
  assumes "signer_inv E st" and "\<not> log_debug E"
    and "get_authenticated_sessions E clk a st = (r, st1)"
  obtains ss where "r = Ok ss" "mapR make_session_item ss = Ok (map session_item_of ss)"
  using assms(3)
proof (cases rule: get_authenticated_cases)
  case limited
  have "r = Ok []" using assms limited(1)
    by (simp add: get_authenticated_sessions_def debug_slice_def Let_def)
  then show thesis using that by simp
next
  case (refused challenges)
  then show thesis using that by simp
next
  case (granted ss)
  have "make_session_item s = Ok (session_item_of s)" if "s \<in> set ss" for s
  proof -
    have "credentials_match a st s" using granted(4) that by blast
    then obtain c where "col_get (sv_sessions st) c = Some s" by (auto simp: credentials_match_def)
    then show ?thesis using inv_session [OF assms(1)] make_session_item_ok by blast
  qed
  then show thesis using that [OF granted(2)] mapR_Ok_map by blast
qed

lemma recovery_start_answer:
  assumes "signer_inv E st" and "\<not> log_debug E"
  shows "\<exists>resp. fst (handle_recovery_start E clk auth d st) = Ok resp"
proof -
  obtain r st1 where ga: "get_authenticated_sessions E clk (rtq_auth d) st = (r, st1)" by fastforce
  from authenticated_answer [OF assms ga] obtain ss where
    "r = Ok ss" "mapR make_session_item ss = Ok (map session_item_of ss)" .
  then show ?thesis using ga by (simp add: handle_recovery_start_def Let_def)
qed

lemma login_start_answer:
  assumes "signer_inv E st" and "\<not> log_debug E"
  shows "\<exists>resp. fst (handle_login_start E clk auth d st) = Ok resp"
proof -
  obtain r st1 where ga: "get_authenticated_sessions E clk (lsq_auth d) st = (r, st1)" by fastforce
  from authenticated_answer [OF assms ga] obtain ss where
    "r = Ok ss" "mapR make_session_item ss = Ok (map session_item_of ss)" .
  then show ?thesis using ga by (simp add: handle_login_start_def Let_def)
qed

subsection \<open>Clean-up\<close>

text \<open>What survives: the entries whose time is not before the cut-off.\<close>

definition kept :: "('v \<Rightarrow> u64) \<Rightarrow> u64 \<Rightarrow> 'v option \<Rightarrow> 'v option" where
  "kept time cutoff entry =
     (case entry of None \<Rightarrow> None | Some v \<Rightarrow> if time v < cutoff then None else Some v)"

lemma purge_kept:
  "col_sorted c \<Longrightarrow> col_get (purge_loop (\<lambda>_ v. time v < cutoff) 0 (col_entries c) c) k =
    kept time cutoff (col_get c k)"
  by (simp add: purge_loop_eq col.look_purge_items [where q = "\<lambda>v. time v < cutoff"] kept_def)

lemma cleanup_kept:
  assumes "signer_inv E st"
  shows "col_get (sv_sessions (cleanup clk st)) k =
      kept sess_last_activity (saturating_sub (clk 1) MONTH_SECS) (col_get (sv_sessions st) k)"
    and "col_get (sv_recoveries (cleanup clk st)) k =
      kept srec_created_at (saturating_sub (clk 0) (15 * MINUTE_SECS)) (col_get (sv_recoveries st) k)"
    and "col_get (sv_logins (cleanup clk st)) k =
      kept slog_created_at (saturating_sub (clk 0) (15 * MINUTE_SECS)) (col_get (sv_logins st) k)"
    and "col_get (sv_challenges (cleanup clk st)) k =
      kept ch_created_at (saturating_sub (clk 0) (15 * MINUTE_SECS)) (col_get (sv_challenges st) k)"
    and "sv_sessions_by_email_hash (cleanup clk st) = sv_sessions_by_email_hash st"
  using signer_invD(7) [OF assms]
  by (simp_all add: cleanup_def Let_def cols_sorted_def purge_kept)

text \<open>
  The buckets are compared with a clock read anew for each entry: \<open>now i\<close> is the reading of the round
  that reaches entry \<open>i\<close>.
\<close>

definition buckets_kept ::
  "(nat \<Rightarrow> u64) \<Rightarrow> u64 \<Rightarrow> rate_limit_bucket col \<Rightarrow> rate_limit_bucket col \<Rightarrow> bool" where
  "buckets_kept now window before after \<longleftrightarrow>
     (\<forall>k. col_get before k = None \<longrightarrow> col_get after k = None) \<and>
     (\<forall>i < length before. col_get after (fst (before ! i)) =
        (if b_last_attempt (snd (before ! i)) < saturating_sub (now i) window then None
         else Some (snd (before ! i))))"

lemma purge_buckets:
  assumes "col_sorted c"
  shows "buckets_kept now w c
    (purge_loop (\<lambda>i b. b_last_attempt b < saturating_sub (now i) w) 0 c c)"
proof -
  have d: "distinct (map fst c)" by (rule col_sorted_distinct [OF assms])
  have "col_get c (fst (c ! i)) = Some (snd (c ! i))" if "i < length c" for i
    using that d by (simp add: col_get_def)
  moreover have "fst (c ! j) = fst (c ! i) \<longleftrightarrow> j = i" if "i < length c" "j < length c" for i j
    using that d nth_eq_iff_index_eq [of "map fst c" j i] by simp
  ultimately show ?thesis
    using assms by (auto simp: buckets_kept_def purge_loop_eq col.look_purge)
qed

lemma cleanup_buckets:
  assumes "signer_inv E st"
  shows "buckets_kept (\<lambda>i. clk (2 + i)) 120
      (sv_rate_limit_by_email_hash st) (sv_rate_limit_by_email_hash (cleanup clk st))"
    and "buckets_kept (\<lambda>i. clk (2 + length (sv_rate_limit_by_email_hash st) + i)) 60
      (sv_rate_limit_by_client st) (sv_rate_limit_by_client (cleanup clk st))"
    and "sv_options (cleanup clk st) = sv_options st" and "sv_outbox (cleanup clk st) = sv_outbox st"
  using signer_invD(7) [OF assms] purge_buckets [of _ "\<lambda>i. clk (2 + i)" 120]
    purge_buckets [of _ "\<lambda>i. clk (2 + length (sv_rate_limit_by_email_hash st) + i)" 60]
  by (simp_all add: cleanup_def Let_def cols_sorted_def EMAIL_RATE_LIMITS_def CLIENT_RATE_LIMITS_def
      col_entries_def)

text \<open>The clock reading the commitments are compared with comes after those of the buckets.\<close>

definition commit_cutoff :: "(nat \<Rightarrow> u64) \<Rightarrow> signer \<Rightarrow> u64" where
  "commit_cutoff clk st =
     saturating_sub (clk (2 + length (col_entries (sv_rate_limit_by_email_hash st)) +
       length (col_entries (sv_rate_limit_by_client st)))) COMMIT_TTL_SECS"

lemma cleanup_pending:
  "pending_of k (cleanup clk st) = filter (\<lambda>e. commit_cutoff clk st \<le> ce_created_at e) (pending_of k st)"
  by (simp add: cleanup_def retain_commits_def pending_of_def commit_cutoff_def Let_def split: option.splits)

subsection \<open>Sequences of calls\<close>

type_synonym step = "(nat \<Rightarrow> u64) \<times> (nat \<Rightarrow> bytes) \<times> nostr_auth \<times> call"

fun perform_all ::
  "('s::field, 'p::ab_group_add, 'z) s_externals_scheme \<Rightarrow> step list \<Rightarrow> signer \<Rightarrow> signer" where
  "perform_all E [] st = st"
| "perform_all E ((clk, rnd, auth, c) # steps) st =
     perform_all E steps (snd (perform E clk rnd auth c st))"

definition sends_challenge :: "step \<Rightarrow> bool" where
  "sends_challenge s = (case s of (_, _, _, CChallenge _) \<Rightarrow> True | _ \<Rightarrow> False)"

lemma authenticated_challenges:
  "get_authenticated_sessions E clk a st = (r, st1) \<Longrightarrow> col_get (sv_challenges st) h = None \<Longrightarrow>
   col_get (sv_challenges st1) h = None"
  by (erule get_authenticated_cases) (auto split: if_splits)

text \<open>Only a challenge call stores a one-time password.\<close>

lemma perform_challenges:
  assumes "perform E clk rnd auth c st = (r, st')" and "\<And>d. c \<noteq> CChallenge d"
    and "col_get (sv_challenges st) h = None"
  shows "col_get (sv_challenges st') h = None"
proof (cases c)
  case (CLoginStart d)
  then show ?thesis using assms
    by (auto simp: map_action_eq dest: authenticated_challenges elim!: login_start_cases)
next
  case (CRecoveryStart d)
  then show ?thesis using assms
    by (auto simp: map_action_eq dest: authenticated_challenges elim!: recovery_start_cases)
next
  case (CEcdh d)
  then show ?thesis using assms
    by (auto simp: map_action_eq touch_session_def dest!: admittedD(3) elim!: ecdh_cases)
next
  case (CLoginSelect d)
  then show ?thesis using assms by (auto simp: map_action_eq elim!: login_select_cases)
next
  case (CRecoverySelect d)
  then show ?thesis using assms by (auto simp: map_action_eq elim!: recovery_select_cases)
next
  case (CRecoverySetup d)
  then show ?thesis using assms by (auto simp: map_action_eq elim!: recovery_setup_cases)
next
  case (CRegister d)
  then show ?thesis using assms by (auto simp: map_action_eq elim!: register_cases)
next
  case (CSessionDeactivate d)
  then show ?thesis using assms
    by (auto simp: map_action_eq deactivate_session_def split: option.splits elim!: session_deactivate_cases)
next
  case (CSessionDelete d)
  then show ?thesis using assms by (auto simp: map_action_eq elim!: session_delete_cases)
next
  case CSessionList
  then show ?thesis using assms by (auto simp: map_action_eq dest: session_list_state)
next
  case (CSignCommit d)
  then show ?thesis using assms
    by (auto simp: map_action_eq dest!: admittedD(3) elim!: sign_commit_cases)
next
  case (CSignComplete d)
  then show ?thesis using assms
    by (auto simp: map_action_eq touch_session_def dest!: admittedD(3) elim!: sign_complete_cases take_commit_cases)
qed (use assms in simp)

lemma perform_all_challenges:
  assumes "list_all (\<lambda>s. \<not> sends_challenge s) steps" and "col_get (sv_challenges st) h = None"
  shows "col_get (sv_challenges (perform_all E steps st)) h = None"
  using assms
proof (induction E steps st rule: perform_all.induct)
  case (2 E clk rnd auth c steps st)
  obtain r st' where p: "perform E clk rnd auth c st = (r, st')" by fastforce
  have "\<And>d. c \<noteq> CChallenge d" using "2.prems"(1) by (auto simp: sends_challenge_def)
  then show ?case
    using "2.IH" "2.prems" perform_challenges [OF p] p by simp
qed simp

text \<open>What a reply says.\<close>

fun reply_ok :: "reply \<Rightarrow> bool" where
  "reply_ok (PlainReply x) = resp_ok x"
| "reply_ok (EcdhReply x) = resp_ok x"
| "reply_ok (LoginSelectReply x) = resp_ok x"
| "reply_ok (ItemsReply x) = resp_ok x"
| "reply_ok (RecoverySelectReply x) = resp_ok x"
| "reply_ok (SessionListReply x) = resp_ok x"
| "reply_ok (SignCommitReply x) = resp_ok x"
| "reply_ok (SignCompleteReply x) = resp_ok x"

text \<open>The calls about sessions, recoveries and logins always answer, when the mailer is configured,
  the logger does not slice, and Argon2 accepts the email and the server's URL.\<close>

fun session_call :: "call \<Rightarrow> bool" where
  "session_call (CRegister _) = False"
| "session_call (CSignCommit _) = False"
| "session_call (CSignComplete _) = False"
| "session_call (CEcdh _) = False"
| "session_call _ = True"

lemma session_call_answer:
  assumes inv: "signer_inv E st" and quiet: "\<not> log_debug E"
    and mail: "opt_test_mode (sv_options st) \<or> opt_mailer (sv_options st) \<noteq> None"
    and argon: "\<And>d. c = CRecoverySetup d \<Longrightarrow>
      hash_email E (rsq_email d) (opt_url (sv_options st)) (opt_argon_m (sv_options st)) \<noteq> Panic"
    and c: "session_call c"
  shows "\<exists>r. fst (perform E clk rnd auth c st) = Ok r"
proof (cases c)
  case (CChallenge d)
  then show ?thesis using challenge_answer [OF quiet mail] by (simp add: map_action_def)
next
  case (CLoginStart d)
  then show ?thesis using login_start_answer [OF inv quiet, of clk auth d] by (auto simp: map_action_def)
next
  case (CRecoveryStart d)
  then show ?thesis using recovery_start_answer [OF inv quiet, of clk auth d] by (auto simp: map_action_def)
next
  case (CRecoverySetup d)
  obtain h where "hash_email E (rsq_email d) (opt_url (sv_options st)) (opt_argon_m (sv_options st)) = Ok h"
    using argon [OF CRecoverySetup] by (auto simp: hash_email_def split: option.splits)
  then show ?thesis using CRecoverySetup
    by (simp add: map_action_def handle_recovery_setup_def Let_def split: option.splits)
next
  case (CLoginSelect d)
  then show ?thesis
    by (simp add: map_action_def handle_login_select_def Let_def split: option.splits)
next
  case (CRecoverySelect d)
  then show ?thesis
    by (simp add: map_action_def handle_recovery_select_def Let_def split: option.splits)
next
  case (CSessionDeactivate d)
  then show ?thesis
    by (simp add: map_action_def handle_session_deactivate_def owns_session_eq [OF signer_invD(1) [OF inv]])
next
  case (CSessionDelete d)
  then show ?thesis
    by (simp add: map_action_def handle_session_delete_def owns_session_eq [OF signer_invD(1) [OF inv]])
next
  case CSessionList
  then show ?thesis by (simp add: map_action_def session_list_items [OF inv])
qed (use c in simp_all)

end
