(* ===== verification/Signer_Example.thy ===== *)
theory Signer_Example
  imports Signer_Compose Signer_Rates Signer_Facts Example7
begin

text \<open>
  An instance of the signer's parameters, over the integers modulo 7 with the hexadecimal encoding
  the \<open>hex\<close> crate documents, and a short history of two signers of a two-of-two group: their
  registration, a recovery method, one signature, a key agreement, a recovery and a login.  It is
  what the witnesses of the properties evaluate.
\<close>

subsection \<open>Hexadecimal strings\<close>

definition hexdigits :: string where
  "hexdigits = ''0123456789abcdef''"

definition hex_byte :: "byte \<Rightarrow> string" where
  "hex_byte b = [hexdigits ! (unat b div 16), hexdigits ! (unat b mod 16)]"

definition hx :: "bytes \<Rightarrow> string" where
  "hx bs = concat (map hex_byte bs)"

definition digit_value :: "char \<Rightarrow> nat" where
  "digit_value c =
     (let n = of_char c in if n < 58 then n - 48 else if n < 71 then n - 55 else n - 87)"

fun unhx :: "string \<Rightarrow> bytes option" where
  "unhx [] = Some []"
| "unhx [c] = None"
| "unhx (c # d # s) =
     (if is_ascii_hexdigit c \<and> is_ascii_hexdigit d
      then map_option ((#) (of_nat (16 * digit_value c + digit_value d))) (unhx s) else None)"

lemma digit_hexdigits:
  assumes "n < 16"
  shows "is_ascii_hexdigit (hexdigits ! n) \<and> digit_value (hexdigits ! n) = n"
proof -
  have "n \<in> {0, 1, 2, 3, 4, 5, 6, 7, 8, 9, 10, 11, 12, 13, 14, 15}" using assms by (simp, presburger)
  then show ?thesis by (auto simp: hexdigits_def is_ascii_hexdigit_def digit_value_def Let_def)
qed

lemma hex_byte_digits:
  fixes b :: byte
  shows "unat b div 16 < 16" "unat b mod 16 < 16"
proof -
  have "unat b < 256" using unsigned_less [of b] by simp
  then show "unat b div 16 < 16" "unat b mod 16 < 16" by (simp_all add: less_mult_imp_div_less)
qed

lemma unhx_hx [simp]: "unhx (hx bs) = Some bs"
  by (induction bs) (simp_all add: hx_def hex_byte_def digit_hexdigits hex_byte_digits)

lemma hx_digits [simp]: "list_all is_ascii_hexdigit (hx bs)" "length (hx bs) = 2 * length bs"
  by (induction bs) (simp_all add: hx_def hex_byte_def digit_hexdigits hex_byte_digits)

lemma unhx_iff: "unhx s \<noteq> None \<longleftrightarrow> even (length s) \<and> list_all is_ascii_hexdigit s"
  by (induction s rule: unhx.induct) auto

lemma unhx_length: "unhx s = Some bs \<Longrightarrow> 2 * length bs = length s"
  by (induction s arbitrary: bs rule: unhx.induct) (auto split: if_splits)

lemma hx_inj [simp]: "hx a = hx b \<longleftrightarrow> a = b"
  by (metis option.inject unhx_hx)

lemma hx_valid [simp]: "length b = 32 \<Longrightarrow> hex32_valid (hx b)" "length b = 33 \<Longrightarrow> hex33_valid (hx b)"
  by (simp_all add: hex32_valid_iff hex33_valid_iff)

subsection \<open>The parameters\<close>

text \<open>Argon2 is constant on the salts it accepts; every authorization header is that of the key it spells.\<close>

definition ext8 :: "(gf7, gf7) s_externals" where
  "ext8 = externals.extend ext7
     (s_externals.fields hx unhx (\<lambda>m p s. if 8 \<le> length s then Some (num7 9) else None) (\<lambda>u. Some u) (\<lambda>h u t. Some (drop 6 h))
        (\<lambda>s. Some []) (\<lambda>b. Some (num7 0)) ''{{otp}}'' False)"

named_theorems eval8 "evaluation at the signer's instance"

lemma ext8_base [eval8]:
  "scalar_repr ext8 = val7" "point_gen ext8 = 1" "point_mul ext8 = (*)"
  "point_encode ext8 = encode7" "point_decode ext8 = decode7" "point_x ext8 = point_x ext7"
  "sha256 ext8 = sha7" "hmac_sha256 ext8 = (\<lambda>k m. be_bytes 32 3)" "expand_xmd ext8 = expand_xmd ext7"
  "vk_from_bytes_ok ext8 = vk_from_bytes_ok ext7" "sig_try_from_ok ext8 = sig_try_from_ok ext7"
  "verify_raw ext8 = verify_raw ext7"
  by (simp_all add: ext8_def externals.defs s_externals.defs ext7_def)

lemma ext8_signer [eval8]:
  "hex_encode ext8 = hx" "hex_decode ext8 = unhx" "argon2id ext8 = (\<lambda>m p s. if 8 \<le> length s then Some (num7 9) else None)"
  "url_parse ext8 = (\<lambda>u. Some u)" "verify_auth_header ext8 = (\<lambda>h u t. Some (drop 6 h))"
  "base64_decode ext8 = (\<lambda>s. Some [])" "event_from_json ext8 = (\<lambda>b. Some (num7 0))"
  "challenge_template ext8 = ''{{otp}}''" "log_debug ext8 = False"
  by (simp_all add: ext8_def externals.defs s_externals.defs)

lemma k256_laws_ext8 [simp]: "k256_laws ext8"
  using k256_laws_ext7
  by (simp add: k256_laws_def scalar_laws_def point_laws_def encode_laws_def ext8_base ext7_fields)

lemma digest_laws_ext8 [simp]: "digest_laws ext8"
  using digest_laws_ext7 by (simp add: digest_laws_def ext8_base ext7_fields)

lemma schnorr_laws_ext8 [simp]: "schnorr_laws ext8"
  using schnorr_laws_ext7
  unfolding schnorr_laws_def bip340_challenge_def ext8_base ext7_fields by simp

lemma hex_laws_ext8 [simp]: "hex_laws ext8"
  using unhx_iff unhx_length by (auto simp: hex_laws_def ext8_signer)

subsection \<open>Evaluation\<close>

lemma decode_hx [eval8]:
  "length b = 32 \<Longrightarrow> decode32 ext8 (hx b) = Some b" "length b = 33 \<Longrightarrow> decode33 ext8 (hx b) = Some b"
  by (simp_all add: decode32_def decode33_def ext8_signer)

lemma hex_concat_hx [eval8]: "hex_concat ext8 (map hx bss) = concat bss"
  by (induction bss) (simp_all add: hex_concat_def map_filter_simps ext8_signer)

lemma hex_concat_one [eval8]: "hex_concat ext8 [hx b] = b" "hex_concat ext8 [] = []"
  by (simp_all add: hex_concat_def map_filter_simps ext8_signer)

lemma encode_ext8 [eval8]: "encode33 ext8 = hx" "encode32 ext8 = hx"
  by (rule ext; simp add: encode33_def encode32_def ext8_signer)+

lemma scalar_to_bytes_ext8 [eval8]: "scalar_to_bytes ext8 s = num7 (val7 s)"
  by (simp add: scalar_to_bytes_def num7_def ext8_base)

lemma get_pubkey_ext8 [eval8]:
  "n < 256 \<Longrightarrow> of7 n \<noteq> GF0 \<Longrightarrow> get_pubkey ext8 (num7 n) = Ok (encode7 (of7 n))"
  by (simp add: get_pubkey_eq_Ok scalar_from_num7 zero_gf7_def ext8_base)

lemma lift_x_ext8 [eval8]: "p \<noteq> GF0 \<Longrightarrow> lift_x ext8 (encode7 p) = Ok p"
  using lift_x_encode [OF k256_laws_ext8, of p] by (simp add: zero_gf7_def ext8_base)

lemma serialize_ext8 [eval8]: "p \<noteq> GF0 \<Longrightarrow> serialize_element ext8 p = Ok (encode7 p)"
  by (simp add: serialize_element_eq_Ok zero_gf7_def ext8_base)

lemma has_even_y_ext8 [eval8]: "p \<noteq> GF0 \<Longrightarrow> has_even_y ext8 p = (val7 p \<le> 3)"
  by (simp add: has_even_y_def encode7_def zero_gf7_def ext8_base)

lemma hash_to_field_n_ext8 [eval8]: "hash_to_field_n ext8 m d = GF2"
  using hash_to_field_n_ext7 by (simp add: hash_to_field_n_def ext8_base)

lemma nonce_ext8 [eval8]: "generate_nonce ext8 k s r = num7 2" "h1 ext8 m = num7 2"
  by (simp_all add: generate_nonce_def h3_def h1_def eval8)

lemma tweak_seckey_ext8 [eval8]:
  "m < 256 \<Longrightarrow> n < 256 \<Longrightarrow> tweak_seckey ext8 (num7 m) (num7 n) = num7 ((m + n) mod 7)"
  by (simp add: tweak_seckey_def scalar_from_num7 eval8 plus_gf7_def mod_add_eq)

end
