(* ===== verification/Server.thy ===== *)
theory Server
  imports Signer_Facts
begin

text \<open>
  \<open>pomade-signer-rust/src/main.rs\<close>: how the process builds the signer's options from its command
  line and environment, opens the database, and hands a request to \<open>Signer::handle\<close>.  The record
  \<open>platform\<close> holds what the process finds outside: the environment, the database, the HTTP client
  and the socket.  The argument parser, the HTTP framework and the timer are not modelled.
\<close>

record 'k platform =
  pf_env :: "string \<Rightarrow> string option"
  pf_sha :: "bytes \<Rightarrow> bytes"
  pf_aead :: "'k aead"
  pf_db_opens :: "string \<Rightarrow> bool"
  pf_client_builds :: bool
  pf_binds :: "string \<Rightarrow> bool"

record args =
  ag_url :: string
  ag_port :: "16 word"
  ag_db :: string
  ag_mail_provider :: "string option"
  ag_mail_from_email :: string
  ag_mail_from_name :: string

definition require_env :: "(string \<Rightarrow> string option) \<Rightarrow> string \<Rightarrow> string res" where
  "require_env env key = (case env key of Some v \<Rightarrow> Ok v | None \<Rightarrow> Panic)"

text \<open>\<open>str::parse::<u16>\<close>: an optional plus sign and decimal digits of a value below \<open>2 ^ 16\<close>.\<close>

definition digit_val :: "char \<Rightarrow> nat option" where
  "digit_val c = (let n = of_char c in if 48 \<le> n \<and> n \<le> 57 then Some (n - 48) else None)"

fun parse_digits :: "nat \<Rightarrow> string \<Rightarrow> nat option" where
  "parse_digits acc [] = Some acc"
| "parse_digits acc (c # cs) =
     (case digit_val c of None \<Rightarrow> None | Some d \<Rightarrow> parse_digits (10 * acc + d) cs)"

definition parse_u16 :: "string \<Rightarrow> 16 word option" where
  "parse_u16 s =
     (let ds = (if s \<noteq> [] \<and> hd s = CHR ''+'' then tl s else s)
      in if ds = [] then None
         else (case parse_digits 0 ds of
                 None \<Rightarrow> None
               | Some n \<Rightarrow> if n < 2 ^ 16 then Some (of_nat n) else None))"

definition build_mailer :: "(string \<Rightarrow> string option) \<Rightarrow> string \<Rightarrow> mailer res" where
  "build_mailer env provider =
     (if provider = ''postmark'' then
        bindR (require_env env ''POSTMARK_API_TOKEN'') (\<lambda>api_token. Ok (Postmark api_token))
      else if provider = ''sendgrid'' then
        bindR (require_env env ''SENDGRID_API_KEY'') (\<lambda>api_key. Ok (Sendgrid api_key))
      else if provider = ''mailgun'' then
        bindR (require_env env ''MAILGUN_API_KEY'') (\<lambda>api_key.
        bindR (require_env env ''MAILGUN_DOMAIN'') (\<lambda>domain_name.
        Ok (Mailgun api_key domain_name
              (if env ''MAILGUN_API_REGION'' = Some ''eu'' then Eu else Us))))
      else if provider = ''sendlayer'' then
        bindR (require_env env ''SENDLAYER_API_KEY'') (\<lambda>api_key. Ok (Sendlayer api_key))
      else if provider = ''resend'' then
        bindR (require_env env ''RESEND_API_KEY'') (\<lambda>api_key. Ok (Resend api_key))
      else if provider = ''smtp'' then
        bindR (require_env env ''SMTP_HOST'') (\<lambda>host.
        Ok (Smtp host
              (case Option.bind (env ''SMTP_PORT'') parse_u16 of Some p \<Rightarrow> p | None \<Rightarrow> 587)
              (env ''SMTP_USER'') (env ''SMTP_PASSWORD'')))
      else Panic)"

text \<open>\<open>main\<close> up to the point where it serves: the options and the cipher of the storage.\<close>

definition server_start :: "'k platform \<Rightarrow> args \<Rightarrow> (signer_options \<times> 'k option) res" where
  "server_start P a =
     (let env = pf_env P; listen = ''0.0.0.0:'' @ dec_digits (unat (ag_port a))
      in bindR (require_env env ''POMADE_SECRET'') (\<lambda>storage_secret.
         if \<not> pf_db_opens P (ag_db a) then Panic
         else bindR (sled_open_encrypted (pf_sha P) (pf_aead P) storage_secret) (\<lambda>cipher.
           let test_mode = env ''TEST_MODE'' \<noteq> None
           in if \<not> test_mode \<and> ag_mail_provider a = None then Panic
              else if \<not> pf_client_builds P then Panic
              else bindR (case ag_mail_provider a of
                            None \<Rightarrow> Ok None
                          | Some p \<Rightarrow> bindR (build_mailer env p) (\<lambda>m. Ok (Some m))) (\<lambda>mailer.
                if \<not> pf_binds P listen then Panic
                else Ok (\<lparr>opt_url = ag_url a, opt_register_pow = (if test_mode then 0 else 16),
                          opt_argon_m = (if test_mode then 1024 else 64 * 1024),
                          opt_from_email = ag_mail_from_email a, opt_from_name = ag_mail_from_name a,
                          opt_mailer = mailer, opt_test_mode = test_mode\<rparr>, cipher)))))"

text \<open>\<open>handle\<close>: the wildcard of the route has no leading slash; a header that is absent or not
  text counts as empty.\<close>

definition server_handle ::
  "('s::field, 'p::ab_group_add, 'z) s_externals_scheme \<Rightarrow> 'j decoders \<Rightarrow> ('h \<Rightarrow> string option) \<Rightarrow> u64 \<Rightarrow>
   (nat \<Rightarrow> u64) \<Rightarrow> (nat \<Rightarrow> bytes) \<Rightarrow> string \<Rightarrow> 'h option \<Rightarrow> 'j \<Rightarrow> signer \<Rightarrow> reply action" where
  "server_handle E D to_str now clk rnd path header body st =
     (let auth = (case Option.bind header to_str of Some v \<Rightarrow> v | None \<Rightarrow> [])
      in handle E D now clk rnd (''/'' @ path) auth body st)"

subsection \<open>The options of a server that started\<close>

lemma require_env_Ok: "require_env env key = Ok v \<longleftrightarrow> env key = Some v"
  by (simp add: require_env_def split: option.splits)

lemma server_start_options:
  assumes "server_start P a = Ok (opts, cipher)"
  shows "opt_test_mode opts \<or> opt_mailer opts \<noteq> None"
    and "opt_argon_m opts = (if opt_test_mode opts then 1024 else 65536)"
    and "opt_register_pow opts = (if opt_test_mode opts then 0 else 16)"
    and "opt_test_mode opts \<longleftrightarrow> pf_env P ''TEST_MODE'' \<noteq> None"
    and "opt_url opts = ag_url a"
  using assms by (auto simp: server_start_def Let_def res_simps split: option.splits if_splits)

lemma server_start_mailer:
  assumes "server_start P a = Ok (opts, cipher)" and "opt_mailer opts = Some m"
  shows "\<exists>p. ag_mail_provider a = Some p \<and> build_mailer (pf_env P) p = Ok m"
  using assms by (auto simp: server_start_def Let_def res_simps split: option.splits if_splits)

lemma server_start_panics:
  "pf_env P ''POMADE_SECRET'' = None \<or> \<not> pf_db_opens P (ag_db a) \<or>
   pf_env P ''TEST_MODE'' = None \<and> ag_mail_provider a = None \<Longrightarrow> server_start P a = Panic"
  by (auto simp: server_start_def require_env_def sled_open_encrypted_def Let_def res_simps split: option.splits)

text \<open>A port the process can print is read back, and a port out of range is the default.\<close>

lemma parse_digits_append:
  "parse_digits acc (xs @ ys) = Option.bind (parse_digits acc xs) (\<lambda>n. parse_digits n ys)"
  by (induction acc xs rule: parse_digits.induct) (auto split: option.splits)

lemma digit_val_char: "d < 10 \<Longrightarrow> digit_val (char_of (48 + d)) = Some d"
  by (simp add: digit_val_def Let_def)

lemma parse_digits_dec:
  "parse_digits acc (dec_digits n) = Some (10 ^ length (dec_digits n) * acc + n)"
proof (induction n arbitrary: acc rule: dec_digits.induct)
  case (1 n)
  show ?case
  proof (cases "n < 10")
    case True
    then have "dec_digits n = [char_of (48 + n)]" by (simp add: dec_digits.simps)
    then show ?thesis using digit_val_char [OF True] by simp
  next
    case False
    then have ds: "dec_digits n = dec_digits (n div 10) @ [char_of (48 + n mod 10)]"
      by (simp add: dec_digits.simps [of n])
    have "parse_digits acc (dec_digits n) =
        Some (10 * (10 ^ length (dec_digits (n div 10)) * acc + n div 10) + n mod 10)"
      using digit_val_char [of "n mod 10"] by (simp add: ds parse_digits_append 1 [OF False])
    then show ?thesis by (simp add: ds algebra_simps)
  qed
qed

lemma dec_digits_hd: "dec_digits n \<noteq> [] \<and> digit_val (hd (dec_digits n)) \<noteq> None"
proof (induction n rule: dec_digits.induct)
  case (1 n)
  then show ?case by (cases "n < 10") (simp_all add: dec_digits.simps [of n] digit_val_char)
qed

lemma parse_u16_dec: "parse_u16 (dec_digits (unat (p :: 16 word))) = Some p"
proof -
  have "digit_val CHR ''+'' = None" by (simp add: digit_val_def)
  then have "hd (dec_digits (unat p)) \<noteq> CHR ''+''" using dec_digits_hd [of "unat p"] by metis
  moreover have "unat p < 65536" by (rule less_le_trans [OF unsigned_less]) simp
  ultimately show ?thesis using dec_digits_hd [of "unat p"] by (simp add: parse_u16_def Let_def parse_digits_dec)
qed

subsection \<open>Serving\<close>

lemma challenge_request_carries:
  assumes "mail_request m from_email from_name ((challenge_email E otp)\<lparr>ml_to := email\<rparr>) = Some req"
  shows "{email, challenge_text otp} \<subseteq> set (body_strings (hr_body req))"
  using request_carries_mail [OF assms] by (simp add: challenge_email_def)

lemma admitted_options: "admitted clk k st s st1 \<Longrightarrow> sv_options st1 = sv_options st"
  by (drule admittedD(3)) simp

lemma take_commit_options: "take_commit i k st = (Some entry, st') \<Longrightarrow> sv_options st' = sv_options st"
  by (auto elim: take_commit_cases)

lemma touch_options [simp]: "sv_options (touch_session t k s st) = sv_options st"
  by (simp add: touch_session_def)

lemma deactivate_options [simp]: "sv_options (deactivate_session t k st) = sv_options st"
  by (simp add: deactivate_session_def split: option.splits)

lemma perform_options:
  assumes "perform E clk rnd auth c st = (r, st')"
  shows "sv_options st' = sv_options st"
proof (cases c)
  case (CChallenge d)
  then show ?thesis using assms by (auto simp: map_action_eq elim!: challenge_cases)
next
  case (CEcdh d)
  then show ?thesis using assms
    by (auto simp: map_action_eq dest: admitted_options elim!: ecdh_cases)
next
  case (CLoginSelect d)
  then show ?thesis using assms by (auto simp: map_action_eq elim!: login_select_cases)
next
  case (CLoginStart d)
  then show ?thesis using assms
    by (auto simp: map_action_eq authenticated_fields elim!: login_start_cases)
next
  case (CRecoverySelect d)
  then show ?thesis using assms by (auto simp: map_action_eq elim!: recovery_select_cases)
next
  case (CRecoverySetup d)
  then show ?thesis using assms by (auto simp: map_action_eq elim!: recovery_setup_cases)
next
  case (CRecoveryStart d)
  then show ?thesis using assms
    by (auto simp: map_action_eq authenticated_fields elim!: recovery_start_cases)
next
  case (CRegister d)
  then show ?thesis using assms by (auto simp: map_action_eq elim!: register_cases)
next
  case (CSessionDeactivate d)
  then show ?thesis using assms by (auto simp: map_action_eq elim!: session_deactivate_cases)
next
  case (CSessionDelete d)
  then show ?thesis using assms by (auto simp: map_action_eq elim!: session_delete_cases)
next
  case CSessionList
  then show ?thesis using assms by (auto simp: map_action_eq dest: session_list_state)
next
  case (CSignCommit d)
  then show ?thesis using assms
    by (auto simp: map_action_eq dest: admitted_options elim!: sign_commit_cases)
next
  case (CSignComplete d)
  then show ?thesis using assms
    by (auto simp: map_action_eq elim!: sign_complete_cases)
      (metis admitted_options take_commit_options)+
qed

lemma run_options: "run E opts tr st \<Longrightarrow> sv_options st = opts"
proof (induction rule: run.induct)
  case run_open
  show ?case by (simp add: signer_open_def)
next
  case (run_call tr st c clk rnd auth r st')
  then show ?case using perform_options [OF run_call.hyps(4)] by simp
next
  case (run_cleanup tr st clk)
  then show ?case by (simp add: cleanup_def Let_def)
next
  case (run_restart tr st)
  show ?case by (simp add: signer_reopen_def signer_open_def)
qed

text \<open>
  A server that started answers what \<open>session_call_answer\<close> asks for.  Argon2 accepts the memory
  costs of \<open>main\<close> for a salt of at least eight bytes and passwords and salts of at most
  \<open>2 ^ 32 - 1\<close> bytes, the documented limits; the salt is the server's URL, the password the email.
\<close>

definition ARGON2_MAX :: nat where "ARGON2_MAX = 2 ^ 32 - 1"

definition argon2_laws :: "('s, 'p, 'z) s_externals_scheme \<Rightarrow> bool" where
  "argon2_laws E \<longleftrightarrow>
     (\<forall>m p s. (m = 1024 \<or> m = 65536) \<and> length p \<le> ARGON2_MAX \<and> 8 \<le> length s \<and> length s \<le> ARGON2_MAX \<longrightarrow>
        argon2id E m p s \<noteq> None)"

definition argon2_salt :: "string \<Rightarrow> bool" where
  "argon2_salt url \<longleftrightarrow> 8 \<le> length url \<and> length url \<le> ARGON2_MAX"

fun email_fits :: "call \<Rightarrow> bool" where
  "email_fits (CRecoverySetup d) \<longleftrightarrow> length (rsq_email d) \<le> ARGON2_MAX"
| "email_fits _ \<longleftrightarrow> True"

lemma served_hash:
  assumes "server_start P a = Ok (opts, cipher)" and "argon2_laws E" and "argon2_salt (ag_url a)"
    and "length e \<le> ARGON2_MAX"
  shows "hash_email E e (opt_url opts) (opt_argon_m opts) \<noteq> Panic"
proof -
  have "argon2id E (opt_argon_m opts) (str_bytes e) (str_bytes (ag_url a)) \<noteq> None"
    using assms(2-4) server_start_options(2) [OF assms(1)]
    unfolding argon2_laws_def argon2_salt_def by (simp add: str_bytes_def)
  then show ?thesis
    using server_start_options(5) [OF assms(1)] by (auto simp: hash_email_def split: option.split)
qed

lemma served_call_answer:
  assumes "server_start P a = Ok (opts, cipher)" and run: "run E opts tr st"
    and "session_call c" and "\<not> log_debug E"
    and argon: "argon2_laws E" "argon2_salt (ag_url a)" "email_fits c"
  shows "\<exists>r. fst (perform E clk rnd auth c st) = Ok r"
proof -
  note opts = server_start_options [OF assms(1)] run_options [OF run]
  have "hash_email E (rsq_email d) (opt_url (sv_options st)) (opt_argon_m (sv_options st)) \<noteq> Panic"
    if "c = CRecoverySetup d" for d
    unfolding opts(6) by (rule served_hash [OF assms(1) argon(1,2)]) (use that argon(3) in simp)
  then show ?thesis
    using session_call_answer [OF run_inv [OF run] assms(4) _ _ assms(3)] opts(1) by (simp add: opts(6))
qed

lemma server_handle_run:
  assumes "run E opts tr st" and "clock_ok clk"
    and "server_handle E D to_str now clk rnd path header body st = (r, st')"
  shows "run E opts tr st' \<or> (\<exists>ev. run E opts (tr @ [ev]) st')"
  by (rule handle_run [OF assms(1,2) assms(3) [unfolded server_handle_def Let_def]])

end
