(* ===== verification/Storage_Refine.thy ===== *)
theory Storage_Refine
  imports Storage
begin

text \<open>
  The refinement of storage: \<open>Collection<T>\<close> on \<open>SledBackend\<close>, under the documented laws of
  \<open>sled\<close>, the cipher and \<open>serde_json\<close>, behaves as the abstract sorted collection of \<open>Storage\<close>,
  and the collections of a database are independent of each other.
\<close>

subsection \<open>Strings and their bytes\<close>

lemma bytes_str_bytes [simp]: "bytes_str (str_bytes s) = s"
  by (induction s) (auto simp: bytes_str_def str_bytes_def unat_of_nat)

lemma str_bytes_str [simp]: "str_bytes (bytes_str bs) = bs"
  by (induction bs) (auto simp: bytes_str_def str_bytes_def)

lemma bytes_str_less: "a < b \<Longrightarrow> bytes_str a < bytes_str b"
proof (induction a arbitrary: b)
  case Nil
  then show ?case by (cases b) (auto simp: bytes_str_def)
next
  case (Cons x xs)
  then obtain y ys where b: "b = y # ys" by (cases b) auto
  have "x < y \<Longrightarrow> (char_of (unat x) :: char) < char_of (unat y)"
    by (simp add: less_char_def word_less_nat_alt)
  then show ?case using Cons by (auto simp: b bytes_str_def)
qed

lemma map_filter_Some_map: "List.map_filter (\<lambda>r. r) (map Some xs) = xs"
  by (induction xs) (auto simp: map_filter_simps)

lemma map_filter_all:
  "(\<And>x. x \<in> set xs \<Longrightarrow> f x = Some (g x)) \<Longrightarrow> List.map_filter f xs = map g xs"
  by (induction xs) (auto simp: map_filter_simps)

subsection \<open>The abstraction of a database's collection\<close>

definition dec ::
  "'k aead \<Rightarrow> 'k option \<Rightarrow> 'v codec \<Rightarrow> bytes \<Rightarrow> 'v option" where
  "dec A cipher J raw = Option.bind (sled_decode A cipher raw) (from_slice J)"

definition db_ok ::
  "'d sled \<Rightarrow> 'k aead \<Rightarrow> 'k option \<Rightarrow> 'v codec \<Rightarrow> string \<Rightarrow> 'd \<Rightarrow> bool" where
  "db_ok S A cipher J name d \<longleftrightarrow>
     (\<forall>k raw. sl_get S d name k = Some (Some raw) \<longrightarrow> utf8_valid k \<and> dec A cipher J raw \<noteq> None)"

definition view ::
  "'d sled \<Rightarrow> 'k aead \<Rightarrow> 'k option \<Rightarrow> 'v codec \<Rightarrow> string \<Rightarrow> 'd \<Rightarrow> 'v col" where
  "view S A cipher J name d = ok_val (collection_entries (sled_backend S A cipher) J name d)"

lemma iter_entries:
  assumes "sled_laws S"
  obtains kvs where "sl_iter S d t = map Some kvs" "sorted_wrt (<) (map fst kvs)"
    "\<And>k v. (k, v) \<in> set kvs \<longleftrightarrow> sl_get S d t k = Some (Some v)"
proof -
  have "\<forall>d t. \<exists>kvs. sl_iter S d t = map Some kvs \<and> sorted_wrt (<) (map fst kvs) \<and>
      (\<forall>k v. (k, v) \<in> set kvs \<longleftrightarrow> sl_get S d t k = Some (Some v))"
    using assms unfolding sled_laws_def by (elim conjE)
  then obtain kvs where "sl_iter S d t = map Some kvs" "sorted_wrt (<) (map fst kvs)"
      "\<forall>k v. (k, v) \<in> set kvs \<longleftrightarrow> sl_get S d t k = Some (Some v)"
    by meson
  then show thesis using that by simp
qed

lemma sled_tree_Ok: "sled_laws S \<Longrightarrow> sled_tree S d t = Ok t"
  by (simp add: sled_laws_def sled_tree_def)

lemma sled_get_Some: "sled_laws S \<Longrightarrow> \<exists>r. sl_get S d t k = Some r"
  by (auto simp: sled_laws_def)

lemma sled_get_insert:
  "sled_laws S \<Longrightarrow> sl_get S (sl_insert S d t k v) t' k' =
    (if t' = t \<and> k' = k then Some (Some v) else sl_get S d t' k')"
  by (simp add: sled_laws_def)

lemma sled_get_remove:
  "sled_laws S \<Longrightarrow> sl_get S (snd (sl_remove S d t k)) t' k' =
    (if t' = t \<and> k' = k then Some None else sl_get S d t' k')"
  by (simp add: sled_laws_def)

lemma map_filter_compose_codec:
  assumes "\<And>k raw. (k, raw) \<in> set kvs \<Longrightarrow> utf8_valid k \<and> dec A cipher J raw \<noteq> None"
  shows "List.map_filter (\<lambda>(k, v). map_option (Pair k) (from_slice J v))
     (List.map_filter (\<lambda>(k, v). Option.bind (from_utf8 k) (\<lambda>key.
        Option.bind (sled_decode A cipher v) (\<lambda>val. Some (key, val)))) kvs) =
     map (\<lambda>(k, raw). (bytes_str k, the (dec A cipher J raw))) kvs"
  using assms
proof (induction kvs)
  case Nil
  then show ?case by (simp add: map_filter_simps)
next
  case (Cons kv kvs)
  obtain k raw where kv: "kv = (k, raw)" by fastforce
  have "utf8_valid k" "dec A cipher J raw \<noteq> None" using Cons.prems by (auto simp: kv)
  then obtain p v where pv: "sled_decode A cipher raw = Some p" "from_slice J p = Some v"
    by (auto simp: dec_def split: Option.bind_splits)
  have "utf8_valid k \<and> dec A cipher J raw \<noteq> None" if "(k, raw) \<in> set kvs" for k raw
    using Cons.prems [of k raw] that by simp
  note ih = Cons.IH [OF this]
  have "dec A cipher J raw = Some v" using pv by (simp add: dec_def)
  then show ?case
    using pv \<open>utf8_valid k\<close> ih by (simp add: kv map_filter_simps from_utf8_def)
qed

lemma view_entries:
  fixes J :: "'v codec"
  assumes "sled_laws S" and "db_ok S A cipher J name d"
  obtains kvs where
    "collection_entries (sled_backend S A cipher) J name d = Ok (view S A cipher J name d)"
    "view S A cipher J name d = map (\<lambda>(k, raw). (bytes_str k, the (dec A cipher J raw))) kvs"
    "sorted_wrt (<) (map fst kvs)"
    "\<And>k v. (k, v) \<in> set kvs \<longleftrightarrow> sl_get S d name k = Some (Some v)"
proof -
  obtain kvs where kvs: "sl_iter S d name = map Some kvs" "sorted_wrt (<) (map fst kvs)"
    "\<And>k v. (k, v) \<in> set kvs \<longleftrightarrow> sl_get S d name k = Some (Some v)"
    using iter_entries [OF assms(1)] by blast
  have ok: "utf8_valid k \<and> dec A cipher J raw \<noteq> None" if "(k, raw) \<in> set kvs" for k raw
    using that assms(2) kvs(3) unfolding db_ok_def by blast
  have "collection_entries (sled_backend S A cipher) J name d =
      Ok (map (\<lambda>(k, raw). (bytes_str k, the (dec A cipher J raw))) kvs)"
    using map_filter_compose_codec [of kvs, OF ok]
    by (simp add: collection_entries_def sled_backend_def sled_entries_def sled_tree_Ok [OF assms(1)]
        kvs(1) map_filter_Some_map)
  then show thesis using that kvs(2,3) by (simp add: view_def)
qed

lemma view_sorted:
  assumes "sled_laws S" and "db_ok S A cipher J name d"
  shows "col_sorted (view S A cipher J name d)"
proof -
  obtain kvs where v: "view S A cipher J name d =
      map (\<lambda>(k, raw). (bytes_str k, the (dec A cipher J raw))) kvs"
    and s: "sorted_wrt (<) (map fst kvs)"
    by (rule view_entries [OF assms]) (rule that)
  have "map fst (map (\<lambda>(k, raw). (bytes_str k, the (dec A cipher J raw))) kvs) =
      map bytes_str (map fst kvs)"
    by (simp add: case_prod_beta)
  moreover have "sorted_wrt (<) (map bytes_str (map fst kvs))"
    unfolding sorted_wrt_map [of _ bytes_str]
    by (rule sorted_wrt_mono_rel [OF _ s]) (rule bytes_str_less)
  ultimately show ?thesis by (simp only: col_sorted_def v)
qed

text \<open>A lookup in the view is the backend's \<open>get\<close> followed by the decoding.\<close>

lemma view_get:
  assumes "sled_laws S" and "db_ok S A cipher J name d"
  shows "col_get (view S A cipher J name d) key =
    (case sl_get S d name (str_bytes key) of Some (Some raw) \<Rightarrow> dec A cipher J raw | _ \<Rightarrow> None)"
proof -
  obtain kvs where v: "view S A cipher J name d =
      map (\<lambda>(k, raw). (bytes_str k, the (dec A cipher J raw))) kvs"
    and g: "\<And>k v. (k, v) \<in> set kvs \<longleftrightarrow> sl_get S d name k = Some (Some v)"
    by (rule view_entries [OF assms]) (rule that)
  have member: "col_get (view S A cipher J name d) key = Some x \<longleftrightarrow>
      (key, x) \<in> set (view S A cipher J name d)" for x
    using col.look_items [OF view_sorted [OF assms]] by (simp add: col_entries_def)
  have in_view: "(key, x) \<in> set (view S A cipher J name d) \<longleftrightarrow>
      (\<exists>raw. sl_get S d name (str_bytes key) = Some (Some raw) \<and> x = the (dec A cipher J raw))" for x
  proof
    assume "(key, x) \<in> set (view S A cipher J name d)"
    then obtain k raw where kv: "(k, raw) \<in> set kvs" "key = bytes_str k" "x = the (dec A cipher J raw)"
      by (auto simp: v)
    then have "sl_get S d name (str_bytes key) = Some (Some raw)" using g [of k raw] by simp
    then show "\<exists>raw. sl_get S d name (str_bytes key) = Some (Some raw) \<and> x = the (dec A cipher J raw)"
      using kv(3) by blast
  next
    assume "\<exists>raw. sl_get S d name (str_bytes key) = Some (Some raw) \<and> x = the (dec A cipher J raw)"
    then obtain raw where "(str_bytes key, raw) \<in> set kvs" "x = the (dec A cipher J raw)"
      using g by blast
    then show "(key, x) \<in> set (view S A cipher J name d)"
      unfolding v set_map by (intro image_eqI [of _ _ "(str_bytes key, raw)"]) simp_all
  qed
  obtain r where r: "sl_get S d name (str_bytes key) = Some r"
    using sled_get_Some [OF assms(1)] by blast
  show ?thesis
  proof (cases r)
    case None
    then have "\<forall>x. col_get (view S A cipher J name d) key \<noteq> Some x"
      unfolding member in_view r by simp
    then show ?thesis using r None by simp
  next
    case (Some raw)
    then have "dec A cipher J raw \<noteq> None"
      using assms(2) r unfolding db_ok_def by blast
    moreover have "col_get (view S A cipher J name d) key = Some (the (dec A cipher J raw))"
      unfolding member in_view r Some by simp
    ultimately show ?thesis using r Some by simp
  qed
qed

subsection \<open>The refinement\<close>

lemma collection_get_refines:
  assumes "sled_laws S" and "db_ok S A cipher J name d"
  shows "collection_get (sled_backend S A cipher) J name d key =
    Ok (col_get (view S A cipher J name d) key)"
proof -
  obtain r where r: "sl_get S d name (str_bytes key) = Some r"
    using sled_get_Some [OF assms(1)] by blast
  show ?thesis
    unfolding view_get [OF assms] using r
    by (cases r) (simp_all add: collection_get_def sled_backend_def sled_get_def
        sled_tree_Ok [OF assms(1)] dec_def)
qed

lemma collection_set_refines:
  assumes laws: "sled_laws S" "aead_laws A cipher" "codec_laws valid J" and x: "valid x"
    and ok: "db_ok S A cipher J name d" and key: "utf8 key"
    and rnd: "length rnd = NONCE_LEN"
  obtains d' where "collection_set (sled_backend S A cipher) J name rnd d key x = Ok d'"
    "db_ok S A cipher J name d'"
    "view S A cipher J name d' = col_set (view S A cipher J name d) key x"
    "\<And>t k. t \<noteq> name \<Longrightarrow> sl_get S d' t k = sl_get S d t k"
proof -
  obtain b where b: "to_vec J x = Some b" "from_slice J b = Some x"
    using laws(3) x unfolding codec_laws_def by blast
  obtain enc where enc: "sled_encode A cipher rnd b = Ok enc" "sled_decode A cipher enc = Some b"
    using sled_decode_encode [OF laws(2) rnd] by blast
  let ?d = "sl_insert S d name (str_bytes key) enc"
  have dec: "dec A cipher J enc = Some x" using b enc by (simp add: dec_def)
  have ok': "db_ok S A cipher J name ?d"
    using ok key dec unfolding db_ok_def sled_get_insert [OF laws(1)] by auto
  have "col_get (view S A cipher J name ?d) k = col_get (col_set (view S A cipher J name d) key x) k" for k
  proof (cases "k = key")
    case True
    then show ?thesis
      using dec by (simp add: view_get [OF laws(1) ok'] sled_get_insert [OF laws(1)])
  next
    case False
    then have "str_bytes k \<noteq> str_bytes key" by (metis bytes_str_bytes)
    then show ?thesis
      using False by (simp add: view_get [OF laws(1) ok'] view_get [OF laws(1) ok] sled_get_insert [OF laws(1)])
  qed
  then have "view S A cipher J name ?d = col_set (view S A cipher J name d) key x"
    by (intro col_eqI view_sorted col_sorted_set laws ok ok')
  moreover have "collection_set (sled_backend S A cipher) J name rnd d key x = Ok ?d"
    by (simp add: collection_set_def b enc sled_backend_def sled_set_def sled_tree_Ok [OF laws(1)])
  ultimately show thesis using that ok' by (simp add: sled_get_insert [OF laws(1)])
qed

lemma collection_delete_refines:
  assumes laws: "sled_laws S" and ok: "db_ok S A cipher J name d"
  obtains d' where "collection_delete (sled_backend S A cipher) name d key =
      Ok (col_get (view S A cipher J name d) key \<noteq> None, d')"
    "db_ok S A cipher J name d'"
    "view S A cipher J name d' = col_delete (view S A cipher J name d) key"
    "\<And>t k. t \<noteq> name \<Longrightarrow> sl_get S d' t k = sl_get S d t k"
proof -
  let ?d = "snd (sl_remove S d name (str_bytes key))"
  have ok': "db_ok S A cipher J name ?d"
    using ok unfolding db_ok_def sled_get_remove [OF laws] by auto
  have "col_get (view S A cipher J name ?d) k = col_get (col_delete (view S A cipher J name d) key) k" for k
  proof (cases "k = key")
    case True
    then show ?thesis by (simp add: view_get [OF laws ok'] sled_get_remove [OF laws])
  next
    case False
    then have "str_bytes k \<noteq> str_bytes key" by (metis bytes_str_bytes)
    then show ?thesis
      using False by (simp add: view_get [OF laws ok'] view_get [OF laws ok] sled_get_remove [OF laws])
  qed
  then have view: "view S A cipher J name ?d = col_delete (view S A cipher J name d) key"
    by (intro col_eqI view_sorted col_sorted_delete laws ok ok')
  obtain r where r: "sl_get S d name (str_bytes key) = Some r"
    using sled_get_Some [OF laws] by blast
  have fst: "fst (sl_remove S d name (str_bytes key)) = Some r"
    using laws r by (simp add: sled_laws_def)
  have "(case r of None \<Rightarrow> False | Some _ \<Rightarrow> True) = (col_get (view S A cipher J name d) key \<noteq> None)"
    using ok r unfolding view_get [OF laws ok] db_ok_def by (cases r) auto
  then have "collection_delete (sled_backend S A cipher) name d key =
      Ok (col_get (view S A cipher J name d) key \<noteq> None, ?d)"
    using fst by (cases r)
      (simp_all add: collection_delete_def sled_backend_def sled_delete_def sled_tree_Ok [OF laws] case_prod_beta)
  then show thesis using that ok' view by (simp add: sled_get_remove [OF laws])
qed

end
