(* ===== verification/Storage_Example.thy ===== *)
theory Storage_Example
  imports Storage_Refine "HOL-Library.Finite_Map"
begin

text \<open>
  A database that satisfies the laws of \<open>Storage\<close>: a finite map from trees and keys to values, a
  cipher that appends a tag, and the codec of raw bytes, which refuses to read none.
\<close>

type_synonym db8 = "(string \<times> bytes, bytes) fmap"

definition tree_keys :: "db8 \<Rightarrow> string \<Rightarrow> bytes set" where
  "tree_keys d t = {k. fmlookup d (t, k) \<noteq> None}"

definition sled8 :: "db8 sled" where
  "sled8 =
     \<lparr>sl_open = (\<lambda>d t. True), sl_get = (\<lambda>d t k. Some (fmlookup d (t, k))),
      sl_insert = (\<lambda>d t k v. fmupd (t, k) v d),
      sl_remove = (\<lambda>d t k. (Some (fmlookup d (t, k)), fmdrop (t, k) d)),
      sl_iter = (\<lambda>d t. map (\<lambda>k. Some (k, the (fmlookup d (t, k)))) (sorted_list_of_set (tree_keys d t)))\<rparr>"

lemma finite_tree_keys: "finite (tree_keys d t)"
proof -
  have "tree_keys d t \<subseteq> snd ` fmdom' d"
    unfolding tree_keys_def by (force intro: fmdom'I)
  then show ?thesis by (rule finite_subset) simp
qed

lemma tree_keys_iff: "k \<in> tree_keys d t \<longleftrightarrow> (\<exists>v. fmlookup d (t, k) = Some v)"
  by (simp add: tree_keys_def)

lemma set_tree_keys [simp]: "set (sorted_list_of_set (tree_keys d t)) = tree_keys d t"
  by (simp add: finite_tree_keys)

lemma sled_laws8: "sled_laws sled8"
proof -
  have "\<exists>kvs. sl_iter sled8 d t = map Some kvs \<and> sorted_wrt (<) (map fst kvs) \<and>
      (\<forall>k v. (k, v) \<in> set kvs \<longleftrightarrow> sl_get sled8 d t k = Some (Some v))" for d t
    by (rule exI [of _ "map (\<lambda>k. (k, the (fmlookup d (t, k)))) (sorted_list_of_set (tree_keys d t))"])
      (force simp: sled8_def comp_def tree_keys_iff)
  then show ?thesis unfolding sled_laws_def by (simp add: sled8_def)
qed

definition aead8 :: "unit aead" where
  "aead8 = \<lparr>aead_new = (\<lambda>k. Some ()), aead_encrypt = (\<lambda>k n p. Some (p @ [1])),
     aead_decrypt = (\<lambda>k n c. Some (butlast c))\<rparr>"

definition codec8 :: "bytes codec" where
  "codec8 = \<lparr>to_vec = Some, from_slice = (\<lambda>b. if b = [] then None else Some b)\<rparr>"

lemma crypto_laws8: "aead_laws aead8 (Some ())" "codec_laws (\<lambda>b. b \<noteq> []) codec8"
  by (simp_all add: aead_laws_def aead8_def codec_laws_def codec8_def)

lemma db_ok8: "db_ok sled8 aead8 (Some ()) codec8 name fmempty"
  by (simp add: db_ok_def sled8_def)

end
