(* ===== verification/Signer_Rounds.thy ===== *)
theory Signer_Rounds
  imports Signer_Compose
begin

text \<open>
  Whole rounds with several signers, each answering on its own state.  A signing round is two calls
  to each signer; what may happen between them is left open, as long as the commitment stays pending.
  A key agreement is one call to each.
\<close>

subsection \<open>Between the two calls\<close>

text \<open>
  The state of a signer that has committed: an active session of the group whose share lies on the
  group's polynomial, and one pending entry with the id, whose secrets belong to the nonces \<open>item\<close>.
\<close>

definition committed ::
  "('s::field, 'p::ab_group_add, 'z) s_externals_scheme \<Rightarrow> 's list \<Rightarrow> sgroup \<Rightarrow> u32 list \<Rightarrow> string \<Rightarrow>
   string \<Rightarrow> public_nonce_item \<Rightarrow> sshare \<times> secret_nonce \<Rightarrow> signer \<Rightarrow> bool" where
  "committed E cs grp members k cid item m st \<longleftrightarrow>
     (\<exists>s entry. col_get (sv_sessions st) k = Some s \<and> sess_group s = grp \<and> sess_share s = fst m \<and>
        honest_signer E cs m item \<and>
        (\<exists>seckey pubkey. decode32 E (sh_seckey (fst m)) = Some seckey \<and> get_pubkey E seckey = Ok pubkey) \<and>
        entry \<in> set (pending_of k st) \<and> ce_members entry = members \<and> ce_secret entry = snd m \<and>
        ce_commit_id entry = cid \<and> (\<forall>e \<in> set (pending_of k st). ce_commit_id e = cid \<longrightarrow> e = entry))"

text \<open>A successful answer to \<open>/sign/commit\<close> on a session of the group, with a fresh id.\<close>

definition commits ::
  "('s::field, 'p::ab_group_add, 'z) s_externals_scheme \<Rightarrow> 's list \<Rightarrow> sgroup \<Rightarrow> u32 list \<Rightarrow>
   signer \<times> nostr_auth \<times> (nat \<Rightarrow> u64) \<times> (nat \<Rightarrow> bytes) \<Rightarrow> sign_commit_result \<Rightarrow> bool" where
  "commits E cs grp members call r \<longleftrightarrow>
     (case call of (st, auth, clk, rnd) \<Rightarrow>
        (case col_get (sv_sessions st) (na_pubkey auth) of
           None \<Rightarrow> False
         | Some s \<Rightarrow>
             sess_group s = grp \<and> on_poly E cs (share_secret E (sess_share s)) \<and>
             random_commit_id E (rnd 2) \<notin> ce_commit_id ` set (pending_of (na_pubkey auth) st) \<and>
             answers (handle_sign_commit E clk rnd auth \<lparr>scq_members = members\<rparr> st) r))"

lemma commits_committed:
  assumes "commits E cs grp members (st, auth, clk, rnd) r"
  shows "\<exists>m. committed E cs grp members (na_pubkey auth) (scr_commit_id r) (commit_item_of r) m
    (snd (handle_sign_commit E clk rnd auth \<lparr>scq_members = members\<rparr> st))"
proof -
  let ?d = "\<lparr>scq_members = members\<rparr>" and ?k = "na_pubkey auth"
  obtain s where s: "col_get (sv_sessions st) ?k = Some s" "sess_group s = grp"
    and poly: "on_poly E cs (share_secret E (sess_share s))"
    and fresh: "random_commit_id E (rnd 2) \<notin> ce_commit_id ` set (pending_of ?k st)"
    and ans: "answers (handle_sign_commit E clk rnd auth ?d st) r"
    using assms by (auto simp: commits_def split: option.splits)
  obtain resp st' where h: "handle_sign_commit E clk rnd auth ?d st = (Ok resp, st')"
    and resp: "resp_ok resp" "resp_result resp = Some r"
    using ans by (rule answersE)
  obtain res session entry where res: "resp_result resp = Some res"
    and pub: "col_get (sv_sessions st) ?k = Some session"
    "pending_of ?k st' = pending_of ?k st @ [entry]" "ce_commit_id entry = scr_commit_id res"
    "scr_commit_id res = random_commit_id E (rnd 2)" "ce_members entry = scq_members ?d"
    "item_of_secret E (ce_secret entry) (commit_item_of res)" "scr_idx res = sh_idx (sess_share session)"
    by (rule commit_published [OF h resp(1)])
  have entry: "pending_of ?k st' = pending_of ?k st @ [entry]" "ce_commit_id entry = scr_commit_id r"
    "scr_commit_id r = random_commit_id E (rnd 2)" "ce_members entry = members"
    "item_of_secret E (ce_secret entry) (commit_item_of r)" "scr_idx r = sh_idx (sess_share s)"
    using pub res resp(2) s(1) by simp_all
  from h have key: "(\<exists>seckey pubkey. decode32 E (sh_seckey (sess_share s)) = Some seckey \<and> get_pubkey E seckey = Ok pubkey) \<and>
      col_get (sv_sessions st') ?k = Some s"
  proof (cases rule: sign_commit_cases)
    case (created session seckey pkg entry st1)
    then show ?thesis using resp s
      by (cases "get_pubkey E seckey") (auto simp: mapR_val_def admitted_def elim!: check_and_record_cases)
  qed (use resp in simp)
  have "sn_idx (ce_secret entry) = sh_idx (sess_share s)"
    using entry s by (auto simp: item_of_secret_def commit_item_of_def)
  then have "honest_signer E cs (sess_share s, ce_secret entry) (commit_item_of r)"
    using entry(5) poly by (simp add: honest_signer_def)
  moreover have "\<forall>e \<in> set (pending_of ?k st). ce_commit_id e \<noteq> scr_commit_id r"
    unfolding entry(3) using fresh by (metis image_eqI)
  ultimately show ?thesis
    unfolding committed_def h
    using key s entry
    by (intro exI [of _ "(sess_share s, ce_secret entry)"] exI [of _ s] exI [of _ entry]) auto
qed

subsection \<open>The second call\<close>

lemma sign_complete_answers:
  assumes k: "k = na_pubkey auth" and committed: "committed E cs grp members k cid item m st"
    and admits: "admits clk k st"
    and request: "sci_members request = members" "verify_session_pkg E grp request"
    and pns: "pnonces_cover grp members pns" "item \<in> set pns"
    and pkg: "create_psig_pkg_with_nonce E grp request (fst m) (snd m) pns = Ok r"
  shows "answers (handle_sign_complete E clk auth
    \<lparr>sq_commit_id = cid, sq_request = request, sq_pnonces = pns\<rparr> st) r"
proof -
  obtain s entry where s: "col_get (sv_sessions st) k = Some s" "sess_group s = grp" "sess_share s = fst m"
    and honest: "honest_signer E cs m item"
    and entry: "entry \<in> set (pending_of k st)" "ce_members entry = members" "ce_secret entry = snd m"
      "ce_commit_id entry = cid" "\<forall>e \<in> set (pending_of k st). ce_commit_id e = cid \<longrightarrow> e = entry"
    using committed unfolding committed_def by blast
  obtain st1 where st1: "check_and_record_rate_limit clk k st = (True, st1)" "sess_deactivated_at s = None"
    using admits s(1) by (auto simp: admits_iff admitted_def)
  then have same: "pending_of k st1 = pending_of k st" by (auto simp: pending_of_def elim: check_and_record_cases)
  obtain e st2 where take: "take_commit cid k st1 = (e, st2)" by fastforce
  then have e: "e = Some entry"
  proof (cases rule: take_commit_cases)
    case missing
    then show ?thesis using entry(1,4) same by auto
  next
    case (taken entry')
    then have "entry' \<in> set (pending_of k st1)" by (metis set_mset_mset union_single_eq_member)
    then show ?thesis using taken(1,2) entry(5) same by auto
  qed
  obtain hp bp where nonces: "get_pubkey E (hidden_sn (snd m)) = Ok hp" "get_pubkey E (binder_sn (snd m)) = Ok bp"
    "pni_idx item = sn_idx (snd m)" "pni_hidden_pn item = hex_encode E hp" "pni_binder_pn item = hex_encode E bp"
    using honest by (auto simp: honest_signer_def item_of_secret_def)
  have "list_ex (\<lambda>pn. pni_idx pn = sn_idx (snd m) \<and> pni_hidden_pn pn = hex_encode E hp \<and>
      pni_binder_pn pn = hex_encode E bp) pns"
    using nonces(3-5) pns(2) by (auto simp: list_ex_iff)
  then show ?thesis
    using s st1 take e entry(2,3) request pns(1) nonces(1,2) pkg
    by (simp add: answers_def handle_sign_complete_def get_pubkey_compressed_def k [symmetric])
qed

subsection \<open>The round\<close>

text \<open>Whatever a signer did since: it still has the share, the group and the pending commitments.\<close>

definition undisturbed :: "string \<Rightarrow> signer \<Rightarrow> signer \<Rightarrow> bool" where
  "undisturbed k st st' \<longleftrightarrow>
     pending_of k st' = pending_of k st \<and>
     (case (col_get (sv_sessions st) k, col_get (sv_sessions st') k) of
        (Some s, Some s') \<Rightarrow> sess_share s' = sess_share s \<and> sess_group s' = sess_group s
      | _ \<Rightarrow> False)"

lemma committed_undisturbed:
  assumes "committed E cs grp members k cid item m st" and "undisturbed k st st'"
  shows "committed E cs grp members k cid item m st'"
proof -
  from assms(2) obtain s s' where s: "col_get (sv_sessions st) k = Some s" "col_get (sv_sessions st') k = Some s'"
    "sess_share s' = sess_share s" "sess_group s' = sess_group s" and p: "pending_of k st' = pending_of k st"
    by (auto simp: undisturbed_def split: option.splits)
  from assms(1) obtain s0 entry where c: "col_get (sv_sessions st) k = Some s0" "sess_group s0 = grp"
    "sess_share s0 = fst m" "honest_signer E cs m item"
    "\<exists>seckey pubkey. decode32 E (sh_seckey (fst m)) = Some seckey \<and> get_pubkey E seckey = Ok pubkey"
    "entry \<in> set (pending_of k st)" "ce_members entry = members" "ce_secret entry = snd m"
    "ce_commit_id entry = cid" "\<forall>e \<in> set (pending_of k st). ce_commit_id e = cid \<longrightarrow> e = entry"
    unfolding committed_def by blast
  have eq: "sess_group s' = grp" "sess_share s' = fst m" using c(1-3) s(1,3,4) by simp_all
  show ?thesis
    unfolding committed_def p
    by (intro exI [of _ s'] exI [of _ entry] conjI; rule s(2) eq c)
qed

text \<open>
  The two calls of a round: \<open>first_call\<close> on the state a signer starts from, \<open>second_call\<close> on a later
  state and with the id the signer answered.
\<close>

type_synonym commit_call = "signer \<times> nostr_auth \<times> (nat \<Rightarrow> u64) \<times> (nat \<Rightarrow> bytes)"

fun first_call ::
  "('s::field, 'p::ab_group_add, 'z) s_externals_scheme \<Rightarrow> u32 list \<Rightarrow> commit_call \<Rightarrow> sign_commit_response action" where
  "first_call E members (st, auth, clk, rnd) = handle_sign_commit E clk rnd auth \<lparr>scq_members = members\<rparr> st"

fun returning ::
  "commit_call \<times> sign_commit_result \<times> signer \<times> (nat \<Rightarrow> u64) \<Rightarrow> signer \<times> nostr_auth \<times> (nat \<Rightarrow> u64) \<times> string" where
  "returning ((st, auth, clk, rnd), r, st', clk') = (st', auth, clk', scr_commit_id r)"

definition second_call ::
  "('s::field, 'p::ab_group_add, 'z) s_externals_scheme \<Rightarrow> sign_complete_inner \<Rightarrow> public_nonce_item list \<Rightarrow>
   commit_call \<times> sign_commit_result \<times> signer \<times> (nat \<Rightarrow> u64) \<Rightarrow> sign_complete_response action" where
  "second_call E request pns c =
     (case returning c of (st, auth, clk, cid) \<Rightarrow>
        handle_sign_complete E clk auth \<lparr>sq_commit_id = cid, sq_request = request, sq_pnonces = pns\<rparr> st)"

lemma completes_second_call:
  "completes E cs grp request pns (returning c) r \<Longrightarrow> answers (second_call E request pns c) r"
  by (auto simp: completes_def second_call_def split: prod.splits option.splits)

fun still_ready ::
  "('s::field, 'p::ab_group_add, 'z) s_externals_scheme \<Rightarrow> u32 list \<Rightarrow> commit_call \<Rightarrow> signer \<times> (nat \<Rightarrow> u64) \<Rightarrow> bool" where
  "still_ready E members (st, auth, clk, rnd) (st', clk') \<longleftrightarrow>
     undisturbed (na_pubkey auth) (snd (first_call E members (st, auth, clk, rnd))) st' \<and>
     admits clk' (na_pubkey auth) st'"

lemma cover_distinct:
  assumes "distinct (map pni_idx pns)" and "set (map pni_idx pns) \<subseteq> set (map c_idx (g_commits grp))"
  shows "pnonces_cover grp (map pni_idx pns) pns"
proof -
  have "length (filter (\<lambda>pn. pni_idx pn = m) pns) = 1" if "m \<in> set (map pni_idx pns)" for m
    using assms(1) that
  proof (induction pns)
    case (Cons pn pns)
    then show ?case by (cases "pni_idx pn = m") (auto simp: filter_empty_conv, metis image_eqI)
  qed simp
  then show ?thesis using assms(2) by (auto simp: pnonces_cover_def list_all_iff)
qed

text \<open>The members of the round, as the list of their shares and secret nonces.\<close>

lemma round_members:
  assumes first: "list_all2 (commits E cs grp members) calls rs"
    and later: "list_all2 (still_ready E members) calls laters"
  obtains ms where "length ms = length calls"
    "\<And>i. i < length calls \<Longrightarrow> case returning (calls ! i, rs ! i, laters ! i) of (st, auth, clk, cid) \<Rightarrow>
       committed E cs grp members (na_pubkey auth) cid (commit_item_of (rs ! i)) (ms ! i) st \<and>
       admits clk (na_pubkey auth) st"
proof -
  define ready where "ready i m \<longleftrightarrow> (case returning (calls ! i, rs ! i, laters ! i) of (st, auth, clk, cid) \<Rightarrow>
       committed E cs grp members (na_pubkey auth) cid (commit_item_of (rs ! i)) m st \<and>
       admits clk (na_pubkey auth) st)" for i m
  have "\<exists>m. ready i m" if i: "i < length calls" for i
  proof -
    obtain st auth clk rnd where c: "calls ! i = (st, auth, clk, rnd)" by (cases "calls ! i")
    obtain st' clk' where l: "laters ! i = (st', clk')" by (cases "laters ! i")
    have "commits E cs grp members (st, auth, clk, rnd) (rs ! i)"
      and ready: "still_ready E members (st, auth, clk, rnd) (st', clk')"
      using first later i c l by (auto simp: list_all2_conv_all_nth)
    from commits_committed [OF this(1)] obtain m where
      "committed E cs grp members (na_pubkey auth) (scr_commit_id (rs ! i)) (commit_item_of (rs ! i)) m
        (snd (handle_sign_commit E clk rnd auth \<lparr>scq_members = members\<rparr> st))" by blast
    then show ?thesis
      using ready by (intro exI [of _ m]) (auto simp: ready_def c l intro: committed_undisturbed)
  qed
  then obtain ms where "length ms = length calls" "\<forall>i < length calls. ready i (ms ! i)"
    using Skolem_list_nth [of "length calls" ready] by auto
  then show thesis using that unfolding ready_def by blast
qed

text \<open>
  When the commitments are answered and the context they publish can be built, every signer answers
  the second call, and the answers combine.
\<close>

lemma round_completes:
  fixes E :: "('s::field, 'p::ab_group_add, 'z) s_externals_scheme"
  assumes k256: "k256_laws E" and schnorr: "schnorr_laws E" and hex: "hex_laws E"
    and pk: "decode33 E (g_group_pk grp) = Some pk" "lift_x E pk = Ok (point_mul E (point_gen E) (poly_val cs 0))"
    and first: "list_all2 (commits E cs grp (sci_members request)) calls rs"
    and later: "list_all2 (still_ready E (sci_members request)) calls laters"
    and members: "map scr_idx rs = sci_members request" "distinct (map index_to_scalar (sci_members request) :: 's list)"
      "set (sci_members request) \<subseteq> set (map c_idx (g_commits grp))"
    and ids: "verify_session_pkg E grp request"
    and ne: "calls \<noteq> []" and deg: "length cs \<le> length calls"
    and pns: "pns = map commit_item_of rs"
    and sx: "build_sighash_contexts_from_pnonces E grp request (s_compute_session_id E grp request)
      (map base_of_item pns) = Ok [sx]"
  shows "\<exists>results sig.
    list_all2 (\<lambda>c r. answers (second_call E request pns c) r) (zip calls (zip rs laters)) results \<and>
    combine_partial_sigs E (sx_ctx sx) (map (package_sig E) results) = Ok sig \<and> length sig = 64 \<and>
    (scalar_from_bytes (drop 32 sig) \<noteq> (0 :: 's) \<longrightarrow>
     verify_final_sig E (key_context (sx_ctx sx)) (sx_sighash sx) sig = Ok True)"
proof -
  let ?ms = "sci_members request" and ?zs = "zip calls (zip rs laters)"
  have len: "length rs = length calls" "length laters = length calls" "length pns = length calls"
    using list_all2_lengthD [OF first] list_all2_lengthD [OF later] pns by simp_all
  have idx: "map pni_idx pns = ?ms" using members(1) by (simp add: pns comp_def commit_item_of_def)
  obtain ms where ms: "length ms = length calls"
    "\<And>i. i < length calls \<Longrightarrow> case returning (calls ! i, rs ! i, laters ! i) of (st, auth, clk, cid) \<Rightarrow>
       committed E cs grp ?ms (na_pubkey auth) cid (commit_item_of (rs ! i)) (ms ! i) st \<and>
       admits clk (na_pubkey auth) st"
    by (rule round_members [OF first later]) (rule that)
  have "honest_signer E cs (ms ! i) (pns ! i)" if i: "i < length calls" for i
    using ms(2) [OF i] i len by (auto simp: committed_def pns split: prod.splits)
  then have honest: "list_all2 (honest_signer E cs) ms pns"
    using ms(1) len by (simp add: list_all2_conv_all_nth)
  have dist: "distinct (map (index_to_scalar \<circ> pni_idx) pns :: 's list)"
    using members(2) idx by (metis map_map)
  have ms_ne: "ms \<noteq> []" "length cs \<le> length ms" using ne deg ms(1) by auto
  have cover: "pnonces_cover grp ?ms pns"
    using cover_distinct [of pns grp] members(2,3) idx by (simp add: distinct_map)
  define good where "good i r \<longleftrightarrow>
      completes E cs grp request pns (returning (?zs ! i)) r \<and> sr_idx r = pni_idx (pns ! i)" for i r
  have "\<exists>r. good i r" if i: "i < length calls" for i
  proof -
    obtain st auth clk cid where p: "returning (calls ! i, rs ! i, laters ! i) = (st, auth, clk, cid)"
      by (cases "returning (calls ! i, rs ! i, laters ! i)")
    then have committed: "committed E cs grp ?ms (na_pubkey auth) cid (pns ! i) (ms ! i) st"
      and adm: "admits clk (na_pubkey auth) st"
      using ms(2) [OF i] i len by (simp_all add: pns)
    then obtain seckey pubkey where sk: "decode32 E (sh_seckey (fst (ms ! i))) = Some seckey"
      "get_pubkey E seckey = Ok pubkey" and h: "honest_signer E cs (ms ! i) (pns ! i)"
      by (auto simp: committed_def)
    have mem: "ms ! i \<in> set ms" "pns ! i \<in> set pns" using i ms(1) len by simp_all
    from package_exists [OF k256 hex pk honest dist ms_ne sx mem(1) sk]
    obtain r where r: "create_psig_pkg_with_nonce E grp request (fst (ms ! i)) (snd (ms ! i)) pns = Ok r"
      "sr_idx r = sh_idx (fst (ms ! i))" by blast
    from sign_complete_answers [OF refl committed adm refl ids cover mem(2) r(1)]
    show ?thesis
      using r(2) committed h i len
      by (intro exI [of _ r])
        (auto simp: good_def p completes_def committed_def honest_signer_def item_of_secret_def)
  qed
  then obtain results where results: "length results = length calls" "\<forall>i < length calls. good i (results ! i)"
    using Skolem_list_nth [of "length calls" good] by auto
  have all: "list_all2 (\<lambda>c r. completes E cs grp request pns (returning c) r) ?zs results"
    using results len by (simp add: list_all2_conv_all_nth good_def)
  then have "list_all2 (completes E cs grp request pns) (map returning ?zs) results"
    by (simp add: list_all2_map1)
  moreover have "list_all2 (\<lambda>c r. answers (second_call E request pns c) r) ?zs results"
    using all by (rule list_all2_mono) (rule completes_second_call)
  moreover have "map sr_idx results = map pni_idx pns"
    using results len by (simp add: list_eq_iff_nth_eq good_def)
  ultimately show ?thesis
    using completed_combine [OF k256 schnorr hex pk _ _ dist, of request "map returning ?zs" results]
      sx ne deg len by force
qed

subsection \<open>A key agreement\<close>

lemma point_mul_nonzero:
  assumes "k256_laws E" and "P \<noteq> 0" and "a \<noteq> 0"
  shows "point_mul E P a \<noteq> 0"
proof
  assume "point_mul E P a = 0"
  then have "point_mul E (point_mul E P a) (inverse a) = 0" using point_mul_zero_left [OF assms(1)] by simp
  then show False using assms point_mul_assoc [OF assms(1)] point_mul_one [OF assms(1)] by simp
qed

lemma ecdh_coeff_nonzero:
  fixes E :: "('s::field, 'p::ab_group_add, 'z) s_externals_scheme"
  assumes "distinct (map index_to_scalar members :: 's list)"
    and "0 \<notin> set (map index_to_scalar members :: 's list)"
    and "ss_idx s \<in> set members" and "share_scalar E s \<noteq> 0"
  shows "ecdh_coeff E members s \<noteq> 0"
proof -
  have "index_to_scalar (ss_idx s) \<in> set (map index_to_scalar members :: 's list)" using assms(3) by simp
  from calc.coeff_ok [OF assms(1) this] show ?thesis
    using assms(2,4) by (auto simp: ecdh_coeff_def lagrange_basis_def prod_zero_iff)
qed

text \<open>A signer whose active session has a share of the group, with index \<open>i\<close> and not zero.\<close>

definition holds_share ::
  "('s::field, 'p::ab_group_add, 'z) s_externals_scheme \<Rightarrow> 's list \<Rightarrow> signer \<times> nostr_auth \<times> (nat \<Rightarrow> u64) \<times> u32 \<Rightarrow>
   u32 \<Rightarrow> bool" where
  "holds_share E cs party i \<longleftrightarrow>
     (case party of (st, auth, clk, n) \<Rightarrow>
        (case col_get (sv_sessions st) (na_pubkey auth) of
           None \<Rightarrow> False
         | Some s \<Rightarrow>
             admits clk (na_pubkey auth) st \<and> sh_idx (sess_share s) = i \<and>
             decode32 E (sh_seckey (sess_share s)) \<noteq> None \<and>
             on_poly E cs (share_secret E (sess_share s)) \<and> share_scalar E (share_secret E (sess_share s)) \<noteq> 0))"

lemma holds_share_answers:
  fixes E :: "('s::field, 'p::ab_group_add, 'z) s_externals_scheme"
  assumes k256: "k256_laws E"
    and peer: "decode32 E peer = Some pk" "lift_x E pk = Ok P" "P \<noteq> 0" "peer \<noteq> GENERATOR_X"
    and members: "distinct (map index_to_scalar members :: 's list)"
      "0 \<notin> set (map index_to_scalar members :: 's list)" "i \<in> set members"
    and party: "holds_share E cs party i"
  shows "\<exists>r. ecdh_answers E cs members peer party r \<and> er_idx r = i"
proof -
  obtain st auth clk n where p: "party = (st, auth, clk, n)" by (cases party)
  let ?d = "\<lparr>eq_idx = n, eq_members = members, eq_ecdh_pk = peer\<rparr>"
  obtain s where s: "col_get (sv_sessions st) (na_pubkey auth) = Some s" "sh_idx (sess_share s) = i"
    and adm: "admits clk (na_pubkey auth) st"
    and dec: "decode32 E (sh_seckey (sess_share s)) \<noteq> None"
    and share: "on_poly E cs (share_secret E (sess_share s))" "share_scalar E (share_secret E (sess_share s)) \<noteq> 0"
    using party by (auto simp: holds_share_def p split: option.splits)
  obtain seckey where sk: "decode32 E (sh_seckey (sess_share s)) = Some seckey" using dec by blast
  let ?sec = "share_secret E (sess_share s)"
  have sec: "?sec = \<lparr>ss_idx = i, ss_seckey = seckey\<rparr>" by (simp add: share_secret_def sk s(2))
  have mem: "ss_idx ?sec \<in> set members" using members(3) by (simp add: sec)
  obtain k where k: "create_ecdh_share E members ?sec pk = Ok k" "ps_idx k = i"
    using create_ecdh_share_eq [OF k256 members(1) mem peer(2)]
      point_mul_nonzero [OF k256 peer(3) ecdh_coeff_nonzero [OF members(1,2) mem share(2)]]
    by (simp add: sec)
  let ?r = "\<lparr>er_idx = i, er_keyshare = encode33 E (ps_pubkey k), er_members = members, er_ecdh_pk = peer\<rparr>"
  have pkg: "s_create_ecdh_pkg E ?d (sess_share s) = Ok ?r"
    using k peer(1,4) sk s(2) by (simp add: s_create_ecdh_pkg_def ok_or_def sec)
  obtain st1 where "check_and_record_rate_limit clk (na_pubkey auth) st = (True, st1)"
    "sess_deactivated_at s = None"
    using adm s(1) by (auto simp: admits_iff admitted_def)
  then have "answers (handle_ecdh E clk auth ?d st) ?r"
    using s(1) pkg peer(4) by (simp add: answers_def handle_ecdh_def)
  then show ?thesis
    using s(1) share(1) by (intro exI [of _ ?r]) (simp add: ecdh_answers_def p)
qed

lemma agreement_completes:
  fixes E :: "('s::field, 'p::ab_group_add, 'z) s_externals_scheme"
  assumes k256: "k256_laws E" and hex: "hex_laws E"
    and peer: "decode32 E peer = Some pk" "lift_x E pk = Ok P" "P \<noteq> 0" "peer \<noteq> GENERATOR_X"
    and members: "distinct (map index_to_scalar members :: 's list)"
      "0 \<notin> set (map index_to_scalar members :: 's list)"
    and parties: "list_all2 (holds_share E cs) parties members"
    and ne: "parties \<noteq> []" and deg: "length cs \<le> length parties"
  shows "\<exists>results. list_all2 (ecdh_answers E cs members peer) parties results \<and>
    derive_ecdh_secret E (map (keyshare_of E) results) =
      serialize_element E (point_mul E P (poly_val cs 0))"
proof -
  have len: "length members = length parties" using list_all2_lengthD [OF parties] by simp
  have "\<exists>r. ecdh_answers E cs members peer (parties ! n) r \<and> er_idx r = members ! n"
    if n: "n < length parties" for n
  proof (rule holds_share_answers [OF k256 peer members])
    show "members ! n \<in> set members" using n len by simp
    show "holds_share E cs (parties ! n) (members ! n)" using parties n by (simp add: list_all2_conv_all_nth)
  qed
  then obtain results where results: "length results = length parties"
    "\<forall>n < length parties. ecdh_answers E cs members peer (parties ! n) (results ! n) \<and>
       er_idx (results ! n) = members ! n"
    using Skolem_list_nth [of "length parties"
        "\<lambda>n r. ecdh_answers E cs members peer (parties ! n) r \<and> er_idx r = members ! n"] by auto
  then have all: "list_all2 (ecdh_answers E cs members peer) parties results"
    and idx: "map er_idx results = members"
    using len by (simp_all add: list_all2_conv_all_nth list_eq_iff_nth_eq)
  from ecdh_combine [OF k256 hex peer(1,2) all idx members(1) ne deg] all show ?thesis by blast
qed

end
