(* ===== verification/Signer_History.thy ===== *)
theory Signer_History
  imports Signer_Example Server Storage_Example Signer_Rounds
begin

text \<open>
  A server started with a mail provider, and its history at the instance of \<open>Signer_Example\<close>.  The two signers hold the shares 4 and 5 of
  the polynomial \<open>3 + x\<close>; the group key is 3 times the generator.
\<close>

definition commit8 :: "u32 \<Rightarrow> gf7 \<Rightarrow> commit_item" where
  "commit8 i p = \<lparr>c_idx = i, c_pubkey = hx (encode7 p), c_hidden_pn = hx (encode7 GF3),
     c_binder_pn = hx (encode7 GF3)\<rparr>"

definition grp8 :: sgroup where
  "grp8 = \<lparr>g_commits = [commit8 1 GF4, commit8 2 GF5], g_group_pk = hx (encode7 GF3), g_threshold = 2\<rparr>"

definition sshare8 :: "u32 \<Rightarrow> nat \<Rightarrow> sshare" where
  "sshare8 i n = \<lparr>sh_idx = i, sh_seckey = hx (num7 n)\<rparr>"

definition key_a :: string where "key_a = replicate 64 (CHR ''a'')"
definition key_b :: string where "key_b = replicate 64 (CHR ''b'')"

lemma keys8 [simp]: "key_a \<noteq> key_b" "key_b \<noteq> key_a" "hex32_valid key_a" "hex32_valid key_b"
proof -
  have "hd key_a \<noteq> hd key_b" by (simp add: key_a_def key_b_def)
  then show "key_a \<noteq> key_b" "key_b \<noteq> key_a" by auto
qed (simp_all add: key_a_def key_b_def hex32_valid_iff list_all_iff is_ascii_hexdigit_def)

definition auth8 :: "string \<Rightarrow> nostr_auth" where
  "auth8 k = \<lparr>na_pubkey = k, na_event_id = num7 0\<rparr>"

lemma auth8_sel [simp]: "na_pubkey (auth8 k) = k" "na_event_id (auth8 k) = num7 0"
  by (simp_all add: auth8_def)

definition clk8 :: "nat \<Rightarrow> u64" where "clk8 = (\<lambda>_. 1000000)"
definition rnd8 :: "nat \<Rightarrow> bytes" where "rnd8 = (\<lambda>_. num7 0)"

definition opts8 :: signer_options where
  "opts8 = \<lparr>opt_url = ''https://signer'', opt_register_pow = 16, opt_argon_m = 65536, opt_from_email = ''noreply'',
     opt_from_name = ''Signer'', opt_mailer = Some (Postmark ''token''), opt_test_mode = False\<rparr>"

definition platform8 :: "unit platform" where
  "platform8 = \<lparr>pf_env = [''POMADE_SECRET'' \<mapsto> ''secret'', ''POSTMARK_API_TOKEN'' \<mapsto> ''token''],
     pf_sha = (\<lambda>bs. num7 0), pf_aead = aead8, pf_db_opens = (\<lambda>_. True), pf_client_builds = True,
     pf_binds = (\<lambda>_. True)\<rparr>"

definition args8 :: args where
  "args8 = \<lparr>ag_url = ''https://signer'', ag_port = 3000, ag_db = ''./signer-db'', ag_mail_provider = Some ''postmark'',
     ag_mail_from_email = ''noreply'', ag_mail_from_name = ''Signer''\<rparr>"

lemma url8 [simp]: "str_bytes (opt_url opts8) = str_bytes ''https://signer''" "8 \<le> length (str_bytes ''https://signer'')"
  by (simp_all add: opts8_def str_bytes_def)

lemma start8: "server_start platform8 args8 = Ok (opts8, Some ())"
  by (simp add: server_start_def platform8_def args8_def opts8_def require_env_def build_mailer_def
      sled_open_encrypted_def aead8_def Let_def)

lemma pow8 [simp]: "16 \<le> get_pow (num7 0)"
proof -
  have "unat (get_pow (num7 0)) = leading_zeros 256 0"
    using unat_get_pow [of "num7 0"] by (simp add: be_nat_num7)
  then have "unat (get_pow (num7 0)) = 256" by (simp add: leading_zeros_zero)
  then show ?thesis by (simp add: word_le_nat_alt)
qed

subsection \<open>Registration\<close>

definition register8 :: "u32 \<Rightarrow> nat \<Rightarrow> register_request" where
  "register8 i n = \<lparr>rq_share = sshare8 i n, rq_group = grp8, rq_recovery = True\<rparr>"

definition sess8 :: "u32 \<Rightarrow> nat \<Rightarrow> signer_session" where
  "sess8 i n = new_session key_a (sshare8 i n) grp8 True 1000000 1000000"

definition registered8 :: "u32 \<Rightarrow> nat \<Rightarrow> signer" where
  "registered8 i n = (signer_open opts8)\<lparr>sv_sessions := [(key_a, sess8 i n)]\<rparr>"

lemma valid8: "sgroup_valid grp8" "sshare_valid (sshare8 i n)" "register_request_valid (register8 i n)"
  by (simp_all add: sgroup_valid_def grp8_def bounded_vec_valid_iff commit_item_valid_def commit8_def
      sshare_valid_def sshare8_def register_request_valid_def register8_def MAX_COMMITS_def eval7)

lemma member8:
  "s_is_group_member ext8 grp8 (sshare8 1 4) = Ok True"
  "s_is_group_member ext8 grp8 (sshare8 2 5) = Ok True"
  by (simp_all add: s_is_group_member_def sshare8_def grp8_def commit8_def eval8 eval7)

lemma do_register8:
  assumes "s_is_group_member ext8 grp8 (sshare8 i n) = Ok True" and "i = 1 \<or> i = 2"
  shows "handle_register ext8 clk8 (auth8 key_a) (register8 i n) (signer_open opts8) =
    (Ok (respond True ''Your key has been registered'' ()), registered8 i n)"
  using assms pow8
  by (auto simp: handle_register_def register8_def Let_def check_key_reuse_def signer_open_def opts8_def
      grp8_def commit8_def sshare8_def registered8_def sess8_def add_session_def new_session_def clk8_def
      not_le [symmetric])

subsection \<open>A signature\<close>

definition bucket8 :: "u32 \<Rightarrow> rate_limit_bucket" where
  "bucket8 n = \<lparr>b_attempts = n, b_first_attempt = 1000000, b_last_attempt = 1000000\<rparr>"

definition cid8 :: string where "cid8 = hx (num7 0)"

definition secret8 :: "u32 \<Rightarrow> secret_nonce" where
  "secret8 i = \<lparr>sn_idx = i, binder_sn = num7 2, hidden_sn = num7 2\<rparr>"

definition entry8 :: "u32 \<Rightarrow> commit_entry" where
  "entry8 i = \<lparr>ce_commit_id = cid8, ce_members = [1, 2], ce_secret = secret8 i, ce_created_at = 1000000\<rparr>"

definition committed8 :: "u32 \<Rightarrow> nat \<Rightarrow> signer" where
  "committed8 i n = (registered8 i n)\<lparr>sv_rate_limit_by_client := [(key_a, bucket8 1)],
     sv_commits_by_client := [key_a \<mapsto> [entry8 i]]\<rparr>"

definition commit_result8 :: "u32 \<Rightarrow> nat \<Rightarrow> sign_commit_result" where
  "commit_result8 i n = \<lparr>scr_commit_id = cid8, scr_idx = i, scr_pubkey = hx (encode7 (of7 n)),
     scr_hidden_pn = hx (encode7 GF2), scr_binder_pn = hx (encode7 GF2)\<rparr>"

lemma registered8_sel [simp]:
  "sv_sessions (registered8 i n) = [(key_a, sess8 i n)]" "sv_rate_limit_by_client (registered8 i n) = []"
  "sv_commits_by_client (registered8 i n) = Map.empty" "sv_options (registered8 i n) = opts8"
  "sv_recoveries (registered8 i n) = []" "sv_logins (registered8 i n) = []"
  "sv_sessions_by_email_hash (registered8 i n) = []"
  by (simp_all add: registered8_def signer_open_def)

lemma sess8_sel [simp]:
  "sess_deactivated_at (sess8 i n) = None" "sess_share (sess8 i n) = sshare8 i n"
  "sess_group (sess8 i n) = grp8" "sess_email (sess8 i n) = None" "sess_recovery (sess8 i n) = True"
  "sess_created_at (sess8 i n) = 1000000"
  by (simp_all add: sess8_def new_session_def)

lemma sshare8_sel [simp]: "sh_idx (sshare8 i n) = i" "sh_seckey (sshare8 i n) = hx (num7 n)"
  by (simp_all add: sshare8_def)

lemma do_commit8:
  assumes "i = 1 \<or> i = 2" and "n < 256" "of7 n \<noteq> GF0"
  shows "handle_sign_commit ext8 clk8 rnd8 (auth8 key_a) \<lparr>scq_members = [1, 2]\<rparr> (registered8 i n) =
    (Ok (respond True ''Commitment created'' (Some (commit_result8 i n))), committed8 i n)"
proof -
  have pkg: "create_commit_pkg ext8 \<lparr>ss_idx = i, ss_seckey = num7 n\<rparr> None None (num7 0) (num7 0) =
      Ok \<lparr>cp_idx = i, cp_binder_sn = num7 2, cp_hidden_sn = num7 2, cp_binder_pn = encode7 GF2,
          cp_hidden_pn = encode7 GF2\<rparr>"
    by (simp add: create_commit_pkg_def Let_def eval8 eval7)
  show ?thesis
    using assms
    by (auto simp: handle_sign_commit_def check_and_record_rate_limit_def is_rate_limited_def
        record_attempt_def Let_def col_get_def clk8_def rnd8_def pkg get_pubkey_compressed_def
        random_commit_id_def committed8_def entry8_def cid8_def secret8_def bucket8_def
        commit_result8_def cp_secret_nonce_def eval8)
qed

definition pns8 :: "public_nonce_item list" where
  "pns8 = [commit_item_of (commit_result8 1 4), commit_item_of (commit_result8 2 5)]"

definition request8 :: sign_complete_inner where
  "request8 = \<lparr>sci_content = None, sci_hash = [hx (num7 3)], sci_members = [1, 2], sci_stamp = 0,
     sci_kind = [], sci_gid = hx (num7 5), sci_sid = hx (num7 2)\<rparr>"

lemma sha7_length [eval8]: "sha7 m = num7 (Suc (length m mod 5))"
  by (rule sha7_num7)

lemma group_id8: "s_compute_group_id ext8 grp8 = num7 5"
  by (simp add: s_compute_group_id_def grp8_def commit8_def Let_def eval8 eval7)

lemma session_id8: "s_compute_session_id ext8 grp8 request8 = num7 2"
  by (simp add: s_compute_session_id_def request8_def group_id8 num_to_bytes_be_varwidth_def
      str_bytes_def numeral_2_eq_2 [symmetric] Let_def eval8)

lemma verify8: "verify_session_pkg ext8 grp8 request8"
  by (simp add: verify_session_pkg_def group_id8 session_id8 Let_def ext8_signer) (simp add: request8_def)

definition pnonce8 :: "u32 \<Rightarrow> public_nonce" where
  "pnonce8 i = \<lparr>pn_idx = i, binder_pn = encode7 GF6, hidden_pn = encode7 GF6\<rparr>"

lemma binder8: "get_sighash_binder ext8 (num7 2) i [hx (num7 3)] = num7 4"
  by (simp add: get_sighash_binder_def eval8)

lemma tweak8:
  "tweak_pnonce ext8 i (hx (encode7 GF2)) (hx (encode7 GF2)) (num7 2) [hx (num7 3)] = Ok (pnonce8 i)"
  by (simp add: tweak_pnonce_def Let_def binder8 tweak_pubkey_def scalar_from_num7 scalar_base_multi_def
      ok_or_def pnonce8_def eval8 eval7 gf7_ground)

definition ctx8 :: "(gf7, gf7) group_signing_ctx" where
  "ctx8 = ok_val (get_group_signing_ctx ext8 (encode7 GF3) [pnonce8 1, pnonce8 2] (num7 3) [])"

lemma ctx8_parts:
  "get_group_signing_ctx ext8 (encode7 GF3) [pnonce8 1, pnonce8 2] (num7 3) [] = Ok ctx8"
  "ctx_group_pt ctx8 = \<lparr>st_parity = GF1, st_point = GF3, st_state = GF1, st_tweak = GF0\<rparr>"
  "ctx_group_pk ctx8 = encode7 GF3" "ctx_challenge ctx8 = GF1" "ctx_group_pn ctx8 = encode7 GF1"
  "ctx_indexes ctx8 = [1, 2]" "ctx_pnonces ctx8 = [pnonce8 1, pnonce8 2]" "ctx_message ctx8 = num7 3"
  "ctx_bind_factors ctx8 = [\<lparr>bf_idx = 1, bf_factor = num7 2\<rparr>, \<lparr>bf_idx = 2, bf_factor = num7 2\<rparr>]"
  by (simp_all add: ctx8_def get_group_signing_ctx_def get_group_key_context_def
      get_point_state_def point_state_step_def get_group_commit_context_def get_group_binders_def
      get_group_pubnonce_def pubnonce_step_def get_bind_factor_def ok_or_def get_nonce_ids_def
      get_challenge_def convert_pubkey_to_bip340_def assert_ok_def hash340_def taghash_def Let_def
      scalar_base_multi_def scalar_multi_def negate_point_def pnonce8_def eval8 eval7 gf7_ground)

lemma contexts8:
  "build_sighash_contexts_from_pnonces ext8 grp8 request8 (num7 2) (map base_of_item pns8) =
   Ok [\<lparr>sx_sighash = num7 3, sx_ctx = ctx8\<rparr>]"
  by (simp add: build_contexts_eq_Ok request8_def pns8_def commit_item_of_def commit_result8_def
      base_of_item_def tweak8 ctx8_parts grp8_def eval8 eval7)

definition result8 :: "u32 \<Rightarrow> nat \<Rightarrow> nat \<Rightarrow> sign_complete_result" where
  "result8 i n ps = \<lparr>sr_idx = i, sr_psig = (hx (num7 3), hx (num7 ps)),
     sr_pubkey = hx (encode7 (of7 n)), sr_sid = hx (num7 2)\<rparr>"

lemma secret_tweak8:
  "tweak_secret_nonce ext8 (secret8 i) (num7 2) [hx (num7 3)] =
   \<lparr>sn_idx = i, binder_sn = num7 6, hidden_sn = num7 6\<rparr>"
  by (simp add: tweak_secret_nonce_def secret8_def Let_def binder8 eval8)

lemma sign_msg8:
  "sign_msg ext8 ctx8 \<lparr>ss_idx = 1, ss_seckey = num7 4\<rparr> \<lparr>sn_idx = 1, binder_sn = num7 6, hidden_sn = num7 6\<rparr> =
   Ok \<lparr>sg_idx = 1, sg_pubkey = encode7 GF4, sg_psig = num7 5\<rparr>"
  "sign_msg ext8 ctx8 \<lparr>ss_idx = 2, ss_seckey = num7 5\<rparr> \<lparr>sn_idx = 2, binder_sn = num7 6, hidden_sn = num7 6\<rparr> =
   Ok \<lparr>sg_idx = 2, sg_pubkey = encode7 GF5, sg_psig = num7 6\<rparr>"
  by (simp_all add: sign_msg_def ctx8_parts get_bind_factor_def ok_or_def interpolate_x_def
      is_included_def is_unique_set_def scalar_invert_def Let_def eval8 eval7 gf7_ground)

lemma psig_pkg8:
  "create_psig_pkg_with_nonce ext8 grp8 request8 (sshare8 1 4) (secret8 1) pns8 = Ok (result8 1 4 5)"
  "create_psig_pkg_with_nonce ext8 grp8 request8 (sshare8 2 5) (secret8 2) pns8 = Ok (result8 2 5 6)"
  unfolding create_psig_eq_Ok session_id8 contexts8
  by (simp_all add: secret_tweak8 request8_def sign_msg8 result8_def eval8 eval7)

definition complete8 :: sign_complete_request where
  "complete8 = \<lparr>sq_commit_id = cid8, sq_request = request8, sq_pnonces = pns8\<rparr>"

definition completed8 :: "u32 \<Rightarrow> nat \<Rightarrow> signer" where
  "completed8 i n = (registered8 i n)\<lparr>sv_rate_limit_by_client := [(key_a, bucket8 2)]\<rparr>"

lemma committed8_sel [simp]:
  "sv_sessions (committed8 i n) = [(key_a, sess8 i n)]"
  "sv_rate_limit_by_client (committed8 i n) = [(key_a, bucket8 1)]"
  "sv_commits_by_client (committed8 i n) = [key_a \<mapsto> [entry8 i]]"
  by (simp_all add: committed8_def)

lemma touch8: "sess8 i n\<lparr>sess_last_activity := 1000000\<rparr> = sess8 i n"
  by (simp add: sess8_def new_session_def)

lemma cover8: "pnonces_cover grp8 [1, 2] pns8"
  by (simp add: pnonces_cover_def grp8_def commit8_def pns8_def commit_item_of_def commit_result8_def)

lemma do_complete8:
  assumes "create_psig_pkg_with_nonce ext8 grp8 request8 (sshare8 i n) (secret8 i) pns8 = Ok r"
    and "i = 1 \<or> i = 2"
  shows "handle_sign_complete ext8 clk8 (auth8 key_a) complete8 (committed8 i n) =
    (Ok (respond True ''Successfully signed event'' (Some r)), completed8 i n)"
proof -
  have "\<not> (500 :: u32) \<le> 1" by (simp add: word_le_nat_alt)
  then have rl: "check_and_record_rate_limit clk8 key_a (committed8 i n) =
      (True, (committed8 i n)\<lparr>sv_rate_limit_by_client := [(key_a, bucket8 2)]\<rparr>)"
    by (simp add: check_and_record_rate_limit_def is_rate_limited_def record_attempt_def Let_def
        col_get_def clk8_def bucket8_def CLIENT_RATE_LIMITS_def saturating_sub_def)
  have take: "take_commit cid8 key_a ((committed8 i n)\<lparr>sv_rate_limit_by_client := b\<rparr>) =
      (Some (entry8 i), (registered8 i n)\<lparr>sv_rate_limit_by_client := b\<rparr>)" for b
    by (simp add: take_commit_def swap_remove_def entry8_def ct_str_eq_iff committed8_def registered8_def
        signer_open_def fun_upd_idem)
  have own: "list_ex (\<lambda>pn. pni_idx pn = i \<and> pni_hidden_pn pn = hx (encode7 GF2) \<and>
      pni_binder_pn pn = hx (encode7 GF2)) pns8"
    using assms(2) by (auto simp: pns8_def commit_item_of_def commit_result8_def)
  show ?thesis
    using own
    by (simp add: handle_sign_complete_def col_get_def rl [unfolded clk8_def] complete8_def take entry8_def request8_def
        cover8 secret8_def get_pubkey_compressed_def verify8 [unfolded request8_def]
        assms(1) [unfolded request8_def secret8_def] completed8_def touch_session_def clk8_def touch8
        eval8 eval7)
qed

subsection \<open>A key agreement\<close>

definition peer8 :: string where "peer8 = hx (num7 2)"

definition ecdh_request8 :: "u32 \<Rightarrow> ecdh_request" where
  "ecdh_request8 i = \<lparr>eq_idx = i, eq_members = [1, 2], eq_ecdh_pk = peer8\<rparr>"

definition ecdh_result8 :: "u32 \<Rightarrow> gf7 \<Rightarrow> ecdh_result" where
  "ecdh_result8 i p = \<lparr>er_idx = i, er_keyshare = hx (encode7 p), er_members = [1, 2], er_ecdh_pk = peer8\<rparr>"

lemma peer8_other: "peer8 \<noteq> GENERATOR_X"
proof -
  have "num7 2 = 0 # be_bytes 31 2"
    using be_bytes_add [of 1 31 2] by (simp add: num7_def)
  then have "hd peer8 = CHR ''0''"
    by (simp add: peer8_def hx_def hex_byte_def hexdigits_def)
  moreover have "hd GENERATOR_X = CHR ''7''" by (simp add: GENERATOR_X_def)
  ultimately have "hd peer8 \<noteq> hd GENERATOR_X" by simp
  then show ?thesis by auto
qed

lemma lift_peer8: "lift_x ext8 (num7 2) = Ok GF2"
  by (simp add: lift_x_def ext8_base decode7_def ok_or_def eval7)

lemma ecdh_share8:
  "create_ecdh_share ext8 [1, 2] \<lparr>ss_idx = 1, ss_seckey = num7 4\<rparr> (num7 2) =
   Ok \<lparr>ps_idx = 1, ps_pubkey = encode7 GF2\<rparr>"
  "create_ecdh_share ext8 [1, 2] \<lparr>ss_idx = 2, ss_seckey = num7 5\<rparr> (num7 2) =
   Ok \<lparr>ps_idx = 2, ps_pubkey = encode7 GF4\<rparr>"
  by (simp_all add: create_ecdh_share_def lift_peer8 calc_lagrange_coeff_def scalar_multi_def
      scalar_invert_def is_unique_set_def Let_def eval8 eval7 gf7_ground)

lemma ecdh_pkg8:
  "s_create_ecdh_pkg ext8 (ecdh_request8 k) (sshare8 1 4) = Ok (ecdh_result8 1 GF2)"
  "s_create_ecdh_pkg ext8 (ecdh_request8 k) (sshare8 2 5) = Ok (ecdh_result8 2 GF4)"
  using peer8_other
  by (simp_all add: s_create_ecdh_pkg_def ecdh_request8_def ecdh_share8 ecdh_result8_def Let_def
      eval8) (simp_all add: peer8_def ok_or_def eval8 ecdh_share8)

lemma do_ecdh8:
  assumes "s_create_ecdh_pkg ext8 (ecdh_request8 k) (sshare8 i n) = Ok r"
  shows "fst (handle_ecdh ext8 clk8 (auth8 key_a) (ecdh_request8 k) (registered8 i n)) =
    Ok (respond True ''Successfully derived shared secret'' (Some r))"
  using assms peer8_other
  by (simp add: handle_ecdh_def col_get_def check_and_record_rate_limit_def is_rate_limited_def Let_def)
    (simp add: ecdh_request8_def)

subsection \<open>Recovery and login\<close>

definition pw8 :: string where "pw8 = replicate 64 (CHR ''c'')"
definition mail8 :: string where "mail8 = ''a@b.c''"
definition hash8 :: string where "hash8 = hx (num7 9)"

definition owner8 :: signer_session where
  "owner8 = (sess8 1 4)\<lparr>sess_email := Some mail8, sess_email_hash := Some hash8,
     sess_password_hash := Some pw8\<rparr>"

definition setup8 :: signer where
  "setup8 = (signer_open opts8)\<lparr>sv_sessions := [(key_a, owner8)],
     sv_sessions_by_email_hash := [(hash8, \<lparr>ix_clients = [key_a]\<rparr>)]\<rparr>"

lemma do_setup8:
  "handle_recovery_setup ext8 clk8 (auth8 key_a) \<lparr>rsq_email = mail8, rsq_password_hash = pw8\<rparr>
     (registered8 1 4) = (Ok (respond True ''Recovery method successfully initialized.'' ()), setup8)"
proof -
  have "regex_is_hex64 pw8" by (simp add: regex_is_hex64_def pw8_def list_all_iff)
  then show ?thesis
    by (simp add: handle_recovery_setup_def col_get_def hash_email_def ext8_signer clk8_def
        saturating_sub_def MINUTE_SECS_def add_session_def Let_def setup8_def owner8_def hash8_def
        registered8_def signer_open_def sess8_def new_session_def)
qed

lemma setup8_sel [simp]:
  "sv_sessions setup8 = [(key_a, owner8)]" "sv_recoveries setup8 = []" "sv_logins setup8 = []"
  "sv_sessions_by_email_hash setup8 = [(hash8, \<lparr>ix_clients = [key_a]\<rparr>)]"
  "sv_rate_limit_by_email_hash setup8 = []" "sv_challenges setup8 = []" "sv_options setup8 = opts8"
  "sv_outbox setup8 = []"
  by (simp_all add: setup8_def signer_open_def)

definition password8 :: auth where
  "password8 = Password \<lparr>pa_email_hash = hash8, pa_password_hash = pw8\<rparr>"

lemma authenticated8: "get_authenticated_sessions ext8 clk8 password8 setup8 = (Ok [owner8], setup8)"
  by (simp add: get_authenticated_sessions_def password8_def is_rate_limited_def col_get_def
      map_filter_simps owner8_def ct_str_eq_iff)

lemma owner8_sel [simp]: "sess_client owner8 = key_a" "sess_share owner8 = sshare8 1 4"
  "sess_group owner8 = grp8" "sess_deactivated_at owner8 = None"
  by (simp_all add: owner8_def sess8_def new_session_def)

lemma group_key8: "str_from (g_group_pk grp8) 2 = Ok (drop 2 (hx (encode7 GF3)))"
  by (simp add: grp8_def str_from_hex eval7)

definition recovering8 :: signer where
  "recovering8 = setup8\<lparr>sv_recoveries := [(key_b, \<lparr>srec_created_at = 1000000, srec_clients = [key_a]\<rparr>)]\<rparr>"

definition logging_in8 :: signer where
  "logging_in8 = setup8\<lparr>sv_logins := [(key_b, \<lparr>slog_created_at = 1000000, slog_clients = [key_a]\<rparr>)]\<rparr>"

definition items8 :: "session_item list" where
  "items8 = [ok_val (make_session_item owner8)]"

lemma items8: "make_session_item owner8 = Ok (hd items8)"
  by (simp add: items8_def make_session_item_def group_key8)

lemma fresh8: "check_key_reuse key_b setup8 = False"
  by (simp add: check_key_reuse_def col_get_def)

lemma do_recovery_start8:
  "handle_recovery_start ext8 clk8 (auth8 key_b) \<lparr>rtq_auth = password8\<rparr> setup8 =
   (Ok (respond True ''Successfully retrieved recovery options.'' (Some items8)), recovering8)"
  by (simp add: handle_recovery_start_def fresh8 authenticated8 [unfolded clk8_def] items8 recovering8_def clk8_def Let_def)
    (simp add: items8_def)

lemma do_login_start8:
  "handle_login_start ext8 clk8 (auth8 key_b) \<lparr>lsq_auth = password8\<rparr> setup8 =
   (Ok (respond True ''Successfully retrieved login options.'' (Some items8)), logging_in8)"
  by (simp add: handle_login_start_def fresh8 authenticated8 [unfolded clk8_def] items8 logging_in8_def clk8_def Let_def)
    (simp add: items8_def)

lemma do_recovery_select8:
  "handle_recovery_select (auth8 key_b) \<lparr>clq_client = key_a\<rparr> recovering8 =
   (Ok (respond True ''Recovery successfully completed.'' (Some (sshare8 1 4), Some grp8)), setup8)"
  by (simp add: handle_recovery_select_def recovering8_def col_get_def col_delete_def)

lemma do_login_select8:
  "fst (handle_login_select clk8 (auth8 key_b) \<lparr>clq_client = key_a\<rparr> logging_in8) =
   Ok (respond True ''Login successfully completed.'' (Some grp8))"
  by (simp add: handle_login_select_def logging_in8_def col_get_def)

subsection \<open>The history as runs\<close>

lemma clock8 [simp]: "clock_ok clk8" "ticks l clk8 l' \<longleftrightarrow> l \<le> 1000000 \<and> 1000000 \<le> l'"
  by (auto simp: clock_ok_def ticks_def clk8_def mono_def)

definition ev_register8 :: event where
  "ev_register8 = \<lparr>ev_key = key_a, ev_call = CRegister (register8 1 4),
     ev_reply = Ok (PlainReply (respond True ''Your key has been registered'' ())), ev_pre = signer_open opts8\<rparr>"

definition ev_commit8 :: event where
  "ev_commit8 = \<lparr>ev_key = key_a, ev_call = CSignCommit \<lparr>scq_members = [1, 2]\<rparr>,
     ev_reply = Ok (SignCommitReply (respond True ''Commitment created'' (Some (commit_result8 1 4)))),
     ev_pre = registered8 1 4\<rparr>"

definition ev_complete8 :: event where
  "ev_complete8 = \<lparr>ev_key = key_a, ev_call = CSignComplete complete8,
     ev_reply = Ok (SignCompleteReply (respond True ''Successfully signed event'' (Some (result8 1 4 5)))),
     ev_pre = committed8 1 4\<rparr>"

definition ev_setup8 :: event where
  "ev_setup8 = \<lparr>ev_key = key_a, ev_call = CRecoverySetup \<lparr>rsq_email = mail8, rsq_password_hash = pw8\<rparr>,
     ev_reply = Ok (PlainReply (respond True ''Recovery method successfully initialized.'' ())),
     ev_pre = registered8 1 4\<rparr>"

definition ev_recover8 :: event where
  "ev_recover8 = \<lparr>ev_key = key_b, ev_call = CRecoveryStart \<lparr>rtq_auth = password8\<rparr>,
     ev_reply = Ok (ItemsReply (respond True ''Successfully retrieved recovery options.'' (Some items8))),
     ev_pre = setup8\<rparr>"

definition ev_login8 :: event where
  "ev_login8 = \<lparr>ev_key = key_b, ev_call = CLoginStart \<lparr>lsq_auth = password8\<rparr>,
     ev_reply = Ok (ItemsReply (respond True ''Successfully retrieved login options.'' (Some items8))),
     ev_pre = setup8\<rparr>"

lemma valid_calls8:
  "call_valid (CRegister (register8 i n))" "call_valid (CSignCommit \<lparr>scq_members = [1, 2]\<rparr>)"
  "call_valid (CSignComplete complete8)"
  by (simp_all add: valid8 sign_commit_request_valid_def bounded_vec_valid_iff MAX_MEMBERS_def
      sign_complete_request_valid_def complete8_def request8_def cid8_def sign_complete_inner_valid_def
      sighash_vec_valid_def MAX_HASHES_PER_REQUEST_def pns8_def commit_item_of_def commit_result8_def
      public_nonce_item_valid_def eval7)

lemma perform8:
  "perform ext8 clk8 rnd8 (auth8 key_a) (CRegister (register8 1 4)) (signer_open opts8) =
    (ev_reply ev_register8, registered8 1 4)"
  "perform ext8 clk8 rnd8 (auth8 key_a) (CSignCommit \<lparr>scq_members = [1, 2]\<rparr>) (registered8 1 4) =
    (ev_reply ev_commit8, committed8 1 4)"
  "perform ext8 clk8 rnd8 (auth8 key_a) (CSignComplete complete8) (committed8 1 4) =
    (ev_reply ev_complete8, completed8 1 4)"
  "perform ext8 clk8 rnd8 (auth8 key_a) (CRecoverySetup \<lparr>rsq_email = mail8, rsq_password_hash = pw8\<rparr>)
     (registered8 1 4) = (ev_reply ev_setup8, setup8)"
  "perform ext8 clk8 rnd8 (auth8 key_b) (CRecoveryStart \<lparr>rtq_auth = password8\<rparr>) setup8 =
    (ev_reply ev_recover8, recovering8)"
  "perform ext8 clk8 rnd8 (auth8 key_b) (CLoginStart \<lparr>lsq_auth = password8\<rparr>) setup8 =
    (ev_reply ev_login8, logging_in8)"
  using do_register8 [of 1 4] do_commit8 [of 1 4] do_complete8 [OF psig_pkg8(1)] do_setup8
    do_recovery_start8 do_login_start8 member8
  by (simp_all add: map_action_eq ev_register8_def ev_commit8_def ev_complete8_def ev_setup8_def
      ev_recover8_def ev_login8_def eval7)

lemma run_registered8: "run ext8 opts8 [ev_register8] (registered8 1 4)"
  using run_call [OF run_open valid_calls8(1) clock8(1) perform8(1)]
  by (simp add: ev_register8_def)

lemma run_committed8: "run ext8 opts8 [ev_register8, ev_commit8] (committed8 1 4)"
  using run_call [OF run_registered8 valid_calls8(2) clock8(1) perform8(2)]
  by (simp add: ev_commit8_def)

lemma run_completed8: "run ext8 opts8 [ev_register8, ev_commit8, ev_complete8] (completed8 1 4)"
  using run_call [OF run_committed8 valid_calls8(3) clock8(1) perform8(3)]
  by (simp add: ev_complete8_def)

lemma run_setup8: "run ext8 opts8 [ev_register8, ev_setup8] setup8"
  using run_call [OF run_registered8 _ clock8(1) perform8(4)] by (simp add: ev_setup8_def)

lemma run_recovering8: "run ext8 opts8 [ev_register8, ev_setup8, ev_recover8] recovering8"
  using run_call [OF run_setup8 _ clock8(1) perform8(5)] by (simp add: ev_recover8_def)

lemma run_logging_in8: "run ext8 opts8 [ev_register8, ev_setup8, ev_login8] logging_in8"
  using run_call [OF run_setup8 _ clock8(1) perform8(6)] by (simp add: ev_login8_def)

text \<open>Two limited requests, and a login with a wrong password.\<close>

definition wrong8 :: auth where
  "wrong8 = Password \<lparr>pa_email_hash = hash8, pa_password_hash = []\<rparr>"

definition guessed8 :: signer where
  "guessed8 = setup8\<lparr>sv_rate_limit_by_email_hash := [(hash8, bucket8 1)]\<rparr>"

lemma wrong_login8: "get_authenticated_sessions ext8 clk8 wrong8 setup8 = (Ok [], guessed8)"
  by (simp add: get_authenticated_sessions_def wrong8_def is_rate_limited_def col_get_def
      map_filter_simps owner8_def ct_str_eq_iff pw8_def record_attempt_def clk8_def bucket8_def guessed8_def)

lemma do_wrong_login8:
  "handle_login_start ext8 clk8 (auth8 key_b) \<lparr>lsq_auth = wrong8\<rparr> setup8 =
   (Ok (respond False ''No sessions found.'' None), guessed8)"
  by (simp add: handle_login_start_def fresh8 wrong_login8)

lemma timed_registered8: "timed_run ext8 opts8 key_a hash8 1000000 [] [] (registered8 1 4)"
  using timed_call [OF timed_open valid_calls8(1) _ perform8(1), of 0 1000000 key_a hash8]
  by (simp add: client_pass_def)

lemma timed_completed8: "timed_run ext8 opts8 key_a hash8 1000000 [1000000, 1000000] [] (completed8 1 4)"
proof -
  have "\<not> (500 :: u32) \<le> 1" by (simp add: word_le_nat_alt)
  then have pass: "client_pass clk8 key_a (auth8 key_a) (CSignCommit d) (registered8 1 4)"
    "client_pass clk8 key_a (auth8 key_a) (CSignComplete d') (committed8 1 4)" for d d'
    by (simp_all add: client_pass_def admits_def col_get_def is_rate_limited_def bucket8_def
        CLIENT_RATE_LIMITS_def Let_def)
  have before: "timed_run ext8 opts8 key_a hash8 1000000 [1000000] [] (committed8 1 4)"
    using timed_call [OF timed_registered8 valid_calls8(2) _ perform8(2), of 1000000] pass(1)
    by (simp add: clk8_def [THEN fun_cong])
  show ?thesis
    using pass(2) timed_call [OF before valid_calls8(3) _ perform8(3), of 1000000]
    by (simp add: clk8_def [THEN fun_cong])
qed

lemma timed_guessed8: "timed_run ext8 opts8 key_a hash8 1000000 [] [1000000] guessed8"
proof -
  have before: "timed_run ext8 opts8 key_a hash8 1000000 [] [] setup8"
    using timed_call [OF timed_registered8 _ _ perform8(4), of 1000000] by (simp add: client_pass_def)
  have perf: "perform ext8 clk8 rnd8 (auth8 key_b) (CLoginStart \<lparr>lsq_auth = wrong8\<rparr>) setup8 =
      (Ok (ItemsReply (respond False ''No sessions found.'' None)), guessed8)"
    by (simp add: map_action_eq do_wrong_login8)
  have "wrong_guess ext8 clk8 (auth8 key_b) wrong8 setup8"
    by (simp add: wrong_guess_def fresh8 wrong_login8 is_rate_limited_def col_get_def)
  then show ?thesis
    using timed_call [OF before _ _ perf, of 1000000]
    by (simp add: client_pass_def wrong8_def clk8_def [THEN fun_cong])
qed

subsection \<open>Answers\<close>

lemma answers8:
  "list_all2 (completes ext8 poly7 grp8 request8 pns8)
     [(committed8 1 4, auth8 key_a, clk8, cid8), (committed8 2 5, auth8 key_a, clk8, cid8)]
     [result8 1 4 5, result8 2 5 6]"
  "list_all2 (ecdh_answers ext8 poly7 [1, 2] peer8)
     [(registered8 1 4, auth8 key_a, clk8, 1), (registered8 2 5, auth8 key_a, clk8, 2)]
     [ecdh_result8 1 GF2, ecdh_result8 2 GF4]"
  using do_complete8 [OF psig_pkg8(1), unfolded complete8_def] do_complete8 [OF psig_pkg8(2), unfolded complete8_def]
    do_ecdh8 [OF ecdh_pkg8(1), of 1, unfolded ecdh_request8_def] do_ecdh8 [OF ecdh_pkg8(2), of 2, unfolded ecdh_request8_def]
  by (simp_all add: completes_def ecdh_answers_def answers_def col_get_def on_poly_def share_scalar_def
      share_secret_def poly7_def eval8 eval7 gf7_ground)

definition calls8 :: "commit_call list" where
  "calls8 = [(registered8 1 4, auth8 key_a, clk8, rnd8), (registered8 2 5, auth8 key_a, clk8, rnd8)]"

definition commits8 :: "sign_commit_result list" where
  "commits8 = [commit_result8 1 4, commit_result8 2 5]"

definition laters8 :: "(signer \<times> (nat \<Rightarrow> u64)) list" where
  "laters8 = [(committed8 1 4, clk8), (committed8 2 5, clk8)]"

lemma round8:
  "list_all2 (commits ext8 poly7 grp8 (sci_members request8)) calls8 commits8"
  "list_all2 (still_ready ext8 (sci_members request8)) calls8 laters8"
proof -
  have "\<not> (500 :: u32) \<le> 1" by (simp add: word_le_nat_alt)
  then have "admits clk8 key_a (committed8 i n)" for i n
    by (simp add: admits_def col_get_def is_rate_limited_def bucket8_def clk8_def CLIENT_RATE_LIMITS_def
        saturating_sub_def)
  then show "list_all2 (commits ext8 poly7 grp8 (sci_members request8)) calls8 commits8"
    "list_all2 (still_ready ext8 (sci_members request8)) calls8 laters8"
    using do_commit8 [of 1 4] do_commit8 [of 2 5]
    by (simp_all add: calls8_def commits8_def laters8_def commits_def undisturbed_def answers_def request8_def
        col_get_def pending_of_def on_poly_def share_scalar_def share_secret_def poly7_def eval8 eval7 gf7_ground)
qed

definition parties8 :: "(signer \<times> nostr_auth \<times> (nat \<Rightarrow> u64) \<times> u32) list" where
  "parties8 = [(registered8 1 4, auth8 key_a, clk8, 1), (registered8 2 5, auth8 key_a, clk8, 2)]"

lemma holds8: "list_all2 (holds_share ext8 poly7) parties8 [1, 2]"
  by (simp add: parties8_def holds_share_def admits_def col_get_def is_rate_limited_def on_poly_def
      share_scalar_def share_secret_def poly7_def eval8 eval7 gf7_ground)

lemma combine8:
  "combine_partial_sigs ext8 ctx8 (map (package_sig ext8) [result8 1 4 5, result8 2 5 6]) =
   Ok (tl (encode7 GF1) @ num7 4)"
  by (simp add: combine_partial_sigs_def ctx8_parts package_sig_def result8_def Let_def
      get_group_binders_def get_group_pubnonce_def pubnonce_step_def get_bind_factor_def ok_or_def
      scalar_multi_def pnonce8_def eval8 eval7 gf7_ground)

subsection \<open>A deactivated session and a one-time password\<close>

definition group_auth8 :: nostr_auth where
  "group_auth8 = auth8 (drop 2 (hx (encode7 GF3)))"

definition stopped8 :: signer where
  "stopped8 = deactivate_session 1000000 key_a (registered8 1 4)"

lemma stopped8_session:
  "\<exists>s. col_get (sv_sessions stopped8) key_a = Some s \<and> sess_deactivated_at s \<noteq> None"
  by (simp add: stopped8_def deactivate_session_def col_get_def)

lemma do_stop8:
  "handle_session_deactivate clk8 group_auth8 \<lparr>clq_client = key_a\<rparr> (registered8 1 4) =
   (Ok (respond True ''Successfully deactivated selected session.'' ()), stopped8)"
  by (simp add: handle_session_deactivate_def owns_session_def col_get_def group_key8 group_auth8_def
      stopped8_def clk8_def)

lemma run_stopped8: "\<exists>tr. run ext8 opts8 tr stopped8"
proof -
  have "call_valid (CSessionDeactivate \<lparr>clq_client = key_a\<rparr>)" by (simp add: client_request_valid_def)
  moreover have "perform ext8 clk8 rnd8 group_auth8 (CSessionDeactivate \<lparr>clq_client = key_a\<rparr>) (registered8 1 4) =
      (Ok (PlainReply (respond True ''Successfully deactivated selected session.'' ())), stopped8)"
    by (simp add: map_action_eq do_stop8)
  ultimately show ?thesis using run_call [OF run_registered8 _ clock8(1)] by blast
qed

definition challenged8 :: signer where
  "challenged8 = setup8\<lparr>sv_rate_limit_by_email_hash := [(hash8, bucket8 1)],
     sv_challenges := [(hash8, \<lparr>ch_created_at = 1000000, ch_otp = ''x'' @ dec_digits 100000\<rparr>)],
     sv_outbox := [(''noreply'', ''Signer'', (challenge_email ext8 (''x'' @ dec_digits 100000))\<lparr>ml_to := mail8\<rparr>)]\<rparr>"

lemma challenged8_fields:
  "col_get (sv_rate_limit_by_email_hash challenged8) hash8 = Some (bucket8 1)"
  "col_get (sv_sessions_by_email_hash challenged8) hash8 = Some \<lparr>ix_clients = [key_a]\<rparr>"
  by (simp_all add: challenged8_def col_get_def)

lemma do_challenge8:
  "handle_challenge ext8 clk8 (num7 0) (auth8 key_b) \<lparr>cq_prefix = ''x'', cq_email_hash = hash8\<rparr> setup8 =
   (Ok challenge_reply, challenged8)"
  by (simp add: handle_challenge_def is_rate_limited_def challenge_target_def col_get_def owner8_def
      random_int_def be_nat_num7 record_attempt_def clk8_def opts8_def challenged8_def bucket8_def Let_def)

definition otp8 :: otp_auth where
  "otp8 = \<lparr>oa_email_hash = hash8, oa_otp = ''x'' @ dec_digits 100000\<rparr>"

definition otp_used8 :: signer where
  "otp_used8 = setup8\<lparr>sv_rate_limit_by_email_hash := [(hash8, bucket8 1)],
     sv_outbox := sv_outbox challenged8\<rparr>"

lemma free8: "\<not> is_rate_limited 1000000 (Some (bucket8 1)) EMAIL_RATE_LIMITS"
proof -
  have "\<not> (5 :: u32) \<le> 1" by (simp add: word_le_nat_alt)
  then show ?thesis by (simp add: is_rate_limited_def bucket8_def EMAIL_RATE_LIMITS_def Let_def)
qed

lemma otp_granted8:
  "get_authenticated_sessions ext8 clk8 (Otp otp8) challenged8 = (Ok [owner8], otp_used8)"
  using free8
  by (simp add: get_authenticated_sessions_def otp8_def challenged8_def col_get_def clk8_def
      ct_str_eq_iff map_filter_simps otp_used8_def col_delete_def Let_def)

lemma otp_again8: "\<exists>ss. fst (get_authenticated_sessions ext8 clk8 (Otp otp8) otp_used8) = Ok ss"
  using free8
  by (simp add: get_authenticated_sessions_def otp8_def otp_used8_def col_get_def clk8_def Let_def)

subsection \<open>A request through the router\<close>

definition decoders8 :: "unit decoders" where
  "decoders8 = \<lparr>jd_challenge = Map.empty, jd_ecdh = Map.empty, jd_login_select = Map.empty,
     jd_login_start = Map.empty, jd_recovery_select = Map.empty, jd_recovery_setup = Map.empty,
     jd_recovery_start = Map.empty, jd_register = (\<lambda>_. Some (register8 1 4)),
     jd_session_deactivate = Map.empty, jd_session_delete = Map.empty, jd_sign_commit = Map.empty,
     jd_sign_complete = Map.empty, jd_is_object = (\<lambda>_. True)\<rparr>"

lemma handle8:
  "handle ext8 decoders8 0 clk8 rnd8 ''/register'' (''Nostr '' @ key_a) () (signer_open opts8) =
   (Ok (PlainReply (respond True ''Your key has been registered'' ())), registered8 1 4)"
proof -
  have "parse_auth ext8 0 (''Nostr '' @ key_a) (opt_url (sv_options (signer_open opts8))) ''/register'' =
      Some (auth8 key_a)"
    by (simp add: parse_auth_def strip_prefix_def ext8_signer auth8_def)
  then show ?thesis
    using do_register8 [of 1 4] member8
    by (simp add: handle_def route_def decoders8_def valid8 map_action_def)
qed

end
