(* ===== verification/Process.thy ===== *)
theory Process
  imports Prelude
begin

text \<open>
  Programs that run side by side on a shared state.  A \<open>process\<close> is the result it returns or an
  atomic step: what follows and the new state, both computed from the state it finds.  Between two
  steps of a process any number of steps of others may happen.  \<open>concurrent\<close> is the relation of all
  interleavings of a growing pool of calls; the locale \<open>shared_state\<close> proves invariants of it, one
  call at a time.
\<close>

datatype ('s, 'a) process = Return "'a res" | Atomic "'s \<Rightarrow> ('s, 'a) process" "'s \<Rightarrow> 's"

primrec bindP :: "('s, 'a) process \<Rightarrow> ('a \<Rightarrow> ('s, 'b) process) \<Rightarrow> ('s, 'b) process" where
  "bindP (Return r) f = (case r of Ok x \<Rightarrow> f x | Err e \<Rightarrow> Return (Err e) | Panic \<Rightarrow> Return Panic)"
| "bindP (Atomic cont g) f = Atomic (\<lambda>s. bindP (cont s) f) g"

definition atomically :: "('s \<Rightarrow> 'a \<times> 's) \<Rightarrow> ('s, 'a) process" where
  "atomically f = Atomic (\<lambda>s. Return (Ok (fst (f s)))) (\<lambda>s. snd (f s))"

definition reads :: "('s \<Rightarrow> 'a) \<Rightarrow> ('s, 'a) process" where
  "reads f = Atomic (\<lambda>s. Return (Ok (f s))) (\<lambda>s. s)"

definition writes :: "('s \<Rightarrow> 's) \<Rightarrow> ('s, unit) process" where
  "writes g = Atomic (\<lambda>s. Return (Ok ())) g"

subsection \<open>A process left alone\<close>

primrec uninterrupted :: "('s, 'a) process \<Rightarrow> 's \<Rightarrow> 'a res \<times> 's" where
  "uninterrupted (Return r) = (\<lambda>s. (r, s))"
| "uninterrupted (Atomic cont g) = (\<lambda>s. uninterrupted (cont s) (g s))"

lemma uninterrupted_bind:
  "uninterrupted (bindP p f) s =
     (case uninterrupted p s of
        (Ok x, s') \<Rightarrow> uninterrupted (f x) s' | (Err e, s') \<Rightarrow> (Err e, s') | (Panic, s') \<Rightarrow> (Panic, s'))"
  by (induction p arbitrary: s) (auto split: res.split)

lemma uninterrupted_simps [simp]:
  "uninterrupted (reads f) s = (Ok (f s), s)" "uninterrupted (writes g) s = (Ok (), g s)"
  "uninterrupted (atomically h) s = (Ok (fst (h s)), snd (h s))"
  "uninterrupted (bindP (Return r) f') s =
     (case r of Ok x \<Rightarrow> uninterrupted (f' x) s | Err e \<Rightarrow> (Err e, s) | Panic \<Rightarrow> (Panic, s))"
  "uninterrupted (bindP (reads f) f'') s = uninterrupted (f'' (f s)) s"
  "uninterrupted (bindP (writes g) k) s = uninterrupted (k ()) (g s)"
  "uninterrupted (bindP (atomically h) k') s = uninterrupted (k' (fst (h s))) (snd (h s))"
  by (simp_all add: reads_def writes_def atomically_def split: res.split)

subsection \<open>Interleavings\<close>

text \<open>
  A pool lists the calls made so far, each with the process that is left of it.  Calls arrive at
  any time; a restart, which may change the state, waits for the calls under way.
\<close>

type_synonym ('l, 's, 'a) pool = "('l \<times> ('s, 'a) process) list"

definition finished :: "('s, 'a) process \<Rightarrow> bool" where
  "finished p \<longleftrightarrow> (case p of Return r \<Rightarrow> True | Atomic cont g \<Rightarrow> False)"

inductive pool_step ::
  "('l, 's, 'a) pool \<Rightarrow> 's \<Rightarrow> ('l, 's, 'a) pool \<Rightarrow> 's \<Rightarrow> bool" where
  "pool_step (ps @ (l, Atomic cont g) # qs) s (ps @ (l, cont s) # qs) (g s)"

inductive concurrent ::
  "('l \<Rightarrow> ('s, 'a) process) \<Rightarrow> ('l \<Rightarrow> bool) \<Rightarrow> 's \<Rightarrow> ('s \<Rightarrow> 's) \<Rightarrow> ('l, 's, 'a) pool \<Rightarrow> 's \<Rightarrow> bool"
  for body ok init restart where
  conc_init: "concurrent body ok init restart [] init"
| conc_call: "concurrent body ok init restart pool s \<Longrightarrow> ok l \<Longrightarrow>
    concurrent body ok init restart (pool @ [(l, body l)]) s"
| conc_step: "concurrent body ok init restart pool s \<Longrightarrow> pool_step pool s pool' s' \<Longrightarrow>
    concurrent body ok init restart pool' s'"
| conc_restart: "concurrent body ok init restart pool s \<Longrightarrow> list_all (\<lambda>(l, p). finished p) pool \<Longrightarrow>
    concurrent body ok init restart pool (restart s)"

inductive_cases pool_stepE: "pool_step pool s pool' s'"

text \<open>A given schedule, as a function: the calls whose turn it is, one after the other.\<close>

fun turn :: "nat \<Rightarrow> ('l, 's, 'a) pool \<times> 's \<Rightarrow> ('l, 's, 'a) pool \<times> 's" where
  "turn i ([], s) = ([], s)"
| "turn 0 ((l, Atomic cont g) # ps, s) = ((l, cont s) # ps, g s)"
| "turn 0 ((l, Return r) # ps, s) = ((l, Return r) # ps, s)"
| "turn (Suc i) (p # ps, s) = (let (ps', s') = turn i (ps, s) in (p # ps', s'))"

lemma finished_simps [simp]: "finished (Return r)" "\<not> finished (Atomic cont g)"
  by (simp_all add: finished_def)

lemma turn_step: "turn i (ps, s) = (ps', s') \<Longrightarrow> (ps', s') = (ps, s) \<or> pool_step ps s ps' s'"
proof (induction i "(ps, s)" arbitrary: ps s ps' s' rule: turn.induct)
  case (2 l cont g ps s)
  then show ?case using pool_step.intros [of "[]" l cont g ps s] by simp
next
  case (4 i p ps s)
  obtain qs t where t: "turn i (ps, s) = (qs, t)" by fastforce
  then have eq: "ps' = p # qs" "s' = t" using 4(2) by simp_all
  from 4(1) [OF t] show ?case
  proof
    assume "pool_step ps s qs t"
    then have "pool_step (p # ps) s (p # qs) t"
    proof (cases rule: pool_step.cases)
      case (1 as l cont g bs)
      then show ?thesis using pool_step.intros [of "p # as" l cont g bs s] by simp
    qed
    then show ?thesis by (simp add: eq)
  qed (simp add: eq)
qed simp_all

lemma pool_step_append: "pool_step ps s ps' s' \<Longrightarrow> pool_step (qs @ ps) s (qs @ ps') s'"
proof (induction rule: pool_step.induct)
  case (1 as l cont g bs s)
  then show ?case using pool_step.intros [of "qs @ as" l cont g bs s] by simp
qed

lemma concurrent_turns:
  "concurrent body ok init restart (qs @ ps) s \<Longrightarrow> fold turn is (ps, s) = (ps', s') \<Longrightarrow>
   concurrent body ok init restart (qs @ ps') s'"
proof (induction "is" arbitrary: ps s)
  case (Cons i "is")
  obtain ps1 s1 where t: "turn i (ps, s) = (ps1, s1)" by fastforce
  then have "concurrent body ok init restart (qs @ ps1) s1"
    using turn_step [OF t] Cons.prems(1) conc_step [OF Cons.prems(1) pool_step_append] by auto
  then show ?case using Cons.IH Cons.prems(2) t by simp
qed simp

text \<open>A call may run to its end before anything else happens.\<close>

lemma concurrent_alone:
  "concurrent body ok init restart (pool @ [(l, p)]) s \<Longrightarrow>
   concurrent body ok init restart (pool @ [(l, Return (fst (uninterrupted p s)))]) (snd (uninterrupted p s))"
proof (induction p arbitrary: s)
  case (Return r)
  then show ?case by simp
next
  case (Atomic cont g)
  have "pool_step (pool @ [(l, Atomic cont g)]) s (pool @ [(l, cont s)]) (g s)"
    by (rule pool_step.intros)
  from Atomic.IH [OF rangeI conc_step [OF Atomic.prems this]] show ?case by simp
qed

lemma concurrent_call_alone:
  assumes "concurrent body ok init restart pool s" and "ok l" and "uninterrupted (body l) s = (r, s')"
  shows "concurrent body ok init restart (pool @ [(l, Return r)]) s'"
  using concurrent_alone [OF conc_call [OF assms(1,2)]] assms(3) by simp

subsection \<open>Every execution ends\<close>

text \<open>What is left of a process after a step is smaller, whatever state the step found.\<close>

definition rest :: "(('s, 'a) process \<times> ('s, 'a) process) set" where
  "rest = {(cont s, Atomic cont g) | cont s g. True}"

lemma wf_rest: "wf (rest :: (('s, 'a) process \<times> ('s, 'a) process) set)"
proof (rule wfUNIVI)
  fix P :: "('s, 'a) process \<Rightarrow> bool" and p
  assume step: "\<forall>p. (\<forall>q. (q, p) \<in> rest \<longrightarrow> P q) \<longrightarrow> P p"
  show "P p"
  proof (induction p)
    case (Return r)
    show ?case by (rule step [rule_format]) (simp add: rest_def)
  next
    case (Atomic cont g)
    show ?case by (rule step [rule_format]) (use Atomic.IH in \<open>auto simp: rest_def\<close>)
  qed
qed

lemma pool_step_listrel1: "pool_step pool s pool' s' \<Longrightarrow> (map snd pool', map snd pool) \<in> listrel1 rest"
proof (induction rule: pool_step.induct)
  case (1 ps l cont g qs s)
  have "(cont s, Atomic cont g) \<in> rest" by (auto simp: rest_def)
  then show ?case by (auto intro: append_listrel1I listrel1I1)
qed

lemma no_endless_steps:
  fixes pools :: "nat \<Rightarrow> ('l, 's, 'a) pool"
  shows "\<not> (\<forall>i. pool_step (pools i) (states i) (pools (Suc i)) (states (Suc i)))"
proof
  assume steps: "\<forall>i. pool_step (pools i) (states i) (pools (Suc i)) (states (Suc i))"
  let ?f = "\<lambda>i. map snd (pools i)"
  have "\<forall>i. (?f (Suc i), ?f i) \<in> listrel1 rest"
    using steps by (blast intro: pool_step_listrel1)
  moreover have "wf (listrel1 (rest :: (('s, 'a) process \<times> ('s, 'a) process) set))" using wf_rest by simp
  ultimately show False
    using exI [of "\<lambda>f. \<forall>i. (f (Suc i), f i) \<in> listrel1 rest" ?f]
    by (simp add: wf_iff_no_infinite_down_chain)
qed

lemma pool_step_or_finished:
  "list_all (\<lambda>(l, p). finished p) pool \<or> (\<exists>pool' s'. pool_step pool s pool' s')"
proof (induction pool)
  case (Cons lp pool)
  obtain l p where lp: "lp = (l, p)" by fastforce
  show ?case
  proof (cases p)
    case (Return r)
    from Cons show ?thesis
    proof
      assume "\<exists>pool' s'. pool_step pool s pool' s'"
      then obtain ps l' cont g qs where "pool = ps @ (l', Atomic cont g) # qs"
        by (auto elim!: pool_stepE)
      then have "lp # pool = (lp # ps) @ (l', Atomic cont g) # qs" by simp
      then show ?thesis using pool_step.intros by metis
    qed (simp add: lp Return)
  next
    case (Atomic cont g)
    then have "lp # pool = [] @ (l, Atomic cont g) # pool" by (simp add: lp)
    then show ?thesis using pool_step.intros by metis
  qed
qed simp

text \<open>At most \<open>n\<close> steps, as long as they find states with \<open>K\<close>.\<close>

primrec within_while :: "('s \<Rightarrow> bool) \<Rightarrow> ('s, 'a) process \<Rightarrow> nat \<Rightarrow> bool" where
  "within_while K (Return r) = (\<lambda>n. True)"
| "within_while K (Atomic cont g) = (\<lambda>n. 0 < n \<and> (\<forall>s. K s \<longrightarrow> within_while K (cont s) (n - 1)))"

abbreviation within :: "('s, 'a) process \<Rightarrow> nat \<Rightarrow> bool" where "within \<equiv> within_while (\<lambda>_. True)"

lemma within_mono: "within_while K p n \<Longrightarrow> n \<le> m \<Longrightarrow> within_while K p m"
proof (induction p arbitrary: n m)
  case (Atomic cont g)
  have "within_while K (cont s) (m - 1)" if "K s" for s
    by (rule Atomic.IH [OF rangeI, of _ "n - 1"]) (use Atomic.prems that in auto)
  then show ?case using Atomic.prems by simp
qed simp

lemma within_while_any: "within p n \<Longrightarrow> within_while K p n"
  by (induction p arbitrary: n) auto

lemma within_bind:
  "within_while K p n \<Longrightarrow> n \<le> m \<Longrightarrow> (\<And>x. within_while K (f x) (m - n)) \<Longrightarrow> within_while K (bindP p f) m"
proof (induction p arbitrary: n m)
  case (Return r)
  then show ?case using within_mono [of _ _ "m - n" m] by (auto split: res.split)
next
  case (Atomic cont g)
  have "within_while K (bindP (cont s) f) (m - 1)" if "K s" for s
    by (rule Atomic.IH [OF rangeI, of _ "n - 1"]) (use Atomic.prems that in auto)
  then show ?case using Atomic.prems by auto
qed

lemma within_steps:
  "0 < n \<Longrightarrow> within_while K (reads f) n" "0 < n \<Longrightarrow> within_while K (writes g) n"
  "0 < n \<Longrightarrow> within_while K (atomically h) n"
  by (simp_all add: reads_def writes_def atomically_def)

lemma within_reads:
  "0 < m \<Longrightarrow> (\<And>s. K s \<Longrightarrow> within_while K (f (h s)) (m - 1)) \<Longrightarrow> within_while K (bindP (reads h) f) m"
  by (simp add: reads_def)

lemma within_control:
  "within_while K (Return r) n"
  "(b \<Longrightarrow> within_while K p n) \<Longrightarrow> (\<not> b \<Longrightarrow> within_while K q n) \<Longrightarrow> within_while K (if b then p else q) n"
  "(opt = None \<Longrightarrow> within_while K p n) \<Longrightarrow> (\<And>x. opt = Some x \<Longrightarrow> within_while K (f x) n) \<Longrightarrow>
   within_while K (case opt of None \<Rightarrow> p | Some x \<Rightarrow> f x) n"
  "(\<And>x. within_while K (h x) n) \<Longrightarrow> (\<And>e. within_while K (k e) n) \<Longrightarrow> within_while K q n \<Longrightarrow>
   within_while K (case m of Ok x \<Rightarrow> h x | Err e \<Rightarrow> k e | Panic \<Rightarrow> q) n"
  by (auto split: option.split res.split)

lemmas within_binds =
  within_bind [OF within_steps(1) [of 1], OF zero_less_one]
  within_bind [OF within_steps(2) [of 1], OF zero_less_one]
  within_bind [OF within_steps(3) [of 1], OF zero_less_one]
  within_bind [OF within_control(1) [of _ _ 0]]

subsection \<open>Invariants, one call at a time\<close>

text \<open>
  \<open>keeps J cost p Q n\<close>: started with \<open>n\<close> tokens, every step of \<open>p\<close> keeps \<open>J\<close> and pays for a
  rise of \<open>cost\<close> with tokens; the result and the tokens left satisfy \<open>Q\<close>.  A fall of \<open>cost\<close> earns
  tokens.  What a step has read may be used by the later ones, what the state was may not.
\<close>

primrec keeps ::
  "('s \<Rightarrow> bool) \<Rightarrow> ('s \<Rightarrow> nat) \<Rightarrow> ('s, 'a) process \<Rightarrow> (nat \<Rightarrow> 'a res \<Rightarrow> bool) \<Rightarrow> nat \<Rightarrow> bool" where
  "keeps J cost (Return r) = (\<lambda>Q n. Q n r)"
| "keeps J cost (Atomic cont g) =
     (\<lambda>Q n. \<forall>s. J s \<longrightarrow>
        (\<exists>n'. J (g s) \<and> cost (g s) + n' \<le> cost s + n \<and> keeps J cost (cont s) Q n'))"

lemma keeps_bind:
  "keeps J cost p (\<lambda>n r. case r of Ok x \<Rightarrow> keeps J cost (f x) Q n | Err e \<Rightarrow> Q n (Err e) | Panic \<Rightarrow> Q n Panic) n \<Longrightarrow>
   keeps J cost (bindP p f) Q n"
  by (induction p arbitrary: n) (auto split: res.splits, blast)

lemma keeps_mono:
  "keeps J cost p Q n \<Longrightarrow> (\<And>n r. Q n r \<Longrightarrow> Q' n r) \<Longrightarrow> keeps J cost p Q' n"
  by (induction p arbitrary: n) (simp, fastforce)

lemma keeps_bind_rule:
  assumes "keeps J cost p R n"
    and "\<And>x n. R n (Ok x) \<Longrightarrow> keeps J cost (f x) Q n"
    and "\<And>e n. R n (Err e) \<Longrightarrow> Q n (Err e)" and "\<And>n. R n Panic \<Longrightarrow> Q n Panic"
  shows "keeps J cost (bindP p f) Q n"
  by (rule keeps_bind) (rule keeps_mono [OF assms(1)], auto split: res.split intro: assms(2-4))

lemma keeps_reads:
  "(\<And>s. J s \<Longrightarrow> keeps J cost (f (h s)) Q n) \<Longrightarrow> keeps J cost (bindP (reads h) f) Q n"
  by (auto simp: reads_def)

lemma keeps_writes_pay:
  "(\<And>s. J s \<Longrightarrow> J (g s) \<and> cost (g s) + m \<le> cost s + n) \<Longrightarrow> keeps J cost (f ()) Q m \<Longrightarrow>
   keeps J cost (bindP (writes g) f) Q n"
  by (auto simp: writes_def)

lemma keeps_writes:
  "(\<And>s. J s \<Longrightarrow> J (g s) \<and> cost (g s) \<le> cost s) \<Longrightarrow> keeps J cost (f ()) Q n \<Longrightarrow>
   keeps J cost (bindP (writes g) f) Q n"
  by (rule keeps_writes_pay) auto

lemma keeps_atomically:
  "(\<And>s. J s \<Longrightarrow> \<exists>n'. J (snd (h s)) \<and> cost (snd (h s)) + n' \<le> cost s + n \<and> keeps J cost (f (fst (h s))) Q n') \<Longrightarrow>
   keeps J cost (bindP (atomically h) f) Q n"
  by (simp add: atomically_def)

lemma keeps_writes_last:
  "(\<And>s. J s \<Longrightarrow> J (g s) \<and> cost (g s) \<le> cost s) \<Longrightarrow> Q n (Ok ()) \<Longrightarrow> keeps J cost (writes g) Q n"
  by (auto simp: writes_def intro!: exI [of _ n] add_right_mono)

text \<open>The control structures, for proofs by introduction.\<close>

lemma keeps_Return: "Q n r \<Longrightarrow> keeps J cost (Return r) Q n"
  by simp

lemma keeps_bind_Return:
  assumes "\<And>x. r = Ok x \<Longrightarrow> keeps J cost (f x) Q n" and "\<And>e. r = Err e \<Longrightarrow> Q n (Err e)"
    and "r = Panic \<Longrightarrow> Q n Panic"
  shows "keeps J cost (bindP (Return r) f) Q n"
  using assms by (cases r) simp_all

lemma keeps_if:
  "(b \<Longrightarrow> keeps J cost p Q n) \<Longrightarrow> (\<not> b \<Longrightarrow> keeps J cost q Q n) \<Longrightarrow> keeps J cost (if b then p else q) Q n"
  by simp

lemma keeps_option:
  "(opt = None \<Longrightarrow> keeps J cost p Q n) \<Longrightarrow> (\<And>x. opt = Some x \<Longrightarrow> keeps J cost (f x) Q n) \<Longrightarrow>
   keeps J cost (case opt of None \<Rightarrow> p | Some x \<Rightarrow> f x) Q n"
  by (cases opt) simp_all

lemma keeps_res:
  assumes "\<And>x. r = Ok x \<Longrightarrow> keeps J cost (f x) Q n" and "\<And>e. r = Err e \<Longrightarrow> keeps J cost (g e) Q n"
    and "r = Panic \<Longrightarrow> keeps J cost p Q n"
  shows "keeps J cost (case r of Ok x \<Rightarrow> f x | Err e \<Rightarrow> g e | Panic \<Rightarrow> p) Q n"
  using assms by (cases r) simp_all

lemmas keeps_control = keeps_Return keeps_bind_Return keeps_if keeps_option keeps_res keeps_reads

subsection \<open>Parts of the state a process leaves alone\<close>

primrec untouched :: "('s \<Rightarrow> 'v) \<Rightarrow> ('s, 'a) process \<Rightarrow> bool" where
  "untouched h (Return r) \<longleftrightarrow> True"
| "untouched h (Atomic cont g) \<longleftrightarrow> (\<forall>s. h (g s) = h s \<and> untouched h (cont s))"

lemma untouched_bind [intro!]:
  "untouched h p \<Longrightarrow> (\<And>x. untouched h (f x)) \<Longrightarrow> untouched h (bindP p f)"
  by (induction p) (auto split: res.split)

lemma untouched_steps [simp, intro!]:
  "untouched h (reads f)" "(\<And>s. h (g s) = h s) \<Longrightarrow> untouched h (writes g)"
  "(\<And>s. h (snd (k s)) = h s) \<Longrightarrow> untouched h (atomically k)"
  by (simp_all add: reads_def writes_def atomically_def)

lemma untouched_keeps:
  assumes "untouched h p" and "\<And>s s'. h s = h s' \<Longrightarrow> cost s = cost s'"
    and "\<And>r. Q n r"
  shows "keeps (\<lambda>_. True) cost p Q n"
  using assms(1)
proof (induction p)
  case (Return r)
  then show ?case using assms(3) by simp
next
  case (Atomic cont g)
  show ?case
  proof (simp, intro allI exI conjI)
    fix s
    show "cost (g s) + n \<le> cost s + n" using assms(2) [of "g s" s] Atomic.prems by simp
    show "keeps (\<lambda>_. True) cost (cont s) Q n" using Atomic by auto
  qed
qed

locale shared_state =
  fixes body :: "'l \<Rightarrow> ('s, 'a) process" and ok :: "'l \<Rightarrow> bool" and init :: 's and restart :: "'s \<Rightarrow> 's"
    and J :: "'s \<Rightarrow> bool" and cost :: "'s \<Rightarrow> nat" and grant :: "'l \<Rightarrow> nat"
    and post :: "'l \<Rightarrow> nat \<Rightarrow> 'a res \<Rightarrow> bool"
  assumes init_inv: "J init" and init_cost: "cost init = 0"
    and restart_inv: "J s \<Longrightarrow> J (restart s)" and restart_cost: "cost (restart s) \<le> cost s"
    and call_keeps: "ok l \<Longrightarrow> keeps J cost (body l) (post l) (grant l)"
begin

definition accounted :: "('l, 's, 'a) pool \<Rightarrow> nat list \<Rightarrow> bool" where
  "accounted pool ns \<longleftrightarrow> list_all2 (\<lambda>(l, p) n. keeps J cost p (post l) n) pool ns"

lemma pool_accounts:
  assumes "concurrent body ok init restart pool s"
  shows "J s \<and> (\<exists>ns. accounted pool ns \<and> sum_list ns + cost s \<le> sum_list (map (grant \<circ> fst) pool))"
  using assms
proof (induction rule: concurrent.induct)
  case conc_init
  then show ?case by (simp add: accounted_def init_inv init_cost)
next
  case (conc_call pool s l)
  then obtain ns where "accounted pool ns" "sum_list ns + cost s \<le> sum_list (map (grant \<circ> fst) pool)"
    by blast
  moreover from this have "accounted (pool @ [(l, body l)]) (ns @ [grant l])"
    using call_keeps [OF conc_call.hyps(2)] by (auto simp: accounted_def intro: list_all2_appendI)
  ultimately show ?case using conc_call.IH by (intro conjI exI [of _ "ns @ [grant l]"]) (simp_all add: comp_def)
next
  case (conc_step pool s pool' s')
  then obtain ns where ns: "accounted pool ns"
    "sum_list ns + cost s \<le> sum_list (map (grant \<circ> fst) pool)" and J: "J s" by blast
  from conc_step.hyps(2) show ?case
  proof (cases rule: pool_step.cases)
    case (1 ps l cont g qs)
    then obtain ms n ms' where split: "ns = ms @ n # ms'" "accounted ps ms" "accounted qs ms'"
      "keeps J cost (Atomic cont g) (post l) n"
      using ns(1) by (auto simp: accounted_def list_all2_append1 list_all2_Cons1)
    then obtain n' where n': "J (g s)" "cost (g s) + n' \<le> cost s + n" "keeps J cost (cont s) (post l) n'"
      using J by auto
    have "accounted pool' (ms @ n' # ms')"
      using split n'(3) 1 by (auto simp: accounted_def intro!: list_all2_appendI)
    moreover have "sum_list (ms @ n' # ms') + cost s' \<le> sum_list (map (grant \<circ> fst) pool')"
      using ns(2) n'(2) split(1) 1 by simp
    ultimately show ?thesis using n'(1) 1 by blast
  qed
next
  case (conc_restart pool s)
  then show ?case using restart_inv restart_cost [of s] by (meson add_left_mono le_trans)
qed

lemma pool_inv: "concurrent body ok init restart pool s \<Longrightarrow> J s"
  using pool_accounts by blast

lemma pool_post:
  assumes "concurrent body ok init restart pool s" and "(l, Return r) \<in> set pool"
  shows "\<exists>n. post l n r"
proof -
  obtain ns where "accounted pool ns" using pool_accounts [OF assms(1)] by blast
  then show ?thesis using assms(2) by (force simp: accounted_def list_all2_conv_all_nth in_set_conv_nth)
qed

text \<open>A result that needs a token is returned at most as often as tokens were granted.\<close>

lemma pool_count:
  assumes "concurrent body ok init restart pool s"
    and "\<And>l n r. post l n r \<Longrightarrow> needs l r \<Longrightarrow> 0 < n"
  shows "length (filter (\<lambda>(l, p). case p of Return r \<Rightarrow> needs l r | Atomic cont g \<Rightarrow> False) pool)
    \<le> sum_list (map (grant \<circ> fst) pool)"
proof -
  obtain ns where ns: "accounted pool ns" "sum_list ns + cost s \<le> sum_list (map (grant \<circ> fst) pool)"
    using pool_accounts [OF assms(1)] by blast
  from ns(1) have "length (filter (\<lambda>(l, p). case p of Return r \<Rightarrow> needs l r | Atomic cont g \<Rightarrow> False) pool)
    \<le> sum_list ns"
    unfolding accounted_def
  proof (induction rule: list_all2_induct)
    case (Cons lp pool n ns)
    then show ?case using assms(2) by (cases lp; cases "snd lp") (fastforce)+
  qed simp
  then show ?thesis using ns(2) by linarith
qed

end

end
