(* ===== verification/Signer_Processes.thy ===== *)
theory Signer_Processes
  imports Signer_Steps Process
begin

text \<open>
  The handlers of \<open>signer.rs\<close> as they run beside each other.  The server calls \<open>Signer::handle\<close>
  from many threads on one \<open>Signer\<close>: each access of a collection, and each section under the lock
  of \<open>commits_by_client\<close>, is one atomic step, in the order of the code, and nothing else is.  Only
  \<open>Collection::entries\<close> is taken to read at one moment.  Run without interruption, a process does
  what the handler of \<open>Signer_Handlers\<close> does.
\<close>

abbreviation ret :: "'a \<Rightarrow> ('s, 'a) process" where "ret x \<equiv> Return (Ok x)"

type_synonym 'a task = "(signer, 'a) process"

definition map_process :: "('a \<Rightarrow> 'b) \<Rightarrow> 'a task \<Rightarrow> 'b task" where
  "map_process f p = bindP p (\<lambda>x. ret (f x))"

subsection \<open>Helpers\<close>

definition rate_limit_process :: "(nat \<Rightarrow> u64) \<Rightarrow> string \<Rightarrow> bool task" where
  "rate_limit_process clk client =
     bindP (reads (\<lambda>st. col_get (sv_rate_limit_by_client st) client)) (\<lambda>bucket.
     if is_rate_limited (clk 0) bucket CLIENT_RATE_LIMITS then ret False
     else bindP (writes (\<lambda>st. st\<lparr>sv_rate_limit_by_client :=
              col_set (sv_rate_limit_by_client st) client
                (record_attempt (clk 1) bucket CLIENT_RATE_LIMITS)\<rparr>)) (\<lambda>_.
          ret True))"

fun sessions_process :: "string list \<Rightarrow> signer_session list task" where
  "sessions_process [] = ret []"
| "sessions_process (c # cs) =
     bindP (reads (\<lambda>st. col_get (sv_sessions st) c)) (\<lambda>s.
     bindP (sessions_process cs) (\<lambda>ss.
     ret (case s of None \<Rightarrow> ss | Some session \<Rightarrow> session # ss)))"

definition candidates_process :: "auth \<Rightarrow> string list \<Rightarrow> signer_session list task" where
  "candidates_process auth clients =
     (case auth of
        Password pa \<Rightarrow>
          bindP (sessions_process clients) (\<lambda>ss.
          ret (filter (\<lambda>s. case sess_password_hash s of
                         None \<Rightarrow> False
                       | Some h \<Rightarrow> ct_str_eq h (pa_password_hash pa)) ss))
      | Otp oa \<Rightarrow>
          bindP (reads (\<lambda>st. col_get (sv_challenges st) (auth_email_hash auth))) (\<lambda>found.
          case found of
            None \<Rightarrow> ret []
          | Some challenge \<Rightarrow>
              bindP (writes (\<lambda>st. st\<lparr>sv_challenges :=
                       col_delete (sv_challenges st) (auth_email_hash auth)\<rparr>)) (\<lambda>_.
              if ct_str_eq (oa_otp oa) (ch_otp challenge) then sessions_process clients else ret [])))"

definition authenticated_process ::
  "('s, 'p, 'z) s_externals_scheme \<Rightarrow> (nat \<Rightarrow> u64) \<Rightarrow> auth \<Rightarrow> signer_session list task" where
  "authenticated_process E clk auth =
     (let email_hash = auth_email_hash auth
      in bindP (reads (\<lambda>st. col_get (sv_rate_limit_by_email_hash st) email_hash)) (\<lambda>bucket.
         if is_rate_limited (clk 0) bucket EMAIL_RATE_LIMITS
         then Return (bindR (debug_slice E email_hash) (\<lambda>_. Ok []))
         else
           bindP (reads (\<lambda>st. col_get (sv_sessions_by_email_hash st) email_hash)) (\<lambda>index.
           bindP (case index of None \<Rightarrow> ret [] | Some ix \<Rightarrow> candidates_process auth (ix_clients ix)) (\<lambda>sessions.
           if sessions = []
           then bindP (writes (\<lambda>st. st\<lparr>sv_rate_limit_by_email_hash :=
                         col_set (sv_rate_limit_by_email_hash st) email_hash
                           (record_attempt (clk 1) bucket EMAIL_RATE_LIMITS)\<rparr>)) (\<lambda>_.
                ret sessions)
           else ret sessions))))"

definition key_reuse_process :: "string \<Rightarrow> bool task" where
  "key_reuse_process client =
     bindP (reads (\<lambda>st. col_get (sv_sessions st) client)) (\<lambda>session.
     if session \<noteq> None then ret True
     else bindP (reads (\<lambda>st. col_get (sv_recoveries st) client)) (\<lambda>recovery.
       if recovery \<noteq> None then ret True
       else bindP (reads (\<lambda>st. col_get (sv_logins st) client)) (\<lambda>login.
         ret (login \<noteq> None))))"

definition add_session_process :: "string \<Rightarrow> signer_session \<Rightarrow> unit task" where
  "add_session_process client session =
     bindP (writes (\<lambda>st. st\<lparr>sv_sessions := col_set (sv_sessions st) client session\<rparr>)) (\<lambda>_.
     case sess_email_hash session of
       None \<Rightarrow> ret ()
     | Some email_hash \<Rightarrow>
         bindP (reads (\<lambda>st. col_get (sv_sessions_by_email_hash st) email_hash)) (\<lambda>found.
         let index = (case found of Some ix \<Rightarrow> ix | None \<Rightarrow> \<lparr>ix_clients = []\<rparr>);
             index' = (if client \<notin> set (ix_clients index)
                       then index\<lparr>ix_clients := ix_clients index @ [client]\<rparr> else index)
         in writes (\<lambda>st. st\<lparr>sv_sessions_by_email_hash :=
              col_set (sv_sessions_by_email_hash st) email_hash index'\<rparr>)))"

definition deactivate_session_process :: "u64 \<Rightarrow> string \<Rightarrow> unit task" where
  "deactivate_session_process now client =
     bindP (reads (\<lambda>st. col_get (sv_sessions st) client)) (\<lambda>found.
     case found of
       None \<Rightarrow> ret ()
     | Some session \<Rightarrow>
         writes (\<lambda>st. st\<lparr>sv_sessions := col_set (sv_sessions st) client
           (session\<lparr>sess_deactivated_at := Some now\<rparr>)\<rparr>))"

definition unlist_session_process :: "string \<Rightarrow> string \<Rightarrow> unit task" where
  "unlist_session_process client email_hash =
     bindP (reads (\<lambda>st. col_get (sv_sessions_by_email_hash st) email_hash)) (\<lambda>found.
     case found of
       None \<Rightarrow> ret ()
     | Some index \<Rightarrow>
         (let clients = filter (\<lambda>c. c \<noteq> client) (ix_clients index)
          in if clients = []
             then writes (\<lambda>st. st\<lparr>sv_sessions_by_email_hash :=
                    col_delete (sv_sessions_by_email_hash st) email_hash\<rparr>)
             else writes (\<lambda>st. st\<lparr>sv_sessions_by_email_hash :=
                    col_set (sv_sessions_by_email_hash st) email_hash
                      (index\<lparr>ix_clients := clients\<rparr>)\<rparr>)))"

definition delete_session_process :: "string \<Rightarrow> unit task" where
  "delete_session_process client =
     bindP (reads (\<lambda>st. col_get (sv_sessions st) client)) (\<lambda>found.
     case found of
       None \<Rightarrow> ret ()
     | Some session \<Rightarrow>
         bindP (case sess_email_hash session of
                  None \<Rightarrow> ret ()
                | Some email_hash \<Rightarrow> unlist_session_process client email_hash) (\<lambda>_.
         writes (\<lambda>st. st\<lparr>sv_sessions := col_delete (sv_sessions st) client\<rparr>)))"

text \<open>\<open>sessions.set(client, {last_activity: now(), ..session})\<close>.\<close>

definition touch_session_process :: "u64 \<Rightarrow> string \<Rightarrow> signer_session \<Rightarrow> unit task" where
  "touch_session_process now client session = writes (touch_session now client session)"

subsection \<open>Handlers\<close>

definition register_process ::
  "('s::field, 'p::ab_group_add, 'z) s_externals_scheme \<Rightarrow> (nat \<Rightarrow> u64) \<Rightarrow> nostr_auth \<Rightarrow>
   register_request \<Rightarrow> register_response task" where
  "register_process E clk auth data =
     (let client = na_pubkey auth;
          grp = rq_group data; share = rq_share data; recovery = rq_recovery data
      in bindP (key_reuse_process client) (\<lambda>reused.
         if reused then ret (respond False ''Do not re-use session keys.'' ())
         else bindP (reads sv_options) (\<lambda>options.
         if get_pow (na_event_id auth) < opt_register_pow options
         then ret (respond False ''Registration requires 16 bits of proof of work (NIP-13).'' ())
         else
           (let threshold = unat (g_threshold grp); total = length (g_commits grp)
            in if threshold = 0 \<or> threshold > total
               then ret (respond False ''Invalid group threshold.'' ())
               else bindP (Return (s_is_group_member E grp share)) (\<lambda>member.
                 if \<not> member
                 then ret (respond False ''Share does not belong to the provided group.'' ())
                 else
                   (let idxs = map c_idx (g_commits grp)
                    in if length (remdups_adj idxs) \<noteq> length idxs
                       then ret (respond False ''Group contains duplicate member indices.'' ())
                       else if \<not> list_ex (\<lambda>c. c_idx c = sh_idx share) (g_commits grp)
                       then ret (respond False ''Share index not found in group commits.'' ())
                       else bindP (reads (\<lambda>st. col_get (sv_sessions st) client)) (\<lambda>found.
                         if found \<noteq> None
                         then ret (respond False ''Client is already registered.'' ())
                         else
                           bindP (add_session_process client
                             (new_session client share grp recovery (clk 2) (clk 3))) (\<lambda>_.
                           ret (respond True ''Your key has been registered'' ())))))))))"

definition recovery_setup_process ::
  "('s, 'p, 'z) s_externals_scheme \<Rightarrow> (nat \<Rightarrow> u64) \<Rightarrow> nostr_auth \<Rightarrow> recovery_setup_request \<Rightarrow>
   recovery_setup_response task" where
  "recovery_setup_process E clk auth data =
     (let client = na_pubkey auth
      in bindP (reads (\<lambda>st. col_get (sv_sessions st) client)) (\<lambda>found.
         case found of
           None \<Rightarrow> ret (respond False ''No session found.'' ())
         | Some session \<Rightarrow>
             if \<not> sess_recovery session
             then ret (respond False ''Recovery is disabled on this session.'' ())
             else if sess_created_at session < saturating_sub (clk 2) (15 * MINUTE_SECS)
             then ret (respond False ''Recovery method must be set within 15 minutes of session.'' ())
             else if sess_email session \<noteq> None
             then ret (respond False ''Recovery has already been initialized.'' ())
             else if \<not> regex_is_hex64 (rsq_password_hash data)
             then ret (respond False ''Recovery method password hash must be an argon2id hash of user email and password.'' ())
             else
               bindP (reads sv_options) (\<lambda>options.
               bindP (Return (hash_email E (rsq_email data) (opt_url options) (opt_argon_m options))) (\<lambda>email_hash.
               bindP (add_session_process client
                 (session\<lparr>sess_last_activity := clk 3, sess_email := Some (rsq_email data),
                    sess_email_hash := Some email_hash,
                    sess_password_hash := Some (rsq_password_hash data)\<rparr>)) (\<lambda>_.
               ret (respond True ''Recovery method successfully initialized.'' ()))))))"

definition challenge_target_process :: "string \<Rightarrow> string option task" where
  "challenge_target_process email_hash =
     bindP (reads (\<lambda>st. col_get (sv_sessions_by_email_hash st) email_hash)) (\<lambda>index.
     case Option.bind index (\<lambda>ix. case ix_clients ix of [] \<Rightarrow> None | client # _ \<Rightarrow> Some client) of
       None \<Rightarrow> ret None
     | Some client \<Rightarrow>
         bindP (reads (\<lambda>st. col_get (sv_sessions st) client)) (\<lambda>session.
         ret (Option.bind session sess_email)))"

definition challenge_process ::
  "('s, 'p, 'z) s_externals_scheme \<Rightarrow> (nat \<Rightarrow> u64) \<Rightarrow> bytes \<Rightarrow> nostr_auth \<Rightarrow> challenge_request \<Rightarrow>
   challenge_response task" where
  "challenge_process E clk buf auth data =
     (let email_hash = cq_email_hash data
      in bindP (reads (\<lambda>st. col_get (sv_rate_limit_by_email_hash st) email_hash)) (\<lambda>bucket.
         if is_rate_limited (clk 0) bucket EMAIL_RATE_LIMITS then ret challenge_reply
         else bindP (challenge_target_process email_hash) (\<lambda>target.
           case target of
             Some email \<Rightarrow>
               bindP (writes (\<lambda>st. st\<lparr>sv_rate_limit_by_email_hash :=
                        col_set (sv_rate_limit_by_email_hash st) email_hash
                          (record_attempt (clk 1) bucket EMAIL_RATE_LIMITS)\<rparr>)) (\<lambda>_.
               bindP (Return (random_int buf 100000 1000000)) (\<lambda>n.
               let otp = cq_prefix data @ dec_digits (unat n)
               in bindP (writes (\<lambda>st. st\<lparr>sv_challenges := col_set (sv_challenges st) email_hash
                           \<lparr>ch_created_at = clk 2, ch_otp = otp\<rparr>\<rparr>)) (\<lambda>_.
                  bindP (reads sv_options) (\<lambda>options.
                  if opt_test_mode options then ret challenge_reply
                  else if opt_mailer options \<noteq> None
                  then (let mail = (challenge_email E otp)\<lparr>ml_to := email\<rparr>
                        in bindP (writes (\<lambda>st. st\<lparr>sv_outbox := sv_outbox st @
                              [(opt_from_email options, opt_from_name options, mail)]\<rparr>)) (\<lambda>_.
                           ret challenge_reply))
                  else Return Panic))))
           | None \<Rightarrow> bindP (Return (debug_slice E email_hash)) (\<lambda>_. ret challenge_reply))))"

definition recovery_start_process ::
  "('s, 'p, 'z) s_externals_scheme \<Rightarrow> (nat \<Rightarrow> u64) \<Rightarrow> nostr_auth \<Rightarrow> recovery_start_request \<Rightarrow>
   recovery_start_response task" where
  "recovery_start_process E clk auth data =
     (let client = na_pubkey auth
      in bindP (key_reuse_process client) (\<lambda>reused.
         if reused then ret (respond False ''Do not re-use session keys.'' None)
         else bindP (authenticated_process E clk (rtq_auth data)) (\<lambda>sessions.
           if sessions = [] then ret (respond False ''No sessions found.'' None)
           else
             (let clients = map sess_client sessions
              in bindP (Return (mapR make_session_item sessions)) (\<lambda>items.
                 bindP (writes (\<lambda>st. st\<lparr>sv_recoveries := col_set (sv_recoveries st) client
                          \<lparr>srec_created_at = clk 2, srec_clients = clients\<rparr>\<rparr>)) (\<lambda>_.
                 ret (respond True ''Successfully retrieved recovery options.'' (Some items))))))))"

definition recovery_select_process ::
  "nostr_auth \<Rightarrow> recovery_select_request \<Rightarrow> recovery_select_response task" where
  "recovery_select_process auth data =
     (let client = na_pubkey auth
      in bindP (reads (\<lambda>st. col_get (sv_recoveries st) client)) (\<lambda>found.
         case found of
           None \<Rightarrow> ret (respond False ''No active recovery found.'' (None, None))
         | Some recovery \<Rightarrow>
             bindP (writes (\<lambda>st. st\<lparr>sv_recoveries := col_delete (sv_recoveries st) client\<rparr>)) (\<lambda>_.
             if clq_client data \<notin> set (srec_clients recovery)
             then ret (respond False ''Invalid session selected for recovery.'' (None, None))
             else
               bindP (reads (\<lambda>st. col_get (sv_sessions st) (clq_client data))) (\<lambda>selected.
               case selected of
                 None \<Rightarrow> ret (respond False ''Recovery session not found.'' (None, None))
               | Some session \<Rightarrow>
                   ret (respond True ''Recovery successfully completed.''
                     (Some (sess_share session), Some (sess_group session)))))))"

definition login_start_process ::
  "('s, 'p, 'z) s_externals_scheme \<Rightarrow> (nat \<Rightarrow> u64) \<Rightarrow> nostr_auth \<Rightarrow> login_start_request \<Rightarrow>
   login_start_response task" where
  "login_start_process E clk auth data =
     (let client = na_pubkey auth
      in bindP (key_reuse_process client) (\<lambda>reused.
         if reused then ret (respond False ''Do not re-use session keys.'' None)
         else bindP (authenticated_process E clk (lsq_auth data)) (\<lambda>sessions.
           if sessions = [] then ret (respond False ''No sessions found.'' None)
           else
             (let clients = map sess_client sessions
              in bindP (Return (mapR make_session_item sessions)) (\<lambda>items.
                 bindP (writes (\<lambda>st. st\<lparr>sv_logins := col_set (sv_logins st) client
                          \<lparr>slog_created_at = clk 2, slog_clients = clients\<rparr>\<rparr>)) (\<lambda>_.
                 ret (respond True ''Successfully retrieved login options.'' (Some items))))))))"

definition login_select_process ::
  "(nat \<Rightarrow> u64) \<Rightarrow> nostr_auth \<Rightarrow> login_select_request \<Rightarrow> login_select_response task" where
  "login_select_process clk auth data =
     (let client = na_pubkey auth
      in bindP (reads (\<lambda>st. col_get (sv_logins st) client)) (\<lambda>found.
         case found of
           None \<Rightarrow> ret (respond False ''No active login found.'' None)
         | Some login \<Rightarrow>
             bindP (writes (\<lambda>st. st\<lparr>sv_logins := col_delete (sv_logins st) client\<rparr>)) (\<lambda>_.
             if clq_client data \<notin> set (slog_clients login)
             then ret (respond False ''Invalid session selected for login.'' None)
             else
               bindP (reads (\<lambda>st. col_get (sv_sessions st) (clq_client data))) (\<lambda>selected.
               case selected of
                 None \<Rightarrow> ret (respond False ''Login session not found.'' None)
               | Some session \<Rightarrow>
                   bindP (add_session_process client
                     \<lparr>sess_client = client, sess_share = sess_share session,
                      sess_group = sess_group session, sess_recovery = True,
                      sess_created_at = clk 2, sess_deactivated_at = None,
                      sess_last_activity = clk 3, sess_email = sess_email session,
                      sess_email_hash = sess_email_hash session,
                      sess_password_hash = sess_password_hash session\<rparr>) (\<lambda>_.
                   ret (respond True ''Login successfully completed.'' (Some (sess_group session))))))))"

definition sign_commit_process ::
  "('s::field, 'p::ab_group_add, 'z) s_externals_scheme \<Rightarrow> (nat \<Rightarrow> u64) \<Rightarrow> (nat \<Rightarrow> bytes) \<Rightarrow>
   nostr_auth \<Rightarrow> sign_commit_request \<Rightarrow> sign_commit_response task" where
  "sign_commit_process E clk rnd auth data =
     (let client = na_pubkey auth
      in bindP (reads (\<lambda>st. col_get (sv_sessions st) client)) (\<lambda>found.
         case found of
           None \<Rightarrow> ret (respond False ''No session found for client'' None)
         | Some session \<Rightarrow>
             if sess_deactivated_at session \<noteq> None
             then ret (respond False ''Session is deactivated'' None)
             else bindP (rate_limit_process clk client) (\<lambda>allowed.
               if \<not> allowed
               then ret (respond False ''Rate limit exceeded. Please try again later.'' None)
               else if sh_idx (sess_share session) \<notin> set (scq_members data)
               then ret (respond False ''Signer index not present in members list'' None)
               else
                 (case decode32 E (sh_seckey (sess_share session)) of
                    None \<Rightarrow> ret (respond False ''Failed to create commitment'' None)
                  | Some seckey \<Rightarrow>
                      (let secret_share = \<lparr>ss_idx = sh_idx (sess_share session), ss_seckey = seckey\<rparr>
                       in bindP (Return (create_commit_pkg E secret_share None None (rnd 1) (rnd 0))) (\<lambda>pkg.
                          let commit_id = random_commit_id E (rnd 2);
                              entry = \<lparr>ce_commit_id = commit_id, ce_members = scq_members data,
                                       ce_secret = cp_secret_nonce pkg, ce_created_at = clk 2\<rparr>
                          in bindP (writes (\<lambda>st. st\<lparr>sv_commits_by_client := (sv_commits_by_client st)
                               (client \<mapsto> (case sv_commits_by_client st client of
                                            None \<Rightarrow> [] | Some p \<Rightarrow> p) @ [entry])\<rparr>)) (\<lambda>_.
                             bindP (Return (get_pubkey_compressed E seckey)) (\<lambda>pubkey.
                             ret (respond True ''Commitment created''
                               (Some \<lparr>scr_commit_id = commit_id,
                                  scr_idx = sh_idx (sess_share session),
                                  scr_pubkey = hex_encode E pubkey,
                                  scr_hidden_pn = hex_encode E (cp_hidden_pn pkg),
                                  scr_binder_pn = hex_encode E (cp_binder_pn pkg)\<rparr>))))))))))"

definition sign_complete_process ::
  "('s::field, 'p::ab_group_add, 'z) s_externals_scheme \<Rightarrow> (nat \<Rightarrow> u64) \<Rightarrow> nostr_auth \<Rightarrow>
   sign_complete_request \<Rightarrow> sign_complete_response task" where
  "sign_complete_process E clk auth data =
     (let client = na_pubkey auth
      in bindP (reads (\<lambda>st. col_get (sv_sessions st) client)) (\<lambda>found.
         case found of
           None \<Rightarrow> ret (respond False ''No session found for client'' None)
         | Some session \<Rightarrow>
             if sess_deactivated_at session \<noteq> None
             then ret (respond False ''Session is deactivated'' None)
             else bindP (rate_limit_process clk client) (\<lambda>allowed.
               if \<not> allowed
               then ret (respond False ''Rate limit exceeded. Please try again later.'' None)
               else bindP (atomically (take_commit (sq_commit_id data) client)) (\<lambda>taken.
                 case taken of
                   None \<Rightarrow> ret (respond False ''Commitment not found or already used'' None)
                 | Some entry \<Rightarrow>
                     if sci_members (sq_request data) \<noteq> ce_members entry
                     then ret (respond False ''Member set does not match commitment'' None)
                     else if \<not> pnonces_cover (sess_group session) (sci_members (sq_request data))
                                 (sq_pnonces data)
                     then ret (respond False ''Invalid public nonce set'' None)
                     else
                       bindP (Return (get_pubkey_compressed E (hidden_sn (ce_secret entry)))) (\<lambda>own_hidden.
                       bindP (Return (get_pubkey_compressed E (binder_sn (ce_secret entry)))) (\<lambda>own_binder.
                       if \<not> list_ex (\<lambda>pn. pni_idx pn = sn_idx (ce_secret entry) \<and>
                              pni_hidden_pn pn = hex_encode E own_hidden \<and>
                              pni_binder_pn pn = hex_encode E own_binder) (sq_pnonces data)
                       then ret (respond False ''Public nonce does not match commitment'' None)
                       else if \<not> verify_session_pkg E (sess_group session) (sq_request data)
                       then ret (respond False ''Failed to verify session package'' None)
                       else
                         (case create_psig_pkg_with_nonce E (sess_group session) (sq_request data)
                                 (sess_share session) (ce_secret entry) (sq_pnonces data) of
                            Ok result \<Rightarrow>
                              bindP (touch_session_process (clk 2) client session) (\<lambda>_.
                              ret (respond True ''Successfully signed event'' (Some result)))
                          | Err e \<Rightarrow> ret (respond False ''Failed to sign event'' None)
                          | Panic \<Rightarrow> Return Panic)))))))"

definition ecdh_process ::
  "('s::field, 'p::ab_group_add, 'z) s_externals_scheme \<Rightarrow> (nat \<Rightarrow> u64) \<Rightarrow> nostr_auth \<Rightarrow>
   ecdh_request \<Rightarrow> ecdh_response task" where
  "ecdh_process E clk auth data =
     (let client = na_pubkey auth
      in bindP (reads (\<lambda>st. col_get (sv_sessions st) client)) (\<lambda>found.
         case found of
           None \<Rightarrow> ret (respond False ''No session found for client'' None)
         | Some session \<Rightarrow>
             if sess_deactivated_at session \<noteq> None
             then ret (respond False ''Session is deactivated'' None)
             else bindP (rate_limit_process clk client) (\<lambda>allowed.
               if \<not> allowed
               then ret (respond False ''Rate limit exceeded. Please try again later.'' None)
               else if eq_ecdh_pk data = GENERATOR_X
               then ret (respond False ''Invalid ECDH public key'' None)
               else
                 (case s_create_ecdh_pkg E data (sess_share session) of
                    Ok result \<Rightarrow>
                      bindP (touch_session_process (clk 2) client session) (\<lambda>_.
                      ret (respond True ''Successfully derived shared secret'' (Some result)))
                  | Err e \<Rightarrow> ret (respond False ''Key derivation failed'' None)
                  | Panic \<Rightarrow> Return Panic))))"

definition session_list_process :: "nostr_auth \<Rightarrow> session_list_response task" where
  "session_list_process auth =
     (let pubkey = na_pubkey auth
      in bindP (reads (\<lambda>st. col_entries (sv_sessions st))) (\<lambda>entries.
         bindP (Return (mapR (\<lambda>(_, s).
           bindR (str_from (g_group_pk (sess_group s)) 2) (\<lambda>pk.
           if pk = pubkey then bindR (make_session_item s) (\<lambda>item. Ok [item]) else Ok [])) entries)) (\<lambda>items.
         ret (respond True ''Successfully retrieved session list.'' (concat items)))))"

definition session_deactivate_process ::
  "(nat \<Rightarrow> u64) \<Rightarrow> nostr_auth \<Rightarrow> session_deactivate_request \<Rightarrow> session_deactivate_response task" where
  "session_deactivate_process clk auth data =
     bindP (reads (owns_session (na_pubkey auth) (clq_client data))) (\<lambda>guard.
     bindP (Return guard) (\<lambda>owned.
     if owned
     then bindP (deactivate_session_process (clk 2) (clq_client data)) (\<lambda>_.
          ret (respond True ''Successfully deactivated selected session.'' ()))
     else ret (respond False ''Failed to deactivate selected session.'' ())))"

definition session_delete_process ::
  "nostr_auth \<Rightarrow> session_delete_request \<Rightarrow> session_delete_response task" where
  "session_delete_process auth data =
     bindP (reads (owns_session (na_pubkey auth) (clq_client data))) (\<lambda>guard.
     bindP (Return guard) (\<lambda>owned.
     if owned
     then bindP (delete_session_process (clq_client data)) (\<lambda>_.
          ret (respond True ''Successfully deleted selected session.'' ()))
     else ret (respond False ''Failed to delete selected session.'' ())))"

fun call_process ::
  "('s::field, 'p::ab_group_add, 'z) s_externals_scheme \<Rightarrow> (nat \<Rightarrow> u64) \<Rightarrow> (nat \<Rightarrow> bytes) \<Rightarrow>
   nostr_auth \<Rightarrow> call \<Rightarrow> reply task" where
  "call_process E clk rnd auth (CChallenge d) = map_process PlainReply (challenge_process E clk (rnd 0) auth d)"
| "call_process E clk rnd auth (CEcdh d) = map_process EcdhReply (ecdh_process E clk auth d)"
| "call_process E clk rnd auth (CLoginSelect d) = map_process LoginSelectReply (login_select_process clk auth d)"
| "call_process E clk rnd auth (CLoginStart d) = map_process ItemsReply (login_start_process E clk auth d)"
| "call_process E clk rnd auth (CRecoverySelect d) = map_process RecoverySelectReply (recovery_select_process auth d)"
| "call_process E clk rnd auth (CRecoverySetup d) = map_process PlainReply (recovery_setup_process E clk auth d)"
| "call_process E clk rnd auth (CRecoveryStart d) = map_process ItemsReply (recovery_start_process E clk auth d)"
| "call_process E clk rnd auth (CRegister d) = map_process PlainReply (register_process E clk auth d)"
| "call_process E clk rnd auth (CSessionDeactivate d) = map_process PlainReply (session_deactivate_process clk auth d)"
| "call_process E clk rnd auth (CSessionDelete d) = map_process PlainReply (session_delete_process auth d)"
| "call_process E clk rnd auth CSessionList = map_process SessionListReply (session_list_process auth)"
| "call_process E clk rnd auth (CSignCommit d) = map_process SignCommitReply (sign_commit_process E clk rnd auth d)"
| "call_process E clk rnd auth (CSignComplete d) = map_process SignCompleteReply (sign_complete_process E clk auth d)"

subsection \<open>Clean-up\<close>

fun purge_process ::
  "(nat \<Rightarrow> 'v \<Rightarrow> bool) \<Rightarrow> (string \<Rightarrow> signer \<Rightarrow> signer) \<Rightarrow> nat \<Rightarrow> (string \<times> 'v) list \<Rightarrow> unit task" where
  "purge_process p delete n [] = ret ()"
| "purge_process p delete n (kv # kvs) =
     (if p n (snd kv)
      then bindP (writes (delete (fst kv))) (\<lambda>_. purge_process p delete (Suc n) kvs)
      else purge_process p delete (Suc n) kvs)"

definition cleanup_process :: "(nat \<Rightarrow> u64) \<Rightarrow> unit task" where
  "cleanup_process clk =
     (let cutoff_15m = saturating_sub (clk 0) (15 * MINUTE_SECS);
          cutoff_month = saturating_sub (clk 1) MONTH_SECS
      in bindP (reads (\<lambda>st. col_entries (sv_recoveries st))) (\<lambda>recoveries.
         bindP (purge_process (\<lambda>_ r. srec_created_at r < cutoff_15m)
           (\<lambda>k st. st\<lparr>sv_recoveries := col_delete (sv_recoveries st) k\<rparr>) 0 recoveries) (\<lambda>_.
         bindP (reads (\<lambda>st. col_entries (sv_logins st))) (\<lambda>logins.
         bindP (purge_process (\<lambda>_ l. slog_created_at l < cutoff_15m)
           (\<lambda>k st. st\<lparr>sv_logins := col_delete (sv_logins st) k\<rparr>) 0 logins) (\<lambda>_.
         bindP (reads (\<lambda>st. col_entries (sv_challenges st))) (\<lambda>challenges.
         bindP (purge_process (\<lambda>_ c. ch_created_at c < cutoff_15m)
           (\<lambda>k st. st\<lparr>sv_challenges := col_delete (sv_challenges st) k\<rparr>) 0 challenges) (\<lambda>_.
         bindP (reads (\<lambda>st. col_entries (sv_rate_limit_by_email_hash st))) (\<lambda>emails.
         bindP (purge_process
           (\<lambda>i b. b_last_attempt b < saturating_sub (clk (2 + i)) (window_seconds EMAIL_RATE_LIMITS))
           (\<lambda>k st. st\<lparr>sv_rate_limit_by_email_hash := col_delete (sv_rate_limit_by_email_hash st) k\<rparr>)
           0 emails) (\<lambda>_.
         bindP (reads (\<lambda>st. col_entries (sv_rate_limit_by_client st))) (\<lambda>clients.
         bindP (purge_process
           (\<lambda>i b. b_last_attempt b <
              saturating_sub (clk (2 + length emails + i)) (window_seconds CLIENT_RATE_LIMITS))
           (\<lambda>k st. st\<lparr>sv_rate_limit_by_client := col_delete (sv_rate_limit_by_client st) k\<rparr>)
           0 clients) (\<lambda>_.
         bindP (reads (\<lambda>st. col_entries (sv_sessions st))) (\<lambda>sessions.
         bindP (purge_process (\<lambda>_ s. sess_last_activity s < cutoff_month)
           (\<lambda>k st. st\<lparr>sv_sessions := col_delete (sv_sessions st) k\<rparr>) 0 sessions) (\<lambda>_.
         writes (\<lambda>st. st\<lparr>sv_commits_by_client := retain_commits
           (saturating_sub (clk (2 + length emails + length clients)) COMMIT_TTL_SECS)
           (sv_commits_by_client st)\<rparr>))))))))))))))"

subsection \<open>Without interruption\<close>

text \<open>An uninterrupted sequence is the \<open>bindA\<close> of the handlers; branches distribute.\<close>

lemma alone_bind:
  "uninterrupted (bindP p f) st =
     (case uninterrupted p st of (r, st') \<Rightarrow> bindA r st' (\<lambda>x. uninterrupted (f x) st'))"
  by (simp add: uninterrupted_bind bindA_def split: prod.split res.split)

lemma alone_branches:
  "uninterrupted (if b then p else q) st = (if b then uninterrupted p st else uninterrupted q st)"
  "uninterrupted (case opt of None \<Rightarrow> p | Some x \<Rightarrow> f x) st =
     (case opt of None \<Rightarrow> uninterrupted p st | Some x \<Rightarrow> uninterrupted (f x) st)"
  "uninterrupted (case m of Ok x \<Rightarrow> f x | Err e \<Rightarrow> g e | Panic \<Rightarrow> p) st =
     (case m of Ok x \<Rightarrow> uninterrupted (f x) st | Err e \<Rightarrow> uninterrupted (g e) st
              | Panic \<Rightarrow> uninterrupted p st)"
  by (simp_all split: option.split res.split)

lemma alone_steps:
  "uninterrupted (reads f) s = (Ok (f s), s)" "uninterrupted (writes g) s = (Ok (), g s)"
  "uninterrupted (atomically h) s = (Ok (fst (h s)), snd (h s))" "uninterrupted (Return r) s = (r, s)"
  by simp_all

lemmas alone_rules = alone_bind alone_branches alone_steps prod.case bindA_simps Let_def split_def fst_conv snd_conv

named_theorems alone \<open>what the processes do when nothing interrupts them\<close>

lemma rate_limit_alone [alone]:
  "uninterrupted (rate_limit_process clk client) st =
     (Ok (fst (check_and_record_rate_limit clk client st)), snd (check_and_record_rate_limit clk client st))"
  by (simp add: rate_limit_process_def check_and_record_rate_limit_def Let_def)

lemma sessions_alone [alone]:
  "uninterrupted (sessions_process cs) st = (Ok (List.map_filter (col_get (sv_sessions st)) cs), st)"
  by (induction cs) (simp_all add: uninterrupted_bind map_filter_simps split: option.split)

lemma authenticated_alone [alone]:
  "uninterrupted (authenticated_process E clk auth) st = get_authenticated_sessions E clk auth st"
proof -
  have "uninterrupted (candidates_process auth clients) st =
      (case auth of
         Password pa \<Rightarrow>
           (Ok (filter (\<lambda>s. case sess_password_hash s of None \<Rightarrow> False
                              | Some h \<Rightarrow> ct_str_eq h (pa_password_hash pa))
                 (List.map_filter (col_get (sv_sessions st)) clients)), st)
       | Otp oa \<Rightarrow>
           (case col_get (sv_challenges st) (auth_email_hash auth) of
              None \<Rightarrow> (Ok [], st)
            | Some challenge \<Rightarrow>
                (let st' = st\<lparr>sv_challenges := col_delete (sv_challenges st) (auth_email_hash auth)\<rparr>
                 in if ct_str_eq (oa_otp oa) (ch_otp challenge)
                    then (Ok (List.map_filter (col_get (sv_sessions st')) clients), st') else (Ok [], st'))))"
    for clients
    by (auto simp: candidates_process_def uninterrupted_bind alone Let_def split: auth.split option.split)
  note candidates = this
  show ?thesis
    by (simp add: authenticated_process_def get_authenticated_sessions_def uninterrupted_bind candidates Let_def
        split: option.split auth.split)
qed

lemma key_reuse_alone [alone]:
  "uninterrupted (key_reuse_process client) st = (Ok (check_key_reuse client st), st)"
  by (simp add: key_reuse_process_def check_key_reuse_def)

lemma add_session_alone [alone]:
  "uninterrupted (add_session_process client session) st = (Ok (), add_session client session st)"
  by (simp add: add_session_process_def add_session_def Let_def split: option.split)

lemma deactivate_session_alone [alone]:
  "uninterrupted (deactivate_session_process t client) st = (Ok (), deactivate_session t client st)"
  by (simp add: deactivate_session_process_def deactivate_session_def split: option.split)

lemma delete_session_alone [alone]:
  "uninterrupted (delete_session_process client) st = (Ok (), delete_session client st)"
  by (simp add: delete_session_process_def delete_session_def unlist_session_process_def uninterrupted_bind
      Let_def split: option.split)

lemma touch_session_alone [alone]:
  "uninterrupted (touch_session_process t client session) st = (Ok (), touch_session t client session st)"
  by (simp add: touch_session_process_def)

lemma challenge_target_alone [alone]:
  "uninterrupted (challenge_target_process h) st = (Ok (challenge_target h st), st)"
  by (cases "col_get (sv_sessions_by_email_hash st) h")
    (simp_all add: challenge_target_process_def challenge_target_def split: list.split)

lemma register_alone [alone]:
  "uninterrupted (register_process E clk auth d) st = handle_register E clk auth d st"
  by (simp add: register_process_def handle_register_def uninterrupted_bind alone bindA_def Let_def
      split: res.split)

lemma recovery_setup_alone [alone]:
  "uninterrupted (recovery_setup_process E clk auth d) st = handle_recovery_setup E clk auth d st"
  by (simp add: recovery_setup_process_def handle_recovery_setup_def uninterrupted_bind alone bindA_def
      Let_def split: res.split option.split)

lemma challenge_alone [alone]:
  "uninterrupted (challenge_process E clk buf auth d) st = handle_challenge E clk buf auth d st"
  by (simp add: challenge_process_def handle_challenge_def uninterrupted_bind alone bindA_def
      Let_def split: res.split option.split)

lemma recovery_start_alone [alone]:
  "uninterrupted (recovery_start_process E clk auth d) st = handle_recovery_start E clk auth d st"
  by (simp add: recovery_start_process_def handle_recovery_start_def uninterrupted_bind alone bindA_def
      Let_def split: res.split prod.split)

lemma recovery_select_alone [alone]:
  "uninterrupted (recovery_select_process auth d) st = handle_recovery_select auth d st"
  by (simp add: recovery_select_process_def handle_recovery_select_def Let_def split: option.split)

lemma login_start_alone [alone]:
  "uninterrupted (login_start_process E clk auth d) st = handle_login_start E clk auth d st"
  by (simp add: login_start_process_def handle_login_start_def uninterrupted_bind alone bindA_def
      Let_def split: res.split prod.split)

lemma login_select_alone [alone]:
  "uninterrupted (login_select_process clk auth d) st = handle_login_select clk auth d st"
  by (simp add: login_select_process_def handle_login_select_def uninterrupted_bind alone
      Let_def split: option.split)

lemma sign_commit_alone [alone]:
  "uninterrupted (sign_commit_process E clk rnd auth d) st = handle_sign_commit E clk rnd auth d st"
  by (simp only: sign_commit_process_def handle_sign_commit_def alone_rules alone refl cong: option.case_cong)

lemma sign_complete_alone [alone]:
  "uninterrupted (sign_complete_process E clk auth d) st = handle_sign_complete E clk auth d st"
  by (simp only: sign_complete_process_def handle_sign_complete_def alone_rules alone)

lemma ecdh_alone [alone]:
  "uninterrupted (ecdh_process E clk auth d) st = handle_ecdh E clk auth d st"
  by (simp add: ecdh_process_def handle_ecdh_def uninterrupted_bind alone
      Let_def split: res.split option.split prod.split)

lemma session_list_alone [alone]:
  "uninterrupted (session_list_process auth) st = handle_session_list auth st"
  by (simp add: session_list_process_def handle_session_list_def uninterrupted_bind bindA_def
      Let_def split: res.split)

lemma session_deactivate_alone [alone]:
  "uninterrupted (session_deactivate_process clk auth d) st = handle_session_deactivate clk auth d st"
  by (simp add: session_deactivate_process_def handle_session_deactivate_def uninterrupted_bind alone bindA_def
      split: res.split)

lemma session_delete_alone [alone]:
  "uninterrupted (session_delete_process auth d) st = handle_session_delete auth d st"
  by (simp add: session_delete_process_def handle_session_delete_def uninterrupted_bind alone bindA_def
      split: res.split)

lemma map_process_alone: "uninterrupted (map_process f p) st = map_action f (uninterrupted p st)"
  by (simp add: map_process_def uninterrupted_bind map_action_def mapR_val_def split: res.split prod.split)

theorem call_alone: "uninterrupted (call_process E clk rnd auth c) st = perform E clk rnd auth c st"
  by (cases c) (simp_all add: map_process_alone alone)

lemma purge_alone:
  assumes "\<And>k st. delete k st = put (col_delete (fetch st) k) st"
    and "\<And>c st. fetch (put c st) = c" and "\<And>c c' st. put c (put c' st) = put c st"
    and "\<And>st. put (fetch st) st = st"
  shows "uninterrupted (purge_process p delete n kvs) st = (Ok (), put (purge_loop p n kvs (fetch st)) st)"
  by (induction kvs arbitrary: n st) (simp_all add: assms)

lemma cleanup_alone [alone]: "uninterrupted (cleanup_process clk) st = (Ok (), cleanup clk st)"
proof -
  note purges = purge_alone [where fetch = sv_recoveries and put = "\<lambda>c st. st\<lparr>sv_recoveries := c\<rparr>"]
    purge_alone [where fetch = sv_logins and put = "\<lambda>c st. st\<lparr>sv_logins := c\<rparr>"]
    purge_alone [where fetch = sv_challenges and put = "\<lambda>c st. st\<lparr>sv_challenges := c\<rparr>"]
    purge_alone [where fetch = sv_rate_limit_by_email_hash and put = "\<lambda>c st. st\<lparr>sv_rate_limit_by_email_hash := c\<rparr>"]
    purge_alone [where fetch = sv_rate_limit_by_client and put = "\<lambda>c st. st\<lparr>sv_rate_limit_by_client := c\<rparr>"]
    purge_alone [where fetch = sv_sessions and put = "\<lambda>c st. st\<lparr>sv_sessions := c\<rparr>"]
  show ?thesis by (simp add: cleanup_process_def cleanup_def uninterrupted_bind purges Let_def)
qed

end
