(* ===== verification/Signer_Concurrent.thy ===== *)
theory Signer_Concurrent
  imports Signer_Processes Signer_Trace
begin

text \<open>
  The signer under concurrent calls: a pool of handler calls and clean-ups whose steps interleave
  in any order, over a restart when none is under way.  The contract \<open>shared_state\<close> is
  interpreted for the commitments: one is a token that only \<open>/sign/commit\<close> creates and only one
  completion can hold.  (\<open>Signer_Integrity\<close> interprets it for the stored data.)
\<close>

subsection \<open>Jobs\<close>

datatype job = Serve nostr_auth call "nat \<Rightarrow> u64" "nat \<Rightarrow> bytes" | Clean "nat \<Rightarrow> u64"

fun job_process ::
  "('s::field, 'p::ab_group_add, 'z) s_externals_scheme \<Rightarrow> job \<Rightarrow> reply option task" where
  "job_process E (Serve auth c clk rnd) = map_process Some (call_process E clk rnd auth c)"
| "job_process E (Clean clk) = map_process (\<lambda>_. None) (cleanup_process clk)"

fun job_ok :: "job \<Rightarrow> bool" where
  "job_ok (Serve auth c clk rnd) = (call_valid c \<and> clock_ok clk)"
| "job_ok (Clean clk) = True"

type_synonym job_pool = "(job, signer, reply option) pool"

definition served ::
  "('s::field, 'p::ab_group_add, 'z) s_externals_scheme \<Rightarrow> signer_options \<Rightarrow> job_pool \<Rightarrow> signer \<Rightarrow> bool" where
  "served E opts = concurrent (job_process E) job_ok (signer_open opts) (signer_reopen opts)"

text \<open>Calls one after the other are a special case.\<close>

lemma served_call:
  assumes "served E opts pool st" and "call_valid c" and "clock_ok clk"
    and "perform E clk rnd auth c st = (r, st')"
  shows "served E opts (pool @ [(Serve auth c clk rnd, Return (mapR_val Some r))]) st'"
  using concurrent_call_alone [of "job_process E" job_ok "signer_open opts" "signer_reopen opts" pool st
      "Serve auth c clk rnd" "mapR_val Some r" st'] assms
  by (simp add: served_def map_process_alone call_alone map_action_def)

lemma run_served:
  "run E opts tr st \<Longrightarrow> \<exists>pool. served E opts pool st \<and> list_all (\<lambda>(l, p). finished p) pool"
proof (induction rule: run.induct)
  case run_open
  have "served E opts [] (signer_open opts)" unfolding served_def by (rule conc_init)
  then show ?case by (intro exI [of _ "[]"]) simp
next
  case (run_call tr st c clk rnd auth r st')
  then obtain pool where "served E opts pool st" "list_all (\<lambda>(l, p). finished p) pool" by blast
  with run_call show ?case
    by (intro exI [of _ "pool @ [(Serve auth c clk rnd, Return (mapR_val Some r))]"]) (simp add: served_call)
next
  case (run_cleanup tr st clk)
  then obtain pool where pool: "served E opts pool st" "list_all (\<lambda>(l, p). finished p) pool" by blast
  then have "served E opts (pool @ [(Clean clk, Return (Ok None))]) (cleanup clk st)"
    using concurrent_call_alone [of "job_process E" job_ok "signer_open opts" "signer_reopen opts" pool st
        "Clean clk" "Ok None" "cleanup clk st"]
    by (simp add: served_def map_process_alone cleanup_alone map_action_def)
  then show ?case using pool(2) by (intro exI [of _ "pool @ [(Clean clk, Return (Ok None))]"]) simp
next
  case (run_restart tr st)
  then obtain pool where "served E opts pool st" "list_all (\<lambda>(l, p). finished p) pool" by blast
  then show ?case by (intro exI [of _ pool]) (simp add: served_def conc_restart)
qed

subsection \<open>Commitments are tokens\<close>

text \<open>A \<open>/sign/commit\<close> of key \<open>k\<close> that draws the id \<open>i\<close>, and a \<open>/sign/complete\<close> that signs with it.\<close>

fun draws :: "('s::field, 'p::ab_group_add, 'z) s_externals_scheme \<Rightarrow> string \<Rightarrow> string \<Rightarrow> job \<Rightarrow> bool" where
  "draws E k i (Serve auth (CSignCommit d) clk rnd) = (na_pubkey auth = k \<and> random_commit_id E (rnd 2) = i)"
| "draws E k i _ = False"

fun completion :: "string \<Rightarrow> string \<Rightarrow> job \<Rightarrow> bool" where
  "completion k i (Serve auth (CSignComplete d) clk rnd) = (na_pubkey auth = k \<and> sq_commit_id d = i)"
| "completion k i _ = False"

fun signed_answer :: "reply option res \<Rightarrow> bool" where
  "signed_answer (Ok (Some (SignCompleteReply resp))) = resp_ok resp"
| "signed_answer _ = False"

definition signed_with :: "string \<Rightarrow> string \<Rightarrow> job \<times> (signer, reply option) process \<Rightarrow> bool" where
  "signed_with k i jp \<longleftrightarrow>
     (case snd jp of Return r \<Rightarrow> completion k i (fst jp) \<and> signed_answer r | Atomic cont g \<Rightarrow> False)"

lemma untouched_purge [intro!]:
  "(\<And>k s. h (del k s) = h s) \<Longrightarrow> untouched h (purge_process p del n kvs)"
  by (induction kvs arbitrary: n) auto

lemma untouched_sessions [intro!]: "untouched h (sessions_process cs)"
  by (induction cs) auto

abbreviation commits_kept :: "'a task \<Rightarrow> bool" where "commits_kept \<equiv> untouched sv_commits_by_client"

lemma helpers_commits [intro!]:
  "commits_kept (rate_limit_process clk c)" "commits_kept (authenticated_process E clk a)"
  "commits_kept (key_reuse_process c)" "commits_kept (add_session_process c s)"
  "commits_kept (deactivate_session_process t c)" "commits_kept (delete_session_process c)"
  "commits_kept (touch_session_process t c s)" "commits_kept (challenge_target_process h)"
  by (auto simp: rate_limit_process_def authenticated_process_def candidates_process_def
      key_reuse_process_def add_session_process_def deactivate_session_process_def
      delete_session_process_def unlist_session_process_def touch_session_process_def touch_session_def
      challenge_target_process_def Let_def split: option.split auth.split)

lemma untouched_map [intro!]: "untouched h p \<Longrightarrow> untouched h (map_process f p)"
  by (auto simp: map_process_def)

lemma handlers_commits [intro!]:
  "commits_kept (register_process E clk auth rq)" "commits_kept (recovery_setup_process E clk auth rsq)"
  "commits_kept (challenge_process E clk buf auth cq)" "commits_kept (recovery_start_process E clk auth rtq)"
  "commits_kept (recovery_select_process auth clq)" "commits_kept (login_start_process E clk auth lsq)"
  "commits_kept (login_select_process clk auth clq)" "commits_kept (ecdh_process E clk auth eq)"
  "commits_kept (session_list_process auth)" "commits_kept (session_deactivate_process clk auth clq)"
  "commits_kept (session_delete_process auth clq)"
  by (auto simp: register_process_def recovery_setup_process_def challenge_process_def
      recovery_start_process_def recovery_select_process_def login_start_process_def
      login_select_process_def ecdh_process_def session_list_process_def session_deactivate_process_def
      session_delete_process_def Let_def split: option.split res.split)

lemma call_commits:
  "(\<And>d. c \<noteq> CSignCommit d) \<Longrightarrow> (\<And>d. c \<noteq> CSignComplete d) \<Longrightarrow> commits_kept (call_process E clk rnd auth c)"
  by (cases c) auto

lemma pend_touch [simp]: "pend k i (touch_session t c s st) = pend k i st"
  by (rule pend_cong) (simp add: touch_session_def)

lemma commits_kept_tokens:
  "commits_kept p \<Longrightarrow> (\<And>r. Q n r) \<Longrightarrow> keeps (\<lambda>_. True) (pend k i) p Q n"
  by (rule untouched_keeps [where h = sv_commits_by_client]) (auto intro: pend_cong)

lemma rate_limit_tokens:
  "(\<And>b. keeps (\<lambda>_. True) (pend k i) (f b) Q n) \<Longrightarrow> (\<And>e. Q n (Err e)) \<Longrightarrow> Q n Panic \<Longrightarrow>
   keeps (\<lambda>_. True) (pend k i) (bindP (rate_limit_process clk c) f) Q n"
  by (rule keeps_bind_rule [where R = "\<lambda>m r. m = n"]) (auto intro: commits_kept_tokens)

lemma sign_commit_tokens:
  "keeps (\<lambda>_. True) (pend k i) (sign_commit_process E clk rnd auth d) (\<lambda>_ _. True)
     (if na_pubkey auth = k \<and> random_commit_id E (rnd 2) = i then 1 else 0)"
proof -
  have push: "pend k i (st\<lparr>sv_commits_by_client := (sv_commits_by_client st)(c \<mapsto>
        (case sv_commits_by_client st c of None \<Rightarrow> [] | Some p \<Rightarrow> p) @ [e])\<rparr>) =
      pend k i st + (if c = k \<and> ce_commit_id e = i then 1 else 0)" for st c e
    by (auto simp: pend_def pending_of_def split: option.split)
  show ?thesis
    unfolding sign_commit_process_def Let_def
    by (intro keeps_control rate_limit_tokens keeps_writes_pay [where m = 0] TrueI)
      (simp_all add: push)
qed

lemma take_tokens:
  assumes "\<And>entry. keeps (\<lambda>_. True) (pend k i) (f (Some entry)) Q (n + (if c = k \<and> j = i then 1 else 0))"
    and "keeps (\<lambda>_. True) (pend k i) (f None) Q n"
  shows "keeps (\<lambda>_. True) (pend k i) (bindP (atomically (take_commit j c)) f) Q n"
proof (rule keeps_atomically)
  fix st
  obtain taken st' where t: "take_commit j c st = (taken, st')" by fastforce
  show "\<exists>n'. True \<and> pend k i (snd (take_commit j c st)) + n' \<le> pend k i st + n \<and>
      keeps (\<lambda>_. True) (pend k i) (f (fst (take_commit j c st))) Q n'"
  proof (cases taken)
    case None
    then have "st' = st" using t by (auto elim: take_commit_cases)
    then show ?thesis using t None assms(2) by auto
  next
    case (Some entry)
    then show ?thesis using t pend_take [of j c st entry st' k i] assms(1) [of entry]
      by (intro exI [of _ "n + (if c = k \<and> j = i then 1 else 0)"]) auto
  qed
qed

lemma sign_complete_tokens:
  "keeps (\<lambda>_. True) (pend k i) (sign_complete_process E clk auth d)
     (\<lambda>n r. na_pubkey auth = k \<longrightarrow> sq_commit_id d = i \<longrightarrow> (\<exists>resp. r = Ok resp \<and> resp_ok resp) \<longrightarrow> 0 < n) 0"
  unfolding sign_complete_process_def Let_def touch_session_process_def
  by (intro keeps_control rate_limit_tokens take_tokens keeps_writes)
    simp_all

lemma cleanup_tokens: "keeps (\<lambda>_. True) (pend k i) (cleanup_process clk) (\<lambda>_ _. True) n"
proof -
  have both: "length (filter (\<lambda>x. A x \<and> B x) xs) \<le> length (filter B xs)" for A B and xs :: "commit_entry list"
    by (induction xs) auto
  have retain: "pend k i (st\<lparr>sv_commits_by_client := retain_commits t (sv_commits_by_client st)\<rparr>) \<le> pend k i st"
    for t st
    by (auto simp: pend_def pending_of_def retain_commits_def Let_def both split: option.splits)
  have purge: "keeps (\<lambda>_. True) (pend k i) (bindP (purge_process p del m kvs) f) Q n"
    if "\<And>key st. sv_commits_by_client (del key st) = sv_commits_by_client st"
      and "\<And>x. keeps (\<lambda>_. True) (pend k i) (f x) Q n" and "\<And>e. Q n (Err e)" "Q n Panic"
    for p :: "nat \<Rightarrow> 'v \<Rightarrow> bool" and del m kvs f and Q :: "nat \<Rightarrow> unit res \<Rightarrow> bool"
    by (rule keeps_bind_rule [where R = "\<lambda>m r. m = n"]) (use that in \<open>auto intro: commits_kept_tokens\<close>)
  show ?thesis
    unfolding cleanup_process_def Let_def
    by (intro keeps_reads purge keeps_writes_last) (simp_all add: retain)
qed

lemma call_tokens:
  "keeps (\<lambda>_. True) (pend k i) (call_process E clk rnd auth c)
     (\<lambda>n r. completion k i (Serve auth c clk rnd) \<and> signed_answer (mapR_val Some r) \<longrightarrow> 0 < n)
     (if draws E k i (Serve auth c clk rnd) then 1 else 0)"
proof (cases c)
  case (CSignCommit d)
  show ?thesis
    unfolding CSignCommit call_process.simps map_process_def draws.simps
    by (rule keeps_bind_rule [OF sign_commit_tokens]) (auto simp: mapR_val_def)
next
  case (CSignComplete d)
  show ?thesis
    unfolding CSignComplete call_process.simps map_process_def draws.simps if_False
    by (rule keeps_bind_rule [OF sign_complete_tokens]) (auto simp: mapR_val_def)
qed (intro commits_kept_tokens call_commits; simp)+

lemma job_tokens:
  "keeps (\<lambda>_. True) (pend k i) (job_process E j) (\<lambda>n r. completion k i j \<and> signed_answer r \<longrightarrow> 0 < n)
     (if draws E k i j then 1 else 0)"
proof (cases j)
  case (Clean clk)
  then show ?thesis
    unfolding Clean job_process.simps map_process_def
    by (intro keeps_bind_rule [OF cleanup_tokens]) simp_all
next
  case (Serve auth c clk rnd)
  show ?thesis
    unfolding Serve job_process.simps map_process_def
    by (rule keeps_bind_rule [OF call_tokens]) auto
qed

interpretation commitments:
  shared_state "job_process E" job_ok "signer_open opts" "signer_reopen opts" "\<lambda>_. True" "pend k i"
    "\<lambda>j. if draws E k i j then 1 else 0" "\<lambda>j n r. completion k i j \<and> signed_answer r \<longrightarrow> 0 < n"
  for E :: "('s::field, 'p::ab_group_add, 'z) s_externals_scheme" and opts k i
  by unfold_locales
    (simp_all add: job_tokens pend_def pending_of_def signer_open_def signer_reopen_def)

text \<open>Completions that sign are at most as many as commitments that drew the id.\<close>

lemma commitments_sign_once:
  assumes "served E opts pool st"
  shows "length (filter (signed_with k i) pool) \<le> length (filter (draws E k i \<circ> fst) pool)"
proof -
  have "signed_with k i = (\<lambda>(j, p). case p of Return r \<Rightarrow> completion k i j \<and> signed_answer r | Atomic cont g \<Rightarrow> False)"
    by (auto simp: signed_with_def fun_eq_iff split: process.splits)
  moreover have "sum_list (map ((\<lambda>j. if draws E k i j then 1 else 0) \<circ> fst) pool) =
      length (filter (draws E k i \<circ> fst) pool)"
    by (induction pool) auto
  ultimately show ?thesis
    using commitments.pool_count [OF assms [unfolded served_def],
        of k i "\<lambda>j r. completion k i j \<and> signed_answer r"] by simp
qed

subsection \<open>Bounded steps\<close>

text \<open>A login or recovery start reads the sessions its email's index lists; the other calls take at
  most eight steps.\<close>

fun starts :: "call \<Rightarrow> bool" where
  "starts (CLoginStart d) = True"
| "starts (CRecoveryStart d) = True"
| "starts _ = False"

lemma sessions_within: "within (sessions_process cs) (length cs)"
  by (induction cs) (auto intro!: within_binds within_bind within_control)

lemma helpers_within:
  "within (rate_limit_process clk c) 2" "within (key_reuse_process c) 3" "within (add_session_process c s) 3"
  "within (deactivate_session_process t c) 2" "within (delete_session_process c) 4"
  "within (touch_session_process t c s) 1" "within (challenge_target_process h) 2"
  unfolding rate_limit_process_def key_reuse_process_def add_session_process_def
    deactivate_session_process_def delete_session_process_def unlist_session_process_def
    touch_session_process_def challenge_target_process_def Let_def
  by (intro within_binds within_bind [where n = 2] within_control within_steps; simp)+

lemma handlers_within:
  "within (register_process E clk auth rq) 8" "within (recovery_setup_process E clk auth rsq) 8"
  "within (challenge_process E clk buf auth cq) 8" "within (recovery_select_process auth clq) 8"
  "within (login_select_process clk auth clq) 8" "within (sign_commit_process E clk rnd auth scq) 8"
  "within (sign_complete_process E clk auth sq) 8" "within (ecdh_process E clk auth eq) 8"
  "within (session_list_process auth) 8" "within (session_deactivate_process clk auth clq) 8"
  "within (session_delete_process auth clq) 8"
  unfolding register_process_def recovery_setup_process_def challenge_process_def
    recovery_select_process_def login_select_process_def sign_commit_process_def
    sign_complete_process_def ecdh_process_def session_list_process_def
    session_deactivate_process_def session_delete_process_def Let_def
  by (intro within_binds helpers_within [THEN within_bind] within_control; simp)+

lemma call_within: "\<not> starts c \<Longrightarrow> within (call_process E clk rnd auth c) 8"
  by (cases c) (auto simp: map_process_def intro!: handlers_within [THEN within_bind] within_control)

text \<open>No email has more than \<open>m\<close> sessions in the index.\<close>

definition lists_at_most :: "nat \<Rightarrow> signer \<Rightarrow> bool" where
  "lists_at_most m st \<longleftrightarrow>
     (\<forall>h ix. col_get (sv_sessions_by_email_hash st) h = Some ix \<longrightarrow> length (ix_clients ix) \<le> m)"

lemma candidates_within:
  assumes "length cs \<le> m"
  shows "within (candidates_process auth cs) (2 + m)"
proof -
  have "within (sessions_process cs) m" using sessions_within assms by (rule within_mono)
  then show ?thesis
    unfolding candidates_process_def
    by (cases auth; simp only: auth.case) (intro within_binds within_bind [where n = m] within_control; simp)+
qed

lemma authenticated_within:
  "within_while (lists_at_most m) (authenticated_process E clk auth) (5 + m)"
proof -
  have rest: "within_while (lists_at_most m)
      (bindP (reads (\<lambda>st. col_get (sv_sessions_by_email_hash st) h)) (\<lambda>index.
         bindP (case index of None \<Rightarrow> ret [] | Some ix \<Rightarrow> candidates_process auth (ix_clients ix)) (\<lambda>sessions.
         if sessions = [] then bindP (writes g) (\<lambda>_. ret sessions) else ret sessions))) (4 + m)" for h g
  proof (rule within_reads)
    fix st
    assume "lists_at_most m st"
    then have "within (case col_get (sv_sessions_by_email_hash st) h of
        None \<Rightarrow> ret [] | Some ix \<Rightarrow> candidates_process auth (ix_clients ix)) (2 + m)"
      by (intro within_control candidates_within) (simp add: lists_at_most_def)
    from within_while_any [OF this, of "lists_at_most m"]
    show "within_while (lists_at_most m)
        (bindP (case col_get (sv_sessions_by_email_hash st) h of
            None \<Rightarrow> ret [] | Some ix \<Rightarrow> candidates_process auth (ix_clients ix)) (\<lambda>sessions.
         if sessions = [] then bindP (writes g) (\<lambda>_. ret sessions) else ret sessions)) (4 + m - 1)"
      by (rule within_bind) (simp, intro within_binds within_control, simp_all)
  qed simp
  show ?thesis
    unfolding authenticated_process_def Let_def
    by (rule within_binds(1), simp, rule within_control(2), rule within_control(1), rule within_mono, rule rest, simp)
qed

lemma starts_within:
  "within_while (lists_at_most m) (login_start_process E clk a lsq) (9 + m)"
  "within_while (lists_at_most m) (recovery_start_process E clk a rtq) (9 + m)"
  unfolding login_start_process_def recovery_start_process_def Let_def
  by (intro within_binds within_control within_bind [OF within_while_any [OF helpers_within(2)]]
      within_bind [OF authenticated_within]; simp)+

lemma call_within_listed:
  "within_while (lists_at_most m) (call_process E clk rnd auth c) (if starts c then 9 + m else 8)"
proof (cases "starts c")
  case True
  then show ?thesis
    by (cases c) (simp_all add: map_process_def, (rule starts_within [THEN within_bind], simp_all add: within_control)+)
qed (simp add: call_within within_while_any)

end
