(* ===== verification/Signer_Integrity.thy ===== *)
theory Signer_Integrity
  imports Signer_Concurrent Server
begin

text \<open>
  What interleaved calls cannot break.  Every stored session holds a member's share of a valid
  group, the attempt counters and the index entries are well-formed, and the calls that only need
  this never panic.  That the index lists every session, and that a key has one role, holds for
  uninterrupted calls only.
\<close>

definition data_inv ::
  "('s::field, 'p::ab_group_add, 'z) s_externals_scheme \<Rightarrow> signer_options \<Rightarrow> signer \<Rightarrow> bool" where
  "data_inv E opts st \<longleftrightarrow>
     sv_options st = opts \<and> sessions_ok E st \<and> index_wf st \<and> buckets_ok st \<and> commits_wf st \<and>
     cols_sorted st"

lemmas data_inv_defs =
  data_inv_def sessions_ok_def index_wf_def buckets_ok_def commits_wf_def cols_sorted_def

lemma data_inv_open: "data_inv E opts (signer_open opts)"
  by (simp add: data_inv_defs signer_open_def bucket_ok_def col_sorted_def)

lemma data_inv_reopen: "data_inv E opts st \<Longrightarrow> data_inv E opts (signer_reopen opts st)"
  by (simp add: data_inv_defs signer_reopen_def signer_open_def)

subsection \<open>What is read\<close>

lemma data_session: "data_inv E opts st \<Longrightarrow> col_get (sv_sessions st) k = Some s \<Longrightarrow> session_ok E k s"
  by (simp add: data_inv_def sessions_ok_def)

lemma data_options: "data_inv E opts st \<Longrightarrow> sv_options st = opts"
  by (simp add: data_inv_def)

lemma data_buckets:
  assumes "data_inv E opts st"
  shows "bucket_ok CLIENT_RATE_LIMITS (col_get (sv_rate_limit_by_client st) k)"
    and "bucket_ok EMAIL_RATE_LIMITS (col_get (sv_rate_limit_by_email_hash st) k)"
  using assms by (simp_all add: data_inv_def buckets_ok_def)

lemma data_index:
  "data_inv E opts st \<Longrightarrow> col_get (sv_sessions_by_email_hash st) h = Some ix \<Longrightarrow>
   ix_clients ix \<noteq> [] \<and> distinct (ix_clients ix)"
  by (simp add: data_inv_def index_wf_def)

lemma data_entry:
  "data_inv E opts st \<Longrightarrow> (k, s) \<in> set (col_entries (sv_sessions st)) \<Longrightarrow> session_ok E k s"
  unfolding data_inv_def by (elim conjE entry_session)

subsection \<open>What is written\<close>

lemma data_writes [intro]:
  "data_inv E opts st \<Longrightarrow> session_ok E k s \<Longrightarrow>
    data_inv E opts (st\<lparr>sv_sessions := col_set (sv_sessions st) k s\<rparr>)"
  "data_inv E opts st \<Longrightarrow> data_inv E opts (st\<lparr>sv_sessions := col_delete (sv_sessions st) k\<rparr>)"
  "data_inv E opts st \<Longrightarrow> ix_clients ix \<noteq> [] \<and> distinct (ix_clients ix) \<Longrightarrow>
    data_inv E opts (st\<lparr>sv_sessions_by_email_hash := col_set (sv_sessions_by_email_hash st) h ix\<rparr>)"
  "data_inv E opts st \<Longrightarrow>
    data_inv E opts (st\<lparr>sv_sessions_by_email_hash := col_delete (sv_sessions_by_email_hash st) h\<rparr>)"
  "data_inv E opts st \<Longrightarrow> data_inv E opts (st\<lparr>sv_challenges := col_set (sv_challenges st) h c\<rparr>)"
  "data_inv E opts st \<Longrightarrow> data_inv E opts (st\<lparr>sv_challenges := col_delete (sv_challenges st) h\<rparr>)"
  "data_inv E opts st \<Longrightarrow> data_inv E opts (st\<lparr>sv_recoveries := col_set (sv_recoveries st) k rc\<rparr>)"
  "data_inv E opts st \<Longrightarrow> data_inv E opts (st\<lparr>sv_recoveries := col_delete (sv_recoveries st) k\<rparr>)"
  "data_inv E opts st \<Longrightarrow> data_inv E opts (st\<lparr>sv_logins := col_set (sv_logins st) k lg\<rparr>)"
  "data_inv E opts st \<Longrightarrow> data_inv E opts (st\<lparr>sv_logins := col_delete (sv_logins st) k\<rparr>)"
  "data_inv E opts st \<Longrightarrow> bucket_ok CLIENT_RATE_LIMITS (Some b) \<Longrightarrow>
    data_inv E opts (st\<lparr>sv_rate_limit_by_client := col_set (sv_rate_limit_by_client st) k b\<rparr>)"
  "data_inv E opts st \<Longrightarrow>
    data_inv E opts (st\<lparr>sv_rate_limit_by_client := col_delete (sv_rate_limit_by_client st) k\<rparr>)"
  "data_inv E opts st \<Longrightarrow> bucket_ok EMAIL_RATE_LIMITS (Some b) \<Longrightarrow>
    data_inv E opts (st\<lparr>sv_rate_limit_by_email_hash := col_set (sv_rate_limit_by_email_hash st) k b\<rparr>)"
  "data_inv E opts st \<Longrightarrow>
    data_inv E opts (st\<lparr>sv_rate_limit_by_email_hash := col_delete (sv_rate_limit_by_email_hash st) k\<rparr>)"
  "data_inv E opts st \<Longrightarrow> data_inv E opts (st\<lparr>sv_outbox := ms\<rparr>)"
  "data_inv E opts st \<Longrightarrow> (\<And>c. m c \<noteq> Some []) \<Longrightarrow> data_inv E opts (st\<lparr>sv_commits_by_client := m\<rparr>)"
  by (auto simp: data_inv_defs col_sorted_set col_sorted_delete bucket_ok_def)

lemma data_take_commit:
  assumes "data_inv E opts st"
  shows "data_inv E opts (snd (take_commit i k st))"
proof -
  obtain e st1 where t: "take_commit i k st = (e, st1)" by fastforce
  then have "data_inv E opts st1"
  proof (cases rule: take_commit_cases)
    case missing
    then show ?thesis using assms by simp
  next
    case (taken entry m)
    have "m c \<noteq> Some []" for c
      using taken(3,6) taken(5) [of c] assms by (cases "c = k") (auto simp: data_inv_def commits_wf_def)
    then show ?thesis using taken(3) assms by (auto intro!: data_writes)
  qed
  then show ?thesis using t by simp
qed

subsection \<open>Helpers\<close>

definition data_keeps ::
  "('s::field, 'p::ab_group_add, 'z) s_externals_scheme \<Rightarrow> signer_options \<Rightarrow> 'a task \<Rightarrow> ('a res \<Rightarrow> bool) \<Rightarrow> bool" where
  "data_keeps E opts p Q \<longleftrightarrow> keeps (data_inv E opts) (\<lambda>_. 0) p (\<lambda>n r. n = 0 \<and> Q r) 0"

named_theorems data_rules \<open>rules for \<open>data_keeps\<close>, one for each construct and helper\<close>

lemma data_keeps_Return [data_rules]: "Q r \<Longrightarrow> data_keeps E opts (Return r) Q"
  by (simp add: data_keeps_def)

lemma data_keeps_if [data_rules]:
  "(b \<Longrightarrow> data_keeps E opts p Q) \<Longrightarrow> (\<not> b \<Longrightarrow> data_keeps E opts q Q) \<Longrightarrow> data_keeps E opts (if b then p else q) Q"
  by simp

lemma data_keeps_option [data_rules]:
  "(opt = None \<Longrightarrow> data_keeps E opts p Q) \<Longrightarrow> (\<And>x. opt = Some x \<Longrightarrow> data_keeps E opts (f x) Q) \<Longrightarrow>
   data_keeps E opts (case opt of None \<Rightarrow> p | Some x \<Rightarrow> f x) Q"
  by (cases opt) simp_all

lemma data_keeps_res [data_rules]:
  assumes "\<And>x. r = Ok x \<Longrightarrow> data_keeps E opts (f x) Q" and "\<And>e. r = Err e \<Longrightarrow> data_keeps E opts (g e) Q"
    and "r = Panic \<Longrightarrow> data_keeps E opts p Q"
  shows "data_keeps E opts (case r of Ok x \<Rightarrow> f x | Err e \<Rightarrow> g e | Panic \<Rightarrow> p) Q"
  using assms by (cases r) simp_all

lemma data_keeps_pure [data_rules]:
  assumes "\<And>x. r = Ok x \<Longrightarrow> data_keeps E opts (f x) Q" and "\<And>e. r = Err e \<Longrightarrow> Q (Err e)"
    and "r = Panic \<Longrightarrow> Q Panic"
  shows "data_keeps E opts (bindP (Return r) f) Q"
  using assms by (cases r) (simp_all add: data_keeps_def)

lemma data_keeps_reads [data_rules]:
  "(\<And>st. data_inv E opts st \<Longrightarrow> data_keeps E opts (f (h st)) Q) \<Longrightarrow> data_keeps E opts (bindP (reads h) f) Q"
  unfolding data_keeps_def by (rule keeps_reads)

lemma data_keeps_options:
  "data_keeps E opts (f opts) Q \<Longrightarrow> data_keeps E opts (bindP (reads sv_options) f) Q"
  by (rule data_keeps_reads) (simp add: data_options)

lemma data_keeps_session:
  assumes "data_keeps E opts (f None) Q" and "\<And>s. session_ok E k s \<Longrightarrow> data_keeps E opts (f (Some s)) Q"
  shows "data_keeps E opts (bindP (reads (\<lambda>st. col_get (sv_sessions st) k)) f) Q"
proof (rule data_keeps_reads)
  fix st
  assume "data_inv E opts st"
  then show "data_keeps E opts (f (col_get (sv_sessions st) k)) Q"
    using assms by (cases "col_get (sv_sessions st) k") (simp_all add: data_session)
qed

lemma data_keeps_writes [data_rules]:
  "(\<And>st. data_inv E opts st \<Longrightarrow> data_inv E opts (g st)) \<Longrightarrow> data_keeps E opts (f ()) Q \<Longrightarrow>
   data_keeps E opts (bindP (writes g) f) Q"
  unfolding data_keeps_def by (rule keeps_writes) simp_all

lemma data_keeps_last [data_rules]:
  "(\<And>st. data_inv E opts st \<Longrightarrow> data_inv E opts (g st)) \<Longrightarrow> Q (Ok ()) \<Longrightarrow> data_keeps E opts (writes g) Q"
  unfolding data_keeps_def by (rule keeps_writes_last) simp_all

lemma data_keeps_bind:
  assumes "data_keeps E opts p R" and "\<And>x. R (Ok x) \<Longrightarrow> data_keeps E opts (f x) Q"
    and "\<And>e. R (Err e) \<Longrightarrow> Q (Err e)" and "R Panic \<Longrightarrow> Q Panic"
  shows "data_keeps E opts (bindP p f) Q"
  unfolding data_keeps_def
  by (rule keeps_bind_rule [OF assms(1) [unfolded data_keeps_def]])
    (use assms(2-4) in \<open>auto simp: data_keeps_def\<close>)

lemma data_keeps_mono:
  "data_keeps E opts p R \<Longrightarrow> (\<And>r. R r \<Longrightarrow> Q r) \<Longrightarrow> data_keeps E opts p Q"
  unfolding data_keeps_def by (erule keeps_mono) simp

lemma rate_limit_data:
  assumes "clk 0 \<le> clk 1"
  shows "data_keeps E opts (rate_limit_process clk c) (\<lambda>r. \<exists>b. r = Ok b)"
  unfolding rate_limit_process_def
  by (intro data_rules data_writes recorded_bucket_ok [OF _ _ assms client_policy.rate_policy_axioms])
    (auto intro: data_buckets)

lemma sessions_data:
  "data_keeps E opts (sessions_process cs) (\<lambda>r. \<exists>ss. r = Ok ss \<and> (\<forall>s \<in> set ss. \<exists>c. session_ok E c s))"
proof (induction cs)
  case Nil
  show ?case by (simp add: data_keeps_Return)
next
  case (Cons c cs)
  show ?case
    unfolding sessions_process.simps
    by (intro data_rules data_keeps_bind [OF Cons.IH])
      (auto split: option.split dest: data_session)
qed

lemma authenticated_data:
  assumes "clk 0 \<le> clk 1"
  shows "data_keeps E opts (authenticated_process E clk a)
    (\<lambda>r. (\<exists>ss. r = Ok ss \<and> (\<forall>s \<in> set ss. \<exists>c. session_ok E c s)) \<or> (r = Panic \<and> log_debug E))"
proof -
  have candidates: "data_keeps E opts (candidates_process a cs)
      (\<lambda>r. \<exists>ss. r = Ok ss \<and> (\<forall>s \<in> set ss. \<exists>c. session_ok E c s))" for cs
    unfolding candidates_process_def
    by (cases a; simp; intro data_rules data_keeps_bind [OF sessions_data] sessions_data data_writes) auto
  have slice: "debug_slice E h = Panic \<and> log_debug E \<or> debug_slice E h = Ok ()" for h
    by (auto simp: debug_slice_def str_upto_def)
  show ?thesis
    unfolding authenticated_process_def Let_def
  proof (rule data_keeps_reads, intro data_keeps_if data_keeps_reads)
    fix st
    show "data_keeps E opts (Return (bindR (debug_slice E (auth_email_hash a)) (\<lambda>_. Ok [])))
      (\<lambda>r. (\<exists>ss. r = Ok ss \<and> (\<forall>s \<in> set ss. \<exists>c. session_ok E c s)) \<or> (r = Panic \<and> log_debug E))"
      using slice [of "auth_email_hash a"] by (auto intro!: data_keeps_Return)
  next
    fix st st'
    assume bucket: "data_inv E opts st" "\<not> is_rate_limited (clk 0)
      (col_get (sv_rate_limit_by_email_hash st) (auth_email_hash a)) EMAIL_RATE_LIMITS"
    note ok = recorded_bucket_ok [OF data_buckets(2) [OF bucket(1)] bucket(2) assms email_policy.rate_policy_axioms]
    show "data_keeps E opts
      (bindP (case col_get (sv_sessions_by_email_hash st') (auth_email_hash a) of
                None \<Rightarrow> ret [] | Some ix \<Rightarrow> candidates_process a (ix_clients ix)) (\<lambda>sessions.
         if sessions = []
         then bindP (writes (\<lambda>s. s\<lparr>sv_rate_limit_by_email_hash :=
                  col_set (sv_rate_limit_by_email_hash s) (auth_email_hash a)
                    (record_attempt (clk 1)
                      (col_get (sv_rate_limit_by_email_hash st) (auth_email_hash a)) EMAIL_RATE_LIMITS)\<rparr>))
                (\<lambda>_. ret sessions)
         else ret sessions))
      (\<lambda>r. (\<exists>ss. r = Ok ss \<and> (\<forall>s \<in> set ss. \<exists>c. session_ok E c s)) \<or> (r = Panic \<and> log_debug E))"
      by (rule data_keeps_bind [where R = "\<lambda>r. \<exists>ss. r = Ok ss \<and> (\<forall>s \<in> set ss. \<exists>c. session_ok E c s)"])
        (auto intro!: data_rules data_writes candidates ok simp del: One_nat_def)
  qed
qed

lemma key_reuse_data: "data_keeps E opts (key_reuse_process c) (\<lambda>r. \<exists>b. r = Ok b)"
  unfolding key_reuse_process_def by (intro data_rules) auto

lemma add_session_data:
  assumes "session_ok E c s"
  shows "data_keeps E opts (add_session_process c s) (\<lambda>r. r = Ok ())"
  unfolding add_session_process_def Let_def
  by (intro data_rules data_writes assms) (auto dest: data_index split: option.splits)

lemma deactivate_session_data: "data_keeps E opts (deactivate_session_process t c) (\<lambda>r. r = Ok ())"
  unfolding deactivate_session_process_def
  by (intro data_rules data_writes) (auto dest: data_session)

lemma delete_session_data: "data_keeps E opts (delete_session_process c) (\<lambda>r. r = Ok ())"
proof -
  have "data_keeps E opts (unlist_session_process c h) (\<lambda>r. r = Ok ())" for h
    unfolding unlist_session_process_def Let_def
    by (intro data_rules data_writes) (auto dest: data_index)
  then show ?thesis
    unfolding delete_session_process_def
    by (intro data_rules data_writes data_keeps_bind [where R = "\<lambda>r. r = Ok ()"]) (auto intro: data_rules)
qed

lemma touch_session_data:
  assumes "session_ok E c s"
  shows "data_keeps E opts (touch_session_process t c s) (\<lambda>r. r = Ok ())"
  unfolding touch_session_process_def touch_session_def
  by (intro data_rules data_writes) (use assms in auto)

lemma challenge_target_data: "data_keeps E opts (challenge_target_process h) (\<lambda>r. \<exists>t. r = Ok t)"
  unfolding challenge_target_process_def by (intro data_rules) auto

subsection \<open>Handlers\<close>

text \<open>Debug logging is off, a mailer is there if one is needed, and the server's URL is a salt.\<close>

definition able ::
  "('s::field, 'p::ab_group_add, 'z) s_externals_scheme \<Rightarrow> signer_options \<Rightarrow> bool" where
  "able E opts \<longleftrightarrow> \<not> log_debug E \<and> (opt_test_mode opts \<or> opt_mailer opts \<noteq> None) \<and>
     (\<forall>e. length e \<le> ARGON2_MAX \<longrightarrow> hash_email E e (opt_url opts) (opt_argon_m opts) \<noteq> Panic)"

abbreviation answers_if :: "bool \<Rightarrow> 'a res \<Rightarrow> bool" where
  "answers_if b r \<equiv> b \<longrightarrow> (\<exists>x. r = Ok x)"

lemma register_data:
  assumes "register_request_valid d"
  shows "data_keeps E opts (register_process E clk auth d) (\<lambda>_. True)"
  unfolding register_process_def Let_def
  by (intro data_rules data_keeps_bind [OF key_reuse_data] data_keeps_bind [OF add_session_data]
      new_session_ok [OF assms] TrueI) (auto simp: not_less)

lemma recovery_setup_data:
  "data_keeps E opts (recovery_setup_process E clk auth d)
     (answers_if (able E opts \<and> length (rsq_email d) \<le> ARGON2_MAX))"
proof -
  have hash: "hash_email E e u m \<noteq> Err x" for e u m x
    by (auto simp: hash_email_def split: option.split)
  have ok: "able E opts \<and> length (rsq_email d) \<le> ARGON2_MAX \<Longrightarrow>
      hash_email E (rsq_email d) (opt_url opts) (opt_argon_m opts) \<noteq> Panic"
    by (simp add: able_def)
  show ?thesis
    unfolding recovery_setup_process_def Let_def
    by (rule data_keeps_session; intro data_keeps_options data_rules data_keeps_bind [OF add_session_data])
      (use ok in \<open>auto simp: session_ok_def hash\<close>)
qed

lemma challenge_data:
  assumes "clk 0 \<le> clk 1"
  shows "data_keeps E opts (challenge_process E clk buf auth d) (answers_if (able E opts))"
proof -
  have otp: "\<exists>n. random_int buf 100000 1000000 = Ok n" by (simp add: random_int_def Let_def)
  have slice: "able E opts \<Longrightarrow> debug_slice E h = Ok ()" for h by (simp add: able_def debug_slice_def)
  have mailer: "able E opts \<Longrightarrow> opt_test_mode opts \<or> opt_mailer opts \<noteq> None" by (simp add: able_def)
  show ?thesis
    unfolding challenge_process_def Let_def
    by (intro data_keeps_options data_rules data_keeps_bind [OF challenge_target_data] data_writes
        recorded_bucket_ok [OF data_buckets(2) _ assms email_policy.rate_policy_axioms])
      (use otp slice mailer in auto)
qed

lemma items_ok:
  assumes "\<forall>s \<in> set ss. \<exists>c. session_ok E c s"
  shows "mapR make_session_item ss = Ok (map session_item_of ss)"
  using assms make_session_item_ok by (intro mapR_Ok_map) blast

lemma recovery_start_data:
  assumes "clk 0 \<le> clk 1"
  shows "data_keeps E opts (recovery_start_process E clk auth d) (answers_if (able E opts))"
  unfolding recovery_start_process_def Let_def
  by (intro data_rules data_writes data_keeps_bind [OF key_reuse_data]
      data_keeps_bind [OF authenticated_data [of clk, OF assms]])
    (auto simp: items_ok able_def)

lemma login_start_data:
  assumes "clk 0 \<le> clk 1"
  shows "data_keeps E opts (login_start_process E clk auth d) (answers_if (able E opts))"
  unfolding login_start_process_def Let_def
  by (intro data_rules data_writes data_keeps_bind [OF key_reuse_data]
      data_keeps_bind [OF authenticated_data [of clk, OF assms]])
    (auto simp: items_ok able_def)

lemma recovery_select_data: "data_keeps E opts (recovery_select_process auth d) (answers_if b)"
  unfolding recovery_select_process_def Let_def by (intro data_rules data_writes) auto

lemma login_select_data: "data_keeps E opts (login_select_process clk auth d) (answers_if b)"
  unfolding login_select_process_def Let_def
  by (intro data_rules data_writes data_keeps_bind [OF add_session_data])
    (auto dest!: data_session simp: session_ok_def)

lemma sign_commit_data:
  assumes "clk 0 \<le> clk 1"
  shows "data_keeps E opts (sign_commit_process E clk rnd auth d) (\<lambda>_. True)"
  unfolding sign_commit_process_def Let_def
  by (intro data_rules data_writes data_keeps_bind [OF rate_limit_data [of clk, OF assms]] TrueI)
    (auto simp: data_inv_def commits_wf_def)

lemma take_commit_data:
  assumes "\<And>taken. data_keeps E opts (f taken) Q"
  shows "data_keeps E opts (bindP (atomically (take_commit i k)) f) Q"
  unfolding data_keeps_def
  by (rule keeps_atomically) (use assms in \<open>auto simp: data_take_commit data_keeps_def\<close>)

lemma sign_complete_data:
  assumes "clk 0 \<le> clk 1"
  shows "data_keeps E opts (sign_complete_process E clk auth d) (\<lambda>_. True)"
  unfolding sign_complete_process_def Let_def
  by (rule data_keeps_session; intro data_rules data_keeps_bind [OF rate_limit_data [of clk, OF assms]]
      data_keeps_bind [OF touch_session_data] take_commit_data TrueI) auto

lemma ecdh_data:
  assumes "clk 0 \<le> clk 1"
  shows "data_keeps E opts (ecdh_process E clk auth d) (\<lambda>_. True)"
  unfolding ecdh_process_def Let_def
  by (rule data_keeps_session; intro data_rules data_keeps_bind [OF rate_limit_data [of clk, OF assms]]
      data_keeps_bind [OF touch_session_data] TrueI) auto

lemma session_list_data: "data_keeps E opts (session_list_process auth) (answers_if b)"
  unfolding session_list_process_def Let_def
proof (rule data_keeps_reads)
  fix st
  assume inv: "data_inv E opts st"
  show "data_keeps E opts (bindP (Return (mapR (\<lambda>(_, s).
      bindR (str_from (g_group_pk (sess_group s)) 2) (\<lambda>pk.
      if pk = na_pubkey auth then bindR (make_session_item s) (\<lambda>item. Ok [item]) else Ok []))
      (col_entries (sv_sessions st))))
      (\<lambda>items. ret (respond True ''Successfully retrieved session list.'' (concat items)))) (answers_if b)"
    using entries_items [OF data_entry [OF inv]] by (intro data_rules) auto
qed

lemma owns_session_ok:
  "data_inv E opts st \<Longrightarrow> owns_session key client st \<noteq> Panic \<and> owns_session key client st \<noteq> Err e"
  unfolding data_inv_def by (elim conjE) (simp add: owns_session_eq)

lemma session_deactivate_data: "data_keeps E opts (session_deactivate_process clk auth d) (answers_if b)"
  unfolding session_deactivate_process_def
  by (intro data_rules data_keeps_bind [OF deactivate_session_data]) (auto simp: owns_session_ok)

lemma session_delete_data: "data_keeps E opts (session_delete_process auth d) (answers_if b)"
  unfolding session_delete_process_def
  by (intro data_rules data_keeps_bind [OF delete_session_data]) (auto simp: owns_session_ok)

subsection \<open>Clean-up\<close>

lemma purge_data:
  assumes "\<And>k st. data_inv E opts st \<Longrightarrow> data_inv E opts (del k st)"
  shows "data_keeps E opts (purge_process p del n kvs) (\<lambda>r. r = Ok ())"
  by (induction kvs arbitrary: n) (auto intro!: data_rules assms)

lemma cleanup_data: "data_keeps E opts (cleanup_process clk) (\<lambda>r. r = Ok ())"
  unfolding cleanup_process_def Let_def
  by (intro data_keeps_reads data_keeps_last data_keeps_bind [OF purge_data] data_writes)
    (auto simp: retain_commits_def Let_def split: option.split)

subsection \<open>All calls\<close>

fun session_job :: "job \<Rightarrow> bool" where
  "session_job (Serve auth c clk rnd) = (session_call c \<and> email_fits c)"
| "session_job (Clean clk) = True"

lemma map_process_data:
  "data_keeps E opts p (answers_if b) \<Longrightarrow> data_keeps E opts (map_process f p) (answers_if b)"
  unfolding map_process_def by (erule data_keeps_bind) (auto intro: data_rules)

lemma map_process_kept:
  "data_keeps E opts p (\<lambda>_. True) \<Longrightarrow> data_keeps E opts (map_process f p) (\<lambda>_. True)"
  unfolding map_process_def by (erule data_keeps_bind) (auto intro: data_rules)

lemma call_data:
  assumes "call_valid c" and "clk 0 \<le> clk 1"
  shows "data_keeps E opts (call_process E clk rnd auth c) (answers_if (able E opts \<and> session_call c \<and> email_fits c))"
proof (cases "session_call c")
  case True
  then show ?thesis using assms(2)
    by (cases c) (auto simp del: One_nat_def intro!: map_process_data challenge_data login_start_data login_select_data
        recovery_setup_data recovery_start_data recovery_select_data session_list_data
        session_deactivate_data session_delete_data)
next
  case False
  then have "data_keeps E opts (call_process E clk rnd auth c) (\<lambda>_. True)" using assms
    by (cases c) (auto simp del: One_nat_def intro!: map_process_kept register_data sign_commit_data
        sign_complete_data ecdh_data)
  then show ?thesis by (rule data_keeps_mono) (simp add: False)
qed

text \<open>What a job returns: a call a reply, the clean-up none.\<close>

fun returns :: "job \<Rightarrow> reply option res \<Rightarrow> bool" where
  "returns (Serve auth c clk rnd) r = (\<exists>reply. r = Ok (Some reply))"
| "returns (Clean clk) r = (r = Ok None)"

lemma job_data:
  assumes "job_ok j"
  shows "data_keeps E opts (job_process E j) (\<lambda>r. able E opts \<and> session_job j \<longrightarrow> returns j r)"
proof (cases j)
  case (Serve auth c clk rnd)
  have "data_keeps E opts (call_process E clk rnd auth c) (answers_if (able E opts \<and> session_call c \<and> email_fits c))"
    by (rule call_data) (use assms Serve clock_okD in simp_all)
  then show ?thesis
    unfolding Serve job_process.simps map_process_def by (rule data_keeps_bind) (auto intro: data_rules)
next
  case (Clean clk)
  show ?thesis
    unfolding Clean job_process.simps map_process_def
    by (rule data_keeps_bind [OF cleanup_data]) (auto intro: data_rules)
qed

interpretation integrity:
  shared_state "job_process E" job_ok "signer_open opts" "signer_reopen opts" "data_inv E opts" "\<lambda>_. 0"
    "\<lambda>_. 0" "\<lambda>j n r. n = 0 \<and> (able E opts \<and> session_job j \<longrightarrow> returns j r)"
  for E :: "('s::field, 'p::ab_group_add, 'z) s_externals_scheme" and opts
  by unfold_locales
    (use job_data in \<open>simp_all add: data_inv_open data_inv_reopen data_keeps_def\<close>)

lemma served_data: "served E opts pool st \<Longrightarrow> data_inv E opts st"
  unfolding served_def by (rule integrity.pool_inv)

lemma served_returns:
  "served E opts pool st \<Longrightarrow> (j, Return r) \<in> set pool \<Longrightarrow> able E opts \<Longrightarrow> session_job j \<Longrightarrow> returns j r"
  unfolding served_def using integrity.pool_post by fastforce

lemma served_session_calls_answer:
  assumes "server_start P args = Ok (opts, cipher)" and served: "served E opts pool st"
    and reply: "(Serve auth c clk rnd, Return r) \<in> set pool"
    and "session_call c" and "\<not> log_debug E"
    and argon: "argon2_laws E" "argon2_salt (ag_url args)" "email_fits c"
  shows "\<exists>reply. r = Ok (Some reply)"
proof -
  have "able E opts"
    using assms(5) server_start_options(1) [OF assms(1)] served_hash [OF assms(1) argon(1,2)]
    by (simp add: able_def)
  then show ?thesis using served_returns [OF served reply] assms(4) argon(3) by simp
qed

end
