(* ===== verification/Process_Trace.thy ===== *)
theory Process_Trace
  imports Process
begin

text \<open>
  What has happened in an execution: \<open>traced\<close> is \<open>concurrent\<close> with the list of the steps so far, each
  with the call that made it, the state it found and the state it left.  The locale
  \<open>traced_contract\<close> proves what a call has seen before it goes on, one call at a time: what
  is true of a trace stays true, whatever other calls do.
\<close>

type_synonym ('l, 's) trace = "('l \<times> 's \<times> 's) list"

inductive traced ::
  "('l \<Rightarrow> ('s, 'a) process) \<Rightarrow> ('l \<Rightarrow> bool) \<Rightarrow> 's \<Rightarrow> ('s \<Rightarrow> 's) \<Rightarrow> ('l, 's, 'a) pool \<Rightarrow> 's \<Rightarrow> ('l, 's) trace \<Rightarrow> bool"
  for body ok init restart where
  traced_init: "traced body ok init restart [] init []"
| traced_call: "traced body ok init restart pool s tr \<Longrightarrow> ok l \<Longrightarrow>
    traced body ok init restart (pool @ [(l, body l)]) s tr"
| traced_step: "traced body ok init restart (ps @ (l, Atomic cont g) # qs) s tr \<Longrightarrow>
    traced body ok init restart (ps @ (l, cont s) # qs) (g s) (tr @ [(l, s, g s)])"
| traced_restart: "traced body ok init restart pool s tr \<Longrightarrow> list_all (\<lambda>(l, p). finished p) pool \<Longrightarrow>
    traced body ok init restart pool (restart s) tr"

lemma traced_concurrent: "traced body ok init restart pool s tr \<Longrightarrow> concurrent body ok init restart pool s"
proof (induction rule: traced.induct)
  case (traced_step ps l cont g qs s tr)
  then show ?case using conc_step pool_step.intros by metis
qed (auto intro: concurrent.intros)

lemma concurrent_traced: "concurrent body ok init restart pool s \<Longrightarrow> \<exists>tr. traced body ok init restart pool s tr"
proof (induction rule: concurrent.induct)
  case (conc_step pool s pool' s')
  then obtain tr where "traced body ok init restart pool s tr" by blast
  then show ?case using conc_step.hyps(2) by (auto elim!: pool_stepE dest: traced_step)
qed (blast intro: traced.intros)+

subsection \<open>What a process has seen\<close>

text \<open>
  \<open>attests K I l p Q tr\<close>: from the trace \<open>tr\<close> on, every step of the process \<open>p\<close> of call \<open>l\<close> keeps \<open>I\<close>
  when it finds a state with \<open>K\<close>, and \<open>Q\<close> holds of the result from then on.
\<close>

primrec attests ::
  "('s \<Rightarrow> bool) \<Rightarrow> (('l, 's) trace \<Rightarrow> 's \<Rightarrow> bool) \<Rightarrow> 'l \<Rightarrow> ('s, 'a) process \<Rightarrow>
   (('l, 's) trace \<Rightarrow> 'a res \<Rightarrow> bool) \<Rightarrow> ('l, 's) trace \<Rightarrow> bool" where
  "attests K I l (Return r) = (\<lambda>Q tr. \<forall>more. Q (tr @ more) r)"
| "attests K I l (Atomic cont g) = (\<lambda>Q tr. \<forall>more s. K s \<longrightarrow> I (tr @ more) s \<longrightarrow>
     I (tr @ more @ [(l, s, g s)]) (g s) \<and> attests K I l (cont s) Q (tr @ more @ [(l, s, g s)]))"

lemma attests_later: "attests K I l p Q tr \<Longrightarrow> attests K I l p Q (tr @ more)"
proof (cases p)
  case (Atomic cont g)
  moreover assume "attests K I l p Q tr"
  ultimately show ?thesis by (auto simp: append_assoc) (metis append_assoc)+
qed simp

lemma attests_mono:
  "attests K I l p Q tr \<Longrightarrow> (\<And>more r. Q (tr @ more) r \<Longrightarrow> Q' (tr @ more) r) \<Longrightarrow> attests K I l p Q' tr"
proof (induction p arbitrary: tr)
  case (Atomic cont g)
  show ?case
    unfolding attests.simps
  proof (intro allI impI)
    fix more s
    assume s: "K s" "I (tr @ more) s"
    have later: "Q (tr @ more @ [(l, s, g s)] @ more') r \<Longrightarrow> Q' (tr @ more @ [(l, s, g s)] @ more') r" for more' r
      using Atomic.prems(2) by blast
    show "I (tr @ more @ [(l, s, g s)]) (g s) \<and> attests K I l (cont s) Q' (tr @ more @ [(l, s, g s)])"
      using Atomic.prems(1) s later by (auto intro!: Atomic.IH [OF rangeI])
  qed
qed simp

lemma attests_lasting: "attests K I l p Q tr \<Longrightarrow> attests K I l p (\<lambda>tr r. \<forall>more. Q (tr @ more) r) tr"
  by (induction p arbitrary: tr) (simp, simp)

lemma attests_bind:
  "attests K I l p (\<lambda>tr r. case r of Ok x \<Rightarrow> attests K I l (f x) Q tr | Err e \<Rightarrow> Q tr (Err e) | Panic \<Rightarrow> Q tr Panic) tr \<Longrightarrow>
   attests K I l (bindP p f) Q tr"
proof (induction p arbitrary: tr)
  case (Return r)
  then show ?case by (cases r) (auto dest: spec [of _ "[]"])
qed simp

lemma attests_bind_rule:
  assumes "attests K I l p R tr"
    and "\<And>x more. R (tr @ more) (Ok x) \<Longrightarrow> attests K I l (f x) Q (tr @ more)"
    and "\<And>e more. R (tr @ more) (Err e) \<Longrightarrow> Q (tr @ more) (Err e)"
    and "\<And>more. R (tr @ more) Panic \<Longrightarrow> Q (tr @ more) Panic"
  shows "attests K I l (bindP p f) Q tr"
  by (rule attests_bind) (rule attests_mono [OF assms(1)], auto split: res.split intro: assms(2-4))

lemma attests_reads:
  assumes "\<And>more s. K s \<Longrightarrow> I (tr @ more) s \<Longrightarrow>
      I (tr @ more @ [(l, s, s)]) s \<and> attests K I l (f (h s)) Q (tr @ more @ [(l, s, s)])"
  shows "attests K I l (bindP (reads h) f) Q tr"
  using assms by (simp add: reads_def)

lemma attests_writes:
  assumes "\<And>more s. K s \<Longrightarrow> I (tr @ more) s \<Longrightarrow>
      I (tr @ more @ [(l, s, g s)]) (g s) \<and> attests K I l (f ()) Q (tr @ more @ [(l, s, g s)])"
  shows "attests K I l (bindP (writes g) f) Q tr"
  using assms by (simp add: writes_def)

lemma attests_Return: "(\<And>more. Q (tr @ more) r) \<Longrightarrow> attests K I l (Return r) Q tr"
  by simp

lemma attests_bind_Return:
  assumes "\<And>x. r = Ok x \<Longrightarrow> attests K I l (f x) Q tr" and "\<And>e more. r = Err e \<Longrightarrow> Q (tr @ more) (Err e)"
    and "\<And>more. r = Panic \<Longrightarrow> Q (tr @ more) Panic"
  shows "attests K I l (bindP (Return r) f) Q tr"
  using assms by (cases r) simp_all

lemma attests_if:
  "(b \<Longrightarrow> attests K I l p Q tr) \<Longrightarrow> (\<not> b \<Longrightarrow> attests K I l q Q tr) \<Longrightarrow> attests K I l (if b then p else q) Q tr"
  by simp

lemma attests_option:
  "(opt = None \<Longrightarrow> attests K I l p Q tr) \<Longrightarrow> (\<And>x. opt = Some x \<Longrightarrow> attests K I l (f x) Q tr) \<Longrightarrow>
   attests K I l (case opt of None \<Rightarrow> p | Some x \<Rightarrow> f x) Q tr"
  by (cases opt) simp_all

text \<open>A process that leaves alone what \<open>I\<close> looks at.\<close>

lemma untouched_attests:
  assumes "untouched h p" and "\<And>tr s e s'. I tr s \<Longrightarrow> h s' = h s \<Longrightarrow> I (tr @ [e]) s'"
    and "\<And>more r. Q (tr @ more) r"
  shows "attests K I l p Q tr"
  using assms(1,3)
proof (induction p arbitrary: tr)
  case (Atomic cont g)
  show ?case
    unfolding attests.simps
  proof (intro allI impI conjI)
    fix more s
    assume "I (tr @ more) s"
    moreover have "h (g s) = h s" "untouched h (cont s)" using Atomic.prems(1) by simp_all
    ultimately show "I (tr @ more @ [(l, s, g s)]) (g s)"
      using assms(2) [of "tr @ more"] by simp
    show "attests K I l (cont s) Q (tr @ more @ [(l, s, g s)])"
      using \<open>untouched h (cont s)\<close> Atomic.prems(2) by (intro Atomic.IH [OF rangeI]) simp_all
  qed
qed simp

locale traced_contract =
  fixes body :: "'l \<Rightarrow> ('s, 'a) process" and ok :: "'l \<Rightarrow> bool" and init :: 's and restart :: "'s \<Rightarrow> 's"
    and known :: "'s \<Rightarrow> bool" and holds :: "('l, 's) trace \<Rightarrow> 's \<Rightarrow> bool"
    and shown :: "'l \<Rightarrow> ('l, 's) trace \<Rightarrow> 'a res \<Rightarrow> bool"
  assumes state_known: "concurrent body ok init restart pool s \<Longrightarrow> known s"
    and init_holds: "holds [] init" and restart_holds: "holds tr s \<Longrightarrow> holds tr (restart s)"
    and call_attests: "ok l \<Longrightarrow> attests known holds l (body l) (shown l) tr"
begin

lemma traced_holds:
  assumes "traced body ok init restart pool s tr"
  shows "holds tr s \<and> list_all (\<lambda>(l, p). attests known holds l p (shown l) tr) pool"
  using assms
proof (induction rule: traced.induct)
  case traced_init
  then show ?case by (simp add: init_holds)
next
  case (traced_call pool s tr l)
  then show ?case using call_attests by simp
next
  case (traced_step ps l cont g qs s tr)
  have "known s" using state_known [OF traced_concurrent [OF traced_step.hyps]] .
  moreover have "attests known holds l (Atomic cont g) (shown l) tr" "holds tr s"
    using traced_step.IH by simp_all
  ultimately have "holds (tr @ [(l, s, g s)]) (g s)" "attests known holds l (cont s) (shown l) (tr @ [(l, s, g s)])"
    by (auto dest: spec [of _ "[]"])
  moreover have "list_all (\<lambda>(l, p). attests known holds l p (shown l) (tr @ [e])) rs"
    if "list_all (\<lambda>(l, p). attests known holds l p (shown l) tr) rs" for rs e
    using that by (auto simp: list_all_iff intro: attests_later)
  ultimately show ?case using traced_step.IH by simp
next
  case (traced_restart pool s tr)
  then show ?case using restart_holds by simp
qed

lemma traced_shown:
  assumes "traced body ok init restart pool s tr" and "(l, Return r) \<in> set pool"
  shows "shown l tr r"
  using traced_holds [OF assms(1)] assms(2) by (force simp: list_all_iff dest: spec [of _ "[]"])

end

end
