(* ===== verification/Signer_Authentic.thy ===== *)
theory Signer_Authentic
  imports Signer_Integrity Process_Trace
begin

text \<open>
  Who gets a share or a login when calls interleave.  An execution is followed with its trace; a
  hand-out in the state was put there by a call of its key that had seen the index, the session and
  the challenge which the credentials need, and so a key that selects has shown them before.
\<close>

subsection \<open>Traces of the server\<close>

type_synonym job_trace = "(job, signer) trace"

definition served_trace ::
  "('s::field, 'p::ab_group_add, 'z) s_externals_scheme \<Rightarrow> signer_options \<Rightarrow> job_pool \<Rightarrow> signer \<Rightarrow>
   job_trace \<Rightarrow> bool" where
  "served_trace E opts = traced (job_process E) job_ok (signer_open opts) (signer_reopen opts)"

lemma served_trace_served: "served_trace E opts pool st tr \<Longrightarrow> served E opts pool st"
  unfolding served_trace_def served_def by (rule traced_concurrent)

lemma served_has_trace: "served E opts pool st \<Longrightarrow> \<exists>tr. served_trace E opts pool st tr"
  unfolding served_trace_def served_def by (rule concurrent_traced)

text \<open>A step of job \<open>j\<close> found a state with \<open>A\<close>.\<close>

definition saw :: "job \<Rightarrow> job_trace \<Rightarrow> (signer \<Rightarrow> bool) \<Rightarrow> bool" where
  "saw j tr A \<longleftrightarrow> (\<exists>st st'. (j, st, st') \<in> set tr \<and> A st)"

lemma saw_simps [simp]:
  "\<not> saw j [] A" "saw j ((i, st, st') # tr) A \<longleftrightarrow> i = j \<and> A st \<or> saw j tr A"
  "saw j (tr @ tr') A \<longleftrightarrow> saw j tr A \<or> saw j tr' A"
  by (auto simp: saw_def)

text \<open>A step of \<open>j\<close> left a state with \<open>A\<close>; before a step of \<open>j\<close> the trace had \<open>B\<close>.\<close>

definition wrote :: "job \<Rightarrow> job_trace \<Rightarrow> (signer \<Rightarrow> bool) \<Rightarrow> bool" where
  "wrote j tr A \<longleftrightarrow> (\<exists>st st'. (j, st, st') \<in> set tr \<and> A st')"

definition preceded :: "job \<Rightarrow> (job_trace \<Rightarrow> bool) \<Rightarrow> job_trace \<Rightarrow> bool" where
  "preceded j B tr \<longleftrightarrow> (\<exists>tr1 st st' tr2. tr = tr1 @ (j, st, st') # tr2 \<and> B tr1)"

lemma wrote_simps [simp]:
  "\<not> wrote j [] A" "wrote j ((i, st, st') # tr) A \<longleftrightarrow> i = j \<and> A st' \<or> wrote j tr A"
  "wrote j (tr @ tr') A \<longleftrightarrow> wrote j tr A \<or> wrote j tr' A"
  by (auto simp: wrote_def)

lemma preceded_now: "B tr \<Longrightarrow> preceded j B (tr @ (j, st, st') # ext)"
  by (auto simp: preceded_def)

lemma preceded_later [simp]: "preceded j B tr \<Longrightarrow> preceded j B (tr @ ext)"
  unfolding preceded_def by (metis append.assoc append_Cons)

subsection \<open>Credentials\<close>

text \<open>
  The job has found client \<open>c\<close> in the index of the email and either its session with the password
  or the challenge with the one-time password.
\<close>

definition matched :: "job \<Rightarrow> auth \<Rightarrow> string \<Rightarrow> job_trace \<Rightarrow> bool" where
  "matched j a c tr \<longleftrightarrow>
     (case a of
        Password pa \<Rightarrow> saw j tr (\<lambda>st. \<exists>s. col_get (sv_sessions st) c = Some s \<and>
          sess_password_hash s = Some (pa_password_hash pa))
      | Otp oa \<Rightarrow> saw j tr (\<lambda>st. \<exists>ch. col_get (sv_challenges st) (auth_email_hash a) = Some ch \<and>
          ch_otp ch = oa_otp oa))"

definition credentials_shown :: "job \<Rightarrow> auth \<Rightarrow> string \<Rightarrow> job_trace \<Rightarrow> bool" where
  "credentials_shown j a c tr \<longleftrightarrow>
     saw j tr (\<lambda>st. \<exists>ix. col_get (sv_sessions_by_email_hash st) (auth_email_hash a) = Some ix \<and>
       c \<in> set (ix_clients ix)) \<and>
     matched j a c tr"

lemma matched_later [simp]: "matched j a c tr \<Longrightarrow> matched j a c (tr @ ext)"
  by (auto simp: matched_def split: auth.splits)

lemma credentials_later [simp]: "credentials_shown j a c tr \<Longrightarrow> credentials_shown j a c (tr @ ext)"
  by (simp add: credentials_shown_def)

definition recovery_shown :: "job_trace \<Rightarrow> string \<Rightarrow> string \<Rightarrow> bool" where
  "recovery_shown tr k c \<longleftrightarrow>
     (\<exists>auth d clk rnd. na_pubkey auth = k \<and>
        credentials_shown (Serve auth (CRecoveryStart d) clk rnd) (rtq_auth d) c tr)"

definition login_shown :: "job_trace \<Rightarrow> string \<Rightarrow> string \<Rightarrow> bool" where
  "login_shown tr k c \<longleftrightarrow>
     (\<exists>auth d clk rnd. na_pubkey auth = k \<and>
        credentials_shown (Serve auth (CLoginStart d) clk rnd) (lsq_auth d) c tr)"

lemma shownI:
  "credentials_shown (Serve auth (CRecoveryStart rtq) clk rnd) (rtq_auth rtq) c tr \<Longrightarrow>
    recovery_shown tr (na_pubkey auth) c"
  "credentials_shown (Serve auth (CLoginStart lsq) clk rnd) (lsq_auth lsq) c tr \<Longrightarrow>
    login_shown tr (na_pubkey auth) c"
  unfolding recovery_shown_def login_shown_def by blast+

lemma shown_later [simp]:
  "recovery_shown tr k c \<Longrightarrow> recovery_shown (tr @ ext) k c"
  "login_shown tr k c \<Longrightarrow> login_shown (tr @ ext) k c"
  unfolding recovery_shown_def login_shown_def using credentials_later by blast+

text \<open>Every hand-out in the state was earned.\<close>

definition earned :: "job_trace \<Rightarrow> signer \<Rightarrow> bool" where
  "earned tr st \<longleftrightarrow>
     (\<forall>k rec c. col_get (sv_recoveries st) k = Some rec \<longrightarrow> c \<in> set (srec_clients rec) \<longrightarrow> recovery_shown tr k c) \<and>
     (\<forall>k log c. col_get (sv_logins st) k = Some log \<longrightarrow> c \<in> set (slog_clients log) \<longrightarrow> login_shown tr k c)"

lemma earned_later: "earned tr st \<Longrightarrow> earned (tr @ ext) st"
  by (simp add: earned_def)

lemma earned_kept:
  "earned tr st \<Longrightarrow> sv_recoveries st' = sv_recoveries st \<Longrightarrow> sv_logins st' = sv_logins st \<Longrightarrow> earned tr st'"
  by (simp add: earned_def)

lemma earned_other [simp]:
  "earned tr (st\<lparr>sv_sessions := x1\<rparr>) \<longleftrightarrow> earned tr st" "earned tr (st\<lparr>sv_sessions_by_email_hash := x2\<rparr>) \<longleftrightarrow> earned tr st"
  "earned tr (st\<lparr>sv_challenges := x3\<rparr>) \<longleftrightarrow> earned tr st" "earned tr (st\<lparr>sv_rate_limit_by_client := x4\<rparr>) \<longleftrightarrow> earned tr st"
  "earned tr (st\<lparr>sv_rate_limit_by_email_hash := x5\<rparr>) \<longleftrightarrow> earned tr st"
  "earned tr (st\<lparr>sv_commits_by_client := x6\<rparr>) \<longleftrightarrow> earned tr st"
  by (simp_all add: earned_def)

lemma earned_fewer:
  "earned tr st \<Longrightarrow> earned tr (st\<lparr>sv_recoveries := col_delete (sv_recoveries st) k\<rparr>)"
  "earned tr st \<Longrightarrow> earned tr (st\<lparr>sv_logins := col_delete (sv_logins st) k\<rparr>)"
  by (simp_all add: earned_def)

lemma earned_more:
  "earned tr st \<Longrightarrow> \<forall>c \<in> set (srec_clients rec). recovery_shown tr k c \<Longrightarrow>
   earned tr (st\<lparr>sv_recoveries := col_set (sv_recoveries st) k rec\<rparr>)"
  "earned tr st \<Longrightarrow> \<forall>c \<in> set (slog_clients log). login_shown tr k c \<Longrightarrow>
   earned tr (st\<lparr>sv_logins := col_set (sv_logins st) k log\<rparr>)"
  by (auto simp: earned_def)

text \<open>Processes that leave both collections of hand-outs alone.\<close>

abbreviation handouts_kept :: "'a task \<Rightarrow> bool" where
  "handouts_kept \<equiv> untouched (\<lambda>st. (sv_recoveries st, sv_logins st))"

lemma kept_attests:
  assumes "handouts_kept p" and "\<And>ext r. Q (tr @ ext) r"
  shows "attests K earned j p Q tr"
  by (rule untouched_attests [OF assms(1)]) (auto intro: earned_later [OF earned_kept] assms(2))

lemma helpers_handouts [intro!]:
  "handouts_kept (rate_limit_process clk c)" "handouts_kept (key_reuse_process c)"
  "handouts_kept (add_session_process c s)" "handouts_kept (deactivate_session_process t c)"
  "handouts_kept (delete_session_process c)" "handouts_kept (touch_session_process t c s)"
  "handouts_kept (challenge_target_process h)"
  by (auto simp: rate_limit_process_def key_reuse_process_def add_session_process_def
      deactivate_session_process_def delete_session_process_def unlist_session_process_def
      touch_session_process_def touch_session_def challenge_target_process_def Let_def split: option.split)

lemma take_commit_handouts [simp]:
  "sv_recoveries (snd (take_commit i k st)) = sv_recoveries st" "sv_logins (snd (take_commit i k st)) = sv_logins st"
  by (simp_all add: take_commit_def split: option.split prod.split)

lemma handlers_handouts [intro!]:
  "handouts_kept (register_process E clk auth rq)" "handouts_kept (recovery_setup_process E clk auth rsq)"
  "handouts_kept (challenge_process E clk buf auth cq)" "handouts_kept (ecdh_process E clk auth eq)"
  "handouts_kept (sign_commit_process E clk rnd auth scq)" "handouts_kept (sign_complete_process E clk auth sq)"
  "handouts_kept (session_list_process auth)" "handouts_kept (session_deactivate_process clk auth clq)"
  "handouts_kept (session_delete_process auth clq)"
  by (auto simp: register_process_def recovery_setup_process_def challenge_process_def ecdh_process_def
      sign_commit_process_def sign_complete_process_def session_list_process_def
      session_deactivate_process_def session_delete_process_def Let_def split: option.split res.split)

subsection \<open>What the calls have seen\<close>

abbreviation seen ::
  "('s::field, 'p::ab_group_add, 'z) s_externals_scheme \<Rightarrow> signer_options \<Rightarrow> job \<Rightarrow> 'a task \<Rightarrow>
   (job_trace \<Rightarrow> 'a res \<Rightarrow> bool) \<Rightarrow> job_trace \<Rightarrow> bool" where
  "seen E opts \<equiv> attests (data_inv E opts) earned"

lemma seen_reads:
  assumes "\<And>ext st. data_inv E opts st \<Longrightarrow> earned (tr @ ext) st \<Longrightarrow>
      seen E opts j (f (h st)) Q (tr @ ext @ [(j, st, st)])"
  shows "seen E opts j (bindP (reads h) f) Q tr"
proof (rule attests_reads)
  fix ext st
  assume st: "data_inv E opts st" "earned (tr @ ext) st"
  show "earned (tr @ ext @ [(j, st, st)]) st \<and> seen E opts j (f (h st)) Q (tr @ ext @ [(j, st, st)])"
    using earned_later [OF st(2), of "[(j, st, st)]"] assms [OF st] by simp
qed

lemma seen_writes:
  assumes "\<And>ext st. earned (tr @ ext) st \<Longrightarrow> earned (tr @ ext) (g st)"
    and "\<And>ext st. data_inv E opts st \<Longrightarrow> seen E opts j (f ()) Q (tr @ ext @ [(j, st, g st)])"
  shows "seen E opts j (bindP (writes g) f) Q tr"
proof (rule attests_writes)
  fix ext st
  assume st: "data_inv E opts st" "earned (tr @ ext) st"
  show "earned (tr @ ext @ [(j, st, g st)]) (g st) \<and> seen E opts j (f ()) Q (tr @ ext @ [(j, st, g st)])"
    using earned_later [OF assms(1) [OF st(2)], of "[(j, st, g st)]"] assms(2) [OF st(1)] by simp
qed

lemma sessions_seen:
  "seen E opts j (sessions_process cs)
     (\<lambda>tr r. \<exists>ss. r = Ok ss \<and> (\<forall>s \<in> set ss. sess_client s \<in> set cs \<and>
        saw j tr (\<lambda>st. col_get (sv_sessions st) (sess_client s) = Some s))) tr"
proof (induction cs arbitrary: tr)
  case Nil
  then show ?case by simp
next
  case (Cons c cs)
  show ?case
    unfolding sessions_process.simps
  proof (rule seen_reads, rule attests_bind_rule [OF Cons.IH])
    fix ext st ss ext'
    let ?tr = "tr @ ext @ [(j, st, st)]"
    assume inv: "data_inv E opts st"
      and ss: "\<exists>ss'. Ok ss = Ok ss' \<and> (\<forall>s \<in> set ss'. sess_client s \<in> set cs \<and>
        saw j (?tr @ ext') (\<lambda>st. col_get (sv_sessions st) (sess_client s) = Some s))"
    have "sess_client s = c" if "col_get (sv_sessions st) c = Some s" for s
      using that data_session [OF inv that] by (simp add: session_ok_def)
    then show "seen E opts j (ret (case col_get (sv_sessions st) c of None \<Rightarrow> ss | Some s \<Rightarrow> s # ss))
        (\<lambda>tr r. \<exists>ss. r = Ok ss \<and> (\<forall>s \<in> set ss. sess_client s \<in> set (c # cs) \<and>
          saw j tr (\<lambda>st. col_get (sv_sessions st) (sess_client s) = Some s))) (?tr @ ext')"
      using ss by (auto split: option.split)
  qed simp_all
qed

lemma candidates_seen:
  "seen E opts j (candidates_process a cs)
     (\<lambda>tr r. \<exists>ss. r = Ok ss \<and> (\<forall>s \<in> set ss. sess_client s \<in> set cs \<and> matched j a (sess_client s) tr)) tr"
proof (cases a)
  case (Password pa)
  have pass: "matched j a (sess_client s) tr"
    if "saw j tr (\<lambda>st. col_get (sv_sessions st) (sess_client s) = Some s)"
      and "sess_password_hash s = Some (pa_password_hash pa)" for s tr
    using that by (auto simp: matched_def Password saw_def)
  show ?thesis
    unfolding candidates_process_def Password auth.case
  proof (rule attests_bind_rule [OF sessions_seen])
    fix ss ext
    assume "\<exists>ss'. Ok ss = Ok ss' \<and> (\<forall>s \<in> set ss'. sess_client s \<in> set cs \<and>
      saw j (tr @ ext) (\<lambda>st. col_get (sv_sessions st) (sess_client s) = Some s))"
    then have "sess_client s \<in> set cs \<and> matched j a (sess_client s) (tr @ ext)"
      if "s \<in> set (filter (\<lambda>s. case sess_password_hash s of None \<Rightarrow> False
                     | Some h \<Rightarrow> ct_str_eq h (pa_password_hash pa)) ss)" for s
      using that by (auto simp: ct_str_eq_iff split: option.splits intro!: pass)
    then show "seen E opts j (ret (filter (\<lambda>s. case sess_password_hash s of None \<Rightarrow> False
          | Some h \<Rightarrow> ct_str_eq h (pa_password_hash pa)) ss))
        (\<lambda>tr r. \<exists>ss. r = Ok ss \<and> (\<forall>s \<in> set ss. sess_client s \<in> set cs \<and>
          matched j (Password pa) (sess_client s) tr)) (tr @ ext)"
      unfolding Password [symmetric] by (intro attests_Return) (metis matched_later)
  qed simp_all
next
  case (Otp oa)
  show ?thesis
    unfolding candidates_process_def Otp auth.case
  proof (rule seen_reads, rule attests_option)
    fix ext st ch
    let ?tr = "tr @ ext @ [(j, st, st)]"
    assume ch: "col_get (sv_challenges st) (auth_email_hash (Otp oa)) = Some ch"
    have now: "matched j (Otp oa) c (?tr @ ext')" if "oa_otp oa = ch_otp ch" for c ext'
      using ch that by (auto simp: matched_def)
    show "seen E opts j (bindP (writes (\<lambda>st. st\<lparr>sv_challenges := col_delete (sv_challenges st) (auth_email_hash (Otp oa))\<rparr>))
        (\<lambda>_. if ct_str_eq (oa_otp oa) (ch_otp ch) then sessions_process cs else ret []))
        (\<lambda>tr r. \<exists>ss. r = Ok ss \<and> (\<forall>s \<in> set ss. sess_client s \<in> set cs \<and>
          matched j (Otp oa) (sess_client s) tr)) ?tr"
      by (intro seen_writes attests_if attests_mono [OF sessions_seen])
        (use now in \<open>auto simp: ct_str_eq_iff\<close>)
  qed simp
qed

lemma authenticated_seen:
  "seen E opts j (authenticated_process E clk a)
     (\<lambda>tr r. \<forall>ss. r = Ok ss \<longrightarrow> (\<forall>s \<in> set ss. credentials_shown j a (sess_client s) tr)) tr"
  unfolding authenticated_process_def Let_def
proof (rule seen_reads, rule attests_if)
  fix ext st
  show "seen E opts j (Return (bindR (debug_slice E (auth_email_hash a)) (\<lambda>_. Ok [])))
      (\<lambda>tr r. \<forall>ss. r = Ok ss \<longrightarrow> (\<forall>s \<in> set ss. credentials_shown j a (sess_client s) tr))
      (tr @ ext @ [(j, st, st)])"
    by (simp add: bindR_eq_Ok)
next
  fix ext st0
  let ?h = "auth_email_hash a"
  let ?bucket = "col_get (sv_rate_limit_by_email_hash st0) ?h" and ?tr = "tr @ ext @ [(j, st0, st0)]"
  let ?Q = "\<lambda>tr r. \<forall>ss. r = Ok ss \<longrightarrow> (\<forall>s \<in> set ss. credentials_shown j a (sess_client s) tr)"
  show "seen E opts j (bindP (reads (\<lambda>st. col_get (sv_sessions_by_email_hash st) ?h)) (\<lambda>index.
      bindP (case index of None \<Rightarrow> ret [] | Some ix \<Rightarrow> candidates_process a (ix_clients ix)) (\<lambda>sessions.
      if sessions = []
      then bindP (writes (\<lambda>st. st\<lparr>sv_rate_limit_by_email_hash :=
             col_set (sv_rate_limit_by_email_hash st) ?h (record_attempt (clk 1) ?bucket EMAIL_RATE_LIMITS)\<rparr>))
             (\<lambda>_. ret sessions)
      else ret sessions))) ?Q ?tr"
  proof (rule seen_reads)
    fix ext' st
    let ?tr' = "?tr @ ext' @ [(j, st, st)]"
    have found: "seen E opts j
        (case col_get (sv_sessions_by_email_hash st) ?h of None \<Rightarrow> ret []
         | Some ix \<Rightarrow> candidates_process a (ix_clients ix)) ?Q ?tr'"
      by (rule attests_option, simp, rule attests_mono [OF candidates_seen])
        (auto simp: credentials_shown_def)
    show "seen E opts j (bindP (case col_get (sv_sessions_by_email_hash st) ?h of None \<Rightarrow> ret []
         | Some ix \<Rightarrow> candidates_process a (ix_clients ix)) (\<lambda>sessions.
      if sessions = []
      then bindP (writes (\<lambda>st. st\<lparr>sv_rate_limit_by_email_hash :=
             col_set (sv_rate_limit_by_email_hash st) ?h (record_attempt (clk 1) ?bucket EMAIL_RATE_LIMITS)\<rparr>))
             (\<lambda>_. ret sessions)
      else ret sessions)) ?Q ?tr'"
    proof (rule attests_bind_rule [OF found], rule attests_if)
      fix ss ext''
      assume "?Q (?tr' @ ext'') (Ok ss)"
      then show "seen E opts j (ret ss) ?Q (?tr' @ ext'')"
        by (intro attests_Return) (blast intro: credentials_later)
    qed (auto intro!: seen_writes)
  qed
qed

subsection \<open>Handlers\<close>

lemma kept_bind:
  assumes "handouts_kept p" and "\<And>x ext. seen E opts j (f x) Q (tr @ ext)"
    and "\<And>e ext. Q (tr @ ext) (Err e)" and "\<And>ext. Q (tr @ ext) Panic"
  shows "seen E opts j (bindP p f) Q tr"
  by (rule attests_bind_rule [OF kept_attests [OF assms(1), of "\<lambda>_ _. True"]]) (simp_all add: assms(2-4))

lemma start_authenticated:
  "j = Serve auth (CRecoveryStart rtq) clk rnd \<Longrightarrow> seen E opts j (authenticated_process E clk (rtq_auth rtq))
     (\<lambda>tr r. \<forall>ss. r = Ok ss \<longrightarrow> (\<forall>s \<in> set ss. recovery_shown tr (na_pubkey auth) (sess_client s))) tr"
  "j = Serve auth (CLoginStart lsq) clk rnd \<Longrightarrow> seen E opts j (authenticated_process E clk (lsq_auth lsq))
     (\<lambda>tr r. \<forall>ss. r = Ok ss \<longrightarrow> (\<forall>s \<in> set ss. login_shown tr (na_pubkey auth) (sess_client s))) tr"
  by (rule attests_mono [OF authenticated_seen], auto intro: shownI)+

lemma recovery_start_seen:
  assumes j: "j = Serve auth (CRecoveryStart d) clk rnd"
  shows "seen E opts j (recovery_start_process E clk auth d) (\<lambda>_ _. True) tr"
  unfolding recovery_start_process_def Let_def
  by (intro attests_bind_rule [OF start_authenticated(1) [OF j]] seen_writes kept_bind attests_if
      attests_bind_Return attests_Return TrueI earned_more(1))
    (auto simp: append_assoc [symmetric] simp del: append_assoc)

lemma login_start_seen:
  assumes j: "j = Serve auth (CLoginStart d) clk rnd"
  shows "seen E opts j (login_start_process E clk auth d) (\<lambda>_ _. True) tr"
  unfolding login_start_process_def Let_def
  by (intro attests_bind_rule [OF start_authenticated(2) [OF j]] seen_writes kept_bind attests_if
      attests_bind_Return attests_Return TrueI earned_more(2))
    (auto simp: append_assoc [symmetric] simp del: append_assoc)

text \<open>A selection that succeeds found a hand-out, and so was preceded by the credentials.\<close>

lemma recovery_select_seen:
  "seen E opts j (recovery_select_process auth d)
     (\<lambda>tr r. \<forall>resp share. r = Ok resp \<longrightarrow> fst (resp_result resp) = Some share \<longrightarrow>
        preceded j (\<lambda>tr. recovery_shown tr (na_pubkey auth) (clq_client d)) tr \<and>
        saw j tr (\<lambda>st. \<exists>s. col_get (sv_sessions st) (clq_client d) = Some s \<and> sess_share s = share)) tr"
  unfolding recovery_select_process_def Let_def
proof (rule seen_reads, rule attests_option)
  fix ext st rec
  let ?tr = "tr @ ext @ [(j, st, st)]"
  assume found: "earned (tr @ ext) st" "col_get (sv_recoveries st) (na_pubkey auth) = Some rec"
  have before: "preceded j (\<lambda>tr. recovery_shown tr (na_pubkey auth) (clq_client d)) (?tr @ ext')"
    if "clq_client d \<in> set (srec_clients rec)" for ext'
    using preceded_now [of _ "tr @ ext" j st st ext'] found that by (simp add: earned_def)
  show "seen E opts j
      (bindP (writes (\<lambda>st. st\<lparr>sv_recoveries := col_delete (sv_recoveries st) (na_pubkey auth)\<rparr>)) (\<lambda>_.
         if clq_client d \<notin> set (srec_clients rec)
         then ret (respond False ''Invalid session selected for recovery.'' (None, None))
         else bindP (reads (\<lambda>st. col_get (sv_sessions st) (clq_client d))) (\<lambda>selected.
           case selected of
             None \<Rightarrow> ret (respond False ''Recovery session not found.'' (None, None))
           | Some session \<Rightarrow> ret (respond True ''Recovery successfully completed.''
               (Some (sess_share session), Some (sess_group session))))))
      (\<lambda>tr r. \<forall>resp share. r = Ok resp \<longrightarrow> fst (resp_result resp) = Some share \<longrightarrow>
        preceded j (\<lambda>tr. recovery_shown tr (na_pubkey auth) (clq_client d)) tr \<and>
        saw j tr (\<lambda>st. \<exists>s. col_get (sv_sessions st) (clq_client d) = Some s \<and> sess_share s = share)) ?tr"
    by (intro seen_writes earned_fewer attests_if seen_reads attests_option attests_Return)
      (use before in auto)
qed simp

lemma add_session_seen:
  "seen E opts j (add_session_process c s)
     (\<lambda>tr r. wrote j tr (\<lambda>st. col_get (sv_sessions st) c = Some s)) tr"
  unfolding add_session_process_def
proof (rule seen_writes)
  fix ext st
  show "seen E opts j
      (case sess_email_hash s of None \<Rightarrow> ret ()
       | Some email_hash \<Rightarrow> bindP (reads (\<lambda>st. col_get (sv_sessions_by_email_hash st) email_hash)) (\<lambda>found.
         let index = (case found of Some ix \<Rightarrow> ix | None \<Rightarrow> \<lparr>ix_clients = []\<rparr>);
             index' = (if c \<notin> set (ix_clients index)
                       then index\<lparr>ix_clients := ix_clients index @ [c]\<rparr> else index)
         in writes (\<lambda>st. st\<lparr>sv_sessions_by_email_hash :=
              col_set (sv_sessions_by_email_hash st) email_hash index'\<rparr>)))
      (\<lambda>tr r. wrote j tr (\<lambda>st. col_get (sv_sessions st) c = Some s))
      (tr @ ext @ [(j, st, st\<lparr>sv_sessions := col_set (sv_sessions st) c s\<rparr>)])"
    by (rule kept_attests) (auto simp: Let_def split: option.split)
qed simp

text \<open>The job has stored a session of key \<open>k\<close> with the share and group of the session it found for \<open>c\<close>.\<close>

definition logged_in :: "job \<Rightarrow> string \<Rightarrow> string \<Rightarrow> job_trace \<Rightarrow> bool" where
  "logged_in j k c tr \<longleftrightarrow>
     (\<exists>s s'. saw j tr (\<lambda>st. col_get (sv_sessions st) c = Some s) \<and>
        wrote j tr (\<lambda>st. col_get (sv_sessions st) k = Some s') \<and>
        sess_client s' = k \<and> sess_share s' = sess_share s \<and> sess_group s' = sess_group s \<and>
        sess_deactivated_at s' = None)"

lemma login_select_seen:
  "seen E opts j (login_select_process clk auth d)
     (\<lambda>tr r. \<forall>resp. r = Ok resp \<longrightarrow> resp_ok resp \<longrightarrow>
        preceded j (\<lambda>tr. login_shown tr (na_pubkey auth) (clq_client d)) tr \<and>
        logged_in j (na_pubkey auth) (clq_client d) tr) tr" (is "seen E opts j _ ?Q tr")
proof -
  let ?k = "na_pubkey auth" and ?c = "clq_client d"
  let ?before = "preceded j (\<lambda>tr. login_shown tr ?k ?c)"
  define new where "new s = \<lparr>sess_client = ?k, sess_share = sess_share s, sess_group = sess_group s,
    sess_recovery = True, sess_created_at = clk 2, sess_deactivated_at = None, sess_last_activity = clk 3,
    sess_email = sess_email s, sess_email_hash = sess_email_hash s, sess_password_hash = sess_password_hash s\<rparr>" for s :: signer_session
  have final: "seen E opts j (bindP (add_session_process ?k (new s)) (\<lambda>_. ret (respond True msg g))) ?Q tr"
    if "?before tr" and "saw j tr (\<lambda>st. col_get (sv_sessions st) ?c = Some s)" for s tr msg and g :: "sgroup option"
  proof (rule attests_bind_rule [OF add_session_seen], intro attests_Return)
    fix x :: unit and ext ext'
    assume "wrote j (tr @ ext) (\<lambda>st. col_get (sv_sessions st) ?k = Some (new s))"
    then have "logged_in j ?k ?c ((tr @ ext) @ ext')"
      unfolding logged_in_def using that(2)
      by (rule_tac x = s in exI, rule_tac x = "new s" in exI) (auto simp: new_def)
    then show "?Q ((tr @ ext) @ ext') (Ok (respond True msg g))"
      using that(1) by simp
  qed simp_all
  show ?thesis
    unfolding login_select_process_def Let_def new_def [symmetric]
  proof (rule seen_reads, rule attests_option)
    fix ext st log
    let ?tr = "tr @ ext @ [(j, st, st)]"
    assume found: "earned (tr @ ext) st" "col_get (sv_logins st) ?k = Some log"
    have before: "?before (?tr @ ext')" if "?c \<in> set (slog_clients log)" for ext'
      using preceded_now [of _ "tr @ ext" j st st ext'] found that by (simp add: earned_def)
    show "seen E opts j
        (bindP (writes (\<lambda>st. st\<lparr>sv_logins := col_delete (sv_logins st) ?k\<rparr>)) (\<lambda>_.
           if ?c \<notin> set (slog_clients log)
           then ret (respond False ''Invalid session selected for login.'' None)
           else bindP (reads (\<lambda>st. col_get (sv_sessions st) ?c)) (\<lambda>selected.
             case selected of
               None \<Rightarrow> ret (respond False ''Login session not found.'' None)
             | Some session \<Rightarrow> bindP (add_session_process ?k (new session)) (\<lambda>_.
                 ret (respond True ''Login successfully completed.'' (Some (sess_group session))))))) ?Q ?tr"
      by (intro seen_writes earned_fewer attests_if seen_reads attests_option final attests_Return)
        (use before in auto)
  qed simp
qed

subsection \<open>All jobs\<close>

lemma seen_last:
  assumes "\<And>ext st. earned (tr @ ext) st \<Longrightarrow> earned (tr @ ext) (g st)"
  shows "seen E opts j (writes g) (\<lambda>_ _. True) tr"
proof -
  have "seen E opts j (bindP (writes g) ret) (\<lambda>_ _. True) tr"
    by (rule seen_writes) (use assms in simp_all)
  then show ?thesis by (simp add: writes_def)
qed

lemma purge_seen:
  assumes "\<And>k tr st. earned tr st \<Longrightarrow> earned tr (del k st)"
  shows "seen E opts j (purge_process p del n kvs) (\<lambda>_ _. True) tr"
proof (induction kvs arbitrary: n tr)
  case (Cons kv kvs)
  show ?case
    unfolding purge_process.simps by (intro attests_if seen_writes assms Cons.IH)
qed simp

lemma cleanup_seen: "seen E opts j (cleanup_process clk) (\<lambda>_ _. True) tr"
  unfolding cleanup_process_def Let_def
  by (intro seen_reads seen_last attests_bind_rule [OF purge_seen] earned_fewer TrueI) simp_all

text \<open>What a job's answer says about the trace.\<close>

definition earned_answer :: "job \<Rightarrow> job_trace \<Rightarrow> reply option res \<Rightarrow> bool" where
  "earned_answer j tr r \<longleftrightarrow>
     (\<forall>auth d clk rnd resp share.
        j = Serve auth (CRecoverySelect d) clk rnd \<longrightarrow> r = Ok (Some (RecoverySelectReply resp)) \<longrightarrow>
        fst (resp_result resp) = Some share \<longrightarrow>
        preceded j (\<lambda>tr. recovery_shown tr (na_pubkey auth) (clq_client d)) tr \<and>
        saw j tr (\<lambda>st. \<exists>s. col_get (sv_sessions st) (clq_client d) = Some s \<and> sess_share s = share)) \<and>
     (\<forall>auth d clk rnd resp.
        j = Serve auth (CLoginSelect d) clk rnd \<longrightarrow> r = Ok (Some (LoginSelectReply resp)) \<longrightarrow> resp_ok resp \<longrightarrow>
        preceded j (\<lambda>tr. login_shown tr (na_pubkey auth) (clq_client d)) tr \<and>
        logged_in j (na_pubkey auth) (clq_client d) tr)"

lemma map_seen:
  assumes "seen E opts j p R tr" and "\<And>tr x. R tr (Ok x) \<Longrightarrow> Q tr (Ok (f x))"
    and "\<And>tr e. Q tr (Err e)" and "\<And>tr. Q tr Panic"
  shows "seen E opts j (map_process f p) Q tr"
  unfolding map_process_def
  by (rule attests_bind_rule [OF attests_lasting [OF assms(1)]])
    (auto intro!: assms(2-4) simp del: append_assoc)

lemma kept_seen:
  "handouts_kept p \<Longrightarrow> seen E opts j p (\<lambda>_ _. True) tr"
  by (rule kept_attests) simp_all

lemma call_seen:
  assumes j: "j = Serve auth c clk rnd"
  shows "seen E opts j (call_process E clk rnd auth c) (\<lambda>tr r. earned_answer j tr (mapR_val Some r)) tr"
proof (cases c)
  case (CRecoverySelect d)
  show ?thesis
    unfolding CRecoverySelect call_process.simps
    by (rule map_seen [OF recovery_select_seen]) (auto simp: earned_answer_def j CRecoverySelect mapR_val_def)
next
  case (CLoginSelect d)
  show ?thesis
    unfolding CLoginSelect call_process.simps
    by (rule map_seen [OF login_select_seen]) (auto simp: earned_answer_def j CLoginSelect mapR_val_def)
next
  case (CRecoveryStart d)
  show ?thesis
    unfolding CRecoveryStart call_process.simps
    by (rule map_seen [OF recovery_start_seen]) (auto simp: earned_answer_def j CRecoveryStart mapR_val_def)
next
  case (CLoginStart d)
  show ?thesis
    unfolding CLoginStart call_process.simps
    by (rule map_seen [OF login_start_seen]) (auto simp: earned_answer_def j CLoginStart mapR_val_def)
qed (use j in \<open>auto simp: earned_answer_def mapR_val_def intro!: map_seen [OF kept_seen]\<close>)

lemma job_seen: "seen E opts j (job_process E j) (earned_answer j) tr"
proof (cases j)
  case (Serve auth c clk rnd)
  show ?thesis
    unfolding Serve job_process.simps
    by (rule map_seen [OF call_seen]) (auto simp: earned_answer_def mapR_val_def)
next
  case (Clean clk)
  show ?thesis
    unfolding Clean job_process.simps
    by (rule map_seen [OF cleanup_seen]) (auto simp: earned_answer_def)
qed

interpretation authentic:
  traced_contract "job_process E" job_ok "signer_open opts" "signer_reopen opts" "data_inv E opts" earned earned_answer
  for E :: "('s::field, 'p::ab_group_add, 'z) s_externals_scheme" and opts
proof unfold_locales
  show "concurrent (job_process E) job_ok (signer_open opts) (signer_reopen opts) pool s \<Longrightarrow> data_inv E opts s"
    for pool s
    using served_data unfolding served_def .
qed (simp_all add: earned_def signer_open_def signer_reopen_def job_seen)

lemma served_trace_earned:
  "served_trace E opts pool st tr \<Longrightarrow> (j, Return r) \<in> set pool \<Longrightarrow> earned_answer j tr r"
  unfolding served_trace_def by (rule authentic.traced_shown)

end
