(* ===== verification/Signer_Races.thy ===== *)
theory Signer_Races
  imports Signer_History Signer_Authentic
begin

text \<open>
  A pool of calls at the history of \<open>Signer_History\<close>, for the witnesses, and what interleaved calls
  can do and calls one after the other cannot.  Each lemma of the second part gives a schedule: the
  list of the calls whose turn it is.
\<close>

subsection \<open>A pool\<close>

definition call_entry8 :: "nostr_auth \<Rightarrow> call \<Rightarrow> reply res \<Rightarrow> job \<times> (signer, reply option) process" where
  "call_entry8 auth c r = (Serve auth c clk8 rnd8, Return (mapR_val Some r))"

definition pool8 :: job_pool where
  "pool8 = [call_entry8 (auth8 key_a) (CRegister (register8 1 4)) (ev_reply ev_register8),
     call_entry8 (auth8 key_a) (CSignCommit \<lparr>scq_members = [1, 2]\<rparr>) (ev_reply ev_commit8),
     call_entry8 (auth8 key_a) (CSignComplete complete8) (ev_reply ev_complete8)]"

lemma served_entry8:
  "served ext8 opts8 pool st \<Longrightarrow> call_valid c \<Longrightarrow> perform ext8 clk8 rnd8 auth c st = (r, st') \<Longrightarrow>
   served ext8 opts8 (pool @ [call_entry8 auth c r]) st'"
  unfolding call_entry8_def by (rule served_call [OF _ _ clock8(1)])

lemma served_pool8: "served ext8 opts8 pool8 (completed8 1 4)"
proof -
  have "served ext8 opts8 [] (signer_open opts8)" unfolding served_def by (rule conc_init)
  from served_entry8 [OF served_entry8 [OF served_entry8 [OF this valid_calls8(1) perform8(1)]
        valid_calls8(2) perform8(2)] valid_calls8(3) perform8(3)]
  show ?thesis by (simp add: pool8_def)
qed

lemma pool8_counts:
  "length (filter (signed_with key_a cid8) pool8) = 1"
  "length (filter (draws ext8 key_a cid8 \<circ> fst) pool8) = 1"
  by (simp_all add: pool8_def call_entry8_def signed_with_def ev_complete8_def complete8_def
      random_commit_id_def ext8_signer rnd8_def cid8_def)

definition list_entry8 :: "job \<times> (signer, reply option) process" where
  "list_entry8 = call_entry8 group_auth8 CSessionList
     (fst (perform ext8 clk8 rnd8 group_auth8 CSessionList (completed8 1 4)))"

lemma served_list8: "\<exists>st. served ext8 opts8 (pool8 @ [list_entry8]) st"
proof -
  obtain r st where e: "perform ext8 clk8 rnd8 group_auth8 CSessionList (completed8 1 4) = (r, st)" by fastforce
  have "call_valid CSessionList" by simp
  from served_entry8 [OF served_pool8 this e] have "served ext8 opts8 (pool8 @ [list_entry8]) st"
    unfolding list_entry8_def e fst_conv .
  then show ?thesis by blast
qed

text \<open>A call that runs alone at the end of a history, with some trace.\<close>

lemma served_trace_call:
  assumes "run ext8 opts8 evs st" and "call_valid c" and "perform ext8 clk8 rnd8 auth c st = (r, st')"
  shows "\<exists>pool tr. served_trace ext8 opts8 (pool @ [(Serve auth c clk8 rnd8, Return (mapR_val Some r))]) st' tr"
  using run_served [OF assms(1)] served_has_trace [OF served_call [OF _ assms(2) clock8(1) assms(3)]] by blast

abbreviation recovery_select_job8 :: job where
  "recovery_select_job8 \<equiv> Serve (auth8 key_b) (CRecoverySelect \<lparr>clq_client = key_a\<rparr>) clk8 rnd8"

abbreviation recovery_answer8 :: recovery_select_response where
  "recovery_answer8 \<equiv> respond True ''Recovery successfully completed.'' (Some (sshare8 1 4), Some grp8)"

abbreviation login_select_job8 :: job where
  "login_select_job8 \<equiv> Serve (auth8 key_b) (CLoginSelect \<lparr>clq_client = key_a\<rparr>) clk8 rnd8"

abbreviation login_answer8 :: login_select_response where
  "login_answer8 \<equiv> respond True ''Login successfully completed.'' (Some grp8)"

lemma recovery_select8:
  "\<exists>pool st tr. served_trace ext8 opts8 pool st tr \<and>
     (recovery_select_job8, Return (Ok (Some (RecoverySelectReply recovery_answer8)))) \<in> set pool"
proof -
  have "call_valid (CRecoverySelect \<lparr>clq_client = key_a\<rparr>)" by (simp add: client_request_valid_def)
  from served_trace_call [OF run_recovering8 this, of "auth8 key_b"] show ?thesis
    by (fastforce simp: do_recovery_select8 map_action_def mapR_val_def)
qed

lemma login_select8:
  "\<exists>pool st tr. served_trace ext8 opts8 pool st tr \<and>
     (login_select_job8, Return (Ok (Some (LoginSelectReply login_answer8)))) \<in> set pool"
proof -
  obtain st where "handle_login_select clk8 (auth8 key_b) \<lparr>clq_client = key_a\<rparr> logging_in8 = (Ok login_answer8, st)"
    using do_login_select8 by (metis prod.collapse)
  moreover have "call_valid (CLoginSelect \<lparr>clq_client = key_a\<rparr>)" by (simp add: client_request_valid_def)
  ultimately show ?thesis
    using served_trace_call [OF run_logging_in8, of "CLoginSelect \<lparr>clq_client = key_a\<rparr>" "auth8 key_b"]
    by (fastforce simp: map_action_def mapR_val_def)
qed

subsection \<open>Schedules\<close>

text \<open>
  A one-time password allows one guess to calls that do not overlap.  Two that both read the
  challenge before either deletes it both get compared, so a second guess can succeed.
\<close>

lemma otp_guessed_twice:
  assumes "\<not> is_rate_limited (clk 0) (col_get (sv_rate_limit_by_email_hash st) h) EMAIL_RATE_LIMITS"
    and "col_get (sv_sessions_by_email_hash st) h = Some \<lparr>ix_clients = [c]\<rparr>"
    and "col_get (sv_sessions st) c = Some s" and "col_get (sv_challenges st) h = Some ch"
    and "otp \<noteq> ch_otp ch"
  shows "\<exists>st'. fold turn [0, 0, 0, 1, 1, 1, 0, 0, 1, 1]
    ([(''wrong'', authenticated_process E clk (Otp \<lparr>oa_email_hash = h, oa_otp = otp\<rparr>)),
      (''right'', authenticated_process E clk (Otp \<lparr>oa_email_hash = h, oa_otp = ch_otp ch\<rparr>))], st) =
    ([(''wrong'', ret []), (''right'', ret [s])], st')"
  using assms
  by (simp add: authenticated_process_def candidates_process_def reads_def writes_def ct_str_eq_iff Let_def)

text \<open>
  The limiter reads a bucket and later writes it back: two requests that read the same bucket both
  pass and count as one, as long as the bucket had room for one.
\<close>

lemma requests_counted_once:
  assumes "\<not> is_rate_limited (clk 0) (col_get (sv_rate_limit_by_client st) k) CLIENT_RATE_LIMITS"
    and "\<not> is_rate_limited (clk' 0) (col_get (sv_rate_limit_by_client st) k) CLIENT_RATE_LIMITS"
  shows "\<exists>st'. fold turn [0, 1, 0, 1] ([(a, rate_limit_process clk k), (b, rate_limit_process clk' k)], st) =
      ([(a, ret True), (b, ret True)], st') \<and>
    col_get (sv_rate_limit_by_client st') k =
      Some (record_attempt (clk' 1) (col_get (sv_rate_limit_by_client st) k) CLIENT_RATE_LIMITS)"
  using assms by (simp add: rate_limit_process_def reads_def writes_def)

text \<open>
  \<open>add_session\<close> reads the index of an email and writes it back: of two sessions added at the same
  time one is stored but not listed, and so not found by password or one-time password.
\<close>

lemma index_update_lost:
  assumes "sess_email_hash s1 = Some h" and "sess_email_hash s2 = Some h" and "c1 \<noteq> c2"
    and "col_get (sv_sessions_by_email_hash st) h = Some ix" and "c1 \<notin> set (ix_clients ix)"
  shows "\<exists>st'. fold turn [0, 1, 0, 1, 0, 1]
      ([(a, add_session_process c1 s1), (b, add_session_process c2 s2)], st) =
      ([(a, ret ()), (b, ret ())], st') \<and>
    col_get (sv_sessions st') c1 = Some s1 \<and>
    (\<exists>ix'. col_get (sv_sessions_by_email_hash st') h = Some ix' \<and> c1 \<notin> set (ix_clients ix'))"
  using assms by (simp add: add_session_process_def reads_def writes_def Let_def)

text \<open>
  \<open>check_key_reuse\<close> reads before the role is written: a recovery and a login started at the same
  time with one key leave the key with both roles.
\<close>

definition recovery_job8 :: job where
  "recovery_job8 = Serve (auth8 key_b) (CRecoveryStart \<lparr>rtq_auth = password8\<rparr>) clk8 rnd8"

definition login_job8 :: job where
  "login_job8 = Serve (auth8 key_b) (CLoginStart \<lparr>lsq_auth = password8\<rparr>) clk8 rnd8"

lemma owner_password8: "sess_password_hash owner8 = Some pw8"
  by (simp add: owner8_def)

lemma key_with_two_roles:
  "\<exists>pool st. served ext8 opts8 pool st \<and> list_all (\<lambda>(j, p). finished p) pool \<and> \<not> keys_disjoint st"
proof -
  obtain pool where pool: "served ext8 opts8 pool setup8" "list_all (\<lambda>(j, p). finished p) pool"
    using run_served [OF run_setup8] by blast
  have "served ext8 opts8 (pool @ [(recovery_job8, job_process ext8 recovery_job8),
      (login_job8, job_process ext8 login_job8)]) setup8"
    using conc_call [OF conc_call [OF pool(1) [unfolded served_def], of recovery_job8], of login_job8]
    by (simp add: served_def recovery_job8_def login_job8_def clock8)
  moreover have "\<exists>r r' st. fold turn [0, 0, 0, 1, 1, 1, 0, 0, 0, 0, 1, 1, 1, 1]
      ([(recovery_job8, job_process ext8 recovery_job8), (login_job8, job_process ext8 login_job8)], setup8) =
      ([(recovery_job8, Return r), (login_job8, Return r')], st) \<and> \<not> keys_disjoint st"
    by (simp add: recovery_job8_def login_job8_def map_process_def recovery_start_process_def login_start_process_def
        key_reuse_process_def authenticated_process_def candidates_process_def reads_def writes_def
        password8_def is_rate_limited_def col_get_def owner_password8 ct_str_eq_iff items8
        keys_disjoint_def Let_def)
  ultimately obtain r r' st where "served ext8 opts8 (pool @ [(recovery_job8, Return r), (login_job8, Return r')]) st"
    "\<not> keys_disjoint st"
    unfolding served_def by (elim exE conjE) (drule concurrent_turns, assumption, blast)
  then show ?thesis using pool(2)
    by (intro exI [of _ "pool @ [(recovery_job8, Return r), (login_job8, Return r')]"] exI [of _ st]) simp
qed

end
