(* ===== verification/Signer_Database.thy ===== *)
theory Signer_Database
  imports Signer_Authentic Storage_Refine
begin

text \<open>
  The signer on its database.  \<open>Signer::open\<close> gives each collection of the signer a tree of one
  encrypted \<open>sled\<close> database.  Every step of a call or a clean-up is at most one write of one
  collection, so however the steps interleave, the database holds the state of the model after each
  of them.
\<close>

subsection \<open>The collections of \<open>Signer::open\<close>\<close>

text \<open>The parameters of \<open>Storage\<close>, with the serialization of each collection's type.\<close>

record ('d, 'k) disk =
  dk_sled :: "'d sled"
  dk_aead :: "'k aead"
  dk_cipher :: "'k option"
  dk_logins :: "signer_login codec"
  dk_sessions :: "signer_session codec"
  dk_recoveries :: "signer_recovery codec"
  dk_challenges :: "signer_challenge codec"
  dk_index :: "session_index codec"
  dk_buckets :: "rate_limit_bucket codec"

definition disk_backend :: "('d, 'k) disk \<Rightarrow> 'd backend" where
  "disk_backend D = sled_backend (dk_sled D) (dk_aead D) (dk_cipher D)"

text \<open>What \<open>Storage::collection(name)\<close> finds in the database.\<close>

definition open_collection :: "('d, 'k) disk \<Rightarrow> 'v codec \<Rightarrow> string \<Rightarrow> 'd \<Rightarrow> 'v col" where
  "open_collection D J name d = view (dk_sled D) (dk_aead D) (dk_cipher D) J name d"

definition signer_on :: "('d, 'k) disk \<Rightarrow> signer_options \<Rightarrow> 'd \<Rightarrow> signer" where
  "signer_on D options d =
     \<lparr>sv_options = options,
      sv_logins = open_collection D (dk_logins D) ''logins'' d,
      sv_sessions = open_collection D (dk_sessions D) ''sessions'' d,
      sv_recoveries = open_collection D (dk_recoveries D) ''recoveries'' d,
      sv_challenges = open_collection D (dk_challenges D) ''challenges'' d,
      sv_sessions_by_email_hash = open_collection D (dk_index D) ''sessionsByEmailHash'' d,
      sv_rate_limit_by_email_hash = open_collection D (dk_buckets D) ''rateLimitByEmailHash'' d,
      sv_rate_limit_by_client = open_collection D (dk_buckets D) ''rateLimitByClient'' d,
      sv_commits_by_client = Map.empty, sv_outbox = []\<rparr>"

text \<open>
  The values the \<open>Deserialize\<close> of each type accepts: the share and the group of a session pass the
  checks of \<open>schema.rs\<close>, and every string is valid UTF-8, as a \<open>String\<close> is.
\<close>

definition session_value :: "signer_session \<Rightarrow> bool" where
  "session_value s \<longleftrightarrow>
     sshare_valid (sess_share s) \<and> sgroup_valid (sess_group s) \<and> utf8 (sess_client s) \<and>
     pred_option utf8 (sess_email s) \<and> pred_option utf8 (sess_email_hash s) \<and>
     pred_option utf8 (sess_password_hash s)"

definition index_value :: "session_index \<Rightarrow> bool" where
  "index_value ix \<longleftrightarrow> list_all utf8 (ix_clients ix)"

definition recovery_value :: "signer_recovery \<Rightarrow> bool" where
  "recovery_value r \<longleftrightarrow> list_all utf8 (srec_clients r)"

definition login_value :: "signer_login \<Rightarrow> bool" where
  "login_value l \<longleftrightarrow> list_all utf8 (slog_clients l)"

definition challenge_value :: "signer_challenge \<Rightarrow> bool" where
  "challenge_value c \<longleftrightarrow> utf8 (ch_otp c)"

definition bucket_value :: "rate_limit_bucket \<Rightarrow> bool" where
  "bucket_value b \<longleftrightarrow> True"

text \<open>The database holds a state: what it stores decodes, to the collections of that state.\<close>

definition holds_collection :: "('d, 'k) disk \<Rightarrow> 'v codec \<Rightarrow> string \<Rightarrow> 'd \<Rightarrow> 'v col \<Rightarrow> bool" where
  "holds_collection D J name d c \<longleftrightarrow>
     db_ok (dk_sled D) (dk_aead D) (dk_cipher D) J name d \<and> open_collection D J name d = c"

definition stored :: "('d, 'k) disk \<Rightarrow> 'd \<Rightarrow> signer \<Rightarrow> bool" where
  "stored D d st \<longleftrightarrow>
     holds_collection D (dk_logins D) ''logins'' d (sv_logins st) \<and>
     holds_collection D (dk_sessions D) ''sessions'' d (sv_sessions st) \<and>
     holds_collection D (dk_recoveries D) ''recoveries'' d (sv_recoveries st) \<and>
     holds_collection D (dk_challenges D) ''challenges'' d (sv_challenges st) \<and>
     holds_collection D (dk_index D) ''sessionsByEmailHash'' d (sv_sessions_by_email_hash st) \<and>
     holds_collection D (dk_buckets D) ''rateLimitByEmailHash'' d (sv_rate_limit_by_email_hash st) \<and>
     holds_collection D (dk_buckets D) ''rateLimitByClient'' d (sv_rate_limit_by_client st)"

definition disk_laws :: "('d, 'k) disk \<Rightarrow> bool" where
  "disk_laws D \<longleftrightarrow>
     sled_laws (dk_sled D) \<and> aead_laws (dk_aead D) (dk_cipher D) \<and>
     codec_laws login_value (dk_logins D) \<and> codec_laws session_value (dk_sessions D) \<and>
     codec_laws recovery_value (dk_recoveries D) \<and> codec_laws challenge_value (dk_challenges D) \<and>
     codec_laws index_value (dk_index D) \<and> codec_laws bucket_value (dk_buckets D)"

text \<open>A new database, and one a process left.\<close>

lemma new_collection:
  assumes "disk_laws D" and "\<And>t k. sl_get (dk_sled D) d t k = Some None"
  shows "holds_collection D J name d []"
proof -
  have sled: "sled_laws (dk_sled D)" using assms(1) by (simp add: disk_laws_def)
  have ok: "db_ok (dk_sled D) (dk_aead D) (dk_cipher D) J name d"
    by (simp add: db_ok_def assms(2))
  have "open_collection D J name d = []"
    by (rule col_eqI [OF view_sorted [OF sled ok, folded open_collection_def]])
      (simp_all add: open_collection_def view_get [OF sled ok] assms(2) col_sorted_def)
  with ok show ?thesis by (simp add: holds_collection_def)
qed

lemma stored_new:
  assumes "disk_laws D" and "\<And>t k. sl_get (dk_sled D) d t k = Some None"
  shows "stored D d (signer_open options)"
  by (simp add: stored_def signer_open_def new_collection [OF assms])

lemma stored_reopen:
  assumes "stored D d st"
  shows "signer_reopen options st = (signer_on D options d)\<lparr>sv_outbox := sv_outbox st\<rparr>"
    and "stored D d (signer_reopen options st)"
  using assms
  by (simp_all add: stored_def holds_collection_def signer_reopen_def signer_open_def signer_on_def)

text \<open>What a step reads is what \<open>Collection\<close> reads from the database.\<close>

lemma held_reads:
  assumes "disk_laws D" and "holds_collection D J name d c"
  shows "collection_get (disk_backend D) J name d k = Ok (col_get c k)"
    and "collection_entries (disk_backend D) J name d = Ok (col_entries c)"
proof -
  have sled: "sled_laws (dk_sled D)" using assms(1) by (simp add: disk_laws_def)
  have ok: "db_ok (dk_sled D) (dk_aead D) (dk_cipher D) J name d"
    "c = view (dk_sled D) (dk_aead D) (dk_cipher D) J name d"
    using assms(2) by (auto simp: holds_collection_def open_collection_def)
  show "collection_get (disk_backend D) J name d k = Ok (col_get c k)"
    unfolding ok(2) disk_backend_def by (rule collection_get_refines [OF sled ok(1)])
  show "collection_entries (disk_backend D) J name d = Ok (col_entries c)"
    unfolding ok(2) disk_backend_def by (rule view_entries [OF sled ok(1)]) (simp add: col_entries_def)
qed


subsection \<open>One write at a time\<close>

text \<open>A write of one collection, on the database and in the model.\<close>

definition collection_write :: "('d, 'k) disk \<Rightarrow> 'v codec \<Rightarrow> string \<Rightarrow> 'd \<Rightarrow> 'd \<Rightarrow> bool" where
  "collection_write D J name d d' \<longleftrightarrow>
     (\<exists>rnd k v. length rnd = NONCE_LEN \<and> collection_set (disk_backend D) J name rnd d k v = Ok d') \<or>
     (\<exists>k r. collection_delete (disk_backend D) name d k = Ok (r, d'))"

definition col_write :: "'v col \<Rightarrow> 'v col \<Rightarrow> bool" where
  "col_write c c' \<longleftrightarrow> (\<exists>k v. c' = col_set c k v) \<or> (\<exists>k. c' = col_delete c k)"

text \<open>What the program keeps in a collection: keys that are \<open>String\<close>s and values of its type.\<close>

definition col_values :: "('v \<Rightarrow> bool) \<Rightarrow> 'v col \<Rightarrow> bool" where
  "col_values valid c \<longleftrightarrow> (\<forall>k v. col_get c k = Some v \<longrightarrow> utf8 k \<and> valid v)"

definition other_trees :: "('d, 'k) disk \<Rightarrow> string \<Rightarrow> 'd \<Rightarrow> 'd \<Rightarrow> bool" where
  "other_trees D name d d' \<longleftrightarrow>
     (\<forall>t k. t \<noteq> name \<longrightarrow> sl_get (dk_sled D) d' t k = sl_get (dk_sled D) d t k)"

lemma held_elsewhere:
  assumes laws: "disk_laws D" and "other_trees D name d d'" and "t \<noteq> name"
    and held: "holds_collection D J t d c"
  shows "holds_collection D J t d' c"
proof -
  have sled: "sled_laws (dk_sled D)" using laws by (simp add: disk_laws_def)
  have same: "sl_get (dk_sled D) d' t k = sl_get (dk_sled D) d t k" for k
    using assms(2,3) by (simp add: other_trees_def)
  have ok: "db_ok (dk_sled D) (dk_aead D) (dk_cipher D) J t d"
    using held by (simp add: holds_collection_def)
  then have ok': "db_ok (dk_sled D) (dk_aead D) (dk_cipher D) J t d'"
    by (simp add: db_ok_def same)
  have "open_collection D J t d' = open_collection D J t d"
    unfolding open_collection_def
    by (rule col_eqI [OF view_sorted [OF sled ok'] view_sorted [OF sled ok]])
      (simp add: view_get [OF sled ok'] view_get [OF sled ok] same)
  then show ?thesis using held ok' by (simp add: holds_collection_def)
qed

lemma held_write:
  assumes laws: "disk_laws D" "codec_laws valid J" and held: "holds_collection D J name d c"
    and "col_write c c'" and vals: "col_values valid c'"
  shows "\<exists>d'. collection_write D J name d d' \<and> holds_collection D J name d' c' \<and> other_trees D name d d'"
proof -
  note l = laws(1) [unfolded disk_laws_def]
  have ok: "db_ok (dk_sled D) (dk_aead D) (dk_cipher D) J name d"
    and c: "c = view (dk_sled D) (dk_aead D) (dk_cipher D) J name d"
    using held by (auto simp: holds_collection_def open_collection_def)
  from assms(4) consider k v where "c' = col_set c k v" | k where "c' = col_delete c k"
    by (auto simp: col_write_def)
  then show ?thesis
  proof cases
    case (1 k v)
    then have key: "valid v" "utf8 k" using vals by (auto simp: col_values_def dest: spec [of _ k])
    obtain d' where d': "collection_set (disk_backend D) J name (replicate NONCE_LEN 0) d k v = Ok d'"
      "holds_collection D J name d' c'" "other_trees D name d d'"
      by (rule collection_set_refines [OF _ _ laws(2) key(1) ok key(2), of "replicate NONCE_LEN 0"])
        (use l in \<open>simp_all add: 1 c holds_collection_def open_collection_def other_trees_def disk_backend_def\<close>)
    have "collection_write D J name d d'"
      unfolding collection_write_def
      by (rule disjI1, rule exI [of _ "replicate NONCE_LEN 0"]) (use d'(1) in auto)
    then show ?thesis using d'(2,3) by blast
  next
    case (2 k)
    obtain d' r where d': "collection_delete (disk_backend D) name d k = Ok (r, d')"
      "holds_collection D J name d' c'" "other_trees D name d d'"
      by (rule collection_delete_refines [OF _ ok, of k])
        (use l in \<open>simp_all add: 2 c holds_collection_def open_collection_def other_trees_def disk_backend_def\<close>)
    then have "collection_write D J name d d'" unfolding collection_write_def by blast
    then show ?thesis using d'(2,3) by blast
  qed
qed


subsection \<open>The steps of the server\<close>

text \<open>What one step may change: one collection by one write, or what the process keeps in memory.\<close>

inductive one_write :: "signer \<Rightarrow> signer \<Rightarrow> bool" where
  ow_memory: "one_write st (st\<lparr>sv_commits_by_client := m, sv_outbox := ms\<rparr>)"
| ow_logins: "col_write (sv_logins st) c \<Longrightarrow> one_write st (st\<lparr>sv_logins := c\<rparr>)"
| ow_sessions: "col_write (sv_sessions st) c \<Longrightarrow> one_write st (st\<lparr>sv_sessions := c\<rparr>)"
| ow_recoveries: "col_write (sv_recoveries st) c \<Longrightarrow> one_write st (st\<lparr>sv_recoveries := c\<rparr>)"
| ow_challenges: "col_write (sv_challenges st) c \<Longrightarrow> one_write st (st\<lparr>sv_challenges := c\<rparr>)"
| ow_index: "col_write (sv_sessions_by_email_hash st) c \<Longrightarrow> one_write st (st\<lparr>sv_sessions_by_email_hash := c\<rparr>)"
| ow_emails: "col_write (sv_rate_limit_by_email_hash st) c \<Longrightarrow> one_write st (st\<lparr>sv_rate_limit_by_email_hash := c\<rparr>)"
| ow_clients: "col_write (sv_rate_limit_by_client st) c \<Longrightarrow> one_write st (st\<lparr>sv_rate_limit_by_client := c\<rparr>)"

definition state_values :: "signer \<Rightarrow> bool" where
  "state_values st \<longleftrightarrow>
     col_values login_value (sv_logins st) \<and> col_values session_value (sv_sessions st) \<and>
     col_values recovery_value (sv_recoveries st) \<and> col_values challenge_value (sv_challenges st) \<and>
     col_values index_value (sv_sessions_by_email_hash st) \<and>
     col_values bucket_value (sv_rate_limit_by_email_hash st) \<and>
     col_values bucket_value (sv_rate_limit_by_client st)"

definition accessed :: "('d, 'k) disk \<Rightarrow> 'd \<Rightarrow> 'd \<Rightarrow> bool" where
  "accessed D d d' \<longleftrightarrow> d' = d \<or>
     collection_write D (dk_logins D) ''logins'' d d' \<or>
     collection_write D (dk_sessions D) ''sessions'' d d' \<or>
     collection_write D (dk_recoveries D) ''recoveries'' d d' \<or>
     collection_write D (dk_challenges D) ''challenges'' d d' \<or>
     collection_write D (dk_index D) ''sessionsByEmailHash'' d d' \<or>
     collection_write D (dk_buckets D) ''rateLimitByEmailHash'' d d' \<or>
     collection_write D (dk_buckets D) ''rateLimitByClient'' d d'"

lemma stored_through:
  assumes "disk_laws D" and "codec_laws valid J" and "holds_collection D J name d c"
    and "col_values valid c'"
    and "col_write c c'"
    and "\<And>d'. collection_write D J name d d' \<Longrightarrow> accessed D d d'"
    and "\<And>d'. holds_collection D J name d' c' \<Longrightarrow> other_trees D name d d' \<Longrightarrow> stored D d' st'"
  shows "\<exists>d'. accessed D d d' \<and> stored D d' st'"
  using held_write [OF assms(1-3,5,4)] assms(6,7) by blast

lemma stored_write:
  assumes laws: "disk_laws D" and "one_write st st'" and st: "stored D d st" and vals: "state_values st'"
  shows "\<exists>d'. accessed D d d' \<and> stored D d' st'"
proof -
  note parts = st [unfolded stored_def] vals [unfolded state_values_def] laws [unfolded disk_laws_def]
  show ?thesis
    using assms(2)
  proof cases
    case (ow_memory m ms)
    then have "stored D d st'" using st by (simp add: stored_def)
    then show ?thesis by (auto simp: accessed_def)
  next
    case (ow_logins c)
    show ?thesis
      by (rule stored_through [OF laws _ _ _ ow_logins(2)])
        (use parts ow_logins in \<open>auto simp: accessed_def stored_def intro: held_elsewhere [OF laws]\<close>)
  next
    case (ow_sessions c)
    show ?thesis
      by (rule stored_through [OF laws _ _ _ ow_sessions(2)])
        (use parts ow_sessions in \<open>auto simp: accessed_def stored_def intro: held_elsewhere [OF laws]\<close>)
  next
    case (ow_recoveries c)
    show ?thesis
      by (rule stored_through [OF laws _ _ _ ow_recoveries(2)])
        (use parts ow_recoveries in \<open>auto simp: accessed_def stored_def intro: held_elsewhere [OF laws]\<close>)
  next
    case (ow_challenges c)
    show ?thesis
      by (rule stored_through [OF laws _ _ _ ow_challenges(2)])
        (use parts ow_challenges in \<open>auto simp: accessed_def stored_def intro: held_elsewhere [OF laws]\<close>)
  next
    case (ow_index c)
    show ?thesis
      by (rule stored_through [OF laws _ _ _ ow_index(2)])
        (use parts ow_index in \<open>auto simp: accessed_def stored_def intro: held_elsewhere [OF laws]\<close>)
  next
    case (ow_emails c)
    show ?thesis
      by (rule stored_through [OF laws _ _ _ ow_emails(2), of bucket_value "dk_buckets D" "''rateLimitByEmailHash''"])
        (use parts ow_emails in \<open>auto simp: accessed_def stored_def intro: held_elsewhere [OF laws]\<close>)
  next
    case (ow_clients c)
    show ?thesis
      by (rule stored_through [OF laws _ _ _ ow_clients(2), of bucket_value "dk_buckets D" "''rateLimitByClient''"])
        (use parts ow_clients in \<open>auto simp: accessed_def stored_def intro: held_elsewhere [OF laws]\<close>)
  qed
qed


text \<open>Every step of a process.\<close>

primrec each_step :: "('s \<Rightarrow> 's \<Rightarrow> bool) \<Rightarrow> ('s, 'a) process \<Rightarrow> bool" where
  "each_step R (Return r) \<longleftrightarrow> True"
| "each_step R (Atomic cont g) \<longleftrightarrow> (\<forall>s. R s (g s) \<and> each_step R (cont s))"

lemma each_step_bind [intro!]:
  "each_step R p \<Longrightarrow> (\<And>x. each_step R (f x)) \<Longrightarrow> each_step R (bindP p f)"
  by (induction p) (auto split: res.split)

lemma each_step_basic [intro!]:
  "(\<And>s. R s s) \<Longrightarrow> each_step R (reads f)" "(\<And>s. R s (g s)) \<Longrightarrow> each_step R (writes g)"
  "(\<And>s. R s (snd (k s))) \<Longrightarrow> each_step R (atomically k)"
  by (simp_all add: reads_def writes_def atomically_def)

lemma traced_each_step:
  assumes "traced body ok init restart pool s tr" and body: "\<And>l. ok l \<Longrightarrow> each_step R (body l)"
  shows "(\<forall>(l, p) \<in> set pool. each_step R p) \<and> (\<forall>(l, found, left) \<in> set tr. R found left)"
  using assms(1)
proof (induction rule: traced.induct)
  case (traced_call pool s tr l)
  then show ?case using body by auto
qed auto

abbreviation single_writes :: "'a task \<Rightarrow> bool" where "single_writes \<equiv> each_step one_write"

lemma col_writes [simp, intro!]: "col_write c (col_set c k v)" "col_write c (col_delete c k)"
  by (auto simp: col_write_def)

lemma one_write_memory [intro!]:
  "one_write st st" "one_write st (st\<lparr>sv_commits_by_client := m\<rparr>)" "one_write st (st\<lparr>sv_outbox := ms\<rparr>)"
  using ow_memory [where st = st and m = "sv_commits_by_client st" and ms = "sv_outbox st"]
    ow_memory [where st = st and m = m and ms = "sv_outbox st"]
    ow_memory [where st = st and m = "sv_commits_by_client st" and ms = ms]
  by simp_all

lemmas one_write_cols [intro!] =
  ow_logins ow_sessions ow_recoveries ow_challenges ow_index ow_emails ow_clients

lemma one_write_touch [intro!]: "one_write st (touch_session t c s st)"
  unfolding touch_session_def by auto

lemma one_write_take [intro!]: "one_write st (snd (take_commit i c st))"
proof -
  obtain e st' where t: "take_commit i c st = (e, st')" by fastforce
  then have "one_write st st'" by (cases rule: take_commit_cases) auto
  then show ?thesis by (simp add: t)
qed

lemma single_purge [intro!]:
  "(\<And>k s. one_write s (del k s)) \<Longrightarrow> single_writes (purge_process p del n kvs)"
  by (induction kvs arbitrary: n) auto

lemma single_sessions [intro!]: "single_writes (sessions_process cs)"
  by (induction cs) auto

lemma helpers_single [intro!]:
  "single_writes (rate_limit_process clk c)" "single_writes (authenticated_process E clk a)"
  "single_writes (key_reuse_process c)" "single_writes (add_session_process c s)"
  "single_writes (deactivate_session_process t c)" "single_writes (delete_session_process c)"
  "single_writes (touch_session_process t c s)" "single_writes (challenge_target_process h)"
  by (auto simp: rate_limit_process_def authenticated_process_def candidates_process_def
      key_reuse_process_def add_session_process_def deactivate_session_process_def
      delete_session_process_def unlist_session_process_def touch_session_process_def
      challenge_target_process_def Let_def split: option.split auth.split)

lemma single_map [intro!]: "single_writes p \<Longrightarrow> single_writes (map_process f p)"
  by (auto simp: map_process_def)

lemma handlers_single [intro!]:
  "single_writes (register_process E clk auth rq)" "single_writes (recovery_setup_process E clk auth rsq)"
  "single_writes (challenge_process E clk buf auth cq)" "single_writes (recovery_start_process E clk auth rtq)"
  "single_writes (recovery_select_process auth clq)" "single_writes (login_start_process E clk auth lsq)"
  "single_writes (login_select_process clk auth clq)" "single_writes (ecdh_process E clk auth eq)"
  "single_writes (session_list_process auth)" "single_writes (session_deactivate_process clk auth clq)"
  "single_writes (session_delete_process auth clq)"
  "single_writes (sign_commit_process E clk rnd auth scq)" "single_writes (sign_complete_process E clk auth sq)"
  "single_writes (cleanup_process clk)"
  by (auto simp: register_process_def recovery_setup_process_def challenge_process_def
      recovery_start_process_def recovery_select_process_def login_start_process_def
      login_select_process_def ecdh_process_def session_list_process_def session_deactivate_process_def
      session_delete_process_def sign_commit_process_def sign_complete_process_def cleanup_process_def
      Let_def split: option.split res.split)

lemma job_single: "single_writes (job_process E j)"
proof (cases j)
  case (Serve auth c clk rnd)
  then show ?thesis by (cases c) auto
qed auto

subsection \<open>The server on its database\<close>

text \<open>The databases along a trace: each step is at most one write of one collection.\<close>

definition replayed :: "('d, 'k) disk \<Rightarrow> 'd list \<Rightarrow> job_trace \<Rightarrow> bool" where
  "replayed D ds tr \<longleftrightarrow> length ds = Suc (length tr) \<and>
     (\<forall>i < length tr. case tr ! i of (j, found, left) \<Rightarrow>
        stored D (ds ! i) found \<and> accessed D (ds ! i) (ds ! Suc i) \<and> stored D (ds ! Suc i) left)"

lemma replayed_append:
  assumes "replayed D ds tr" and "stored D (last ds) found" and "accessed D (last ds) d" and "stored D d left"
  shows "replayed D (ds @ [d]) (tr @ [(j, found, left)])"
proof -
  have len: "length ds = Suc (length tr)" using assms(1) by (simp add: replayed_def)
  then have "ds \<noteq> []" by auto
  then have last: "ds ! length tr = last ds" by (simp add: last_conv_nth len)
  let ?ok = "\<lambda>ds tr i. case tr ! i of (j, found, left) \<Rightarrow>
      stored D (ds ! i) found \<and> accessed D (ds ! i) (ds ! Suc i) \<and> stored D (ds ! Suc i) left"
  have "?ok (ds @ [d]) (tr @ [(j, found, left)]) i" if "i < Suc (length tr)" for i
  proof (cases "i = length tr")
    case True
    then show ?thesis using assms(2-4) by (simp add: nth_append len last)
  next
    case False
    then have "i < length tr" using that by simp
    then show ?thesis using assms(1) by (simp add: nth_append len replayed_def)
  qed
  then show ?thesis by (simp add: replayed_def len)
qed

lemma server_replayed:
  fixes E :: "('s::field, 'p::ab_group_add, 'z) s_externals_scheme"
  assumes laws: "disk_laws D" and trace: "served_trace E opts pool st tr"
    and vals: "\<forall>(j, found, left) \<in> set tr. state_values left"
    and new: "\<And>t k. sl_get (dk_sled D) d t k = Some None"
  shows "\<exists>ds. hd ds = d \<and> replayed D ds tr \<and> stored D (last ds) st"
  using trace [unfolded served_trace_def] vals
proof (induction rule: traced.induct)
  case traced_init
  show ?case
    using stored_new [OF laws new] by (intro exI [of _ "[d]"]) (simp add: replayed_def)
next
  case (traced_call pool s tr l)
  then show ?case by blast
next
  case (traced_step ps l cont g qs s tr)
  then obtain ds where ds: "hd ds = d" "replayed D ds tr" "stored D (last ds) s" by auto
  have "each_step one_write (Atomic cont g)"
    using traced_each_step [OF traced_step.hyps(1), of one_write] job_single by auto
  then have "one_write s (g s)" by simp
  moreover have "state_values (g s)" using traced_step.prems by auto
  ultimately obtain d' where d': "accessed D (last ds) d'" "stored D d' (g s)"
    using stored_write [OF laws _ ds(3)] by blast
  moreover have "ds \<noteq> []" using ds(2) by (auto simp: replayed_def)
  ultimately show ?case
    using ds replayed_append [OF ds(2,3) d'] by (intro exI [of _ "ds @ [d']"]) simp
next
  case (traced_restart pool s tr)
  then obtain ds where "hd ds = d" "replayed D ds tr" "stored D (last ds) s" by blast
  then show ?case by (intro exI [of _ ds] conjI stored_reopen(2))
qed

end
