(* ===== verification/Codec_Example.thy ===== *)
theory Codec_Example
  imports Storage_Example Signer_Database
begin

text \<open>
  Serializers that read back what they wrote, for the types of the signer's collections, and with
  them a disk that satisfies the laws.  A reader takes a value off the front of the bytes; like the
  \<open>Deserialize\<close> of the types, the codecs refuse a value that is not valid.
\<close>

type_synonym 'a coder = "('a \<Rightarrow> bytes) \<times> (bytes \<Rightarrow> ('a \<times> bytes) option)"

definition reads_back :: "'a coder \<Rightarrow> bool" where
  "reads_back c \<longleftrightarrow> (\<forall>x r. snd c (fst c x @ r) = Some (x, r))"

definition codec_of :: "('a \<Rightarrow> bool) \<Rightarrow> 'a coder \<Rightarrow> 'a codec" where
  "codec_of valid c =
     \<lparr>to_vec = (\<lambda>x. Some (fst c x)),
      from_slice = (\<lambda>bs. case snd c bs of Some (x, []) \<Rightarrow> if valid x then Some x else None | _ \<Rightarrow> None)\<rparr>"

lemma codec_of_laws: "reads_back c \<Longrightarrow> codec_laws valid (codec_of valid c)"
proof -
  assume "reads_back c"
  then have "snd c (fst c x @ []) = Some (x, [])" for x unfolding reads_back_def by blast
  then show ?thesis by (simp add: codec_laws_def codec_of_def)
qed

definition byte_coder :: "byte coder" where
  "byte_coder = (\<lambda>b. [b], \<lambda>bs. case bs of [] \<Rightarrow> None | b # r \<Rightarrow> Some (b, r))"

definition map_coder :: "('a \<Rightarrow> 'b) \<Rightarrow> ('b \<Rightarrow> 'a) \<Rightarrow> 'b coder \<Rightarrow> 'a coder" where
  "map_coder f g c = (\<lambda>x. fst c (f x), \<lambda>bs. map_option (apfst g) (snd c bs))"

definition pair_coder :: "'a coder \<Rightarrow> 'b coder \<Rightarrow> ('a \<times> 'b) coder" where
  "pair_coder c e =
     (\<lambda>(x, y). fst c x @ fst e y,
      \<lambda>bs. Option.bind (snd c bs) (\<lambda>(x, r). map_option (apfst (Pair x)) (snd e r)))"

primrec read_many :: "'a coder \<Rightarrow> nat \<Rightarrow> bytes \<Rightarrow> ('a list \<times> bytes) option" where
  "read_many c 0 bs = Some ([], bs)"
| "read_many c (Suc n) bs =
     Option.bind (snd c bs) (\<lambda>(x, r). map_option (apfst ((#) x)) (read_many c n r))"

definition list_coder :: "'a coder \<Rightarrow> 'a list coder" where
  "list_coder c =
     (\<lambda>xs. replicate (length xs) 1 @ 0 # concat (map (fst c) xs),
      \<lambda>bs. read_many c (length (takeWhile ((=) 1) bs)) (tl (dropWhile ((=) 1) bs)))"

lemma reads_back_byte [intro!]: "reads_back byte_coder"
  by (simp add: reads_back_def byte_coder_def)

lemma reads_back_map [intro!]: "reads_back c \<Longrightarrow> (\<And>x. g (f x) = x) \<Longrightarrow> reads_back (map_coder f g c)"
  by (simp add: reads_back_def map_coder_def)

lemma reads_back_pair [intro!]: "reads_back c \<Longrightarrow> reads_back e \<Longrightarrow> reads_back (pair_coder c e)"
  by (auto simp: reads_back_def pair_coder_def)

lemma reads_back_list [intro!]:
  assumes "reads_back c"
  shows "reads_back (list_coder c)"
proof -
  have "read_many c (length xs) (concat (map (fst c) xs) @ r) = Some (xs, r)" for xs r
    using assms by (induction xs) (auto simp: reads_back_def)
  moreover have "takeWhile ((=) 1) (replicate n 1 @ 0 # bs) = replicate n (1 :: byte)"
    "dropWhile ((=) 1) (replicate n 1 @ 0 # bs) = (0 :: byte) # bs" for n bs
    by (induction n) simp_all
  ultimately show ?thesis by (simp add: reads_back_def list_coder_def)
qed

subsection \<open>The types of the collections\<close>

definition string_coder :: "string coder" where
  "string_coder = map_coder str_bytes bytes_str (list_coder byte_coder)"

definition u64_coder :: "u64 coder" where
  "u64_coder = map_coder (\<lambda>w. be_bytes 8 (unat w)) (\<lambda>bs. of_nat (be_nat bs)) (list_coder byte_coder)"

definition u32_coder :: "u32 coder" where
  "u32_coder = map_coder (\<lambda>w. be_bytes 4 (unat w)) (\<lambda>bs. of_nat (be_nat bs)) (list_coder byte_coder)"

definition option_coder :: "'a coder \<Rightarrow> 'a option coder" where
  "option_coder c = map_coder (\<lambda>x. case x of None \<Rightarrow> [] | Some y \<Rightarrow> [y])
     (\<lambda>xs. case xs of [] \<Rightarrow> None | y # _ \<Rightarrow> Some y) (list_coder c)"

definition bool_coder :: "bool coder" where
  "bool_coder = map_coder (\<lambda>b. if b then 1 else 0) ((=) 1) byte_coder"

lemma reads_back_basic [intro!]:
  "reads_back string_coder" "reads_back u64_coder" "reads_back u32_coder" "reads_back bool_coder"
  "reads_back c \<Longrightarrow> reads_back (option_coder c)"
proof -
  have "unat w < 256 ^ 8" for w :: u64
    using unsigned_less [of w, where 'a = nat] by simp
  moreover have "unat w < 256 ^ 4" for w :: u32
    using unsigned_less [of w, where 'a = nat] by simp
  ultimately show "reads_back u64_coder" "reads_back u32_coder"
    unfolding u64_coder_def u32_coder_def
    by (auto simp: be_nat_be_bytes simp del: power_numeral)
  show "reads_back string_coder" "reads_back bool_coder"
    unfolding string_coder_def bool_coder_def by (auto split: if_splits)
  show "reads_back (option_coder c)" if "reads_back c"
    unfolding option_coder_def using that by (auto split: option.split)
qed


definition commit_coder :: "commit_item coder" where
  "commit_coder = map_coder (\<lambda>c. (c_idx c, c_pubkey c, c_hidden_pn c, c_binder_pn c))
     (\<lambda>(i, p, h, b). \<lparr>c_idx = i, c_pubkey = p, c_hidden_pn = h, c_binder_pn = b\<rparr>)
     (pair_coder u32_coder (pair_coder string_coder (pair_coder string_coder string_coder)))"

definition group_coder :: "sgroup coder" where
  "group_coder = map_coder (\<lambda>g. (g_commits g, g_group_pk g, g_threshold g))
     (\<lambda>(cs, pk, t). \<lparr>g_commits = cs, g_group_pk = pk, g_threshold = t\<rparr>)
     (pair_coder (list_coder commit_coder) (pair_coder string_coder u32_coder))"

definition share_coder :: "sshare coder" where
  "share_coder = map_coder (\<lambda>s. (sh_idx s, sh_seckey s)) (\<lambda>(i, k). \<lparr>sh_idx = i, sh_seckey = k\<rparr>)
     (pair_coder u32_coder string_coder)"

definition session_coder :: "signer_session coder" where
  "session_coder = map_coder
     (\<lambda>s. (sess_client s, sess_share s, sess_group s, sess_recovery s, sess_created_at s,
       sess_deactivated_at s, sess_last_activity s, sess_email s, sess_email_hash s, sess_password_hash s))
     (\<lambda>(c, sh, g, rc, ct, de, la, em, eh, ph).
       \<lparr>sess_client = c, sess_share = sh, sess_group = g, sess_recovery = rc, sess_created_at = ct,
        sess_deactivated_at = de, sess_last_activity = la, sess_email = em, sess_email_hash = eh,
        sess_password_hash = ph\<rparr>)
     (pair_coder string_coder (pair_coder share_coder (pair_coder group_coder (pair_coder bool_coder
       (pair_coder u64_coder (pair_coder (option_coder u64_coder) (pair_coder u64_coder
       (pair_coder (option_coder string_coder) (pair_coder (option_coder string_coder)
       (option_coder string_coder))))))))))"

definition index_coder :: "session_index coder" where
  "index_coder = map_coder ix_clients (\<lambda>cs. \<lparr>ix_clients = cs\<rparr>) (list_coder string_coder)"

definition recovery_coder :: "signer_recovery coder" where
  "recovery_coder = map_coder (\<lambda>r. (srec_created_at r, srec_clients r))
     (\<lambda>(t, cs). \<lparr>srec_created_at = t, srec_clients = cs\<rparr>) (pair_coder u64_coder (list_coder string_coder))"

definition login_coder :: "signer_login coder" where
  "login_coder = map_coder (\<lambda>l. (slog_created_at l, slog_clients l))
     (\<lambda>(t, cs). \<lparr>slog_created_at = t, slog_clients = cs\<rparr>) (pair_coder u64_coder (list_coder string_coder))"

definition challenge_coder :: "signer_challenge coder" where
  "challenge_coder = map_coder (\<lambda>c. (ch_created_at c, ch_otp c))
     (\<lambda>(t, s). \<lparr>ch_created_at = t, ch_otp = s\<rparr>) (pair_coder u64_coder string_coder)"

definition bucket_coder :: "rate_limit_bucket coder" where
  "bucket_coder = map_coder (\<lambda>b. (b_attempts b, b_first_attempt b, b_last_attempt b))
     (\<lambda>(n, f, l). \<lparr>b_attempts = n, b_first_attempt = f, b_last_attempt = l\<rparr>)
     (pair_coder u32_coder (pair_coder u64_coder u64_coder))"

lemma reads_back_types [intro!]:
  "reads_back commit_coder" "reads_back share_coder" "reads_back index_coder" "reads_back recovery_coder"
  "reads_back login_coder" "reads_back challenge_coder" "reads_back bucket_coder"
  unfolding commit_coder_def share_coder_def index_coder_def recovery_coder_def login_coder_def
    challenge_coder_def bucket_coder_def
  by auto

lemma reads_back_session [intro!]: "reads_back group_coder" "reads_back session_coder"
proof -
  show "reads_back group_coder" unfolding group_coder_def by auto
  then show "reads_back session_coder" unfolding session_coder_def by auto
qed

definition disk8 :: "(db8, unit) disk" where
  "disk8 = \<lparr>dk_sled = sled8, dk_aead = aead8, dk_cipher = Some (), dk_logins = codec_of login_value login_coder,
     dk_sessions = codec_of session_value session_coder,
     dk_recoveries = codec_of recovery_value recovery_coder,
     dk_challenges = codec_of challenge_value challenge_coder,
     dk_index = codec_of index_value index_coder, dk_buckets = codec_of bucket_value bucket_coder\<rparr>"

lemma disk_laws8: "disk_laws disk8"
  by (auto simp: disk_laws_def disk8_def sled_laws8 crypto_laws8 intro!: codec_of_laws)

end
