(* ===== verification/Signer_Strings.thy ===== *)
theory Signer_Strings
  imports Signer_Database
begin

text \<open>
  What the signer writes can be read back.  The strings of a request are Rust's \<open>String\<close>s, so valid
  UTF-8, and its shares and groups have passed the checks of \<open>schema.rs\<close>.  Every key the signer writes
  is such a string, the key of an entry it has read or a hexadecimal string it made, and every value
  is made of those: however the calls interleave, no entry of the database is skipped when it is
  listed, and each is a value its \<open>Deserialize\<close> accepts.
\<close>

lemma hexdigits_utf8: "list_all is_ascii_hexdigit s \<Longrightarrow> utf8 s"
proof (induction s)
  case (Cons c s)
  then have "(of_char c :: nat) < 128" using hexdigit_ascii by simp
  then have "(of_nat (of_char c) :: byte) < 0x80" by (simp add: word_less_nat_alt unat_of_nat)
  with Cons show ?case by (simp add: str_bytes_def)
qed (simp add: str_bytes_def)

lemma utf8_append: "utf8_valid a \<Longrightarrow> utf8_valid b \<Longrightarrow> utf8_valid (a @ b)"
proof (induction "length a" arbitrary: a rule: less_induct)
  case less
  show ?case
  proof (cases a)
    case (Cons x bs)
    note valid = less.prems(1) [unfolded Cons]
    consider (one) "x < 0x80" | (two) "\<not> x < 0x80" "0xC2 \<le> x \<and> x \<le> 0xDF"
      | (three) "\<not> x < 0x80" "\<not> (0xC2 \<le> x \<and> x \<le> 0xDF)" "0xE0 \<le> x \<and> x \<le> 0xEF"
      | (four) "\<not> x < 0x80" "\<not> (0xC2 \<le> x \<and> x \<le> 0xDF)" "\<not> (0xE0 \<le> x \<and> x \<le> 0xEF)" "0xF0 \<le> x \<and> x \<le> 0xF4"
      | (none) "\<not> x < 0x80" "\<not> (0xC2 \<le> x \<and> x \<le> 0xDF)" "\<not> (0xE0 \<le> x \<and> x \<le> 0xEF)" "\<not> (0xF0 \<le> x \<and> x \<le> 0xF4)"
      by blast
    then show ?thesis
    proof cases
      case one
      then show ?thesis using valid less by (simp add: Cons)
    next
      case two
      note step = utf8_valid.simps if_not_P [OF two(1)] if_P [OF two(2)]
      then obtain c1 r where bs: "bs = c1 # r" "utf8_cont c1" "utf8_valid r"
        using valid unfolding step by (simp split: list.splits)
      then have "utf8_valid (r @ b)" using less by (simp add: Cons)
      then show ?thesis using bs unfolding Cons append_Cons step by simp
    next
      case three
      note step = utf8_valid.simps if_not_P [OF three(1)] if_not_P [OF three(2)] if_P [OF three(3)]
      then obtain c1 c2 r where bs: "bs = c1 # c2 # r" "utf8_cont c1" "x = 0xE0 \<longrightarrow> 0xA0 \<le> c1"
        "x = 0xED \<longrightarrow> c1 \<le> 0x9F" "utf8_cont c2" "utf8_valid r"
        using valid unfolding step by (simp split: list.splits)
      then have "utf8_valid (r @ b)" using less by (simp add: Cons)
      then show ?thesis using bs unfolding Cons append_Cons step by simp
    next
      case four
      note step = utf8_valid.simps if_not_P [OF four(1)] if_not_P [OF four(2)] if_not_P [OF four(3)] if_P [OF four(4)]
      then obtain c1 c2 c3 r where bs: "bs = c1 # c2 # c3 # r" "utf8_cont c1" "x = 0xF0 \<longrightarrow> 0x90 \<le> c1"
        "x = 0xF4 \<longrightarrow> c1 \<le> 0x8F" "utf8_cont c2" "utf8_cont c3" "utf8_valid r"
        using valid unfolding step by (simp split: list.splits)
      then have "utf8_valid (r @ b)" using less by (simp add: Cons)
      then show ?thesis using bs unfolding Cons append_Cons step by simp
    next
      case none
      show ?thesis
        using valid unfolding utf8_valid.simps if_not_P [OF none(1)] if_not_P [OF none(2)]
          if_not_P [OF none(3)] if_not_P [OF none(4)] by simp
    qed
  qed (use less in simp)
qed

lemma decimal_utf8: "utf8 (dec_digits n)"
proof (induction n rule: dec_digits.induct)
  case (1 n)
  have "list_all (\<lambda>d. is_ascii_hexdigit (char_of (48 + d :: nat))) [0..<10]" by code_simp
  then have digit: "utf8 [char_of (48 + d :: nat)]" if "d < 10" for d
    using that by (intro hexdigits_utf8) (simp add: list_all_iff)
  show ?case
  proof (cases "n < 10")
    case True
    then show ?thesis using digit [of n] by (simp add: dec_digits.simps [of n])
  next
    case False
    then show ?thesis
      using 1 utf8_append [OF 1 [OF False] digit [of "n mod 10"]]
      by (simp add: dec_digits.simps [of n] str_bytes_def)
  qed
qed

lemma otp_utf8: "utf8 p \<Longrightarrow> utf8 (p @ dec_digits n)"
  using utf8_append [OF _ decimal_utf8, of "str_bytes p" n] by (simp add: str_bytes_def)

text \<open>The strings of a request that can become keys or parts of values.\<close>

fun call_strings :: "call \<Rightarrow> bool" where
  "call_strings (CChallenge d) = (utf8 (cq_prefix d) \<and> utf8 (cq_email_hash d))"
| "call_strings (CLoginStart d) = utf8 (auth_email_hash (lsq_auth d))"
| "call_strings (CRecoveryStart d) = utf8 (auth_email_hash (rtq_auth d))"
| "call_strings (CRecoverySetup d) = (utf8 (rsq_email d) \<and> utf8 (rsq_password_hash d))"
| "call_strings _ = True"

fun job_strings :: "job \<Rightarrow> bool" where
  "job_strings (Serve auth c clk rnd) = (utf8 (na_pubkey auth) \<and> call_strings c)"
| "job_strings (Clean clk) = True"

lemma values_open: "state_values (signer_open opts)"
  by (simp add: state_values_def col_values_def signer_open_def)

lemma values_reopen: "state_values st \<Longrightarrow> state_values (signer_reopen opts st)"
  by (simp add: state_values_def signer_reopen_def signer_open_def)

lemma col_values_set [simp]: "utf8 k \<Longrightarrow> valid v \<Longrightarrow> col_values valid c \<Longrightarrow> col_values valid (col_set c k v)"
  by (simp add: col_values_def)

lemma col_values_delete [simp]: "col_values valid c \<Longrightarrow> col_values valid (col_delete c k)"
  by (simp add: col_values_def)

lemma read_session:
  assumes "state_values st" and "col_get (sv_sessions st) k = Some s"
  shows "utf8 k" and "session_value s" and "sess_email_hash s = Some h \<Longrightarrow> utf8 h"
  using assms by (auto simp: state_values_def col_values_def session_value_def dest!: spec [of _ k])

lemma read_index:
  "state_values st \<Longrightarrow> col_get (sv_sessions_by_email_hash st) h = Some ix \<Longrightarrow> index_value ix"
  by (simp add: state_values_def col_values_def)

lemma session_value_times [simp]:
  "session_value (s\<lparr>sess_last_activity := t\<rparr>) = session_value s"
  "session_value (s\<lparr>sess_deactivated_at := d\<rparr>) = session_value s"
  by (simp_all add: session_value_def)

lemma value_writes [intro]:
  "state_values st \<Longrightarrow> utf8 k \<Longrightarrow> session_value s \<Longrightarrow>
    state_values (st\<lparr>sv_sessions := col_set (sv_sessions st) k s\<rparr>)"
  "state_values st \<Longrightarrow> state_values (st\<lparr>sv_sessions := col_delete (sv_sessions st) k\<rparr>)"
  "state_values st \<Longrightarrow> utf8 h \<Longrightarrow> index_value ix \<Longrightarrow>
    state_values (st\<lparr>sv_sessions_by_email_hash := col_set (sv_sessions_by_email_hash st) h ix\<rparr>)"
  "state_values st \<Longrightarrow>
    state_values (st\<lparr>sv_sessions_by_email_hash := col_delete (sv_sessions_by_email_hash st) h\<rparr>)"
  "state_values st \<Longrightarrow> utf8 h \<Longrightarrow> challenge_value c \<Longrightarrow>
    state_values (st\<lparr>sv_challenges := col_set (sv_challenges st) h c\<rparr>)"
  "state_values st \<Longrightarrow> state_values (st\<lparr>sv_challenges := col_delete (sv_challenges st) h\<rparr>)"
  "state_values st \<Longrightarrow> utf8 k \<Longrightarrow> recovery_value rc \<Longrightarrow>
    state_values (st\<lparr>sv_recoveries := col_set (sv_recoveries st) k rc\<rparr>)"
  "state_values st \<Longrightarrow> state_values (st\<lparr>sv_recoveries := col_delete (sv_recoveries st) k\<rparr>)"
  "state_values st \<Longrightarrow> utf8 k \<Longrightarrow> login_value lg \<Longrightarrow>
    state_values (st\<lparr>sv_logins := col_set (sv_logins st) k lg\<rparr>)"
  "state_values st \<Longrightarrow> state_values (st\<lparr>sv_logins := col_delete (sv_logins st) k\<rparr>)"
  "state_values st \<Longrightarrow> utf8 k \<Longrightarrow>
    state_values (st\<lparr>sv_rate_limit_by_client := col_set (sv_rate_limit_by_client st) k b\<rparr>)"
  "state_values st \<Longrightarrow>
    state_values (st\<lparr>sv_rate_limit_by_client := col_delete (sv_rate_limit_by_client st) k\<rparr>)"
  "state_values st \<Longrightarrow> utf8 k \<Longrightarrow>
    state_values (st\<lparr>sv_rate_limit_by_email_hash := col_set (sv_rate_limit_by_email_hash st) k b\<rparr>)"
  "state_values st \<Longrightarrow>
    state_values (st\<lparr>sv_rate_limit_by_email_hash := col_delete (sv_rate_limit_by_email_hash st) k\<rparr>)"
  "state_values st \<Longrightarrow> state_values (st\<lparr>sv_outbox := ms\<rparr>)"
  "state_values st \<Longrightarrow> state_values (st\<lparr>sv_commits_by_client := m\<rparr>)"
  by (simp_all add: state_values_def bucket_value_def)

lemma values_take_commit: "state_values st \<Longrightarrow> state_values (snd (take_commit i c st))"
proof -
  assume st: "state_values st"
  obtain e st' where t: "take_commit i c st = (e, st')" by fastforce
  then have "state_values st'" by (cases rule: take_commit_cases) (use st in auto)
  then show ?thesis by (simp add: t)
qed

subsection \<open>Processes\<close>

definition value_keeps :: "'a task \<Rightarrow> ('a res \<Rightarrow> bool) \<Rightarrow> bool" where
  "value_keeps p Q \<longleftrightarrow> keeps state_values (\<lambda>_. 0) p (\<lambda>n r. n = 0 \<and> Q r) 0"

abbreviation writes_values :: "'a task \<Rightarrow> bool" where
  "writes_values p \<equiv> value_keeps p (\<lambda>_. True)"

named_theorems value_rules \<open>rules for \<open>value_keeps\<close>, one for each construct and helper\<close>

lemma value_keeps_control [value_rules]:
  "Q r \<Longrightarrow> value_keeps (Return r) Q"
  "(b \<Longrightarrow> value_keeps p Q) \<Longrightarrow> (\<not> b \<Longrightarrow> value_keeps q Q) \<Longrightarrow> value_keeps (if b then p else q) Q"
  "(opt = None \<Longrightarrow> value_keeps p Q) \<Longrightarrow> (\<And>x. opt = Some x \<Longrightarrow> value_keeps (f x) Q) \<Longrightarrow>
   value_keeps (case opt of None \<Rightarrow> p | Some x \<Rightarrow> f x) Q"
  "(\<And>y. m = Ok y \<Longrightarrow> value_keeps (h y) Q) \<Longrightarrow> (\<And>e. value_keeps (g e) Q) \<Longrightarrow> value_keeps p Q \<Longrightarrow>
   value_keeps (case m of Ok x \<Rightarrow> h x | Err e \<Rightarrow> g e | Panic \<Rightarrow> p) Q"
  by (auto simp: value_keeps_def split: option.split res.split)

lemma value_keeps_pure [value_rules]:
  "(\<And>x. r = Ok x \<Longrightarrow> writes_values (f x)) \<Longrightarrow> writes_values (bindP (Return r) f)"
  unfolding value_keeps_def by (rule keeps_bind_Return) auto

lemma value_keeps_reads [value_rules]:
  "(\<And>st. state_values st \<Longrightarrow> value_keeps (f (h st)) Q) \<Longrightarrow> value_keeps (bindP (reads h) f) Q"
  unfolding value_keeps_def by (rule keeps_reads)

lemma value_keeps_writes [value_rules]:
  "(\<And>st. state_values st \<Longrightarrow> state_values (g st)) \<Longrightarrow> value_keeps (f ()) Q \<Longrightarrow> value_keeps (bindP (writes g) f) Q"
  "(\<And>st. state_values st \<Longrightarrow> state_values (g st)) \<Longrightarrow> writes_values (writes g)"
  unfolding value_keeps_def by (rule keeps_writes; simp) (rule keeps_writes_last; simp)

lemma value_keeps_take [value_rules]:
  "(\<And>e. writes_values (f e)) \<Longrightarrow> writes_values (bindP (atomically (take_commit i c)) f)"
  unfolding value_keeps_def by (rule keeps_atomically) (auto intro: values_take_commit)

lemma value_keeps_bind:
  assumes "value_keeps p R" and "\<And>x. R (Ok x) \<Longrightarrow> value_keeps (f x) Q"
    and "\<And>e. R (Err e) \<Longrightarrow> Q (Err e)" and "R Panic \<Longrightarrow> Q Panic"
  shows "value_keeps (bindP p f) Q"
  unfolding value_keeps_def
  by (rule keeps_bind_rule [OF assms(1) [unfolded value_keeps_def]])
    (use assms(2-4) in \<open>auto simp: value_keeps_def\<close>)

lemma writes_values_bind:
  "writes_values p \<Longrightarrow> (\<And>x. writes_values (f x)) \<Longrightarrow> writes_values (bindP p f)"
  by (rule value_keeps_bind) simp_all

lemma purge_values [value_rules]:
  "(\<And>k st. state_values st \<Longrightarrow> state_values (del k st)) \<Longrightarrow> writes_values (purge_process p del n kvs)"
proof (induction kvs arbitrary: n)
  case (Cons kv kvs)
  show ?case unfolding purge_process.simps by (intro value_rules Cons)
qed (simp add: value_rules)

text \<open>The sessions a start hands out are stored ones.\<close>

abbreviation stored_sessions :: "signer_session list res \<Rightarrow> bool" where
  "stored_sessions r \<equiv> (\<forall>ss. r = Ok ss \<longrightarrow> list_all session_value ss)"

lemma sessions_values: "value_keeps (sessions_process cs) stored_sessions"
proof (induction cs)
  case (Cons c cs)
  show ?case unfolding sessions_process.simps
    by (intro value_rules value_keeps_bind [OF Cons.IH]) (auto split: option.split dest: read_session)
qed (simp add: value_rules)

lemma candidates_values: "value_keeps (candidates_process a cs) stored_sessions"
  unfolding candidates_process_def
  by (cases a; simp only: auth.case; intro value_rules value_keeps_bind [OF sessions_values] sessions_values value_writes)
    (auto simp: list_all_iff)

lemma rate_limit_values: "utf8 c \<Longrightarrow> writes_values (rate_limit_process clk c)"
  unfolding rate_limit_process_def by (intro value_rules value_writes TrueI)

lemma authenticated_values:
  assumes "utf8 (auth_email_hash a)"
  shows "value_keeps (authenticated_process E clk a) stored_sessions"
  unfolding authenticated_process_def Let_def
  by (intro value_rules value_keeps_bind [where R = stored_sessions] candidates_values value_writes assms)
    (auto simp: res_simps list_all_iff)

lemma key_reuse_values: "writes_values (key_reuse_process c)"
  unfolding key_reuse_process_def by (intro value_rules TrueI)

lemma add_session_values:
  assumes "utf8 c" and "session_value s"
  shows "writes_values (add_session_process c s)"
  unfolding add_session_process_def Let_def
  by (intro value_rules value_writes assms TrueI)
    (use assms in \<open>auto simp: session_value_def index_value_def dest: read_index split: option.split\<close>)

lemma deactivate_session_values: "writes_values (deactivate_session_process t c)"
  unfolding deactivate_session_process_def
  by (intro value_rules value_writes TrueI) (auto dest: read_session)

lemma delete_session_values: "writes_values (delete_session_process c)"
  unfolding delete_session_process_def unlist_session_process_def Let_def
  by (intro value_rules writes_values_bind value_writes TrueI)
    (auto simp: index_value_def list_all_iff dest: read_session read_index)

lemma challenge_target_values: "writes_values (challenge_target_process h)"
  unfolding challenge_target_process_def by (intro value_rules TrueI)

lemma touch_session_values:
  "utf8 c \<Longrightarrow> session_value s \<Longrightarrow> writes_values (touch_session_process t c s)"
  unfolding touch_session_process_def touch_session_def by (intro value_rules value_writes) auto

lemmas helper_values =
  writes_values_bind [OF rate_limit_values] value_keeps_bind [OF authenticated_values]
  writes_values_bind [OF key_reuse_values] writes_values_bind [OF add_session_values]
  writes_values_bind [OF deactivate_session_values] writes_values_bind [OF delete_session_values]
  writes_values_bind [OF challenge_target_values] writes_values_bind [OF touch_session_values]

lemma hash_email_strings: "hex_laws E \<Longrightarrow> hash_email E m u n = Ok h \<Longrightarrow> utf8 h"
  by (auto simp: hash_email_def hex_laws_def intro: hexdigits_utf8 split: option.splits)

lemma session_value_parts:
  "session_value s \<Longrightarrow> sess_email s = Some h \<Longrightarrow> utf8 h"
  "session_value s \<Longrightarrow> utf8 (sess_client s)" "session_value s \<Longrightarrow> sshare_valid (sess_share s)"
  "session_value s \<Longrightarrow> sgroup_valid (sess_group s)"
  by (auto simp: session_value_def)

lemma handed_out_values:
  assumes "list_all session_value ss"
  shows "recovery_value \<lparr>srec_created_at = t, srec_clients = map sess_client ss\<rparr>"
    and "login_value \<lparr>slog_created_at = t, slog_clients = map sess_client ss\<rparr>"
  using assms by (auto simp: recovery_value_def login_value_def list_all_iff session_value_def)

lemma handlers_values:
  assumes k: "utf8 (na_pubkey auth)"
  shows "register_request_valid rq \<Longrightarrow> writes_values (register_process E clk auth rq)"
    and "hex_laws E \<Longrightarrow> utf8 (rsq_email rsq) \<Longrightarrow> utf8 (rsq_password_hash rsq) \<Longrightarrow>
      writes_values (recovery_setup_process E clk auth rsq)"
    and "utf8 (cq_prefix cq) \<Longrightarrow> utf8 (cq_email_hash cq) \<Longrightarrow> writes_values (challenge_process E clk buf auth cq)"
    and "utf8 (auth_email_hash (rtq_auth rtq)) \<Longrightarrow> writes_values (recovery_start_process E clk auth rtq)"
    and "writes_values (recovery_select_process auth clq)"
    and "utf8 (auth_email_hash (lsq_auth lsq)) \<Longrightarrow> writes_values (login_start_process E clk auth lsq)"
    and "writes_values (login_select_process clk auth clq)"
    and "writes_values (sign_commit_process E clk rnd auth scq)"
    and "writes_values (sign_complete_process E clk auth sq)"
    and "writes_values (ecdh_process E clk auth eq)"
    and "writes_values (session_list_process auth)"
    and "writes_values (session_deactivate_process clk auth clq)"
    and "writes_values (session_delete_process auth clq)"
  unfolding register_process_def recovery_setup_process_def challenge_process_def recovery_start_process_def
    recovery_select_process_def login_start_process_def login_select_process_def sign_commit_process_def
    sign_complete_process_def ecdh_process_def session_list_process_def session_deactivate_process_def
    session_delete_process_def Let_def
  by (intro value_rules helper_values value_writes k handed_out_values TrueI;
      auto simp: new_session_def session_value_def register_request_valid_def challenge_value_def
        otp_utf8
        dest: read_session hash_email_strings)+


lemma cleanup_values: "writes_values (cleanup_process clk)"
  unfolding cleanup_process_def Let_def by (intro value_rules writes_values_bind value_writes)

lemma map_process_values: "writes_values p \<Longrightarrow> writes_values (Signer_Processes.map_process f p)"
  unfolding Signer_Processes.map_process_def by (intro writes_values_bind value_rules TrueI)

lemma job_writes_values:
  assumes "hex_laws E" and "job_ok j" and "job_strings j"
  shows "writes_values (job_process E j)"
proof (cases j)
  case (Serve auth c clk rnd)
  then show ?thesis
    using assms by (cases c) (auto intro!: map_process_values handlers_values)
next
  case (Clean clk)
  then show ?thesis by (simp add: map_process_values cleanup_values)
qed

subsection \<open>Executions\<close>

text \<open>The contract \<open>shared_state\<close>, once the jobs are known to come with valid strings.\<close>

lemma traced_restrict:
  "traced body ok init restart pool s tr \<Longrightarrow> \<forall>(l, p) \<in> set pool. Q l \<Longrightarrow>
   traced body (\<lambda>l. ok l \<and> Q l) init restart pool s tr"
proof (induction rule: traced.induct)
  case traced_init
  show ?case by (rule traced.traced_init)
next
  case (traced_call pool s tr l)
  then show ?case by (intro traced.traced_call) auto
next
  case (traced_step ps l cont g qs s tr)
  then show ?case by (intro traced.traced_step) auto
next
  case (traced_restart pool s tr)
  then show ?case by (intro traced.traced_restart) auto
qed

lemma traced_states:
  assumes "traced body ok init restart pool s tr"
    and inv: "\<And>pool s. concurrent body ok init restart pool s \<Longrightarrow> J s"
  shows "\<forall>(l, found, left) \<in> set tr. J left"
  using assms(1)
proof (induction rule: traced.induct)
  case (traced_step ps l cont g qs s tr)
  have "J (g s)"
    by (rule inv, rule traced_concurrent, rule traced.traced_step, rule traced_step.hyps)
  then show ?case using traced_step.IH by auto
qed simp_all

interpretation strings:
  shared_state "job_process E" "\<lambda>j. job_ok j \<and> hex_laws E \<and> job_strings j" "signer_open opts" "signer_reopen opts"
    state_values "\<lambda>_. 0" "\<lambda>_. 0" "\<lambda>j n r. n = 0"
  for E :: "('s::field, 'p::ab_group_add, 'z) s_externals_scheme" and opts
  by unfold_locales
    (use job_writes_values in \<open>auto simp: value_keeps_def values_open values_reopen\<close>)

lemma server_values:
  fixes E :: "('s::field, 'p::ab_group_add, 'z) s_externals_scheme"
  assumes "hex_laws E" and trace: "served_trace E opts pool st tr"
    and "\<forall>(j, p) \<in> set pool. job_strings j"
  shows "\<forall>(j, found, left) \<in> set tr. state_values left"
proof -
  have "\<forall>(j, p) \<in> set pool. hex_laws E \<and> job_strings j" using assms(1,3) by auto
  from traced_restrict [OF trace [unfolded served_trace_def] this]
  show ?thesis by (rule traced_states) (rule strings.pool_inv)
qed

end
