(* ===== verification/Database_Example.thy ===== *)
theory Database_Example
  imports Codec_Example Signer_Strings Signer_Races
begin

text \<open>
  One recovery attempt for an unknown email on a new database, step by step, for the witness of the
  server on its database.
\<close>

text \<open>The steps of a call that nothing interrupts.\<close>

primrec steps_alone :: "'l \<Rightarrow> ('s, 'a) process \<Rightarrow> 's \<Rightarrow> ('l, 's) trace" where
  "steps_alone l (Return r) = (\<lambda>s. [])"
| "steps_alone l (Atomic cont g) = (\<lambda>s. (l, s, g s) # steps_alone l (cont s) (g s))"

lemma traced_alone:
  "traced body ok init restart (pool @ [(l, p)]) s tr \<Longrightarrow>
   traced body ok init restart (pool @ [(l, Return (fst (uninterrupted p s)))]) (snd (uninterrupted p s))
     (tr @ steps_alone l p s)"
proof (induction p arbitrary: s tr)
  case (Atomic cont g)
  from Atomic.IH [OF rangeI traced_step [OF Atomic.prems]] show ?case by simp
qed simp

lemma steps_alone_simps [simp]:
  "steps_alone l (bindP (Return (Ok x)) f) s = steps_alone l (f x) s"
  "steps_alone l (bindP (reads h) k) s = (l, s, s) # steps_alone l (k (h s)) s"
  "steps_alone l (bindP (writes g) k') s = (l, s, g s) # steps_alone l (k' ()) (g s)"
  by (simp_all add: reads_def writes_def)

lemma bindP_assoc: "bindP (bindP p f) g = bindP p (\<lambda>x. bindP (f x) g)"
  by (induction p) (auto split: res.split)

definition attempt_job8 :: job where
  "attempt_job8 = Serve (auth8 key_b) (CRecoveryStart \<lparr>rtq_auth = wrong8\<rparr>) clk8 rnd8"

definition attempted8 :: signer where
  "attempted8 = (signer_open opts8)\<lparr>sv_rate_limit_by_email_hash := [(hash8, bucket8 1)]\<rparr>"

lemma attempt_rate8:
  "is_rate_limited (clk8 0) None EMAIL_RATE_LIMITS = False"
  "record_attempt (clk8 (Suc 0)) None EMAIL_RATE_LIMITS = bucket8 1"
  by (simp_all add: is_rate_limited_def record_attempt_def clk8_def bucket8_def)

lemma attempt8:
  "uninterrupted (job_process ext8 attempt_job8) (signer_open opts8) =
    (Ok (Some (ItemsReply (respond False ''No sessions found.'' None))), attempted8)"
  "steps_alone attempt_job8 (job_process ext8 attempt_job8) (signer_open opts8) =
    replicate 5 (attempt_job8, signer_open opts8, signer_open opts8) @ [(attempt_job8, signer_open opts8, attempted8)]"
  by (simp_all add: attempt_job8_def attempted8_def Signer_Processes.map_process_def recovery_start_process_def
      key_reuse_process_def authenticated_process_def Let_def bindP_assoc signer_open_def wrong8_def
      attempt_rate8 numeral_eq_Suc)


lemma attempt_trace8:
  "served_trace ext8 opts8 [(attempt_job8, Return (Ok (Some (ItemsReply (respond False ''No sessions found.'' None)))))]
     attempted8 (replicate 5 (attempt_job8, signer_open opts8, signer_open opts8) @
       [(attempt_job8, signer_open opts8, attempted8)])"
proof -
  have "job_ok attempt_job8" by (simp add: attempt_job8_def clock8)
  then have "served_trace ext8 opts8 ([] @ [(attempt_job8, job_process ext8 attempt_job8)]) (signer_open opts8) []"
    unfolding served_trace_def by (intro traced_call traced_init)
  from traced_alone [OF this [unfolded served_trace_def]] show ?thesis
    unfolding served_trace_def by (simp only: attempt8 fst_conv snd_conv append_Nil)
qed

lemma hash8_utf8: "utf8_valid (str_bytes hash8)"
  by (rule hexdigits_utf8) (simp add: hash8_def)

lemma attempt_strings8: "job_strings attempt_job8"
proof -
  have "utf8 key_b" using keys8(4) by (intro hexdigits_utf8) (simp add: hex32_valid_iff)
  then show ?thesis by (simp add: attempt_job8_def wrong8_def hash8_utf8)
qed

lemma disk_empty8: "sl_get (dk_sled disk8) fmempty t k = Some None"
  by (simp add: disk8_def sled8_def)

end
