(* ===== verification/Signer_Flows.thy ===== *)
theory Signer_Flows
  imports Signer_Facts
begin

text \<open>
  The two flows over an email: a key proves the credentials of a session with a start call, and a
  select call then hands the session's share to it or logs it in.  Between the calls the server may
  serve others.
\<close>

subsection \<open>Sessions between calls\<close>

text \<open>A later state still holds the session of a client; its times may have changed.\<close>

definition still_held :: "string \<Rightarrow> signer \<Rightarrow> signer \<Rightarrow> bool" where
  "still_held k earlier later \<longleftrightarrow>
     (case (col_get (sv_sessions earlier) k, col_get (sv_sessions later) k) of
        (Some s, Some s') \<Rightarrow>
          s' = s\<lparr>sess_last_activity := sess_last_activity s', sess_deactivated_at := sess_deactivated_at s'\<rparr>
      | _ \<Rightarrow> False)"

lemma still_heldE:
  assumes "still_held k st st'" and "col_get (sv_sessions st) k = Some s"
  obtains s' where "col_get (sv_sessions st') k = Some s'"
    "sess_client s' = sess_client s" "sess_share s' = sess_share s" "sess_group s' = sess_group s"
    "sess_email s' = sess_email s" "sess_email_hash s' = sess_email_hash s"
    "sess_password_hash s' = sess_password_hash s"
proof -
  obtain s' where s': "col_get (sv_sessions st') k = Some s'"
    "s' = s\<lparr>sess_last_activity := sess_last_activity s', sess_deactivated_at := sess_deactivated_at s'\<rparr>"
    using assms by (auto simp: still_held_def split: option.splits)
  have "sess_client s' = sess_client s" "sess_share s' = sess_share s" "sess_group s' = sess_group s"
    "sess_email s' = sess_email s" "sess_email_hash s' = sess_email_hash s"
    "sess_password_hash s' = sess_password_hash s"
    by (subst s'(2); simp)+
  with s'(1) show thesis by (rule that)
qed

subsection \<open>Credentials that are accepted\<close>

text \<open>In a state of the invariant the index lists a session under its email.\<close>

lemma credentials_matchI:
  assumes "signer_inv E st" and "col_get (sv_sessions st) k = Some s"
    and "sess_email_hash s = Some (auth_email_hash a)"
    and "case a of Password p \<Rightarrow> sess_password_hash s = Some (pa_password_hash p)
      | Otp oa \<Rightarrow> (\<exists>ch. col_get (sv_challenges st) (oa_email_hash oa) = Some ch \<and> ch_otp ch = oa_otp oa)"
  shows "credentials_match a st s"
proof -
  obtain ix where "col_get (sv_sessions_by_email_hash st) (auth_email_hash a) = Some ix"
    "k \<in> set (ix_clients ix)"
    using signer_invD(2) [OF assms(1)] assms(2,3) unfolding index_complete_def by blast
  then show ?thesis using assms(2,4) unfolding credentials_match_def by blast
qed

text \<open>A session whose credentials match is among those the check finds.\<close>

lemma credentials_accepted:
  assumes "\<not> is_rate_limited (clk 0) (col_get (sv_rate_limit_by_email_hash st) (auth_email_hash a)) EMAIL_RATE_LIMITS"
    and "credentials_match a st s"
  obtains ss st1 where "get_authenticated_sessions E clk a st = (Ok ss, st1)" "s \<in> set ss"
proof -
  obtain ix c where ix: "col_get (sv_sessions_by_email_hash st) (auth_email_hash a) = Some ix"
    "c \<in> set (ix_clients ix)" "col_get (sv_sessions st) c = Some s"
    using assms(2) by (auto simp: credentials_match_def)
  then have listed: "s \<in> set (List.map_filter (col_get (sv_sessions st)) (ix_clients ix))"
    by (auto simp: in_map_filter)
  show thesis
  proof (cases a)
    case (Password pa)
    then have "sess_password_hash s = Some (pa_password_hash pa)"
      using assms(2) by (simp add: credentials_match_def)
    then show thesis
      using assms(1) ix(1) listed Password that
      by (force simp: get_authenticated_sessions_def Let_def ct_str_eq_iff)
  next
    case (Otp oa)
    then obtain ch where "col_get (sv_challenges st) (oa_email_hash oa) = Some ch" "ch_otp ch = oa_otp oa"
      using assms(2) by (auto simp: credentials_match_def)
    then show thesis
      using assms(1) ix(1) listed Otp that
      by (simp add: get_authenticated_sessions_def Let_def ct_str_eq_iff)
  qed
qed

lemma accepted_items:
  assumes "signer_inv E st" and "get_authenticated_sessions E clk a st = (Ok ss, st1)"
  shows "mapR make_session_item ss = Ok (map session_item_of ss)"
proof -
  have "make_session_item s = Ok (session_item_of s)" if "s \<in> set ss" for s
  proof -
    have "credentials_match a st s" using assms(2) that by (cases rule: get_authenticated_cases) auto
    then obtain c where "col_get (sv_sessions st) c = Some s" by (auto simp: credentials_match_def)
    then show ?thesis using inv_session [OF assms(1)] make_session_item_ok by blast
  qed
  then show ?thesis by (rule mapR_Ok_map)
qed

subsection \<open>Start and select\<close>

lemma recovery_start_accepts:
  assumes inv: "signer_inv E st" and s: "col_get (sv_sessions st) k = Some s"
    and match: "credentials_match (rtq_auth d) st s" and fresh: "\<not> check_key_reuse (na_pubkey auth) st"
    and free: "\<not> is_rate_limited (clk 0)
      (col_get (sv_rate_limit_by_email_hash st) (auth_email_hash (rtq_auth d))) EMAIL_RATE_LIMITS"
    and start: "handle_recovery_start E clk auth d st = (r, st1)"
  obtains items rec where
    "r = Ok (respond True ''Successfully retrieved recovery options.'' (Some items))"
    "session_item_of s \<in> set items" "col_get (sv_recoveries st1) (na_pubkey auth) = Some rec"
    "k \<in> set (srec_clients rec)"
proof -
  obtain ss st0 where ss: "get_authenticated_sessions E clk (rtq_auth d) st = (Ok ss, st0)" "s \<in> set ss"
    by (rule credentials_accepted [of clk, OF free match])
  have "sess_client s = k" using inv_session [OF inv s] by (simp add: session_ok_def)
  moreover have "ss \<noteq> []" using ss(2) by auto
  ultimately show thesis
    using that start ss fresh accepted_items [OF inv ss(1)]
    by (force simp: handle_recovery_start_def Let_def)
qed

lemma login_start_accepts:
  assumes inv: "signer_inv E st" and s: "col_get (sv_sessions st) k = Some s"
    and match: "credentials_match (lsq_auth d) st s" and fresh: "\<not> check_key_reuse (na_pubkey auth) st"
    and free: "\<not> is_rate_limited (clk 0)
      (col_get (sv_rate_limit_by_email_hash st) (auth_email_hash (lsq_auth d))) EMAIL_RATE_LIMITS"
    and start: "handle_login_start E clk auth d st = (r, st1)"
  obtains items lg where
    "r = Ok (respond True ''Successfully retrieved login options.'' (Some items))"
    "session_item_of s \<in> set items" "col_get (sv_logins st1) (na_pubkey auth) = Some lg"
    "k \<in> set (slog_clients lg)"
proof -
  obtain ss st0 where ss: "get_authenticated_sessions E clk (lsq_auth d) st = (Ok ss, st0)" "s \<in> set ss"
    by (rule credentials_accepted [of clk, OF free match])
  have "sess_client s = k" using inv_session [OF inv s] by (simp add: session_ok_def)
  moreover have "ss \<noteq> []" using ss(2) by auto
  ultimately show thesis
    using that start ss fresh accepted_items [OF inv ss(1)]
    by (force simp: handle_login_start_def Let_def)
qed

lemma recovery_selected:
  assumes "col_get (sv_recoveries st) (na_pubkey auth) = Some rec" and "clq_client d \<in> set (srec_clients rec)"
    and "col_get (sv_sessions st) (clq_client d) = Some s"
  shows "handle_recovery_select auth d st =
    (Ok (respond True ''Recovery successfully completed.'' (Some (sess_share s), Some (sess_group s))),
     st\<lparr>sv_recoveries := col_delete (sv_recoveries st) (na_pubkey auth)\<rparr>)"
  using assms by (simp add: handle_recovery_select_def Let_def)

lemma login_selected:
  assumes "col_get (sv_logins st) (na_pubkey auth) = Some lg" and "clq_client d \<in> set (slog_clients lg)"
    and "col_get (sv_sessions st) (clq_client d) = Some s"
  shows "handle_login_select clk auth d st =
    (Ok (respond True ''Login successfully completed.'' (Some (sess_group s))),
     add_session (na_pubkey auth)
       \<lparr>sess_client = na_pubkey auth, sess_share = sess_share s, sess_group = sess_group s,
        sess_recovery = True, sess_created_at = clk 2, sess_deactivated_at = None,
        sess_last_activity = clk 3, sess_email = sess_email s, sess_email_hash = sess_email_hash s,
        sess_password_hash = sess_password_hash s\<rparr>
       (st\<lparr>sv_logins := col_delete (sv_logins st) (na_pubkey auth)\<rparr>))"
  using assms by (simp add: handle_login_select_def Let_def)

subsection \<open>From registration to recovery\<close>

lemma registered_session:
  assumes "handle_register E clk auth d st = (Ok resp, st')" and "resp_ok resp"
  shows "col_get (sv_sessions st') (na_pubkey auth) =
    Some (new_session (na_pubkey auth) (rq_share d) (rq_group d) (rq_recovery d) (clk 2) (clk 3))"
  using assms(1) by (cases rule: register_cases) (use assms(2) in \<open>simp_all add: add_session_sessions\<close>)

lemma protected_session:
  assumes "handle_recovery_setup E clk auth d st = (Ok resp, st')" and "resp_ok resp"
    and "hash_email E (rsq_email d) (opt_url (sv_options st)) (opt_argon_m (sv_options st)) = Ok h"
    and "col_get (sv_sessions st) (na_pubkey auth) = Some s"
  obtains s' where "col_get (sv_sessions st') (na_pubkey auth) = Some s'"
    "sess_share s' = sess_share s" "sess_group s' = sess_group s" "sess_email_hash s' = Some h"
    "sess_password_hash s' = Some (rsq_password_hash d)"
  using assms(1)
  by (cases rule: recovery_setup_cases) (use assms(2-4) that in \<open>auto simp: add_session_sessions\<close>)

end
