(* ===== verification/Signer_Properties.thy ===== *)
theory Signer_Properties
  imports Signer_History Storage_Example Signer_Races Database_Example Signer_Flows
begin

text \<open>
  The properties of the signer service, over single calls, over whole runs and over several
  signers, with witnesses at the history of \<open>Signer_History\<close>.
\<close>

subsection \<open>Recovery and login\<close>

text \<open>
  C17: The share that is registered is the share that is recovered.  A client has registered it and
  set up recovery with an email and a password; later, in a state that calls one after the other
  reach and that still holds the session, a fresh key that shows the email's hash and the password
  in \<open>/recovery/start\<close>, while the email is not rate limited, is offered the session; and as long as
  that offer and the session are there, \<open>/recovery/select\<close> hands it the registered share and group.
\<close>

theorem recovery_returns_share:
  fixes E :: "('s::field, 'p::ab_group_add, 'z) s_externals_scheme"
  assumes "handle_register E clk1 auth1 reg st1 = (Ok resp1, st2)" and "resp_ok resp1"
    and "still_held k st2 st3"
    and "handle_recovery_setup E clk2 auth2 \<lparr>rsq_email = email, rsq_password_hash = pw\<rparr> st3 = (Ok resp2, st4)"
    and "resp_ok resp2"
    and "hash_email E email (opt_url (sv_options st3)) (opt_argon_m (sv_options st3)) = Ok h"
    and "na_pubkey auth1 = k" and "na_pubkey auth2 = k"
    and "run E opts tr st5" and "still_held k st4 st5"
    and "\<not> check_key_reuse (na_pubkey auth) st5"
    and "\<not> is_rate_limited (clk 0) (col_get (sv_rate_limit_by_email_hash st5) h) EMAIL_RATE_LIMITS"
    and "handle_recovery_start E clk auth
      \<lparr>rtq_auth = Password \<lparr>pa_email_hash = h, pa_password_hash = pw\<rparr>\<rparr> st5 = (r, st6)"
    and "still_held k st5 st7"
    and "col_get (sv_recoveries st7) (na_pubkey auth) = col_get (sv_recoveries st6) (na_pubkey auth)"
    and "na_pubkey auth' = na_pubkey auth"
  shows "(\<exists>items. r = Ok (respond True ''Successfully retrieved recovery options.'' (Some items)) \<and>
      k \<in> si_client ` set items) \<and>
    handle_recovery_select auth' \<lparr>clq_client = k\<rparr> st7 =
      (Ok (respond True ''Recovery successfully completed.'' (Some (rq_share reg), Some (rq_group reg))),
       st7\<lparr>sv_recoveries := col_delete (sv_recoveries st7) (na_pubkey auth)\<rparr>)"
proof -
  note inv = run_inv [OF assms(9)]
  obtain s3 where s3: "col_get (sv_sessions st3) k = Some s3"
    "sess_share s3 = rq_share reg" "sess_group s3 = rq_group reg"
    by (rule still_heldE [OF assms(3) registered_session [OF assms(1,2), unfolded assms(7)]])
      (simp add: new_session_def)
  obtain s4 where s4: "col_get (sv_sessions st4) k = Some s4" "sess_share s4 = rq_share reg"
    "sess_group s4 = rq_group reg" "sess_email_hash s4 = Some h" "sess_password_hash s4 = Some pw"
    by (rule protected_session [OF assms(4,5)]) (use assms(6,8) s3 in auto)
  obtain s5 where s5: "col_get (sv_sessions st5) k = Some s5" "sess_share s5 = rq_share reg"
    "sess_group s5 = rq_group reg" "sess_email_hash s5 = Some h" "sess_password_hash s5 = Some pw"
    by (rule still_heldE [OF assms(10) s4(1)]) (use s4 in simp)
  obtain s7 where s7: "col_get (sv_sessions st7) k = Some s7" "sess_share s7 = rq_share reg"
    "sess_group s7 = rq_group reg"
    by (rule still_heldE [OF assms(14) s5(1)]) (use s5 in simp)
  have match: "credentials_match (Password \<lparr>pa_email_hash = h, pa_password_hash = pw\<rparr>) st5 s5"
    by (rule credentials_matchI [OF inv s5(1)]) (simp_all add: s5)
  obtain items rec where start: "r = Ok (respond True ''Successfully retrieved recovery options.'' (Some items))"
    "session_item_of s5 \<in> set items" "col_get (sv_recoveries st6) (na_pubkey auth) = Some rec"
    "k \<in> set (srec_clients rec)"
    by (rule recovery_start_accepts [OF inv s5(1) _ assms(11) _ assms(13)]) (simp_all add: match assms(12))
  have "si_client (session_item_of s5) = k"
    using inv_session [OF inv s5(1)] by (simp add: session_item_of_def session_ok_def)
  then have "k \<in> si_client ` set items" using start(2) by force
  then show ?thesis
    using start(1,3,4) assms(15,16) s7
      recovery_selected [of st7 auth' rec "\<lparr>clq_client = k\<rparr>" s7] by auto
qed

theorem recovery_returns_share_witness:
  "fst (handle_recovery_select (auth8 key_b) \<lparr>clq_client = key_a\<rparr> recovering8) =
   Ok (respond True ''Recovery successfully completed.''
     (Some (rq_share (register8 1 4)), Some (rq_group (register8 1 4))))"
proof -
  have kept: "still_held key_a (registered8 1 4) (registered8 1 4)" "still_held key_a setup8 setup8"
    "still_held key_a setup8 recovering8"
    by (simp_all add: still_held_def registered8_def recovering8_def col_get_def)
  have hash: "hash_email ext8 mail8 (opt_url (sv_options (registered8 1 4)))
      (opt_argon_m (sv_options (registered8 1 4))) = Ok hash8"
    by (simp add: hash_email_def ext8_signer registered8_def signer_open_def hash8_def)
  have free: "\<not> is_rate_limited (clk8 0) (col_get (sv_rate_limit_by_email_hash setup8) hash8) EMAIL_RATE_LIMITS"
    by (simp add: is_rate_limited_def col_get_def)
  show ?thesis
    using recovery_returns_share [OF do_register8 [OF member8(1)] _ kept(1) do_setup8 _ hash _ _ run_setup8 kept(2) _ free
        do_recovery_start8 [unfolded password8_def] kept(3), of "auth8 key_b"] fresh8
    by simp
qed



subsection \<open>Several signers\<close>

text \<open>
  C20: A signing round succeeds.  When every signer of a threshold, each on its own state, has
  answered \<open>/sign/commit\<close> with a fresh id and still holds that commitment when it gets
  \<open>/sign/complete\<close>, with the same members, the right group and session ids and the nonces all of them
  published, then every signer answers it successfully, provided the signing context of those nonces
  can be built; and the partial signatures combine to a 64-byte signature which the BIP-340 verifier
  accepts for the sighash and the group key, unless the aggregate scalar is zero.
\<close>

theorem signing_round_completes:
  fixes E :: "('s::field, 'p::ab_group_add, 'z) s_externals_scheme"
  assumes "k256_laws E" and "schnorr_laws E" and "hex_laws E"
    and "decode33 E (g_group_pk grp) = Some pk"
    and "lift_x E pk = Ok (point_mul E (point_gen E) (poly_val cs 0))"
    and "list_all2 (commits E cs grp (sci_members request)) calls rs"
    and "list_all2 (still_ready E (sci_members request)) calls laters"
    and "map scr_idx rs = sci_members request"
    and "distinct (map index_to_scalar (sci_members request) :: 's list)"
    and "set (sci_members request) \<subseteq> set (map c_idx (g_commits grp))"
    and "verify_session_pkg E grp request"
    and "calls \<noteq> []" and "length cs \<le> length calls" and "pns = map commit_item_of rs"
    and "build_sighash_contexts_from_pnonces E grp request (s_compute_session_id E grp request)
      (map base_of_item pns) = Ok [sx]"
  shows "\<exists>results sig.
    list_all2 (\<lambda>c r. answers (second_call E request pns c) r) (zip calls (zip rs laters)) results \<and>
    combine_partial_sigs E (sx_ctx sx) (map (package_sig E) results) = Ok sig \<and> length sig = 64 \<and>
    (scalar_from_bytes (drop 32 sig) \<noteq> (0 :: 's) \<longrightarrow>
     verify_final_sig E (key_context (sx_ctx sx)) (sx_sighash sx) sig = Ok True)"
  by (rule round_completes [OF assms])

theorem signing_round_completes_witness:
  "\<exists>results sig.
    list_all2 (\<lambda>c r. answers (second_call ext8 request8 pns8 c) r) (zip calls8 (zip commits8 laters8)) results \<and>
    combine_partial_sigs ext8 ctx8 (map (package_sig ext8) results) = Ok sig \<and> length sig = 64 \<and>
    (scalar_from_bytes (drop 32 sig) \<noteq> (0 :: gf7) \<longrightarrow>
     verify_final_sig ext8 (key_context ctx8) (num7 3) sig = Ok True)"
proof -
  have pk: "decode33 ext8 (g_group_pk grp8) = Some (encode7 GF3)"
    "lift_x ext8 (encode7 GF3) = Ok (point_mul ext8 (point_gen ext8) (poly_val poly7 0))"
    by (simp_all add: grp8_def poly7_def eval8 eval7 gf7_ground)
  have members: "map scr_idx commits8 = sci_members request8"
    "distinct (map index_to_scalar (sci_members request8) :: gf7 list)"
    "set (sci_members request8) \<subseteq> set (map c_idx (g_commits grp8))"
    by (simp_all add: commits8_def commit_result8_def request8_def grp8_def commit8_def index7)
  have "calls8 \<noteq> []" "length poly7 \<le> length calls8" "pns8 = map commit_item_of commits8"
    by (simp_all add: calls8_def poly7_def pns8_def commits8_def)
  from signing_round_completes [OF k256_laws_ext8 schnorr_laws_ext8 hex_laws_ext8 pk round8 members
      verify8 this contexts8 [folded session_id8]]
  show ?thesis by simp
qed

text \<open>The combination alone: whatever led to the answers.\<close>

theorem signers_signature_verifies:
  fixes E :: "('s::field, 'p::ab_group_add, 'z) s_externals_scheme"
  assumes "k256_laws E" and "schnorr_laws E" and "hex_laws E"
    and "decode33 E (g_group_pk grp) = Some pk"
    and "lift_x E pk = Ok (point_mul E (point_gen E) (poly_val cs 0))"
    and "list_all2 (completes E cs grp request pns) parties results"
    and "map sr_idx results = map pni_idx pns"
    and "distinct (map (index_to_scalar \<circ> pni_idx) pns :: 's list)"
    and "parties \<noteq> []" and "length cs \<le> length parties"
  shows "\<exists>ctx sighash sig.
    decode32 E (hd (sci_hash request)) = Some sighash \<and>
    build_sighash_contexts_from_pnonces E grp request (s_compute_session_id E grp request)
      (map base_of_item pns) = Ok [\<lparr>sx_sighash = sighash, sx_ctx = ctx\<rparr>] \<and>
    combine_partial_sigs E ctx (map (package_sig E) results) = Ok sig \<and> length sig = 64 \<and>
    (scalar_from_bytes (drop 32 sig) \<noteq> (0 :: 's) \<longrightarrow>
     verify_final_sig E (key_context ctx) sighash sig = Ok True)"
  by (rule completed_combine [OF assms])

theorem signers_signature_verifies_witness:
  "verify_final_sig ext8 (key_context ctx8) (num7 3) (tl (encode7 GF1) @ num7 4) = Ok True"
proof -
  have pk: "decode33 ext8 (g_group_pk grp8) = Some (encode7 GF3)"
    "lift_x ext8 (encode7 GF3) = Ok (point_mul ext8 (point_gen ext8) (poly_val poly7 0))"
    by (simp_all add: grp8_def poly7_def eval8 eval7 gf7_ground)
  have idx: "map sr_idx [result8 1 4 5, result8 2 5 6] = map pni_idx pns8"
    "distinct (map (index_to_scalar \<circ> pni_idx) pns8 :: gf7 list)"
    by (simp_all add: result8_def pns8_def commit_item_of_def commit_result8_def index7)
  obtain ctx sighash sig where s: "decode32 ext8 (hd (sci_hash request8)) = Some sighash"
    "build_sighash_contexts_from_pnonces ext8 grp8 request8 (s_compute_session_id ext8 grp8 request8)
      (map base_of_item pns8) = Ok [\<lparr>sx_sighash = sighash, sx_ctx = ctx\<rparr>]"
    "combine_partial_sigs ext8 ctx (map (package_sig ext8) [result8 1 4 5, result8 2 5 6]) = Ok sig"
    "scalar_from_bytes (drop 32 sig) \<noteq> (0 :: gf7) \<longrightarrow>
     verify_final_sig ext8 (key_context ctx) sighash sig = Ok True"
    using signers_signature_verifies [OF k256_laws_ext8 schnorr_laws_ext8 hex_laws_ext8 pk answers8(1) idx]
    by (auto simp: poly7_def)
  have c: "ctx = ctx8" "sighash = num7 3" using s(2) by (simp_all add: session_id8 contexts8)
  then have sig: "sig = tl (encode7 GF1) @ num7 4" using s(3) combine8 by simp
  have "scalar_from_bytes (drop 32 sig) \<noteq> (0 :: gf7)"
    by (simp add: sig eval7 gf7_ground del: drop_append)
  then show ?thesis using s(4) by (simp add: c sig)
qed

subsection \<open>Runs\<close>

text \<open>
  C21: However the calls interleave, a commitment id is used for at most as many successful
  signatures of a client as calls of that client drew the id: no commitment signs twice.
\<close>

theorem commitment_signs_once:
  assumes "served E opts pool st"
  shows "length (filter (signed_with k i) pool) \<le> length (filter (draws E k i \<circ> fst) pool)"
  by (rule commitments_sign_once [OF assms])

theorem commitment_signs_once_witness:
  "length (filter (signed_with key_a cid8) pool8) = 1 \<and> length (filter (draws ext8 key_a cid8 \<circ> fst) pool8) = 1 \<and>
   length (filter (signed_with key_a cid8) pool8) \<le> length (filter (draws ext8 key_a cid8 \<circ> fst) pool8)"
  using commitment_signs_once [OF served_pool8, of key_a cid8] pool8_counts by simp

text \<open>For calls one after the other the ids may be counted as they are answered.\<close>

lemma commitment_signs_once_in_runs:
  assumes "run E opts tr st"
  shows "length (filter (signs k i) tr) \<le> length (filter (issues k i) tr)"
  using run_commit_count [OF assms, of k i] by simp

text \<open>
  C22: A share leaves the signer only through \<open>/recovery/select\<close>, and only to a key for which, before
  that call found its hand-out, a \<open>/recovery/start\<close> had shown credentials of the session it selects:
  it had found the session in the index of the email, and the session's password or the email's
  one-time password as the request gave it.  The share is that of the session the call found.  This
  holds however the calls interleave.
\<close>

theorem share_release_authenticated:
  assumes "served_trace E opts pool st tr"
    and "(Serve auth (CRecoverySelect d) clk rnd, Return (Ok (Some (RecoverySelectReply resp)))) \<in> set pool"
    and "fst (resp_result resp) = Some share"
  shows "preceded (Serve auth (CRecoverySelect d) clk rnd)
      (\<lambda>tr. recovery_shown tr (na_pubkey auth) (clq_client d)) tr \<and>
    saw (Serve auth (CRecoverySelect d) clk rnd) tr
      (\<lambda>st. \<exists>s. col_get (sv_sessions st) (clq_client d) = Some s \<and> sess_share s = share)"
  using served_trace_earned [OF assms(1,2)] assms(3) by (simp add: earned_answer_def)

theorem share_release_authenticated_witness:
  "\<exists>tr. preceded recovery_select_job8 (\<lambda>tr. recovery_shown tr key_b key_a) tr"
proof -
  obtain pool st tr where "served_trace ext8 opts8 pool st tr"
    "(recovery_select_job8, Return (Ok (Some (RecoverySelectReply recovery_answer8)))) \<in> set pool"
    using recovery_select8 by blast
  from share_release_authenticated [OF this] show ?thesis by auto
qed

text \<open>The same for calls one after the other.\<close>

lemma share_release_in_runs:
  assumes "run E opts tr st"
    and "handle_recovery_select auth data st = (Ok resp, st')"
    and "resp_result resp = (Some share, grp)"
  shows "recovery_proof tr (na_pubkey auth) (clq_client data) \<and>
    (\<exists>s. col_get (sv_sessions st) (clq_client data) = Some s \<and> share = sess_share s) \<and>
    col_get (sv_recoveries st') (na_pubkey auth) = None"
proof -
  from assms(2) obtain rec s where
    "col_get (sv_recoveries st) (na_pubkey auth) = Some rec" "clq_client data \<in> set (srec_clients rec)"
    "col_get (sv_sessions st) (clq_client data) = Some s" "share = sess_share s"
    "st' = st\<lparr>sv_recoveries := col_delete (sv_recoveries st) (na_pubkey auth)\<rparr>"
    using assms(3) by (auto simp: handle_recovery_select_def Let_def split: option.splits if_splits)
  then show ?thesis using run_proofs [OF assms(1)] by auto
qed

text \<open>
  C23: A login succeeds only for a key for which, before the call found its hand-out, a
  \<open>/login/start\<close> had shown credentials of the session it selects, as in C22; and the call stores a
  session of the key with that session's share and group.  This holds however the calls interleave.
\<close>

theorem login_authenticated:
  assumes "served_trace E opts pool st tr"
    and "(Serve auth (CLoginSelect d) clk rnd, Return (Ok (Some (LoginSelectReply resp)))) \<in> set pool"
    and "resp_ok resp"
  shows "preceded (Serve auth (CLoginSelect d) clk rnd)
      (\<lambda>tr. login_shown tr (na_pubkey auth) (clq_client d)) tr \<and>
    logged_in (Serve auth (CLoginSelect d) clk rnd) (na_pubkey auth) (clq_client d) tr"
  using served_trace_earned [OF assms(1,2)] assms(3) by (simp add: earned_answer_def)

theorem login_authenticated_witness:
  "\<exists>tr. preceded login_select_job8 (\<lambda>tr. login_shown tr key_b key_a) tr \<and>
    logged_in login_select_job8 key_b key_a tr"
proof -
  obtain pool st tr where "served_trace ext8 opts8 pool st tr"
    "(login_select_job8, Return (Ok (Some (LoginSelectReply login_answer8)))) \<in> set pool"
    using login_select8 by blast
  from login_authenticated [OF this] show ?thesis by auto
qed

text \<open>The same for calls one after the other.\<close>

lemma login_in_runs:
  assumes "run E opts tr st"
    and "handle_login_select clk auth data st = (Ok resp, st')" and "resp_ok resp"
  shows "login_proof tr (na_pubkey auth) (clq_client data) \<and>
    (\<exists>s s'. col_get (sv_sessions st) (clq_client data) = Some s \<and>
       col_get (sv_sessions st') (na_pubkey auth) = Some s' \<and> sess_client s' = na_pubkey auth \<and>
       sess_share s' = sess_share s \<and> sess_group s' = sess_group s \<and> sess_deactivated_at s' = None) \<and>
    col_get (sv_logins st') (na_pubkey auth) = None"
  using assms(2)
proof (cases rule: login_select_cases)
  case (selected login s)
  then show ?thesis using run_proofs [OF assms(1)] by (auto simp: add_session_sessions)
qed (use assms(3) in simp_all)

text \<open>
  C24: The state invariant holds in every state the signer can reach with calls one after the
  other: every session holds a member's share of a valid group, the email index lists every session
  of an email, no key has two roles, the attempt counters stay within their policies, no pending
  list is empty, and every collection is sorted.  When calls interleave, all of this holds but for
  the two facts that relate different collections, the index and the roles.
\<close>

theorem signer_invariant:
  assumes "run E opts tr st" and "served E opts pool st'"
  shows "signer_inv E st \<and> (\<forall>clk. signer_inv E (cleanup clk st)) \<and> data_inv E opts st'"
  using run_inv [OF assms(1)] inv_cleanup served_data [OF assms(2)] by blast

theorem signer_invariant_witness:
  "signer_inv ext8 recovering8 \<and> signer_inv ext8 (cleanup clk8 recovering8) \<and>
   data_inv ext8 opts8 (completed8 1 4)"
  using signer_invariant [OF run_recovering8 served_pool8] by blast





subsection \<open>Deactivation and one-time passwords\<close>

text \<open>
  C27: For calls one after the other: a deactivated session stays deactivated under every call and
  clean-up as long as it exists, and its key is refused, without any change of the state, when it
  asks to commit, to sign or to derive a key.  A call that was under way at the deactivation can
  undo it: \<open>deactivation_lost\<close>.
\<close>

theorem deactivation_permanent:
  assumes "run E opts tr st" and "col_get (sv_sessions st) k = Some s" and "sess_deactivated_at s \<noteq> None"
    and "perform E clk rnd auth c st = (Ok reply, st')"
  shows "deactivated k st' \<and> deactivated k (cleanup clk' st) \<and>
    (na_pubkey auth = k \<and> limited_call c \<longrightarrow> st' = st \<and> \<not> reply_ok reply)"
proof (intro conjI)
  have "deactivated k st" using assms(2,3) by (simp add: deactivated_def)
  then show "deactivated k st'"
    using deactivated_perform [OF run_inv [OF assms(1)] assms(4)] assms(2) by simp
  show "deactivated k (cleanup clk' st)"
    using cleanup_kept(1) [OF run_inv [OF assms(1)], of clk' k] assms(2,3)
    by (simp add: deactivated_def kept_def)
  show "na_pubkey auth = k \<and> limited_call c \<longrightarrow> st' = st \<and> \<not> reply_ok reply"
  proof
    assume k: "na_pubkey auth = k \<and> limited_call c"
    note ref = deactivated_refused [OF assms(2) [folded conjunct1 [OF k]] assms(3)]
    show "st' = st \<and> \<not> reply_ok reply"
      using k assms(4) by (cases c) (auto simp: map_action_def ref)
  qed
qed

theorem deactivation_permanent_witness:
  "\<exists>reply. fst (perform ext8 clk8 rnd8 (auth8 key_a) (CSignCommit \<lparr>scq_members = [1, 2]\<rparr>) stopped8) = Ok reply \<and>
     \<not> reply_ok reply \<and> deactivated key_a stopped8"
proof -
  obtain tr where run: "run ext8 opts8 tr stopped8" using run_stopped8 by blast
  obtain s where s: "col_get (sv_sessions stopped8) key_a = Some s" "sess_deactivated_at s \<noteq> None"
    using stopped8_session by blast
  let ?m = "respond False ''Session is deactivated'' None"
  have "perform ext8 clk8 rnd8 (auth8 key_a) (CSignCommit \<lparr>scq_members = [1, 2]\<rparr>) stopped8 =
      (Ok (SignCommitReply ?m), stopped8)"
    using s by (simp add: map_action_def handle_sign_commit_def)
  from deactivation_permanent [OF run s this] this show ?thesis by simp
qed

text \<open>
  C28: For calls one after the other, a one-time password allows one guess: after an attempt with
  one for an email that is known and not rate limited, right or wrong, the password is gone, and no
  further attempt succeeds whatever calls follow, until a challenge is requested again.  Attempts
  that overlap are compared with the same password: \<open>otp_guessed_twice\<close>.
\<close>

theorem otp_single_guess:
  assumes "get_authenticated_sessions E clk (Otp oa) st = (r, st')"
    and "\<not> is_rate_limited (clk 0) (col_get (sv_rate_limit_by_email_hash st) (oa_email_hash oa)) EMAIL_RATE_LIMITS"
    and "col_get (sv_sessions_by_email_hash st) (oa_email_hash oa) \<noteq> None"
    and "list_all (\<lambda>s. \<not> sends_challenge s) steps" and "oa_email_hash oa' = oa_email_hash oa"
    and "get_authenticated_sessions E clk' (Otp oa') (perform_all E steps st') = (Ok sessions, st'')"
  shows "col_get (sv_challenges st') (oa_email_hash oa) = None \<and> sessions = []"
proof
  show none: "col_get (sv_challenges st') (oa_email_hash oa) = None" by (rule otp_consumed [OF assms(1-3)])
  have "col_get (sv_challenges (perform_all E steps st')) (oa_email_hash oa') = None"
    unfolding assms(5) by (rule perform_all_challenges [OF assms(4) none])
  then show "sessions = []" by (rule otp_without_challenge [OF assms(6)])
qed

theorem otp_single_guess_witness:
  "col_get (sv_challenges otp_used8) hash8 = None \<and>
   fst (get_authenticated_sessions ext8 clk8 (Otp otp8) otp_used8) = Ok []"
proof -
  obtain ss st'' where again: "get_authenticated_sessions ext8 clk8 (Otp otp8) otp_used8 = (Ok ss, st'')"
    using otp_again8 by (metis prod.collapse)
  show ?thesis
    using otp_single_guess [OF otp_granted8, of "[]" otp8 clk8 ss st''] again free8
    by (simp add: challenged8_fields clk8_def [THEN fun_cong] otp8_def)
qed

subsection \<open>Signing calls\<close>

text \<open>
  C29: A successful \<open>/sign/complete\<close> used up one pending commitment of the client made for
  exactly the request's members; the public nonces cover the members one by one and include the
  commitment's own; the request's group and session ids are the recomputed ones.
\<close>

theorem sign_complete_sound:
  assumes "handle_sign_complete E clk auth data st = (Ok resp, st')" and "resp_ok resp"
  shows "\<exists>session entry item.
    col_get (sv_sessions st) (na_pubkey auth) = Some session \<and> sess_deactivated_at session = None \<and>
    ce_commit_id entry = sq_commit_id data \<and>
    mset (pending_of (na_pubkey auth) st) = add_mset entry (mset (pending_of (na_pubkey auth) st')) \<and>
    sci_members (sq_request data) = ce_members entry \<and>
    pnonces_cover (sess_group session) (ce_members entry) (sq_pnonces data) \<and>
    item \<in> set (sq_pnonces data) \<and> item_of_secret E (ce_secret entry) item \<and>
    sci_gid (sq_request data) = hex_encode E (s_compute_group_id E (sess_group session)) \<and>
    sci_sid (sq_request data) = hex_encode E (s_compute_session_id E (sess_group session) (sq_request data))"
  using assms(1)
proof (cases rule: sign_complete_cases)
  case (signed session entry st1 st2 hp bp result)
  have same: "pending_of c st1 = pending_of c st" for c
    using admittedD(3) [OF signed(1)] by (simp add: pending_of_def)
  have "ce_commit_id entry = sq_commit_id data"
    "mset (pending_of (na_pubkey auth) st1) = add_mset entry (mset (pending_of (na_pubkey auth) st2))"
    using signed(2) by (auto elim: take_commit_cases)
  moreover have "pending_of (na_pubkey auth) st' = pending_of (na_pubkey auth) st2"
    by (simp add: signed(11) touch_session_def pending_of_def)
  ultimately show ?thesis
    using signed(3-8) admittedD(1,2) [OF signed(1)]
    by (intro exI [of _ session] exI [of _ entry] exI [of _ "\<lparr>pni_idx = sn_idx (ce_secret entry),
          pni_hidden_pn = hex_encode E hp, pni_binder_pn = hex_encode E bp\<rparr>"])
      (simp add: same item_of_secret_def verify_session_pkg_def Let_def)
qed (use assms(2) in simp_all)

theorem sign_complete_sound_witness:
  "sci_gid request8 = hx (s_compute_group_id ext8 grp8) \<and> pnonces_cover grp8 [1, 2] pns8"
proof -
  obtain session and entry :: commit_entry where e: "col_get (sv_sessions (committed8 1 4)) key_a = Some session"
    "sci_members request8 = ce_members entry" "pnonces_cover (sess_group session) (ce_members entry) pns8"
    "sci_gid request8 = hx (s_compute_group_id ext8 (sess_group session))"
    using sign_complete_sound [OF do_complete8 [OF psig_pkg8(1)]]
    by (simp add: complete8_def ext8_signer del: committed8_sel) blast
  then have "session = sess8 1 4" "ce_members entry = [1, 2]"
    by (simp_all add: col_get_def request8_def)
  then show ?thesis using e(3,4) by simp
qed

text \<open>
  C30: A successful \<open>/sign/commit\<close> publishes the public nonces of the secrets it stores, under an
  id that is a valid \<open>Hex32\<close>; the published item passes the checks of \<open>PublicNonceItem\<close>.
\<close>

theorem commit_reply_wellformed:
  assumes "k256_laws E" and "hex_laws E" and "length (rnd 2) = 32"
    and "handle_sign_commit E clk rnd auth data st = (Ok resp, st')" and "resp_ok resp"
  shows "\<exists>res entry. resp_result resp = Some res \<and> hex32_valid (scr_commit_id res) \<and>
    public_nonce_item_valid (commit_item_of res) \<and>
    pending_of (na_pubkey auth) st' = pending_of (na_pubkey auth) st @ [entry] \<and>
    ce_commit_id entry = scr_commit_id res \<and> ce_members entry = scq_members data \<and>
    item_of_secret E (ce_secret entry) (commit_item_of res) \<and> scr_idx res \<in> set (scq_members data)"
proof -
  obtain res session entry where c: "resp_result resp = Some res"
    "col_get (sv_sessions st) (na_pubkey auth) = Some session"
    "pending_of (na_pubkey auth) st' = pending_of (na_pubkey auth) st @ [entry]"
    "ce_commit_id entry = scr_commit_id res" "scr_commit_id res = random_commit_id E (rnd 2)"
    "ce_members entry = scq_members data" "item_of_secret E (ce_secret entry) (commit_item_of res)"
    "scr_idx res = sh_idx (sess_share session)" "sh_idx (sess_share session) \<in> set (scq_members data)"
    by (rule commit_published [OF assms(4,5)])
  then show ?thesis
    using item_of_secret_valid [OF assms(1,2) c(7)] hex32_encode [OF assms(2,3)]
    by (auto simp: random_commit_id_def)
qed

theorem commit_reply_wellformed_witness:
  "public_nonce_item_valid (commit_item_of (commit_result8 1 4)) \<and> hex32_valid cid8"
  using commit_reply_wellformed [OF k256_laws_ext8 hex_laws_ext8 _ do_commit8 [of 1 4]]
  by (simp add: rnd8_def eval7) (simp add: commit_result8_def)

subsection \<open>Registration and key agreement\<close>

text \<open>
  C31: A registration that succeeds is sound: the key had no role, its request event has the required
  proof of work, the threshold is between 1 and the number of commitments, and the share is a
  member's: its secret, not zero, times the generator is the public key of a commitment with its
  index.  It adds the session of the key with that share and group and changes nothing else; the key
  cannot register again; and a registration that does not succeed changes nothing.
\<close>

theorem register_sound:
  fixes E :: "('s::field, 'p::ab_group_add, 'z) s_externals_scheme"
  assumes "k256_laws E" and "handle_register E clk auth data st = (r, st')"
  shows "if \<exists>resp. r = Ok resp \<and> resp_ok resp
    then \<not> check_key_reuse (na_pubkey auth) st \<and>
      opt_register_pow (sv_options st) \<le> get_pow (na_event_id auth) \<and>
      0 < unat (g_threshold (rq_group data)) \<and>
      unat (g_threshold (rq_group data)) \<le> length (g_commits (rq_group data)) \<and>
      (\<exists>sk c. decode32 E (sh_seckey (rq_share data)) = Some sk \<and> scalar_from_bytes sk \<noteq> (0 :: 's) \<and>
         c \<in> set (g_commits (rq_group data)) \<and> c_idx c = sh_idx (rq_share data) \<and>
         c_pubkey c = hex_encode E (point_encode E (point_mul E (point_gen E) (scalar_from_bytes sk)))) \<and>
      st' = st\<lparr>sv_sessions := col_set (sv_sessions st) (na_pubkey auth)
        (new_session (na_pubkey auth) (rq_share data) (rq_group data) (rq_recovery data) (clk 2) (clk 3))\<rparr> \<and>
      (\<forall>clk2 auth2 data2. na_pubkey auth2 = na_pubkey auth \<longrightarrow>
         handle_register E clk2 auth2 data2 st' = (Ok (respond False ''Do not re-use session keys.'' ()), st'))
    else st' = st"
  using assms(2)
proof (cases rule: register_cases)
  case declined
  then show ?thesis by (auto simp: declined_def)
next
  case registered
  let ?s = "new_session (na_pubkey auth) (rq_share data) (rq_group data) (rq_recovery data) (clk 2) (clk 3)"
  have st': "st' = st\<lparr>sv_sessions := col_set (sv_sessions st) (na_pubkey auth) ?s\<rparr>"
    by (simp add: registered(2) add_session_def new_session_def)
  have member: "\<exists>sk c. decode32 E (sh_seckey (rq_share data)) = Some sk \<and> scalar_from_bytes sk \<noteq> (0 :: 's) \<and>
      c \<in> set (g_commits (rq_group data)) \<and> c_idx c = sh_idx (rq_share data) \<and>
      c_pubkey c = hex_encode E (point_encode E (point_mul E (point_gen E) (scalar_from_bytes sk)))"
    using registered(7) assms(1)
    by (auto simp: s_is_group_member_def encode33_def res_simps list_ex_iff get_pubkey_eq_Ok
        point_mul_gen_zero_iff split: option.splits)
  have again: "handle_register E clk2 auth2 data2 st' = (Ok (respond False ''Do not re-use session keys.'' ()), st')"
    if "na_pubkey auth2 = na_pubkey auth" for clk2 auth2 data2
    using that by (simp add: handle_register_def check_key_reuse_def st' Let_def)
  show ?thesis using registered(1,3-6) member st' again by simp
qed

theorem register_sound_witness:
  "(\<exists>sk c. decode32 ext8 (sh_seckey (sshare8 1 4)) = Some sk \<and> c \<in> set (g_commits grp8) \<and> c_idx c = 1 \<and>
     c_pubkey c = hx (encode7 (scalar_from_bytes sk))) \<and>
   fst (handle_register ext8 clk8 (auth8 key_a) (register8 2 5) (registered8 1 4)) =
     Ok (respond False ''Do not re-use session keys.'' ())"
  using register_sound [OF k256_laws_ext8 do_register8 [OF member8(1)]]
  by (fastforce simp: register8_def sshare8_def ext8_signer ext8_base eval7)

text \<open>
  C32: A key agreement succeeds.  When every member of a threshold has an active session whose
  share, not zero, lies on the group's polynomial, and is not rate limited, each answers \<open>/ecdh\<close> for
  a peer key that is the x-coordinate of a point, not of the generator in any spelling; and the
  answers combine to the group secret times the peer's point.
\<close>

theorem key_agreement_completes:
  fixes E :: "('s::field, 'p::ab_group_add, 'z) s_externals_scheme"
  assumes "k256_laws E" and "hex_laws E"
    and "decode32 E peer = Some pk" and "lift_x E pk = Ok P" and "P \<noteq> 0" and "peer \<noteq> GENERATOR_X"
    and "P \<noteq> point_gen E" and "P \<noteq> - point_gen E"
    and "distinct (map index_to_scalar members :: 's list)"
    and "0 \<notin> set (map index_to_scalar members :: 's list)"
    and "list_all2 (holds_share E cs) parties members"
    and "parties \<noteq> []" and "length cs \<le> length parties"
  shows "\<exists>results. list_all2 (ecdh_answers E cs members peer) parties results \<and>
    derive_ecdh_secret E (map (keyshare_of E) results) =
      serialize_element E (point_mul E P (poly_val cs 0))"
  by (rule agreement_completes [OF assms(1-6,9-13)])

theorem key_agreement_completes_witness:
  "\<exists>results. list_all2 (ecdh_answers ext8 poly7 [1, 2] peer8) parties8 results \<and>
    derive_ecdh_secret ext8 (map (keyshare_of ext8) results) = Ok (encode7 GF6)"
proof -
  have peer: "decode32 ext8 peer8 = Some (num7 2)" by (simp add: peer8_def eval8)
  have members: "distinct (map index_to_scalar [1, 2 :: u32] :: gf7 list)"
    "0 \<notin> set (map index_to_scalar [1, 2 :: u32] :: gf7 list)"
    by (simp_all add: index7 gf7_ground)
  have "parties8 \<noteq> []" "length poly7 \<le> length parties8" by (simp_all add: parties8_def poly7_def)
  from key_agreement_completes [OF k256_laws_ext8 hex_laws_ext8 peer lift_peer8 _ peer8_other _ _ members holds8 this]
  show ?thesis by (simp add: gf7_ground poly7_def eval8 eval7)
qed

text \<open>The combination alone: whatever led to the answers.\<close>

theorem signers_ecdh_combine:
  fixes E :: "('s::field, 'p::ab_group_add, 'z) s_externals_scheme"
  assumes "k256_laws E" and "hex_laws E"
    and "decode32 E peer = Some pk" and "lift_x E pk = Ok P"
    and "list_all2 (ecdh_answers E cs members peer) parties results"
    and "map er_idx results = members" and "distinct (map index_to_scalar members :: 's list)"
    and "parties \<noteq> []" and "length cs \<le> length parties"
  shows "derive_ecdh_secret E (map (keyshare_of E) results) =
    serialize_element E (point_mul E P (poly_val cs 0))"
  by (rule ecdh_combine [OF assms])

theorem signers_ecdh_combine_witness:
  "derive_ecdh_secret ext8 (map (keyshare_of ext8) [ecdh_result8 1 GF2, ecdh_result8 2 GF4]) =
   Ok (encode7 GF6)"
proof -
  have peer: "decode32 ext8 peer8 = Some (num7 2)" by (simp add: peer8_def eval8)
  have idx: "map er_idx [ecdh_result8 1 GF2, ecdh_result8 2 GF4] = [1, 2]"
    "distinct (map index_to_scalar [1, 2 :: u32] :: gf7 list)"
    by (simp_all add: ecdh_result8_def index7)
  show ?thesis
    using signers_ecdh_combine [OF k256_laws_ext8 hex_laws_ext8 peer lift_peer8 answers8(2) idx]
    by (simp add: poly7_def eval8 eval7 gf7_ground)
qed

subsection \<open>Availability, storage and routing\<close>

text \<open>
  C33: On a server that \<open>main\<close> has started with a URL of at least eight bytes, and that does not log
  at the debug level, a call about challenges, recoveries, logins or sessions always gets a reply,
  whatever other calls interleave with it: none of the string slices, arithmetic or lookups on the
  way panics, and the mailer a challenge needs is there.  Argon2 is taken to accept the memory costs
  \<open>main\<close> chooses from, for salts of eight bytes or more, as documented; the URL is the salt.
\<close>

theorem session_calls_answer:
  assumes "server_start P args = Ok (opts, cipher)" and "served E opts pool st"
    and "(Serve auth c clk rnd, Return r) \<in> set pool"
    and "session_call c" and "\<not> log_debug E"
    and "argon2_laws E" and "argon2_salt (ag_url args)" and "email_fits c"
  shows "\<exists>reply. r = Ok (Some reply)"
  by (rule served_session_calls_answer [OF assms])

theorem session_calls_answer_witness:
  "\<exists>r. list_entry8 = (Serve group_auth8 CSessionList clk8 rnd8, Return r) \<and> (\<exists>reply. r = Ok (Some reply))"
proof -
  obtain st where served: "served ext8 opts8 (pool8 @ [list_entry8]) st" using served_list8 by blast
  obtain r where e: "list_entry8 = (Serve group_auth8 CSessionList clk8 rnd8, Return r)"
    by (simp add: list_entry8_def call_entry8_def)
  have "argon2_laws ext8" "argon2_salt (ag_url args8)"
    by (simp_all add: argon2_laws_def argon2_salt_def ARGON2_MAX_def ext8_signer args8_def)
  then have "\<exists>reply. r = Ok (Some reply)"
    using session_calls_answer [OF start8 served, of group_auth8 CSessionList clk8 rnd8 r] e
    by (simp add: ext8_signer)
  with e show ?thesis by blast
qed

text \<open>The same for calls one after the other, from any state they reach.\<close>

lemma session_calls_answer_in_runs:
  assumes "server_start P args = Ok (opts, cipher)" and "run E opts tr st"
    and "session_call c" and "\<not> log_debug E"
    and "argon2_laws E" and "argon2_salt (ag_url args)" and "email_fits c"
  shows "\<exists>r. fst (perform E clk rnd auth c st) = Ok r"
  using served_call_answer [OF assms] .

text \<open>
  C34: A collection over an encrypted \<open>sled\<close> tree behaves as the map the signer's model keeps: what
  is read back is what was last written, when the type's \<open>Deserialize\<close> accepts it; deleting and
  listing agree with the map, and the entries stay decodable.
\<close>

theorem sled_collection_refines:
  assumes "sled_laws S" and "aead_laws A cipher" and "codec_laws valid J"
    and "db_ok S A cipher J name d" and "utf8_valid (str_bytes key)" and "length rnd = NONCE_LEN"
  shows "collection_get (sled_backend S A cipher) J name d key = Ok (col_get (view S A cipher J name d) key) \<and>
    (valid x \<longrightarrow> (\<exists>d'. collection_set (sled_backend S A cipher) J name rnd d key x = Ok d' \<and>
       db_ok S A cipher J name d' \<and> view S A cipher J name d' = col_set (view S A cipher J name d) key x)) \<and>
    (\<exists>d'. collection_delete (sled_backend S A cipher) name d key =
         Ok (col_get (view S A cipher J name d) key \<noteq> None, d') \<and>
       db_ok S A cipher J name d' \<and> view S A cipher J name d' = col_delete (view S A cipher J name d) key) \<and>
    collection_entries (sled_backend S A cipher) J name d = Ok (col_entries (view S A cipher J name d)) \<and>
    col_sorted (view S A cipher J name d)"
proof (intro conjI)
  show "collection_get (sled_backend S A cipher) J name d key = Ok (col_get (view S A cipher J name d) key)"
    by (rule collection_get_refines [OF assms(1,4)])
  show "valid x \<longrightarrow> (\<exists>d'. collection_set (sled_backend S A cipher) J name rnd d key x = Ok d' \<and>
      db_ok S A cipher J name d' \<and> view S A cipher J name d' = col_set (view S A cipher J name d) key x)"
    by (rule impI, rule collection_set_refines [OF assms(1-3) _ assms(4-6), of x]) blast+
  show "\<exists>d'. collection_delete (sled_backend S A cipher) name d key =
        Ok (col_get (view S A cipher J name d) key \<noteq> None, d') \<and>
      db_ok S A cipher J name d' \<and> view S A cipher J name d' = col_delete (view S A cipher J name d) key"
    by (rule collection_delete_refines [OF assms(1,4), of key]) blast
  show "collection_entries (sled_backend S A cipher) J name d = Ok (col_entries (view S A cipher J name d))"
    by (rule view_entries [OF assms(1,4)]) (simp add: col_entries_def)
  show "col_sorted (view S A cipher J name d)" by (rule view_sorted [OF assms(1,4)])
qed

theorem sled_collection_refines_witness:
  "\<exists>d'. collection_set (sled_backend sled8 aead8 (Some ())) codec8 ''s'' (replicate 24 0) fmempty ''k'' [7] = Ok d' \<and>
     collection_get (sled_backend sled8 aead8 (Some ())) codec8 ''s'' d' ''k'' = Ok (Some [7])"
proof -
  have k: "utf8_valid (str_bytes ''k'')" "length (replicate 24 (0 :: byte)) = NONCE_LEN"
    by (simp_all add: str_bytes_def NONCE_LEN_def)
  note r = sled_collection_refines [OF sled_laws8 crypto_laws8 _ k]
  obtain d' where d: "collection_set (sled_backend sled8 aead8 (Some ())) codec8 ''s'' (replicate 24 0) fmempty ''k'' [7] = Ok d'"
    "db_ok sled8 aead8 (Some ()) codec8 ''s'' d'"
    "view sled8 aead8 (Some ()) codec8 ''s'' d' = col_set (view sled8 aead8 (Some ()) codec8 ''s'' fmempty) ''k'' [7]"
    using r [OF db_ok8, of "''s''" "[7]"] by auto
  show ?thesis using d(1,3) r [OF d(2)] by simp
qed

text \<open>
  C12: The server on its encrypted database: when the strings of the requests are valid UTF-8, as
  Rust's \<open>String\<close> is, then however the steps of calls and clean-ups interleave, and over restarts,
  each step is at most one write of one collection on the database, which holds the state of the
  model before and after it; so every value written is one that its \<open>Deserialize\<close> accepts again, the
  hexadecimal strings and bounded vectors of a session's share and group included.  A restart on the
  database finds the state again.
\<close>

theorem server_on_database:
  assumes "hex_laws E" and "disk_laws D" and "served_trace E opts pool st tr"
    and "\<forall>(j, p) \<in> set pool. job_strings j"
    and "\<And>t k. sl_get (dk_sled D) d t k = Some None"
  shows "\<exists>ds. hd ds = d \<and> replayed D ds tr \<and> stored D (last ds) st \<and>
    (\<forall>(j, found, left) \<in> set tr. state_values left) \<and>
    signer_reopen opts st = (signer_on D opts (last ds))\<lparr>sv_outbox := sv_outbox st\<rparr>"
proof -
  obtain ds where "hd ds = d" "replayed D ds tr" "stored D (last ds) st"
    using server_replayed [OF assms(2,3) server_values [OF assms(1,3,4)] assms(5)] by blast
  then show ?thesis by (intro exI [of _ ds] conjI stored_reopen(1) server_values [OF assms(1,3,4)])
qed

theorem server_on_database_witness:
  "\<exists>d. sv_rate_limit_by_email_hash (signer_on disk8 opts8 d) = [(hash8, bucket8 1)] \<and>
     collection_get (disk_backend disk8) (dk_buckets disk8) ''rateLimitByEmailHash'' d hash8 = Ok (Some (bucket8 1))"
proof -
  obtain ds where st: "stored disk8 (last ds) attempted8"
    "signer_reopen opts8 attempted8 = (signer_on disk8 opts8 (last ds))\<lparr>sv_outbox := sv_outbox attempted8\<rparr>"
    using server_on_database [OF hex_laws_ext8 disk_laws8 attempt_trace8 _ disk_empty8] attempt_strings8 by auto
  have "sv_rate_limit_by_email_hash (signer_on disk8 opts8 (last ds)) = [(hash8, bucket8 1)]"
    using arg_cong [OF st(2), of sv_rate_limit_by_email_hash]
    by (simp add: signer_reopen_def attempted8_def)
  moreover have "holds_collection disk8 (dk_buckets disk8) ''rateLimitByEmailHash'' (last ds) [(hash8, bucket8 1)]"
    using st(1) by (simp add: stored_def attempted8_def)
  ultimately show ?thesis
    using held_reads(1) [OF disk_laws8, of "dk_buckets disk8" "''rateLimitByEmailHash''" "last ds" "[(hash8, bucket8 1)]" hash8]
    by (auto simp: col_get_def)
qed

text \<open>
  C35: A request changes the signer's state, or gets a reply other than a refusal, only when its
  authorization header verifies for the request's URL at the current time, its path is one of the
  routes, and its body decodes as the request of that route and passes its checks.  What happens is
  then what the handler of the route does with that decoded request, for the key the header proves.
\<close>

theorem handle_authenticates:
  assumes "handle E D now clk rnd path hdr body st = (r, st')"
    and "st' \<noteq> st \<or> (\<nexists>msg. r = Ok (fail_reply msg))"
  shows "\<exists>auth c url.
    url_parse E (opt_url (sv_options st) @ path) = Some url \<and>
    verify_auth_header E hdr url now = Some (na_pubkey auth) \<and>
    parse_auth E now hdr (opt_url (sv_options st)) path = Some auth \<and>
    map_of (routes D body) path = Some (Some c) \<and> call_valid c \<and>
    perform E clk rnd auth c st = (r, st')"
  using assms(1)
proof (cases rule: handle_cases)
  case (refused msg)
  then show ?thesis using assms(2) by blast
next
  case (performed auth c)
  then have "map_of (routes D body) path = Some (Some c)"
    by (auto simp: requested_def split: option.splits if_splits)
  then show ?thesis using parse_authD [OF performed(1)] performed by blast
qed

theorem handle_authenticates_witness:
  "\<exists>auth. na_pubkey auth = key_a \<and>
     snd (perform ext8 clk8 rnd8 auth (CRegister (register8 1 4)) (signer_open opts8)) = registered8 1 4"
proof -
  have differs: "registered8 1 4 \<noteq> signer_open opts8"
  proof
    assume "registered8 1 4 = signer_open opts8"
    then have "sv_sessions (registered8 1 4) = sv_sessions (signer_open opts8)" by simp
    then show False by (simp add: signer_open_def)
  qed
  obtain auth c url where h: "verify_auth_header ext8 (''Nostr '' @ key_a) url 0 = Some (na_pubkey auth)"
    "map_of (routes decoders8 ()) ''/register'' = Some (Some c)" "perform ext8 clk8 rnd8 auth c (signer_open opts8) =
      (Ok (PlainReply (respond True ''Your key has been registered'' ())), registered8 1 4)"
    using handle_authenticates [OF handle8] differs by blast
  have "c = CRegister (register8 1 4)" using h(2) by (simp add: routes_def decoders8_def)
  moreover have "na_pubkey auth = key_a" using h(1) by (simp add: ext8_signer)
  ultimately show ?thesis using h(3) by (intro exI [of _ auth]) simp
qed



subsection \<open>Sessions, clean-up and proof of work\<close>

text \<open>
  C37: In every reachable state \<open>/session/list\<close> answers with the sessions of the groups whose
  x-only key signed the request, all of them and no others, in key order.
\<close>

theorem session_list_exact:
  assumes "run E opts tr st"
  shows "handle_session_list auth st =
    (Ok (respond True ''Successfully retrieved session list.''
       (map (session_item_of \<circ> snd)
         (filter (\<lambda>(_, s). group_key s = na_pubkey auth) (col_entries (sv_sessions st))))), st)"
  by (rule session_list_items [OF run_inv [OF assms]])

theorem session_list_exact_witness:
  "fst (handle_session_list group_auth8 setup8) =
   Ok (respond True ''Successfully retrieved session list.'' [session_item_of owner8])"
  using session_list_exact [OF run_setup8, of group_auth8]
  by (simp add: col_entries_def group_key_def group_auth8_def grp8_def)

text \<open>
  C38: In every reachable state \<open>/session/delete\<close> succeeds exactly for an existing session of the
  group whose key signed the request.  Then that session is gone; its client is taken out of the
  index entry of its email, where the other clients stay in their order, and an entry left empty is
  deleted; every other session, every other index entry, every other collection and what the process
  keeps in memory stay as they were.  In all other cases nothing changes.
\<close>

theorem session_delete_exact:
  assumes "run E opts tr st" and "handle_session_delete auth data st = (r, st')"
  shows "(case col_get (sv_sessions st) (clq_client data) of
     Some s \<Rightarrow>
       (if group_key s = na_pubkey auth
        then r = Ok (respond True ''Successfully deleted selected session.'' ()) \<and>
          (\<forall>c. col_get (sv_sessions st') c =
             (if c = clq_client data then None else col_get (sv_sessions st) c)) \<and>
          (\<forall>h. col_get (sv_sessions_by_email_hash st') h =
             (case col_get (sv_sessions_by_email_hash st) h of
                None \<Rightarrow> None
              | Some ix \<Rightarrow>
                  if sess_email_hash s \<noteq> Some h then Some ix
                  else if set (ix_clients ix) \<subseteq> {clq_client data} then None
                  else Some (ix\<lparr>ix_clients := filter (\<lambda>c. c \<noteq> clq_client data) (ix_clients ix)\<rparr>))) \<and>
          sv_recoveries st' = sv_recoveries st \<and> sv_logins st' = sv_logins st \<and>
          sv_challenges st' = sv_challenges st \<and>
          sv_rate_limit_by_email_hash st' = sv_rate_limit_by_email_hash st \<and>
          sv_rate_limit_by_client st' = sv_rate_limit_by_client st \<and>
          sv_commits_by_client st' = sv_commits_by_client st \<and> sv_outbox st' = sv_outbox st \<and>
          sv_options st' = sv_options st
        else r = Ok (respond False ''Failed to delete selected session.'' ()) \<and> st' = st)
   | None \<Rightarrow> r = Ok (respond False ''Failed to delete selected session.'' ()) \<and> st' = st)"
proof (cases "col_get (sv_sessions st) (clq_client data)")
  case None
  then show ?thesis
    using assms(2) owns_session_eq [OF signer_invD(1) [OF run_inv [OF assms(1)]]] by (simp add: handle_session_delete_def)
next
  case (Some s)
  show ?thesis
  proof (cases "group_key s = na_pubkey auth")
    case True
    then have "r = Ok (respond True ''Successfully deleted selected session.'' ())"
      "st' = delete_session (clq_client data) st"
      using assms(2) Some owns_session_eq [OF signer_invD(1) [OF run_inv [OF assms(1)]]]
      by (simp_all add: handle_session_delete_def)
    then show ?thesis
      using True Some
      by (auto simp: delete_session_sessions delete_session_index [OF Some] filter_empty_conv split: option.split)
  next
    case False
    then show ?thesis
      using assms(2) Some owns_session_eq [OF signer_invD(1) [OF run_inv [OF assms(1)]]] by (simp add: handle_session_delete_def)
  qed
qed

theorem session_delete_exact_witness:
  "col_get (sv_sessions (snd (handle_session_delete group_auth8 \<lparr>clq_client = key_a\<rparr> setup8))) key_a = None"
proof -
  obtain r st' where h: "handle_session_delete group_auth8 \<lparr>clq_client = key_a\<rparr> setup8 = (r, st')" by fastforce
  have "col_get (sv_sessions setup8) key_a = Some owner8" "group_key owner8 = na_pubkey group_auth8"
    by (simp_all add: col_get_def group_key_def group_auth8_def grp8_def)
  then show ?thesis using session_delete_exact [OF run_setup8 h] h by simp
qed

text \<open>
  C39: The hourly clean-up keeps exactly the sessions active in the last 30 days, the recoveries,
  logins and challenges of the last 15 minutes, the commitments of the last two minutes, and the
  rate-limit buckets whose last attempt is within 120 seconds, for an email, or 60 seconds, for a
  client, of the time at which the loop over the entries reaches them.  It leaves the email index,
  the options and the mails handed out alone.
\<close>

theorem cleanup_exact:
  assumes "run E opts tr st"
  shows "col_get (sv_sessions (cleanup clk st)) k =
      kept sess_last_activity (saturating_sub (clk 1) (30 * 24 * 3600)) (col_get (sv_sessions st) k) \<and>
    col_get (sv_recoveries (cleanup clk st)) k =
      kept srec_created_at (saturating_sub (clk 0) (15 * 60)) (col_get (sv_recoveries st) k) \<and>
    col_get (sv_logins (cleanup clk st)) k =
      kept slog_created_at (saturating_sub (clk 0) (15 * 60)) (col_get (sv_logins st) k) \<and>
    col_get (sv_challenges (cleanup clk st)) k =
      kept ch_created_at (saturating_sub (clk 0) (15 * 60)) (col_get (sv_challenges st) k) \<and>
    pending_of k (cleanup clk st) =
      filter (\<lambda>e. commit_cutoff clk st \<le> ce_created_at e) (pending_of k st) \<and>
    buckets_kept (\<lambda>i. clk (2 + i)) 120
      (sv_rate_limit_by_email_hash st) (sv_rate_limit_by_email_hash (cleanup clk st)) \<and>
    buckets_kept (\<lambda>i. clk (2 + length (sv_rate_limit_by_email_hash st) + i)) 60
      (sv_rate_limit_by_client st) (sv_rate_limit_by_client (cleanup clk st)) \<and>
    sv_sessions_by_email_hash (cleanup clk st) = sv_sessions_by_email_hash st \<and>
    sv_options (cleanup clk st) = sv_options st \<and> sv_outbox (cleanup clk st) = sv_outbox st"
  using cleanup_buckets [OF run_inv [OF assms], of clk] cleanup_kept(1-4) [OF run_inv [OF assms], of clk k] cleanup_kept(5) [OF run_inv [OF assms]]
    cleanup_pending [of k clk st]
  by (simp add: MINUTE_SECS_def MONTH_SECS_def)

theorem cleanup_exact_witness:
  "col_get (sv_recoveries (cleanup (\<lambda>_. 1000901) recovering8)) key_b = None \<and>
   col_get (sv_recoveries (cleanup (\<lambda>_. 1000900) recovering8)) key_b \<noteq> None"
  using cleanup_exact [OF run_recovering8, of "\<lambda>_. 1000901" key_b]
    cleanup_exact [OF run_recovering8, of "\<lambda>_. 1000900" key_b]
  by (simp add: recovering8_def col_get_def kept_def saturating_sub_def)

text \<open>
  C40: The proof of work of an event id is the number of its leading zero bits: it is at least \<open>k\<close>
  exactly when the id, read as a 256-bit number, is below \<open>2 ^ (256 - k)\<close>.
\<close>

theorem get_pow_correct:
  assumes "length ident = 32" and "k \<le> 256"
  shows "k \<le> unat (get_pow ident) \<longleftrightarrow> be_nat ident < 2 ^ (256 - k)"
proof -
  have "be_nat ident < 2 ^ 256" using be_nat_bound [of ident] assms(1) by simp
  then show ?thesis using leading_zeros_ge_iff [OF assms(2)] by (simp add: unat_get_pow [OF assms(1)])
qed

theorem get_pow_correct_witness: "20 \<le> unat (get_pow (num7 5)) \<and> \<not> 256 \<le> unat (get_pow (num7 5))"
  using get_pow_correct [of "num7 5" 20] get_pow_correct [of "num7 5" 256] by (simp add: be_nat_num7)

end
