(* ===== verification/Signer_Findings.thy ===== *)
theory Signer_Findings
  imports Signer_History
begin

text \<open>
  Behaviours of the signer that its comments, its messages or its protocol document do not
  announce, each as a lemma over the model.
\<close>

subsection \<open>Registration and requests\<close>

text \<open>The duplicate check compares neighbours only: members 1, 2, 1 pass it.\<close>

definition dup_grp8 :: sgroup where
  "dup_grp8 = \<lparr>g_commits = [commit8 1 GF4, commit8 2 GF5, commit8 1 GF4],
     g_group_pk = hx (encode7 GF3), g_threshold = 2\<rparr>"

lemma duplicate_indices_registered:
  "\<not> distinct (map c_idx (g_commits dup_grp8)) \<and>
   register_request_valid \<lparr>rq_share = sshare8 1 4, rq_group = dup_grp8, rq_recovery = True\<rparr> \<and>
   fst (handle_register ext8 clk8 (auth8 key_a)
     \<lparr>rq_share = sshare8 1 4, rq_group = dup_grp8, rq_recovery = True\<rparr> (signer_open opts8)) =
     Ok (respond True ''Your key has been registered'' ())"
proof (intro conjI)
  have "s_is_group_member ext8 dup_grp8 (sshare8 1 4) = Ok True"
    by (simp add: s_is_group_member_def dup_grp8_def commit8_def eval8 eval7)
  then show "fst (handle_register ext8 clk8 (auth8 key_a)
      \<lparr>rq_share = sshare8 1 4, rq_group = dup_grp8, rq_recovery = True\<rparr> (signer_open opts8)) =
      Ok (respond True ''Your key has been registered'' ())"
    using pow8
    by (simp add: handle_register_def Let_def check_key_reuse_def signer_open_def opts8_def
        dup_grp8_def commit8_def not_le [symmetric])
  show "register_request_valid \<lparr>rq_share = sshare8 1 4, rq_group = dup_grp8, rq_recovery = True\<rparr>"
    by (simp add: register_request_valid_def sgroup_valid_def dup_grp8_def bounded_vec_valid_iff
        commit_item_valid_def commit8_def sshare_valid_def MAX_COMMITS_def eval7)
qed (simp add: dup_grp8_def commit8_def)

text \<open>A share whose secret is zero makes registration panic instead of being refused.\<close>

lemma zero_share_panics:
  fixes E :: "('s::field, 'p::ab_group_add, 'z) s_externals_scheme"
  assumes "k256_laws E" and "decode32 E (sh_seckey share) = Some sk" and "scalar_from_bytes sk = (0 :: 's)"
  shows "s_is_group_member E grp share = Panic"
  using get_pubkey_zero [OF assms(1,3)] by (simp add: s_is_group_member_def assms(2))

text \<open>The generator check compares strings: the same key in upper case passes it.\<close>

definition upper_generator :: string where
  "upper_generator = ''79BE667EF9DCBBAC55A06295CE870B07029BFCDB2DCE28D959F2815B16F81798''"

lemma generator_upper_case:
  "hex32_valid upper_generator \<and> upper_generator \<noteq> GENERATOR_X \<and> unhx upper_generator = unhx GENERATOR_X"
  by (simp add: upper_generator_def GENERATOR_X_def hex32_valid_iff is_ascii_hexdigit_def
      digit_value_def Let_def)

text \<open>The session id runs the member indices together: members 1, 2 and member 258 give one id.\<close>

lemma session_id_ambiguous:
  "s_compute_session_id E grp (request\<lparr>sci_members := [1, 2]\<rparr>) =
   s_compute_session_id E grp (request\<lparr>sci_members := [258]\<rparr>)"
proof -
  have "be_bytes 2 258 = [1, 2]"
    using be_bytes_add [of "Suc 0" "Suc 0" 258] by (simp flip: numeral_2_eq_2)
  then have "num_to_bytes_be_varwidth 258 = [1, 2]" by (simp add: num_to_bytes_be_varwidth_def)
  moreover have "num_to_bytes_be_varwidth 1 = [1]" "num_to_bytes_be_varwidth 2 = [2]"
    by (simp_all add: num_to_bytes_be_varwidth_def)
  ultimately show ?thesis by (simp add: s_compute_session_id_def Let_def)
qed

subsection \<open>Sessions\<close>

text \<open>
  Clean-up drops a session and keeps its entry in the email index.  If its key registers again,
  the old email's one-time password reaches the new session, whatever its recovery setting.
\<close>

lemma stale_index_reaches_session:
  assumes "\<not> is_rate_limited (clk 0) (col_get (sv_rate_limit_by_email_hash st) h) EMAIL_RATE_LIMITS"
    and "col_get (sv_sessions_by_email_hash st) h = Some ix" and "k \<in> set (ix_clients ix)"
    and "col_get (sv_sessions st) k = Some s" and "sess_email_hash s = None"
    and "col_get (sv_challenges st) h = Some ch"
  shows "\<exists>ss st'. get_authenticated_sessions E clk (Otp \<lparr>oa_email_hash = h, oa_otp = ch_otp ch\<rparr>) st = (Ok ss, st') \<and>
    s \<in> set ss"
proof -
  let ?ss = "List.map_filter (col_get (sv_sessions st)) (ix_clients ix)"
  have "s \<in> set ?ss" using assms(3,4) by (auto simp: in_map_filter)
  then show ?thesis
    using assms(1,2,6) by (simp add: get_authenticated_sessions_def ct_str_eq_iff Let_def)
qed

text \<open>
  \<open>/sign/complete\<close> and \<open>/ecdh\<close> write back the session they read at their start: a deactivation that
  another call makes in between is lost.
\<close>

lemma deactivation_lost:
  assumes "col_get (sv_sessions st) k = Some s" and "sess_deactivated_at s = None"
  shows "deactivated k (deactivate_session t1 k st) \<and>
    \<not> deactivated k (touch_session t2 k s (deactivate_session t1 k st))"
  using assms by (simp add: deactivated_def deactivate_session_def touch_session_def)

text \<open>A recovery method can be set on a deactivated session.\<close>

lemma setup_ignores_deactivation:
  "fst (handle_recovery_setup ext8 clk8 (auth8 key_a) \<lparr>rsq_email = mail8, rsq_password_hash = pw8\<rparr> stopped8) =
   Ok (respond True ''Recovery method successfully initialized.'' ())"
proof -
  have "regex_is_hex64 pw8" by (simp add: regex_is_hex64_def pw8_def list_all_iff)
  then show ?thesis
    by (simp add: handle_recovery_setup_def stopped8_def deactivate_session_def col_get_def
        hash_email_def ext8_signer clk8_def saturating_sub_def MINUTE_SECS_def Let_def)
qed

subsection \<open>Time\<close>

text \<open>The reset time counts from the first attempt, the limit from the last: it can be over while
  the bucket still refuses.\<close>

lemma reset_time_too_early:
  "let b = \<lparr>b_attempts = 5, b_first_attempt = 0, b_last_attempt = 100\<rparr>
   in get_rate_limit_reset_time 130 130 (Some b) EMAIL_RATE_LIMITS = 0 \<and>
      is_rate_limited 130 (Some b) EMAIL_RATE_LIMITS"
  by (simp add: get_rate_limit_reset_time_def is_rate_limited_def EMAIL_RATE_LIMITS_def
      saturating_sub_def Let_def)

text \<open>The age of a one-time password is not looked at when it is used: it works until the clean-up
  has removed it.\<close>

lemma otp_age_ignored:
  "get_authenticated_sessions E clk (Otp oa) st = (Ok ss, st') \<Longrightarrow>
   col_get (sv_challenges st) (oa_email_hash oa) = Some ch \<Longrightarrow>
   fst (get_authenticated_sessions E clk (Otp oa)
     (st\<lparr>sv_challenges := col_set (sv_challenges st) (oa_email_hash oa) (ch\<lparr>ch_created_at := t\<rparr>)\<rparr>)) = Ok ss"
  by (auto simp: get_authenticated_sessions_def Let_def split: if_splits option.splits)

end
