(* ===== verification/Spec2Isabelle.thy ===== *)
theory Spec2Isabelle
  imports Frost_Properties Signer_Properties Signer_Findings
begin

text \<open>
  Verification of pomade: the threshold-signature crate \<open>frost-taproot\<close> and the signing service
  \<open>pomade-signer\<close> built on it.

  \<^bold>\<open>The program.\<close>  Several independent signers hold Shamir shares of a user's secp256k1 key.  A
  client registers its share with each signer, later asks a threshold of them to commit to nonces
  and to sign a sighash, and combines the partial signatures to one BIP-340 signature; or it asks
  for partial ECDH results.  A user who lost the device recovers the shares by password or by a
  one-time password sent by mail.

  \<open>src/frost-taproot-rust/src\<close> is a pure library: curve and hash wrappers (\<open>ecc\<close>), polynomials,
  Shamir shares with Feldman commitments, refresh and repair of shares, nonce commitments, the
  signing context, partial signatures, and the package-level API of \<open>frost/\<close> (dealer, distributed
  key generation, nonces, sessions, ECDH).  \<open>src/pomade-signer-rust/src\<close> is the service:
  \<open>Signer::handle\<close> authenticates a request (\<open>nostr.rs\<close>), checks its body (\<open>schema.rs\<close>) and runs
  one of thirteen handlers over eight collections kept in \<open>storage.rs\<close> and a map of pending
  commitments; \<open>session.rs\<close> translates the hexadecimal wire types and calls \<open>frost-taproot\<close>;
  \<open>ratelimit.rs\<close> and \<open>pow.rs\<close> guard the handlers; an hourly \<open>cleanup\<close> prunes the state;
  \<open>mailer/\<close> sends the one-time passwords, and \<open>main.rs\<close> configures and starts all this.

  \<^bold>\<open>The theories of the crate.\<close>
  \<^item> \<open>Prelude\<close>: machine words and byte strings, the outcome type \<open>res\<close> (a value, an \<open>Err\<close>, a
    panic), its bind and map, and the rule collection \<open>res_simps\<close>.
  \<^item> \<open>Externals\<close>: the third-party code as a record of parameters with its documented laws.
  \<^item> \<open>Ecc\<close>, \<open>Hash\<close>: \<open>ecc/util.rs\<close>, \<open>ecc/group.rs\<close>, \<open>ecc/hash.rs\<close>, \<open>util/\<close>, \<open>helpers.rs\<close>.
  \<^item> \<open>Poly\<close>, \<open>Shares\<close>, \<open>Refresh_Recover\<close>: \<open>poly.rs\<close>, \<open>vss.rs\<close>, \<open>shares.rs\<close>, \<open>group.rs\<close>,
    \<open>refresh.rs\<close>, \<open>recover.rs\<close>; the interpolation contract is a locale.
  \<^item> \<open>Commit\<close>, \<open>Context\<close>, \<open>Sign\<close>: \<open>commit.rs\<close>, \<open>context.rs\<close>, \<open>ecc/state.rs\<close>, \<open>sign.rs\<close>.
  \<^item> \<open>Frost_Types\<close>, \<open>Dealer\<close>, \<open>Signing\<close>, \<open>Ecdh\<close>, \<open>Dkg\<close>: the modules of \<open>frost/\<close>.
  \<^item> \<open>Dkg_Complete\<close>: when a key generation of honest participants comes to its end.
  \<^item> \<open>Frost_Compose\<close>: these modules together: honest members of a group make their packages and
    these combine, and a group that comes out of a key generation signs.
  \<^item> \<open>Gf7\<close>, \<open>Example7\<close>, \<open>Compose_Example\<close>: an instance of the parameters over the integers modulo 7
    and two small groups, dealt and generated, for the witnesses; \<open>Frost_Properties\<close>: the properties
    C1 to C11, C13 to C16 and C19.

  \<^bold>\<open>The theories of the signer.\<close>
  \<^item> \<open>Schema\<close>: \<open>schema.rs\<close>, the wire types as records and the checks of the deserializers.
  \<^item> \<open>Pow\<close>, \<open>Ratelimit\<close>: \<open>pow.rs\<close> and \<open>ratelimit.rs\<close>; the locale \<open>rate_policy\<close> states what a limit
    needs and is interpreted on the two policies of \<open>signer.rs\<close>.
  \<^item> \<open>Storage\<close>: \<open>storage.rs\<close>, in two layers: the collection the handlers see, an interpretation of
    the locale \<open>kv_store\<close>, and the code's \<open>Collection\<close> over an encrypted \<open>sled\<close> tree;
    \<open>Storage_Refine\<close> proves that the second implements the first.
  \<^item> \<open>Signer_Externals\<close>, \<open>Session\<close>, \<open>Nostr\<close>: the signer's parameters, \<open>session.rs\<close>, \<open>nostr.rs\<close>;
    \<open>Session_Correct\<close>: the packages of honest signers combine to a valid signature.
  \<^item> \<open>Mailer\<close>: \<open>mailer.rs\<close> and \<open>mailer/\<close>, the requests of the six providers and their outcomes.
  \<^item> \<open>Signer_State\<close>, \<open>Signer_Handlers\<close>, \<open>Signer_Route\<close>: \<open>signer.rs\<close>, its state, clean-up and
    helpers, its handlers, and \<open>handle\<close> with the \<open>route!\<close> macro.
  \<^item> \<open>Signer_Lemmas\<close>, \<open>Signer_Cases\<close>: case rules, one for each helper and handler, which give every
    outcome with the guards that lead to it and the state it leaves.
  \<^item> \<open>Signer_Steps\<close>, \<open>Signer_Invariants\<close>: calls as data, the relation \<open>run\<close> of the histories of a
    signer opened on an empty database, clean-ups and restarts included, and the state invariant
    \<open>signer_inv\<close>.
  \<^item> \<open>Signer_Trace\<close>, \<open>Signer_Rates\<close>, \<open>Signer_Facts\<close>: what holds along runs (commitments, hand-outs,
    rate windows, with \<open>timed_run\<close> for a clock that does not go backwards) and of single calls;
    \<open>Signer_Flows\<close>: the flows of recovery and login, from the start call to the select call.
  \<^item> \<open>Process\<close>: a small theory of programs made of atomic steps, the interleavings \<open>concurrent\<close> of a
    pool of them, and two contracts for their invariants, tokens and stored data, in one locale;
    \<open>Process_Trace\<close>: executions with the list of their steps, and a contract for what a call has
    seen before it goes on.
  \<^item> \<open>Signer_Processes\<close>: the handlers, helpers and the clean-up of \<open>signer.rs\<close> as such programs, one
    step for every access of a collection and every section under the lock of the commitments; run
    without interruption each is the function of \<open>Signer_Handlers\<close>.
  \<^item> \<open>Signer_Concurrent\<close>, \<open>Signer_Integrity\<close>: the relation \<open>served\<close> of the pools of calls and
    clean-ups the server can reach, and what holds however they interleave; \<open>Signer_Authentic\<close>: that
    shares and logins were earned, over traces; \<open>Signer_Races\<close>: schedules that show what does not
    hold.
  \<^item> \<open>Signer_Database\<close>: the signer on the encrypted database: a step is at most one write of one
    collection, and the database holds the state of the model after every step; \<open>Signer_Strings\<close>: the
    keys it writes are valid UTF-8, as the strings of the requests are, and the values are ones their
    \<open>Deserialize\<close> accepts.
  \<^item> \<open>Server\<close>: \<open>main.rs\<close>, the options it builds from the environment and its request handler.
  \<^item> \<open>Signer_Compose\<close>, \<open>Signer_Rounds\<close>: several signers together, what their answers combine to and
    that an honest signing round and an honest key agreement are answered to the end.
  \<^item> \<open>Storage_Example\<close>, \<open>Codec_Example\<close>, \<open>Signer_Example\<close>, \<open>Signer_History\<close>, \<open>Database_Example\<close>: an
    instance of the signer's parameters, serializers included, and a short history, for the
    witnesses; \<open>Signer_Properties\<close>: the properties C12, C17, C18 and C20 to C40;
    \<open>Signer_Findings\<close>: behaviours that the program's own texts do not announce.

  \<^bold>\<open>State and operations.\<close>  The record \<open>signer\<close> has one field for each collection of \<open>Signer\<close>; a
  collection is the list of its entries in key order.  A handler takes the state and returns its
  outcome with the state it leaves, also when it panics.  Every reading of the clock is \<open>clk n\<close>, \<open>n\<close>
  numbering the program points of the call; every random draw is an argument.  A process of
  \<open>Signer_Processes\<close> returns an outcome or offers its next atomic step; \<open>served\<close> lets any call of
  the pool take its next step.  The mails handed to the mailer are an outbox; \<open>Mailer\<close> says what
  becomes of one, which no handler waits for.  A \<open>String\<close> is the list of its UTF-8 bytes.

  \<^bold>\<open>Assumptions.\<close>  The curve of \<open>k256\<close> is a vector space over its scalar field with SEC1 encodings
  (\<open>k256_laws\<close>), its Schnorr verifier accepts what BIP-340 accepts (\<open>schnorr_laws\<close>), digests have
  their lengths (\<open>digest_laws\<close>), the \<open>hex\<close> crate encodes and decodes (\<open>hex_laws\<close>), \<open>sled\<close> is a
  family of ordered maps (\<open>sled_laws\<close>) without I/O errors, the cipher decrypts what it encrypted
  (\<open>aead_laws\<close>), \<open>serde_json\<close> reads back the values that the \<open>Deserialize\<close> of their type accepts
  (\<open>codec_laws\<close>; that only such values are written is part of C12), and Argon2 accepts salts and
  passwords within its documented limits (\<open>argon2_laws\<close>).  A property names those it needs.  No loop
  of either crate needs fuel: all recursions are structural or have a measure, and by
  \<open>no_endless_steps\<close> and \<open>call_within_listed\<close> the steps of the interleaved calls come to an end.

  \<^bold>\<open>Not modelled.\<close>  Of \<open>main.rs\<close> the argument parser and the HTTP framework; the hourly timer and
  the shutdown signals decide only when a clean-up or a restart happens, which is left open.  A
  restart is graceful: it waits for the calls under way and finds every write of the process before
  it; what \<open>sled\<close> keeps of the last writes when a process is killed is not stated in its interface.
  \<open>Collection::entries\<close> is taken to read the whole collection at one moment.  The field decoding
  that \<open>serde\<close> derives is a parameter of the routing.  The functions \<open>session.rs\<close> compiles for its
  tests only are left out.  The rate windows, the complete email index, the one role of a
  key, the permanence of a deactivation, the single use of a one-time password and the exact
  behaviour of single calls are stated for calls that do not overlap (\<open>run\<close>), as interleaved calls
  can break the first five: \<open>Signer_Races\<close> has schedules that do, and \<open>deactivation_lost\<close> in
  \<open>Signer_Findings\<close> shows the writes that undo a deactivation.  What
  becomes of a mail after it is handed to the mailer is stated of the send itself; a send that fails
  or times out is only logged.  The Go ports
  and the TypeScript packages are other programs.
\<close>

end
